(* ===== verification/Prelude.thy ===== *)
theory Prelude
  imports Main "HOL-Library.Word" "HOL-Library.List_Lexorder" "HOL-Library.Char_ord"
    "HOL-Library.Finite_Map" "HOL-Library.Multiset" "HOL-Library.Product_Lexorder"
begin

text \<open>
  Shared vocabulary of the development: the machine integers of Go and of the eBPF program,
  the error values and the result type of Go's \<open>(value, error)\<close> returns, the loop that
  stops at the first error, and Go's \<open>sort.Slice\<close>, with the lemma collections every
  component uses.

  An error keeps the format string and the arguments of the \<open>fmt.Errorf\<close> call that
  makes it (\<open>Errf\<close>, or \<open>Wrap\<close> when the format ends in \<open>%w\<close>), the text of an
  \<open>errors.New\<close> (\<open>Err\<close>), or the report of a call outside the repository
  (\<open>Lib\<close>). \<open>Panic\<close> is a Go run-time panic: it is no value of the program, so
  that every function that could panic is shown never to return it on the inputs it gets.
\<close>

section \<open>Types\<close>

type_synonym u8 = "8 word"
type_synonym u16 = "16 word"
type_synonym u32 = "32 word"
type_synonym u64 = "64 word"

text \<open>A \<open>[16]byte\<close> array, read as one number with the first byte most significant.\<close>

type_synonym bytes16 = "128 word"

datatype error =
    Err string
  | Errf string "string list"
  | Wrap string "string list" error
  | Lib string
  | Panic string

type_synonym 'a res = "error + 'a"

section \<open>Lemma collections\<close>

named_theorems go_simps \<open>equations that evaluate or normalise Go library calls\<close>
named_theorems res_simps \<open>when a result-valued computation returns a value\<close>

section \<open>Results\<close>

definition bindR :: "'a res \<Rightarrow> ('a \<Rightarrow> 'b res) \<Rightarrow> 'b res" where
  "bindR m f = (case m of Inl e \<Rightarrow> Inl e | Inr x \<Rightarrow> f x)"

definition wrapR :: "string \<Rightarrow> string list \<Rightarrow> 'a res \<Rightarrow> 'a res" where
  "wrapR fmt args m = (case m of Inl e \<Rightarrow> Inl (Wrap fmt args e) | Inr x \<Rightarrow> Inr x)"

definition guardR :: "bool \<Rightarrow> error \<Rightarrow> unit res" where
  "guardR b e = (if b then Inl e else Inr ())"

lemma bindR_simps [simp]: "bindR (Inl e) f = Inl e" "bindR (Inr x) f = f x"
  by (simp_all add: bindR_def)

lemma wrapR_simps [simp]: "wrapR fmt args (Inl e) = Inl (Wrap fmt args e)" "wrapR fmt args (Inr x) = Inr x"
  by (simp_all add: wrapR_def)

lemma bindR_Inr [res_simps]: "bindR m f = Inr y \<longleftrightarrow> (\<exists>x. m = Inr x \<and> f x = Inr y)"
  by (cases m) simp_all

lemma bindR_Inl [res_simps]: "bindR m f = Inl e \<longleftrightarrow> m = Inl e \<or> (\<exists>x. m = Inr x \<and> f x = Inl e)"
  by (cases m) simp_all

lemma wrapR_Inr [res_simps]: "wrapR fmt args m = Inr x \<longleftrightarrow> m = Inr x"
  by (cases m) simp_all

lemma wrapR_Inl [res_simps]: "wrapR fmt args m = Inl e \<longleftrightarrow> (\<exists>e'. m = Inl e' \<and> e = Wrap fmt args e')"
  by (cases m) auto

lemma guardR_Inr [res_simps]: "guardR b e = Inr u \<longleftrightarrow> \<not> b"
  by (simp add: guardR_def)

lemma guardR_Inl [res_simps]: "guardR b e = Inl e' \<longleftrightarrow> b \<and> e' = e"
  by (auto simp add: guardR_def)

lemma guardR_False [simp]: "guardR False e = Inr ()"
  by (simp add: guardR_def)

lemma guardR_True [simp]: "guardR True e = Inl e"
  by (simp add: guardR_def)

text \<open>
  The loop \<open>for _, v := range values { x, err := f(v); if err != nil { return nil, err };
  out = append(out, x) }\<close>.
\<close>

fun mapR :: "('a \<Rightarrow> 'b res) \<Rightarrow> 'a list \<Rightarrow> 'b list res" where
  "mapR f [] = Inr []"
| "mapR f (x # xs) = bindR (f x) (\<lambda>y. bindR (mapR f xs) (\<lambda>ys. Inr (y # ys)))"

lemma mapR_Inr [res_simps]: "mapR f xs = Inr ys \<longleftrightarrow> list_all2 (\<lambda>x y. f x = Inr y) xs ys"
  by (induction xs arbitrary: ys) (auto simp: res_simps list_all2_Cons1)

lemma mapR_Inl: "mapR f xs = Inl e \<Longrightarrow> \<exists>x \<in> set xs. f x = Inl e"
  by (induction xs) (auto simp: res_simps)

lemma mapR_error: "x \<in> set xs \<Longrightarrow> f x = Inl e \<Longrightarrow> \<exists>e'. mapR f xs = Inl e'"
  by (induction xs) (auto simp: bindR_def split: sum.splits)

lemma mapR_roundtrip: "(\<And>x. x \<in> set xs \<Longrightarrow> f (g x) = Inr x) \<Longrightarrow> mapR f (map g xs) = Inr xs"
  by (simp add: res_simps list_all2_conv_all_nth)

lemma mapR_pred:
  assumes "mapR f xs = Inr ys" and "\<And>x y. f x = Inr y \<Longrightarrow> P y"
  shows "\<forall>y \<in> set ys. P y"
  using assms by (fastforce simp: mapR_Inr list_all2_conv_all_nth in_set_conv_nth)

lemma mapR_append:
  "mapR f (xs @ ys) = bindR (mapR f xs) (\<lambda>us. bindR (mapR f ys) (\<lambda>vs. Inr (us @ vs)))"
  by (induction xs) (auto simp: bindR_def split: sum.splits)

section \<open>\<open>sort.Slice\<close>\<close>

text \<open>
  \<open>sort.Slice(values, less)\<close>. Go's sort is not stable and this one is: the two agree
  wherever distinct elements of the slice are ordered by the comparison, which every use below
  shows or states.
\<close>

fun insort_by :: "('a \<Rightarrow> 'a \<Rightarrow> bool) \<Rightarrow> 'a \<Rightarrow> 'a list \<Rightarrow> 'a list" where
  "insort_by lt x [] = [x]"
| "insort_by lt x (y # ys) = (if lt y x then y # insort_by lt x ys else x # y # ys)"

definition sort_slice :: "('a \<Rightarrow> 'a \<Rightarrow> bool) \<Rightarrow> 'a list \<Rightarrow> 'a list" where
  "sort_slice lt xs = foldr (insort_by lt) xs []"

lemma set_insort_by [simp]: "set (insort_by lt x xs) = insert x (set xs)"
  by (induction xs) auto

lemma length_insort_by [simp]: "length (insort_by lt x xs) = Suc (length xs)"
  by (induction xs) auto

lemma sort_slice_Nil [simp]: "sort_slice lt [] = []"
  by (simp add: sort_slice_def)

lemma sort_slice_Cons: "sort_slice lt (x # xs) = insort_by lt x (sort_slice lt xs)"
  by (simp add: sort_slice_def)

lemma set_sort_slice [simp]: "set (sort_slice lt xs) = set xs"
  by (induction xs) (auto simp: sort_slice_Cons)

lemma length_sort_slice [simp]: "length (sort_slice lt xs) = length xs"
  by (induction xs) (auto simp: sort_slice_Cons)

lemma sort_slice_eq_Nil [simp]: "sort_slice lt xs = [] \<longleftrightarrow> xs = []"
  by (cases xs) (auto dest: arg_cong [where f = length] simp: sort_slice_Cons)

lemma mset_insort_by [simp]: "mset (insort_by lt x xs) = add_mset x (mset xs)"
  by (induction xs) auto

lemma mset_sort_slice [simp]: "mset (sort_slice lt xs) = mset xs"
  by (induction xs) (auto simp: sort_slice_Cons)

lemma distinct_insort_by: "distinct (insort_by lt x xs) \<longleftrightarrow> distinct xs \<and> x \<notin> set xs"
  by (induction xs) auto

lemma distinct_sort_slice [simp]: "distinct (sort_slice lt xs) \<longleftrightarrow> distinct xs"
  by (induction xs) (auto simp: sort_slice_Cons distinct_insort_by)

lemma insort_by_less: "insort_by (<) x xs = insort x (xs :: 'a :: linorder list)"
  by (induction xs) (auto simp: not_less)

lemma sort_slice_less: "sort_slice (<) xs = sort (xs :: 'a :: linorder list)"
  by (induction xs) (auto simp: sort_slice_Cons insort_by_less)

text \<open>Sorting by a key.\<close>

lemma insort_by_key: "insort_by (\<lambda>a b. f a < (f b :: 'k :: linorder)) x xs = insort_key f x xs"
  by (induction xs) (auto simp: not_less)

lemma sort_slice_key: "sort_slice (\<lambda>a b. f a < (f b :: 'k :: linorder)) xs = sort_key f xs"
  by (induction xs) (auto simp: sort_slice_Cons insort_by_key)

section \<open>Lists without repetitions\<close>

lemma sorted_distinct_eqI:
  "sorted xs \<Longrightarrow> distinct xs \<Longrightarrow> sorted ys \<Longrightarrow> distinct ys \<Longrightarrow> set xs = set ys \<Longrightarrow> xs = (ys :: 'a :: linorder list)"
  by (rule sorted_distinct_set_unique)

lemma find_Some_in: "find P xs = Some x \<Longrightarrow> x \<in> set xs \<and> P x"
  by (induction xs) (auto split: if_splits)

end
