(* ===== verification/GoText.thy ===== *)
theory GoText
  imports Prelude
begin

text \<open>
  The text functions of Go's standard library that the program calls, over byte strings:
  \<open>strings.Cut\<close>, \<open>Split\<close>, \<open>HasPrefix\<close>, \<open>TrimPrefix\<close>, \<open>TrimSpace\<close> and
  \<open>ToLower\<close>, \<open>strconv.ParseUint\<close> with its base prefixes, underscores and range check,
  and the \<open>%d\<close> and \<open>%x\<close> verbs. \<open>ToLower\<close> and \<open>TrimSpace\<close> act on the ASCII
  letters and white space; Go also maps other Unicode letters and spaces, none of which can
  turn into the ASCII words the program compares the result with.

  The theorems are the round trips: a number printed in base 10, or in base 16 behind
  \<open>0x\<close>, is read back by \<open>ParseUint\<close> as the same number.
\<close>

section \<open>Bytes and strings\<close>

abbreviation ccode :: "char \<Rightarrow> nat" where
  "ccode c \<equiv> of_char c"

definition is_dec :: "char \<Rightarrow> bool" where
  "is_dec c \<longleftrightarrow> 48 \<le> ccode c \<and> ccode c \<le> 57"

text \<open>Go's \<open>lower(c) = c | 0x20\<close>, on the letters it is applied to.\<close>

definition lower_char :: "char \<Rightarrow> char" where
  "lower_char c = (if 65 \<le> ccode c \<and> ccode c \<le> 90 then char_of (ccode c + 32) else c)"

definition strings_ToLower :: "string \<Rightarrow> string" where
  "strings_ToLower s = map lower_char s"

text \<open>\<open>strings.Cut(s, sep)\<close> for a separator of one byte.\<close>

fun strings_Cut :: "string \<Rightarrow> char \<Rightarrow> (string \<times> string) option" where
  "strings_Cut [] sep = None"
| "strings_Cut (c # cs) sep =
     (if c = sep then Some ([], cs)
      else map_option (\<lambda>(a, b). (c # a, b)) (strings_Cut cs sep))"

fun strings_Split :: "string \<Rightarrow> char \<Rightarrow> string list" where
  "strings_Split [] sep = [[]]"
| "strings_Split (c # cs) sep =
     (if c = sep then [] # strings_Split cs sep
      else (case strings_Split cs sep of [] \<Rightarrow> [[c]] | w # ws \<Rightarrow> (c # w) # ws))"

fun strings_HasPrefix :: "string \<Rightarrow> string \<Rightarrow> bool" where
  "strings_HasPrefix s [] = True"
| "strings_HasPrefix [] (p # ps) = False"
| "strings_HasPrefix (c # cs) (p # ps) = (c = p \<and> strings_HasPrefix cs ps)"

definition strings_TrimPrefix :: "string \<Rightarrow> string \<Rightarrow> string" where
  "strings_TrimPrefix s p = (if strings_HasPrefix s p then drop (length p) s else s)"

definition is_space :: "char \<Rightarrow> bool" where
  "is_space c \<longleftrightarrow> ccode c \<in> {9, 10, 11, 12, 13, 32}"

definition strings_TrimSpace :: "string \<Rightarrow> string" where
  "strings_TrimSpace s = rev (dropWhile is_space (rev (dropWhile is_space s)))"

fun fields_from :: "string \<Rightarrow> string \<Rightarrow> string list" where
  "fields_from w [] = (if w = [] then [] else [rev w])"
| "fields_from w (c # cs) =
     (if is_space c then (if w = [] then [] else [rev w]) @ fields_from [] cs
      else fields_from (c # w) cs)"

definition strings_Fields :: "string \<Rightarrow> string list" where
  "strings_Fields s = fields_from [] s"

lemma strings_Cut_notin: "sep \<notin> set a \<Longrightarrow> strings_Cut (a @ sep # b) sep = Some (a, b)"
  by (induction a) auto

lemma strings_Cut_Some: "strings_Cut s sep = Some (a, b) \<Longrightarrow> s = a @ sep # b \<and> sep \<notin> set a"
  by (induction s arbitrary: a) (auto split: if_splits)

lemma strings_HasPrefix_iff: "strings_HasPrefix s p \<longleftrightarrow> (\<exists>t. s = p @ t)"
  by (induction s p rule: strings_HasPrefix.induct) auto

lemma strings_TrimPrefix_append [simp]: "strings_TrimPrefix (p @ s) p = s"
  by (simp add: strings_TrimPrefix_def strings_HasPrefix_iff)

section \<open>Digits\<close>

definition digit_char :: "nat \<Rightarrow> char" where
  "digit_char d = (if d < 10 then char_of (48 + d) else char_of (87 + d))"

text \<open>The value of a digit: \<open>0-9\<close>, then the letters of either case.\<close>

definition digit_val :: "char \<Rightarrow> nat option" where
  "digit_val c =
     (if is_dec c then Some (ccode c - 48)
      else if 97 \<le> ccode (lower_char c) \<and> ccode (lower_char c) \<le> 122
           then Some (ccode (lower_char c) - 87) else None)"

text \<open>\<open>strconv.FormatUint\<close>, the \<open>%d\<close> and \<open>%x\<close> verbs.\<close>

fun utoa :: "nat \<Rightarrow> nat \<Rightarrow> string" where
  "utoa b n = (if n < b \<or> b < 2 then [digit_char n] else utoa b (n div b) @ [digit_char (n mod b)])"

declare utoa.simps [simp del]

lemma utoa_small [go_simps]: "n < b \<Longrightarrow> utoa b n = [digit_char n]"
  by (simp add: utoa.simps)

lemma utoa_big [go_simps]: "b \<le> n \<Longrightarrow> 2 \<le> b \<Longrightarrow> utoa b n = utoa b (n div b) @ [digit_char (n mod b)]"
  by (subst utoa.simps) simp

lemma utoa_not_Nil [simp]: "utoa b n \<noteq> []"
  by (subst utoa.simps) simp

lemma ccode_digit_char: "d < 36 \<Longrightarrow> ccode (digit_char d) = (if d < 10 then 48 + d else 87 + d)"
  by (simp add: digit_char_def)

lemma digit_val_digit_char [simp]: "d < 36 \<Longrightarrow> digit_val (digit_char d) = Some d"
  by (auto simp: digit_val_def is_dec_def lower_char_def ccode_digit_char)

lemma is_dec_digit_char: "d < 36 \<Longrightarrow> is_dec (digit_char d) \<longleftrightarrow> d < 10"
  by (auto simp: is_dec_def ccode_digit_char)

text \<open>What a printed number consists of.\<close>

definition plain_digit :: "char \<Rightarrow> bool" where
  "plain_digit c \<longleftrightarrow> is_dec c \<or> 97 \<le> ccode c \<and> ccode c \<le> 122"

lemma plain_digit_digit_char [simp]: "d < 36 \<Longrightarrow> plain_digit (digit_char d)"
  by (auto simp: plain_digit_def is_dec_def ccode_digit_char)

lemma utoa_plain: "2 \<le> b \<Longrightarrow> b \<le> 36 \<Longrightarrow> \<forall>c \<in> set (utoa b n). plain_digit c"
proof (induction b n rule: utoa.induct)
  case (1 b n)
  show ?case
  proof (cases "n < b")
    case True
    with "1.prems" show ?thesis by (simp add: utoa_small)
  next
    case False
    with 1 show ?thesis by (simp add: utoa_big ball_Un order_less_le_trans [of "n mod b" b 36])
  qed
qed

lemma utoa_notin: "2 \<le> b \<Longrightarrow> b \<le> 36 \<Longrightarrow> \<not> plain_digit c \<Longrightarrow> c \<notin> set (utoa b n)"
  using utoa_plain by blast

lemma utoa_digits_lt:
  assumes "2 \<le> b" and "b \<le> 36"
  shows "\<forall>c \<in> set (utoa b n). \<exists>d < b. c = digit_char d"
  using assms
proof (induction b n rule: utoa.induct)
  case (1 b n)
  then show ?case by (cases "n < b") (auto simp: utoa_small utoa_big intro: exI [of _ "n mod b"])
qed

section \<open>\<open>strconv.ParseUint\<close>\<close>

definition syntaxError :: "string \<Rightarrow> error" where
  "syntaxError s = Errf ''strconv.ParseUint: parsing %q: invalid syntax'' [s]"

definition rangeError :: "string \<Rightarrow> error" where
  "rangeError s = Errf ''strconv.ParseUint: parsing %q: value out of range'' [s]"

text \<open>
  The digit loop: the value read so far, and whether an underscore was met. The unsigned
  64-bit overflow checks of the source cannot fire before its range check, because the
  program only asks for 16 and 32 bits.
\<close>

fun parse_digits :: "string \<Rightarrow> nat \<Rightarrow> bool \<Rightarrow> nat \<Rightarrow> nat \<Rightarrow> bool \<Rightarrow> string \<Rightarrow> (nat \<times> bool) res" where
  "parse_digits s0 b base0 maxVal n us [] = Inr (n, us)"
| "parse_digits s0 b base0 maxVal n us (c # cs) =
     (if ccode c = 95 \<and> base0 then parse_digits s0 b base0 maxVal n True cs
      else case digit_val c of
             None \<Rightarrow> Inl (syntaxError s0)
           | Some d \<Rightarrow>
               if b \<le> d then Inl (syntaxError s0)
               else if maxVal < n * b + d then Inl (rangeError s0)
               else parse_digits s0 b base0 maxVal (n * b + d) us cs)"

text \<open>\<open>underscoreOK\<close>: its last-character state is a digit, an underscore, or other.\<close>

datatype saw = SawStart | SawDigit | SawUnderscore | SawOther

fun underscore_scan :: "bool \<Rightarrow> saw \<Rightarrow> string \<Rightarrow> bool" where
  "underscore_scan hex sw [] = (sw \<noteq> SawUnderscore)"
| "underscore_scan hex sw (c # cs) =
     (if is_dec c \<or> hex \<and> 97 \<le> ccode (lower_char c) \<and> ccode (lower_char c) \<le> 102
      then underscore_scan hex SawDigit cs
      else if ccode c = 95 then (if sw \<noteq> SawDigit then False else underscore_scan hex SawUnderscore cs)
      else if sw = SawUnderscore then False
      else underscore_scan hex SawOther cs)"

definition has_base_prefix :: "string \<Rightarrow> char list \<Rightarrow> bool" where
  "has_base_prefix s ks \<longleftrightarrow> (case s of c0 # c1 # _ \<Rightarrow> ccode c0 = 48 \<and> lower_char c1 \<in> set ks | _ \<Rightarrow> False)"

definition underscoreOK :: "string \<Rightarrow> bool" where
  "underscoreOK s0 =
     (let s = (case s0 of c # cs \<Rightarrow> if ccode c = 45 \<or> ccode c = 43 then cs else s0 | [] \<Rightarrow> [])
      in if has_base_prefix s ''box''
         then underscore_scan (has_base_prefix s ''x'') SawDigit (drop 2 s)
         else underscore_scan False SawStart s)"

text \<open>The base and the digits that follow its prefix, for base 0.\<close>

definition base_prefix :: "string \<Rightarrow> nat \<times> string" where
  "base_prefix s =
     (if (case s of c # _ \<Rightarrow> ccode c \<noteq> 48 | [] \<Rightarrow> True) then (10, s)
      else if 3 \<le> length s \<and> has_base_prefix s ''b'' then (2, drop 2 s)
      else if 3 \<le> length s \<and> has_base_prefix s ''o'' then (8, drop 2 s)
      else if 3 \<le> length s \<and> has_base_prefix s ''x'' then (16, drop 2 s)
      else (8, drop 1 s))"

definition strconv_ParseUint :: "string \<Rightarrow> nat \<Rightarrow> nat \<Rightarrow> nat res" where
  "strconv_ParseUint s base bitSize =
     (if s = [] then Inl (syntaxError s)
      else let (b, ds) = (if base = 0 then base_prefix s else (base, s))
           in bindR (parse_digits s b (base = 0) (2 ^ bitSize - 1) 0 False ds)
                (\<lambda>(n, us). if us \<and> \<not> underscoreOK s then Inl (syntaxError s) else Inr n))"

lemma parse_digits_bound:
  "parse_digits s0 b base0 maxVal n us cs = Inr (m, us') \<Longrightarrow> n \<le> maxVal \<Longrightarrow> m \<le> maxVal"
  by (induction s0 b base0 maxVal n us cs rule: parse_digits.induct)
    (auto split: if_splits option.splits)

lemma ParseUint_bound: "strconv_ParseUint s base bitSize = Inr n \<Longrightarrow> n < 2 ^ bitSize"
proof -
  assume "strconv_ParseUint s base bitSize = Inr n"
  then have "n \<le> 2 ^ bitSize - 1"
    by (auto simp: strconv_ParseUint_def res_simps dest!: parse_digits_bound split: if_splits prod.splits)
  moreover have "(0::nat) < 2 ^ bitSize" by simp
  ultimately show "n < 2 ^ bitSize" by linarith
qed

lemma plain_digit_not_underscore: "plain_digit c \<Longrightarrow> ccode c \<noteq> 95"
  by (auto simp: plain_digit_def is_dec_def)

text \<open>Reading back what \<open>utoa\<close> prints.\<close>

lemma parse_digits_utoa:
  assumes "2 \<le> b" and "b \<le> 36" and "n \<le> maxVal"
  shows "parse_digits s0 b base0 maxVal 0 us (utoa b n @ cs) = parse_digits s0 b base0 maxVal n us cs"
  using assms
proof (induction b n arbitrary: cs rule: utoa.induct)
  case (1 b n)
  have u: "ccode (digit_char d) \<noteq> 95" if "d < b" for d
    using that "1.prems" by (intro plain_digit_not_underscore) simp
  show ?case
  proof (cases "n < b")
    case True
    with "1.prems" u [of n] show ?thesis by (simp add: utoa_small)
  next
    case False
    with "1.prems" have "(b \<le> n mod b) = False" "n mod b < 36"
      by (auto simp: not_le intro: order_less_le_trans [of "n mod b" b 36])
    moreover have "parse_digits s0 b base0 maxVal 0 us (utoa b (n div b) @ digit_char (n mod b) # cs)
      = parse_digits s0 b base0 maxVal (n div b) us (digit_char (n mod b) # cs)"
      using False "1.prems" by (intro "1.IH") (auto intro: order_trans [OF div_le_dividend])
    ultimately show ?thesis
      using False "1.prems" u [of "n mod b"] by (simp add: utoa_big)
  qed
qed

lemma ParseUint_decimal: "n < 2 ^ k \<Longrightarrow> strconv_ParseUint (utoa 10 n) 10 k = Inr n"
  using parse_digits_utoa [of 10 n "2 ^ k - 1" "utoa 10 n" False False "[]"]
  by (simp add: strconv_ParseUint_def)

lemma ParseUint_hex: "n < 2 ^ k \<Longrightarrow> strconv_ParseUint (''0x'' @ utoa 16 n) 0 k = Inr n"
  using parse_digits_utoa [of 16 n "2 ^ k - 1" "''0x'' @ utoa 16 n" True False "[]"]
  by (cases "utoa 16 n") (auto simp: strconv_ParseUint_def base_prefix_def has_base_prefix_def lower_char_def)

section \<open>Text of errors\<close>

text \<open>
  \<open>strconv.Itoa\<close>, \<open>strconv.Quote\<close> and \<open>fmt.Sprintf\<close> for the verbs the code uses. \<open>Quote\<close> escapes the quote,
  the backslash and ASCII control characters; bytes outside ASCII are taken to belong to printable runes.
\<close>

definition itoa :: "int \<Rightarrow> string" where
  "itoa n = (if n < 0 then CHR ''-'' # utoa 10 (nat (- n)) else utoa 10 (nat n))"

definition quote_char :: "char \<Rightarrow> string" where
  "quote_char c =
     (let n = ccode c in
      if n = 34 \<or> n = 92 then [char_of (92 :: nat), c]
      else if n = 7 then char_of (92 :: nat) # ''a''
      else if n = 8 then char_of (92 :: nat) # ''b''
      else if n = 9 then char_of (92 :: nat) # ''t''
      else if n = 10 then char_of (92 :: nat) # ''n''
      else if n = 11 then char_of (92 :: nat) # ''v''
      else if n = 12 then char_of (92 :: nat) # ''f''
      else if n = 13 then char_of (92 :: nat) # ''r''
      else if n < 32 \<or> n = 127 then char_of (92 :: nat) # CHR ''x'' # digit_char (n div 16) # digit_char (n mod 16) # []
      else [c])"

definition strconv_Quote :: "string \<Rightarrow> string" where
  "strconv_Quote s = CHR 0x22 # concat (map quote_char s) @ [CHR 0x22]"

fun Sprintf :: "string \<Rightarrow> string list \<Rightarrow> string" where
  "Sprintf (c # v # fmt) (a # args) =
     (if c = CHR ''%'' then (if v = CHR ''q'' then strconv_Quote a else a) @ Sprintf fmt args
      else c # Sprintf (v # fmt) (a # args))"
| "Sprintf fmt args = fmt"

text \<open>\<open>err.Error()\<close>; the format of a \<open>Wrap\<close> ends in \<open>: %w\<close>.\<close>

fun error_text :: "error \<Rightarrow> string" where
  "error_text (Err s) = s"
| "error_text (Errf fmt args) = Sprintf fmt args"
| "error_text (Wrap fmt args e) = Sprintf fmt args @ '': '' @ error_text e"
| "error_text (Lib s) = s"
| "error_text (Panic s) = s"

end
