(* ===== verification/GoNetip.thy ===== *)
theory GoNetip
  imports GoText
begin

text \<open>
  \<open>net/netip\<close> of Go's standard library as far as the program uses it: the \<open>Addr\<close> value,
  \<open>Unmap\<close>, \<open>Is4\<close>, \<open>Is6\<close>, \<open>Is4In6\<close>, \<open>ParseAddr\<close> for both address families
  (octets without leading zeros, hexadecimal groups, one \<open>::\<close>, an embedded IPv4 tail, a zone),
  \<open>ParseAddrPort\<close> and the two \<open>String\<close> methods with the canonical zero compression.

  The theorems are the round trips \<open>ParseAddr (String a) = a\<close> for IPv4 addresses and for
  IPv6 addresses without a zone that are not IPv4-mapped, and the same for \<open>AddrPort\<close>.
\<close>

section \<open>Positional numbers\<close>

definition be_nat :: "nat \<Rightarrow> nat list \<Rightarrow> nat" where
  "be_nat B xs = foldl (\<lambda>a x. a * B + x) 0 xs"

fun be_digits :: "nat \<Rightarrow> nat \<Rightarrow> nat \<Rightarrow> nat list" where
  "be_digits B 0 n = []"
| "be_digits B (Suc k) n = be_digits B k (n div B) @ [n mod B]"

lemma be_nat_snoc [simp]: "be_nat B (xs @ [x]) = be_nat B xs * B + x"
  by (simp add: be_nat_def)

lemma be_nat_Nil [simp]: "be_nat B [] = 0"
  by (simp add: be_nat_def)

lemma be_nat_zeros [simp]: "be_nat B (replicate n 0) = 0"
  by (induction n) (simp_all add: replicate_append_same [symmetric])

lemma length_be_digits [simp]: "length (be_digits B k n) = k"
  by (induction k arbitrary: n) auto

lemma be_digits_lt: "0 < B \<Longrightarrow> \<forall>x \<in> set (be_digits B k n). x < B"
  by (induction k arbitrary: n) auto

lemma be_nat_be_digits: "n < B ^ k \<Longrightarrow> be_nat B (be_digits B k n) = n"
proof (induction k arbitrary: n)
  case (Suc k)
  then have "n div B < B ^ k" by (simp add: less_mult_imp_div_less mult.commute)
  with Suc.IH show ?case by (simp add: div_mult_mod_eq)
qed simp

lemma be_digits_be_nat: "\<forall>x \<in> set xs. x < B \<Longrightarrow> be_digits B (length xs) (be_nat B xs) = xs"
  by (induction xs rule: rev_induct) auto

lemma be_nat_lt: "\<forall>x \<in> set xs. x < B \<Longrightarrow> be_nat B xs < B ^ length xs"
proof (induction xs rule: rev_induct)
  case (snoc x xs)
  then have "Suc (be_nat B xs) * B \<le> B ^ length xs * B"
    by (intro mult_le_mono1) simp
  moreover have "be_nat B xs * B + x < Suc (be_nat B xs) * B"
    using snoc.prems by simp
  ultimately show ?case by (simp add: mult.commute)
qed simp

text \<open>The two bytes of a 16-bit group.\<close>

definition group_bytes :: "nat list \<Rightarrow> nat list" where
  "group_bytes gs = concat (map (\<lambda>g. [g div 256, g mod 256]) gs)"

lemma group_bytes_simps [simp]:
  "group_bytes [] = []"
  "group_bytes (g # gs) = g div 256 # g mod 256 # group_bytes gs"
  "group_bytes (gs @ hs) = group_bytes gs @ group_bytes hs"
  by (simp_all add: group_bytes_def)

lemma length_group_bytes [simp]: "length (group_bytes gs) = 2 * length gs"
  by (induction gs) auto

lemma group_bytes_zero: "\<forall>g \<in> set gs. g = 0 \<Longrightarrow> group_bytes gs = replicate (2 * length gs) 0"
  by (induction gs) auto

lemma be_nat_group_bytes: "be_nat 256 (group_bytes gs) = be_nat 65536 gs"
proof (induction gs rule: rev_induct)
  case (snoc g gs)
  have "be_nat 256 (group_bytes gs @ [g div 256, g mod 256]) = be_nat 256 (group_bytes gs) * 65536 + g"
    using be_nat_snoc [of 256 "group_bytes gs @ [g div 256]" "g mod 256"]
    by (simp add: algebra_simps)
  with snoc show ?case by simp
qed simp

section \<open>\<open>Addr\<close>\<close>

text \<open>
  The zero \<open>Addr\<close>, an IPv4 address, or an IPv6 address with its zone (empty for none).
  The words hold the address with its first byte most significant.
\<close>

datatype addr = AddrZero | Addr4 u32 | Addr6 bytes16 string

fun Is4 :: "addr \<Rightarrow> bool" where
  "Is4 (Addr4 w) = True"
| "Is4 a = False"

fun Is6 :: "addr \<Rightarrow> bool" where
  "Is6 (Addr6 w z) = True"
| "Is6 a = False"

text \<open>\<open>::ffff:0:0/96\<close>.\<close>

definition mapped4 :: "bytes16 \<Rightarrow> bool" where
  "mapped4 w \<longleftrightarrow> unat w div 2 ^ 32 = 65535"

fun Is4In6 :: "addr \<Rightarrow> bool" where
  "Is4In6 (Addr6 w z) = mapped4 w"
| "Is4In6 a = False"

fun Unmap :: "addr \<Rightarrow> addr" where
  "Unmap (Addr6 w z) = (if mapped4 w then Addr4 (ucast w) else Addr6 w z)"
| "Unmap a = a"

lemma Unmap_not_mapped [simp]: "\<not> Is4In6 (Unmap a)"
  by (cases a) auto

lemma Unmap_id: "\<not> Is4In6 a \<Longrightarrow> Unmap a = a"
  by (cases a) auto

definition octets4 :: "u32 \<Rightarrow> nat list" where
  "octets4 w = be_digits 256 4 (unat w)"

definition groups6 :: "bytes16 \<Rightarrow> nat list" where
  "groups6 w = be_digits 65536 8 (unat w)"

lemma length_octets4 [simp]: "length (octets4 w) = 4"
  by (simp add: octets4_def)

lemma octets4_lt: "\<forall>x \<in> set (octets4 w). x < 256"
  using be_digits_lt [of 256 4 "unat w"] by (simp add: octets4_def)

lemma octets4_word: "word_of_nat (be_nat 256 (octets4 w)) = w"
proof -
  have "unat w < 2 ^ LENGTH(32)" by (rule unsigned_less)
  then show ?thesis by (simp add: octets4_def be_nat_be_digits)
qed

lemma length_groups6 [simp]: "length (groups6 w) = 8"
  by (simp add: groups6_def)

lemma groups6_lt: "\<forall>x \<in> set (groups6 w). x < 65536"
  using be_digits_lt [of 65536 8 "unat w"] by (simp add: groups6_def)

lemma groups6_word: "word_of_nat (be_nat 256 (group_bytes (groups6 w))) = w"
proof -
  have "unat w < 2 ^ LENGTH(128)" by (rule unsigned_less)
  then show ?thesis by (simp add: be_nat_group_bytes groups6_def be_nat_be_digits)
qed

section \<open>Parsing\<close>

definition addrError :: "string \<Rightarrow> string \<Rightarrow> error" where
  "addrError s msg = Errf (''ParseAddr(%q): '' @ msg) [s]"

text \<open>
  \<open>parseIPv4Fields\<close>: \<open>edge\<close> holds at the start and right after a dot, where another
  dot is an empty field.
\<close>

fun parseIPv4Fields :: "string \<Rightarrow> bool \<Rightarrow> nat \<Rightarrow> nat \<Rightarrow> nat list \<Rightarrow> string \<Rightarrow> nat list res" where
  "parseIPv4Fields s0 edge val digLen fields [] =
     (if length fields < 3 then Inl (addrError s0 ''IPv4 address too short'')
      else Inr (fields @ [val]))"
| "parseIPv4Fields s0 edge val digLen fields (c # cs) =
     (if is_dec c then
        (if digLen = 1 \<and> val = 0 then Inl (addrError s0 ''IPv4 field has octet with leading zero'')
         else if 255 < val * 10 + (ccode c - 48) then Inl (addrError s0 ''IPv4 field has value >255'')
         else parseIPv4Fields s0 False (val * 10 + (ccode c - 48)) (Suc digLen) fields cs)
      else if c = CHR ''.'' then
        (if edge \<or> cs = [] then Inl (addrError s0 ''IPv4 field must have at least one digit'')
         else if length fields = 3 then Inl (addrError s0 ''IPv4 address too long'')
         else parseIPv4Fields s0 True 0 0 (fields @ [val]) cs)
      else Inl (addrError s0 ''unexpected character''))"

definition parseIPv4 :: "string \<Rightarrow> addr res" where
  "parseIPv4 s = bindR (parseIPv4Fields s True 0 0 [] s) (\<lambda>fs. Inr (Addr4 (word_of_nat (be_nat 256 fs))))"

text \<open>The hexadecimal digits of one group: how many, their value, and the rest.\<close>

definition hex_val :: "char \<Rightarrow> nat option" where
  "hex_val c = (case digit_val c of Some d \<Rightarrow> if d < 16 then Some d else None | None \<Rightarrow> None)"

fun hex_run :: "string \<Rightarrow> nat \<Rightarrow> nat \<Rightarrow> string \<Rightarrow> (nat \<times> nat \<times> string) res" where
  "hex_run s0 off acc [] = Inr (off, acc, [])"
| "hex_run s0 off acc (c # cs) =
     (case hex_val c of
        None \<Rightarrow> Inr (off, acc, c # cs)
      | Some d \<Rightarrow>
          if 3 < off then Inl (addrError s0 ''each group must have 4 or less digits'')
          else if 65535 < acc * 16 + d then Inl (addrError s0 ''IPv6 field has value >=2^16'')
          else hex_run s0 (Suc off) (acc * 16 + d) cs)"

text \<open>The main loop of \<open>parseIPv6\<close>: the bytes so far, the place of \<open>::\<close>, the text left.\<close>

function parse6 :: "string \<Rightarrow> nat list \<Rightarrow> nat option \<Rightarrow> string \<Rightarrow> (nat list \<times> nat option \<times> string) res" where
  "parse6 s0 ip ell s =
     (if 16 \<le> length ip then Inr (ip, ell, s)
      else case hex_run s0 0 0 s of
        Inl e \<Rightarrow> Inl e
      | Inr (off, acc, rest) \<Rightarrow>
          if off = 0 then Inl (addrError s0 ''each colon-separated field must have at least one digit'')
          else case rest of
            [] \<Rightarrow> Inr (ip @ [acc div 256, acc mod 256], ell, [])
          | c # cs \<Rightarrow>
              if c = CHR ''.'' then
                (if ell = None \<and> length ip \<noteq> 12
                 then Inl (addrError s0 ''embedded IPv4 address must replace the final 2 fields of the address'')
                 else if 16 < length ip + 4
                 then Inl (addrError s0 ''too many hex fields to fit an embedded IPv4 at the end of the address'')
                 else bindR (parseIPv4Fields s0 True 0 0 [] s) (\<lambda>fs. Inr (ip @ fs, ell, [])))
              else if c \<noteq> CHR '':'' then Inl (addrError s0 ''unexpected character, want colon'')
              else case cs of
                [] \<Rightarrow> Inl (addrError s0 ''colon must be followed by more characters'')
              | d # ds \<Rightarrow>
                  if d = CHR '':'' then
                    (if ell \<noteq> None then Inl (addrError s0 ''multiple :: in address'')
                     else if ds = [] then Inr (ip @ [acc div 256, acc mod 256], Some (length ip + 2), [])
                     else parse6 s0 (ip @ [acc div 256, acc mod 256]) (Some (length ip + 2)) ds)
                  else parse6 s0 (ip @ [acc div 256, acc mod 256]) ell cs)"
  by pat_completeness auto
termination
  by (relation "measure (\<lambda>(s0, ip, ell, s). 16 - length ip)") auto

declare parse6.simps [simp del]

definition expand6 :: "string \<Rightarrow> nat list \<times> nat option \<times> string \<Rightarrow> nat list res" where
  "expand6 s0 = (\<lambda>(ip, ell, s).
     if s \<noteq> [] then Inl (addrError s0 ''trailing garbage after address'')
     else if length ip < 16 then
       (case ell of
          None \<Rightarrow> Inl (addrError s0 ''address string too short'')
        | Some e \<Rightarrow> Inr (take e ip @ replicate (16 - length ip) 0 @ drop e ip))
     else if ell \<noteq> None then Inl (addrError s0 ''the :: must expand to at least one field of zeros'')
     else Inr ip)"

definition parseIPv6 :: "string \<Rightarrow> addr res" where
  "parseIPv6 s0 =
     (let (s, zone, bad) = (case strings_Cut s0 CHR ''%'' of
                              None \<Rightarrow> (s0, [], False) | Some (a, z) \<Rightarrow> (a, z, z = []))
      in if bad then Inl (addrError s0 ''zone must be a non-empty string'')
         else if strings_HasPrefix s ''::''
         then (if drop 2 s = [] then Inr (Addr6 0 zone)
               else bindR (bindR (parse6 s0 [] (Some 0) (drop 2 s)) (expand6 s0))
                      (\<lambda>ip. Inr (Addr6 (word_of_nat (be_nat 256 ip)) zone)))
         else bindR (bindR (parse6 s0 [] None s) (expand6 s0))
                (\<lambda>ip. Inr (Addr6 (word_of_nat (be_nat 256 ip)) zone)))"

fun parse_addr_at :: "string \<Rightarrow> string \<Rightarrow> addr res" where
  "parse_addr_at s0 [] = Inl (addrError s0 ''unable to parse IP'')"
| "parse_addr_at s0 (c # cs) =
     (if c = CHR ''.'' then parseIPv4 s0
      else if c = CHR '':'' then parseIPv6 s0
      else if c = CHR ''%'' then Inl (addrError s0 ''missing IPv6 address'')
      else parse_addr_at s0 cs)"

definition ParseAddr :: "string \<Rightarrow> addr res" where
  "ParseAddr s = parse_addr_at s s"

text \<open>\<open>ParseAddrPort\<close>; \<open>last_cut\<close> splits at the last colon.\<close>

definition last_cut :: "string \<Rightarrow> char \<Rightarrow> (string \<times> string) option" where
  "last_cut s c = map_option (\<lambda>(a, b). (rev b, rev a)) (strings_Cut (rev s) c)"

definition splitAddrPort :: "string \<Rightarrow> (string \<times> string \<times> bool) res" where
  "splitAddrPort s =
     (case last_cut s CHR '':'' of
        None \<Rightarrow> Inl (Err ''not an ip:port'')
      | Some (ip, port) \<Rightarrow>
          if ip = [] then Inl (Err ''no IP'')
          else if port = [] then Inl (Err ''no port'')
          else if hd ip = CHR ''['' then
            (if length ip < 2 \<or> last ip \<noteq> CHR '']'' then Inl (Err ''missing ]'')
             else Inr (butlast (tl ip), port, True))
          else Inr (ip, port, False))"

definition ParseAddrPort :: "string \<Rightarrow> (addr \<times> u16) res" where
  "ParseAddrPort s =
     bindR (splitAddrPort s) (\<lambda>(ip, port, v6).
       case strconv_ParseUint port 10 16 of
         Inl e \<Rightarrow> Inl (Errf ''invalid port %q parsing %q'' [port, s])
       | Inr p \<Rightarrow>
           bindR (ParseAddr ip) (\<lambda>a.
             if v6 \<and> Is4 a then Inl (Errf ''invalid ip:port %q, square brackets can only be used with IPv6 addresses'' [s])
             else if \<not> v6 \<and> Is6 a then Inl (Errf ''invalid ip:port %q, IPv6 addresses must be surrounded by square brackets'' [s])
             else Inr (a, word_of_nat p)))"

section \<open>Printing\<close>

fun join_with :: "char \<Rightarrow> string list \<Rightarrow> string" where
  "join_with c [] = []"
| "join_with c [w] = w"
| "join_with c (w # v # ws) = w @ c # join_with c (v # ws)"

definition string4 :: "u32 \<Rightarrow> string" where
  "string4 w = join_with CHR ''.'' (map (utoa 10) (octets4 w))"

definition colon_hex :: "nat list \<Rightarrow> string" where
  "colon_hex gs = join_with CHR '':'' (map (utoa 16) gs)"

text \<open>The first longest run of at least two zero groups: its start and its length.\<close>

definition zero_run :: "nat list \<Rightarrow> nat \<Rightarrow> nat" where
  "zero_run gs i = length (takeWhile (\<lambda>g. g = 0) (drop i gs))"

definition best_run :: "nat list \<Rightarrow> (nat \<times> nat) option" where
  "best_run gs = foldl (\<lambda>best i.
     if 2 \<le> zero_run gs i \<and> (case best of None \<Rightarrow> 0 | Some (_, l) \<Rightarrow> l) < zero_run gs i
     then Some (i, zero_run gs i) else best) None [0..<length gs]"

definition string6 :: "bytes16 \<Rightarrow> string" where
  "string6 w =
     (let gs = groups6 w
      in case best_run gs of
           None \<Rightarrow> colon_hex gs
         | Some (i, l) \<Rightarrow> colon_hex (take i gs) @ ''::'' @ colon_hex (drop (i + l) gs))"

fun addr_String :: "addr \<Rightarrow> string" where
  "addr_String AddrZero = ''invalid IP''"
| "addr_String (Addr4 w) = string4 w"
| "addr_String (Addr6 w z) =
     (if mapped4 w then ''::ffff:'' @ string4 (ucast w) else string6 w)
     @ (if z = [] then [] else CHR ''%'' # z)"

definition addrPort_String :: "addr \<times> u16 \<Rightarrow> string" where
  "addrPort_String = (\<lambda>(a, p).
     case a of
       AddrZero \<Rightarrow> ''invalid AddrPort''
     | Addr4 w \<Rightarrow> string4 w @ CHR '':'' # utoa 10 (unat p)
     | Addr6 w z \<Rightarrow> CHR ''['' # addr_String a @ '']:'' @ utoa 10 (unat p))"

section \<open>Round trips\<close>

lemma length_utoa_le: "n < b ^ Suc k \<Longrightarrow> 2 \<le> b \<Longrightarrow> length (utoa b n) \<le> Suc k"
proof (induction k arbitrary: n)
  case 0
  then show ?case by (simp add: utoa_small)
next
  case (Suc k)
  show ?case
  proof (cases "n < b")
    case False
    from Suc.prems have "n div b < b ^ Suc k"
      by (intro less_mult_imp_div_less) (simp add: ac_simps)
    with Suc.IH [of "n div b"] Suc.prems False show ?thesis by (simp add: utoa_big)
  qed (simp add: utoa_small)
qed

lemma digit_char_ne:
  assumes "d < 36"
  shows "digit_char d \<noteq> CHR ''.''" "digit_char d \<noteq> CHR '':''" "digit_char d \<noteq> CHR ''%''"
    "digit_char d \<noteq> CHR ''[''" "digit_char d \<noteq> CHR '']''" "digit_char d \<noteq> CHR ''/''"
  using plain_digit_digit_char [OF assms] by (auto simp: plain_digit_def is_dec_def)

lemma utoa_not_in:
  assumes "2 \<le> b" and "b \<le> 36"
  shows "CHR ''.'' \<notin> set (utoa b n)" "CHR '':'' \<notin> set (utoa b n)" "CHR ''%'' \<notin> set (utoa b n)"
    "CHR ''['' \<notin> set (utoa b n)" "CHR '']'' \<notin> set (utoa b n)" "CHR ''/'' \<notin> set (utoa b n)"
  using utoa_notin [OF assms] by (auto simp: plain_digit_def is_dec_def)

subsection \<open>IPv4\<close>

lemma utoa_leading: "2 \<le> b \<Longrightarrow> b \<le> 36 \<Longrightarrow> 0 < n \<Longrightarrow> \<exists>d cs. utoa b n = digit_char d # cs \<and> 0 < d \<and> d < b"
proof (induction b n rule: utoa.induct)
  case (1 b n)
  show ?case
  proof (cases "n < b")
    case False
    with 1 have "\<exists>d cs. utoa b (n div b) = digit_char d # cs \<and> 0 < d \<and> d < b"
      by (simp add: div_greater_zero_iff)
    with False "1.prems" show ?thesis by (auto simp: utoa_big)
  qed (use "1.prems" in \<open>auto simp: utoa_small\<close>)
qed

lemma parseIPv4Fields_utoa:
  assumes "n < 256"
  shows "\<exists>k. parseIPv4Fields s0 edge 0 0 fields (utoa 10 n @ cs) = parseIPv4Fields s0 False n (Suc k) fields cs"
proof -
  have step: "parseIPv4Fields s0 e v k fields (digit_char d # ds) =
      parseIPv4Fields s0 False (v * 10 + d) (Suc k) fields ds"
    if "d < 10" "v * 10 + d < 256" "\<not> (k = 1 \<and> v = 0)" for e v k d ds
    using that by (auto simp: is_dec_digit_char ccode_digit_char)
  consider "n < 10" | "10 \<le> n" "n < 100" | "100 \<le> n" by linarith
  then show ?thesis
  proof cases
    case 1
    then show ?thesis using step [of n 0 0] assms by (intro exI [of _ 0]) (simp add: utoa_small)
  next
    case 2
    then have "utoa 10 n = [digit_char (n div 10), digit_char (n mod 10)]"
      by (simp add: utoa_big utoa_small div_less_iff_less_mult)
    moreover have "n div 10 < 10" "0 < n div 10" using 2 by (simp_all add: div_greater_zero_iff div_less_iff_less_mult)
    ultimately show ?thesis using step [of "n div 10" 0 0] step [of "n mod 10" "n div 10" 1] assms
      by (intro exI [of _ 1]) (simp add: div_less_iff_less_mult)
  next
    case 3
    have h: "n div 10 div 10 = n div 100"
      using div_mult2_eq [of n 10 10] by simp
    have d: "10 \<le> n div 10" "n div 100 < 10" "0 < n div 100" "n div 10 < 26"
      using div_le_mono [OF 3, of 10] 3 assms
      by (simp_all add: div_less_iff_less_mult div_greater_zero_iff)
    have m: "n div 100 * 10 + n div 10 mod 10 = n div 10"
      using div_mult_mod_eq [of "n div 10" 10] h by simp
    have "utoa 10 n = [digit_char (n div 100), digit_char (n div 10 mod 10), digit_char (n mod 10)]"
      using 3 d h by (simp add: utoa_big utoa_small)
    then show ?thesis
      using d m step [of "n div 100" 0 0] step [of "n div 10 mod 10" "n div 100" 1] step [of "n mod 10" "n div 10" 2] assms
      by (intro exI [of _ 2]) (simp add: numeral_2_eq_2)
  qed
qed

lemma parseIPv4Fields_dot:
  "length fields \<noteq> 3 \<Longrightarrow> cs \<noteq> [] \<Longrightarrow>
   parseIPv4Fields s0 False v k fields (CHR ''.'' # cs) = parseIPv4Fields s0 True 0 0 (fields @ [v]) cs"
  by (simp add: is_dec_def)

lemma parseIPv4Fields_join:
  assumes "xs \<noteq> []" and "length fields + length xs = 4" and "\<forall>x \<in> set xs. x < 256"
  shows "parseIPv4Fields s0 True 0 0 fields (join_with CHR ''.'' (map (utoa 10) xs)) = Inr (fields @ xs)"
  using assms
proof (induction xs arbitrary: fields)
  case (Cons x xs)
  show ?case
  proof (cases xs)
    case Nil
    with Cons.prems parseIPv4Fields_utoa [of x s0 True fields "[]"] show ?thesis by auto
  next
    case (Cons y ys)
    let ?rest = "join_with CHR ''.'' (map (utoa 10) xs)"
    have ne: "?rest \<noteq> []" using Cons by (cases ys) auto
    obtain k where "parseIPv4Fields s0 True 0 0 fields (utoa 10 x @ CHR ''.'' # ?rest)
        = parseIPv4Fields s0 False x (Suc k) fields (CHR ''.'' # ?rest)"
      using parseIPv4Fields_utoa [of x s0 True fields "CHR ''.'' # ?rest"] Cons.prems by auto
    also have "\<dots> = parseIPv4Fields s0 True 0 0 (fields @ [x]) ?rest"
      using Cons.prems Cons ne by (intro parseIPv4Fields_dot) auto
    also have "\<dots> = Inr ((fields @ [x]) @ xs)"
      using Cons.prems Cons by (intro Cons.IH) auto
    finally show ?thesis using Cons by simp
  qed
qed simp

lemma parse_addr_at_skip:
  "\<forall>c \<in> set pre. c \<noteq> CHR ''.'' \<and> c \<noteq> CHR '':'' \<and> c \<noteq> CHR ''%'' \<Longrightarrow>
   parse_addr_at s0 (pre @ s) = parse_addr_at s0 s"
  by (induction pre) auto

lemma utoa_skip:
  "2 \<le> b \<Longrightarrow> b \<le> 36 \<Longrightarrow> \<forall>c \<in> set (utoa b n). c \<noteq> CHR ''.'' \<and> c \<noteq> CHR '':'' \<and> c \<noteq> CHR ''%''"
  using utoa_not_in [of b n] by blast

theorem ParseAddr_string4: "ParseAddr (string4 w) = Inr (Addr4 w)"
proof -
  obtain a as where os: "octets4 w = a # as" "as \<noteq> []"
    using length_octets4 [of w] by (cases "octets4 w"; cases "tl (octets4 w)") auto
  then have s: "string4 w = utoa 10 a @ CHR ''.'' # join_with CHR ''.'' (map (utoa 10) as)"
    by (cases as) (auto simp: string4_def)
  have fs: "parseIPv4Fields (string4 w) True 0 0 [] (string4 w) = Inr (octets4 w)"
    using parseIPv4Fields_join [of "octets4 w" "[]" "string4 w"] octets4_lt [of w]
    by (auto simp: string4_def simp flip: length_0_conv)
  have "ParseAddr (string4 w) = parseIPv4 (string4 w)"
    using parse_addr_at_skip [OF utoa_skip [of 10 a]] s by (simp add: ParseAddr_def)
  also have "\<dots> = Inr (Addr4 w)"
    by (simp add: parseIPv4_def fs octets4_word)
  finally show ?thesis .
qed

subsection \<open>IPv6\<close>

lemma hex_val_digit_char: "d < 16 \<Longrightarrow> hex_val (digit_char d) = Some d"
  by (simp add: hex_val_def)

lemma hex_run_utoa:
  assumes "n < 65536"
  shows "hex_run s0 0 0 (utoa 16 n @ cs) = hex_run s0 (length (utoa 16 n)) n cs"
proof -
  have "length (utoa 16 n) \<le> Suc k \<Longrightarrow> k < 4 \<Longrightarrow>
      hex_run s0 0 0 (utoa 16 n @ cs) = hex_run s0 (length (utoa 16 n)) n cs" for k
    using assms
  proof (induction k arbitrary: n cs)
    case (0 n)
    then have "n < 16" by (cases "n < 16") (auto simp: utoa_big)
    then show ?case by (simp add: utoa_small hex_val_digit_char)
  next
    case (Suc k n)
    show ?case
    proof (cases "n < 16")
      case True
      then show ?thesis by (simp add: utoa_small hex_val_digit_char)
    next
      case False
      with Suc.prems have "length (utoa 16 (n div 16)) \<le> Suc k" "n div 16 < 65536"
        by (auto simp: utoa_big)
      with Suc.IH [of "n div 16" "digit_char (n mod 16) # cs"] Suc.prems False
      show ?thesis by (simp add: utoa_big hex_val_digit_char)
    qed
  qed
  moreover have "length (utoa 16 n) \<le> Suc 3"
    using assms by (intro length_utoa_le) auto
  ultimately show ?thesis by (metis less_numeral_extra(1) numeral_eq_Suc pred_numeral_simps(2) lessI semiring_norm(26,27) eval_nat_numeral(3))
qed

lemma hex_run_stop: "cs = [] \<or> hex_val (hd cs) = None \<Longrightarrow> hex_run s0 off acc cs = Inr (off, acc, cs)"
  by (cases cs) auto

lemma colon_hex_simps [simp]:
  "colon_hex [] = []"
  "colon_hex [g] = utoa 16 g"
  "colon_hex (g # h # gs) = utoa 16 g @ CHR '':'' # colon_hex (h # gs)"
  by (simp_all add: colon_hex_def)

lemma colon_hex_Cons: "gs \<noteq> [] \<Longrightarrow> colon_hex (g # gs) = utoa 16 g @ CHR '':'' # colon_hex gs"
  by (cases gs) auto

lemma colon_hex_eq_Nil [simp]: "colon_hex gs = [] \<longleftrightarrow> gs = []"
  by (cases gs rule: remdups_adj.cases) auto

lemma hd_utoa: "2 \<le> b \<Longrightarrow> b \<le> 36 \<Longrightarrow> hd (utoa b g) \<noteq> CHR '':'' \<and> hd (utoa b g) \<noteq> CHR ''[''"
  by (metis hd_in_set utoa_not_Nil utoa_not_in(2,4))

lemma hd_colon_hex: "gs \<noteq> [] \<Longrightarrow> hd (colon_hex gs @ cs) \<noteq> CHR '':''"
  by (cases gs rule: remdups_adj.cases) (auto simp: hd_append hd_utoa)

lemma hex_val_marks: "hex_val CHR '':'' = None" "hex_val CHR ''.'' = None"
  by (simp_all add: hex_val_def digit_val_def is_dec_def lower_char_def)

lemmas parse6_step = parse6.simps [of s0 ip ell "utoa 16 g @ cs" for s0 ip ell g cs]

lemma parse6_last:
  assumes "g < 65536" and "length ip < 16"
  shows "parse6 s0 ip ell (utoa 16 g) = Inr (ip @ [g div 256, g mod 256], ell, [])"
  using assms hex_run_utoa [of g s0 "[]"] parse6_step [of s0 ip ell g "[]"]
  by simp

lemma parse6_next:
  assumes "g < 65536" and "length ip < 16" and "cs \<noteq> []" and "hd cs \<noteq> CHR '':''"
  shows "parse6 s0 ip ell (utoa 16 g @ CHR '':'' # cs) = parse6 s0 (ip @ [g div 256, g mod 256]) ell cs"
  using assms hex_run_utoa [of g s0 "CHR '':'' # cs"] parse6_step [of s0 ip ell g "CHR '':'' # cs"]
  by (cases cs) (simp_all add: hex_val_marks)

lemma parse6_ellipsis:
  assumes "g < 65536" and "length ip < 16"
  shows "parse6 s0 ip None (utoa 16 g @ CHR '':'' # CHR '':'' # cs) =
    (if cs = [] then Inr (ip @ [g div 256, g mod 256], Some (length ip + 2), [])
     else parse6 s0 (ip @ [g div 256, g mod 256]) (Some (length ip + 2)) cs)"
  using assms hex_run_utoa [of g s0 "CHR '':'' # CHR '':'' # cs"]
    parse6_step [of s0 ip None g "CHR '':'' # CHR '':'' # cs"]
  by (simp add: hex_val_marks)

lemma parse6_colon_hex:
  assumes "gs \<noteq> []" and "\<forall>g \<in> set gs. g < 65536" and "length ip + 2 * length gs \<le> 16"
  shows "parse6 s0 ip ell (colon_hex gs) = Inr (ip @ group_bytes gs, ell, [])"
  using assms
proof (induction gs arbitrary: ip)
  case (Cons g gs)
  show ?case
  proof (cases "gs = []")
    case True
    with Cons.prems show ?thesis by (simp add: parse6_last)
  next
    case False
    with Cons.prems hd_colon_hex [OF False, of "[]"] Cons.IH [of "ip @ [g div 256, g mod 256]"]
    show ?thesis by (simp add: colon_hex_Cons parse6_next)
  qed
qed simp

lemma parse6_colon_hex_ellipsis:
  assumes "gs \<noteq> []" and "\<forall>g \<in> set gs. g < 65536" and "length ip + 2 * length gs \<le> 16"
  shows "parse6 s0 ip None (colon_hex gs @ ''::'' @ cs) =
    (if cs = [] then Inr (ip @ group_bytes gs, Some (length ip + 2 * length gs), [])
     else parse6 s0 (ip @ group_bytes gs) (Some (length ip + 2 * length gs)) cs)"
  using assms
proof (induction gs arbitrary: ip)
  case (Cons g gs)
  show ?case
  proof (cases "gs = []")
    case True
    with Cons.prems show ?thesis by (simp add: parse6_ellipsis)
  next
    case False
    with Cons.prems hd_colon_hex [OF False, of "''::'' @ cs"] Cons.IH [of "ip @ [g div 256, g mod 256]"]
    show ?thesis by (auto simp: colon_hex_Cons parse6_next)
  qed
qed simp

text \<open>The run that \<open>string6\<close> compresses is a run of at least two zero groups.\<close>

lemma zero_run_le: "i \<le> length gs \<Longrightarrow> i + zero_run gs i \<le> length gs"
  using length_takeWhile_le [of "\<lambda>g. g = 0" "drop i gs"] by (auto simp: zero_run_def)

lemma take_length_takeWhile: "take (length (takeWhile P xs)) xs = takeWhile P xs"
  by (induction xs) auto

lemma zero_run_zero: "\<forall>g \<in> set (take (zero_run gs i) (drop i gs)). g = 0"
  by (auto simp: zero_run_def take_length_takeWhile dest: set_takeWhileD)

lemma best_run_spec:
  assumes "best_run gs = Some (i, l)"
  shows "2 \<le> l" "i + l \<le> length gs" "\<forall>g \<in> set (take l (drop i gs)). g = 0"
proof -
  define f where "f best i = (if 2 \<le> zero_run gs i \<and> (case best of None \<Rightarrow> 0 | Some (_, l) \<Rightarrow> l) < zero_run gs i
     then Some (i, zero_run gs i) else best)" for best :: "(nat \<times> nat) option" and i
  have "foldl f None is = None \<or> (\<exists>i < length gs. foldl f None is = Some (i, zero_run gs i) \<and> 2 \<le> zero_run gs i)"
    if "\<forall>i \<in> set is. i < length gs" for "is"
    using that by (induction "is" rule: rev_induct) (auto simp: f_def)
  from this [of "[0..<length gs]"] assms
  have "2 \<le> l \<and> i < length gs \<and> l = zero_run gs i"
    by (auto simp: best_run_def f_def [abs_def])
  then show "2 \<le> l" "i + l \<le> length gs" "\<forall>g \<in> set (take l (drop i gs)). g = 0"
    using zero_run_le [of i gs] zero_run_zero [of gs i] by auto
qed

lemma split_at_run:
  assumes "i + l \<le> length gs" and "\<forall>g \<in> set (take l (drop i gs)). g = 0"
  shows "group_bytes gs = group_bytes (take i gs) @ replicate (2 * l) 0 @ group_bytes (drop (i + l) gs)"
proof -
  have "gs = take i gs @ take l (drop i gs) @ drop (i + l) gs"
    by (metis append_take_drop_id drop_drop add.commute)
  then have "group_bytes gs = group_bytes (take i gs) @ group_bytes (take l (drop i gs)) @ group_bytes (drop (i + l) gs)"
    by (metis group_bytes_simps(3))
  with assms show ?thesis by (simp add: group_bytes_zero)
qed

lemma colon_hex_chars: "CHR ''.'' \<notin> set (colon_hex gs)" "CHR ''%'' \<notin> set (colon_hex gs)" "CHR '']'' \<notin> set (colon_hex gs)"
  "CHR ''['' \<notin> set (colon_hex gs)"
proof -
  have "CHR ''.'' \<notin> set (colon_hex gs) \<and> CHR ''%'' \<notin> set (colon_hex gs) \<and>
      CHR '']'' \<notin> set (colon_hex gs) \<and> CHR ''['' \<notin> set (colon_hex gs)"
    by (induction gs rule: induct_list012) (simp_all add: utoa_not_in)
  then show "CHR ''.'' \<notin> set (colon_hex gs)" "CHR ''%'' \<notin> set (colon_hex gs)"
    "CHR '']'' \<notin> set (colon_hex gs)" "CHR ''['' \<notin> set (colon_hex gs)"
    by blast+
qed

lemma string6_chars: "CHR ''.'' \<notin> set (string6 w)" "CHR ''%'' \<notin> set (string6 w)" "CHR '']'' \<notin> set (string6 w)"
  "CHR ''['' \<notin> set (string6 w)"
  by (auto simp: string6_def Let_def colon_hex_chars split: option.splits)

lemma strings_Cut_None: "sep \<notin> set s \<Longrightarrow> strings_Cut s sep = None"
  by (induction s) auto

lemma parseIPv6_string6: "parseIPv6 (string6 w) = Inr (Addr6 w [])"
proof -
  let ?gs = "groups6 w"
  have cut: "strings_Cut (string6 w) CHR ''%'' = None"
    by (rule strings_Cut_None) (rule string6_chars)
  have nocolon: "\<not> strings_HasPrefix (colon_hex gs @ cs) ''::''" if "gs \<noteq> []" for gs cs
    using hd_colon_hex [OF that, of cs] by (auto simp: strings_HasPrefix_iff)
  show ?thesis
  proof (cases "best_run ?gs")
    case None
    then have "string6 w = colon_hex ?gs" by (simp add: string6_def)
    moreover have ne: "?gs \<noteq> []" using length_groups6 [of w] by (metis list.size(3) zero_neq_numeral)
    ultimately show ?thesis
      using cut nocolon [OF ne, of "[]"] parse6_colon_hex [OF ne groups6_lt, of "[]" "string6 w" None]
      by (simp add: parseIPv6_def expand6_def groups6_word)
  next
    case (Some r)
    then obtain i l where r: "best_run ?gs = Some (i, l)" by (cases r) auto
    note run = best_run_spec [OF r]
    define A B where "A = take i ?gs" and "B = drop (i + l) ?gs"
    have len: "length A = i" "length B = 8 - (i + l)" "i + l \<le> 8"
      using run by (auto simp: A_def B_def)
    have lt: "\<forall>g \<in> set A. g < 65536" "\<forall>g \<in> set B. g < 65536"
      using groups6_lt [of w] by (auto simp: A_def B_def dest: in_set_takeD in_set_dropD)
    have str: "string6 w = colon_hex A @ ''::'' @ colon_hex B"
      using r by (simp add: string6_def A_def B_def Let_def)
    have bytes: "group_bytes ?gs = group_bytes A @ replicate (2 * l) 0 @ group_bytes B"
      unfolding A_def B_def by (rule split_at_run [OF run(2,3)])
    have p: "parse6 (string6 w) (group_bytes A) (Some (2 * i)) (colon_hex B) =
        Inr (group_bytes A @ group_bytes B, Some (2 * i), [])" if "B \<noteq> []"
      using parse6_colon_hex [OF that lt(2), of "group_bytes A"] len run(1) by simp
    have e: "expand6 (string6 w) (group_bytes A @ group_bytes B, Some (2 * i), []) = Inr (group_bytes ?gs)"
      using len run(1) by (auto simp: expand6_def bytes)
    show ?thesis
    proof (cases "A = []")
      case True
      with str cut p e len show ?thesis
        using groups6_word [of w] by (cases "B = []") (auto simp: parseIPv6_def strings_HasPrefix_iff bytes)
    next
      case False
      have "parse6 (string6 w) [] None (string6 w) = Inr (group_bytes A @ group_bytes B, Some (2 * i), [])"
        using parse6_colon_hex_ellipsis [OF False lt(1), of "[]" "string6 w" "colon_hex B"] len p str by auto
      with cut nocolon [OF False, of "''::'' @ colon_hex B"] e str
      show ?thesis by (simp add: parseIPv6_def groups6_word)
    qed
  qed
qed

lemma parse_addr_at_colon:
  assumes "CHR '':'' \<in> set s" and "CHR ''.'' \<notin> set s" and "CHR ''%'' \<notin> set s"
  shows "parse_addr_at s0 s = parseIPv6 s0"
  using assms by (induction s) auto

lemma string6_colon: "CHR '':'' \<in> set (string6 w)"
proof (cases "best_run (groups6 w)")
  case None
  obtain a b gs where "groups6 w = a # b # gs"
    using length_groups6 [of w] by (cases "groups6 w"; cases "tl (groups6 w)") auto
  with None show ?thesis by (simp add: string6_def)
next
  case (Some r)
  then show ?thesis by (cases r) (simp add: string6_def Let_def)
qed

theorem ParseAddr_string6: "ParseAddr (string6 w) = Inr (Addr6 w [])"
  using parse_addr_at_colon [OF string6_colon string6_chars(1,2)] parseIPv6_string6
  by (simp add: ParseAddr_def)

subsection \<open>Address and port\<close>

lemma last_cut_append: "c \<notin> set b \<Longrightarrow> last_cut (a @ c # b) c = Some (a, b)"
  using strings_Cut_notin [of c "rev b" "rev a"] by (simp add: last_cut_def)

theorem ParseAddrPort_v4: "ParseAddrPort (string4 w @ CHR '':'' # utoa 10 (unat p)) = Inr (Addr4 w, p)"
proof -
  have ne: "string4 w \<noteq> []" "hd (string4 w) \<noteq> CHR ''[''"
    using length_octets4 [of w] hd_utoa [of 10 "hd (octets4 w)"]
    by (cases "octets4 w"; cases "tl (octets4 w)"; simp add: string4_def hd_append)+
  have "unat p < 2 ^ LENGTH(16)" by (rule unsigned_less)
  then have "strconv_ParseUint (utoa 10 (unat p)) 10 16 = Inr (unat p)"
    by (intro ParseUint_decimal) simp
  moreover have "last_cut (string4 w @ CHR '':'' # utoa 10 (unat p)) CHR '':'' = Some (string4 w, utoa 10 (unat p))"
    by (rule last_cut_append) (simp add: utoa_not_in)
  ultimately show ?thesis
    using ne by (simp add: ParseAddrPort_def splitAddrPort_def ParseAddr_string4)
qed

theorem ParseAddrPort_v6: "ParseAddrPort (CHR ''['' # string6 w @ '']:'' @ utoa 10 (unat p)) = Inr (Addr6 w [], p)"
proof -
  have "unat p < 2 ^ LENGTH(16)" by (rule unsigned_less)
  then have "strconv_ParseUint (utoa 10 (unat p)) 10 16 = Inr (unat p)"
    by (intro ParseUint_decimal) simp
  moreover have "last_cut ((CHR ''['' # string6 w @ '']'') @ CHR '':'' # utoa 10 (unat p)) CHR '':''
      = Some (CHR ''['' # string6 w @ '']'', utoa 10 (unat p))"
    by (rule last_cut_append) (simp add: utoa_not_in)
  ultimately show ?thesis
    by (simp add: ParseAddrPort_def splitAddrPort_def ParseAddr_string6)
qed

end
