(* ===== verification/PolicyText.thy ===== *)
theory PolicyText
  imports GoNetip
begin

text \<open>
  The rule parsers of \<open>internal/policy/policy.go\<close>: from the strings of a configuration
  file or of an admin request to marks, protocol and port pairs, hosts, and host and port
  pairs, with the error of every rejected entry.
\<close>

section \<open>Rules\<close>

definition IPProtoTCP :: u8 where "IPProtoTCP = 6"
definition IPProtoUDP :: u8 where "IPProtoUDP = 17"

record PortRule =
  pr_Protocol :: u8
  pr_Port :: u16

record HostPortRule =
  hpr_Protocol :: u8
  hpr_AddrPort :: "addr \<times> u16"

definition parseProtocol :: "string \<Rightarrow> u8 res" where
  "parseProtocol v =
     (if strings_ToLower v = ''tcp'' then Inr IPProtoTCP
      else if strings_ToLower v = ''udp'' then Inr IPProtoUDP
      else Inl (Errf ''unsupported protocol %q'' [v]))"

definition parsePort :: "string \<Rightarrow> u16 res" where
  "parsePort v =
     bindR (strconv_ParseUint v 10 16) (\<lambda>parsed.
     bindR (guardR (parsed = 0) (Err ''port must be greater than zero'')) (\<lambda>_.
     Inr (word_of_nat parsed)))"

definition parseAddr :: "string \<Rightarrow> addr res" where
  "parseAddr v = bindR (ParseAddr v) (\<lambda>addr. Inr (Unmap addr))"

definition parseProtocolPort :: "string \<Rightarrow> (u8 \<times> u16) res" where
  "parseProtocolPort v =
     (case strings_Cut v CHR ''/'' of
        None \<Rightarrow> Inl (Err ''expected protocol/port'')
      | Some (protocolText, portText) \<Rightarrow>
          bindR (parseProtocol protocolText) (\<lambda>protocol.
          bindR (parsePort portText) (\<lambda>port. Inr (protocol, port))))"

definition parseProtocolAddrPort :: "string \<Rightarrow> HostPortRule res" where
  "parseProtocolAddrPort v =
     (case strings_Cut v CHR ''/'' of
        None \<Rightarrow> Inl (Err ''expected protocol/address:port'')
      | Some (protocolText, addrPortText) \<Rightarrow>
          bindR (parseProtocol protocolText) (\<lambda>protocol.
          bindR (ParseAddrPort addrPortText) (\<lambda>addrPort.
          Inr \<lparr>hpr_Protocol = protocol, hpr_AddrPort = addrPort\<rparr>)))"

definition ParseAllowedMarks :: "string list \<Rightarrow> u32 list res" where
  "ParseAllowedMarks values = mapR (\<lambda>v.
     bindR (wrapR ''parse allowed_marks %q'' [v] (strconv_ParseUint v 0 32)) (\<lambda>parsed.
     Inr (word_of_nat parsed))) values"

definition ParseAllowedPorts :: "string list \<Rightarrow> PortRule list res" where
  "ParseAllowedPorts values = mapR (\<lambda>v.
     bindR (wrapR ''parse allowed_ports %q'' [v] (parseProtocolPort v)) (\<lambda>(protocol, port).
     Inr \<lparr>pr_Protocol = protocol, pr_Port = port\<rparr>)) values"

definition ParseAllowedV4Hosts :: "string list \<Rightarrow> addr list res" where
  "ParseAllowedV4Hosts values = mapR (\<lambda>v.
     bindR (wrapR ''parse allowed_v4_hosts %q'' [v] (parseAddr v)) (\<lambda>addr.
     bindR (guardR (\<not> Is4 addr) (Errf ''parse allowed_v4_hosts %q: address is not IPv4'' [v])) (\<lambda>_.
     Inr addr))) values"

definition ParseAllowedV6Hosts :: "string list \<Rightarrow> addr list res" where
  "ParseAllowedV6Hosts values = mapR (\<lambda>v.
     bindR (wrapR ''parse allowed_v6_hosts %q'' [v] (parseAddr v)) (\<lambda>addr.
     bindR (guardR (\<not> Is6 addr \<or> Is4In6 addr) (Errf ''parse allowed_v6_hosts %q: address is not IPv6'' [v])) (\<lambda>_.
     Inr addr))) values"

definition ParseAllowedV4Hostports :: "string list \<Rightarrow> HostPortRule list res" where
  "ParseAllowedV4Hostports values = mapR (\<lambda>v.
     bindR (wrapR ''parse allowed_v4_hostports %q'' [v] (parseProtocolAddrPort v)) (\<lambda>rule.
     bindR (guardR (\<not> Is4 (fst (hpr_AddrPort rule))) (Errf ''parse allowed_v4_hostports %q: address is not IPv4'' [v])) (\<lambda>_.
     Inr rule))) values"

definition ParseAllowedV6Hostports :: "string list \<Rightarrow> HostPortRule list res" where
  "ParseAllowedV6Hostports values = mapR (\<lambda>v.
     bindR (wrapR ''parse allowed_v6_hostports %q'' [v] (parseProtocolAddrPort v)) (\<lambda>rule.
     bindR (guardR (\<not> Is6 (fst (hpr_AddrPort rule)) \<or> Is4In6 (fst (hpr_AddrPort rule)))
              (Errf ''parse allowed_v6_hostports %q: address is not IPv6'' [v])) (\<lambda>_.
     Inr rule))) values"

section \<open>What the parsers accept\<close>

text \<open>The two protocols, and how the admin API prints them.\<close>

definition rule_protocol :: "u8 \<Rightarrow> bool" where
  "rule_protocol p \<longleftrightarrow> p = IPProtoTCP \<or> p = IPProtoUDP"

lemma parseProtocol_ok: "parseProtocol v = Inr p \<Longrightarrow> rule_protocol p"
  by (auto simp: parseProtocol_def rule_protocol_def split: if_splits)

lemma parsePort_nonzero: "parsePort v = Inr p \<Longrightarrow> p \<noteq> 0"
proof -
  assume "parsePort v = Inr p"
  then obtain n where n: "strconv_ParseUint v 10 16 = Inr n" "n \<noteq> 0" "p = word_of_nat n"
    by (auto simp: parsePort_def res_simps)
  then have "unat p = n"
    using ParseUint_bound [of v 10 16 n] by (simp add: unat_of_nat take_bit_nat_eq_self_iff)
  with n show "p \<noteq> 0" by auto
qed

lemma parseAddr_unmapped: "parseAddr v = Inr a \<Longrightarrow> \<not> Is4In6 a"
  by (auto simp: parseAddr_def res_simps)

lemma parsePort_utoa: "p \<noteq> 0 \<Longrightarrow> parsePort (utoa 10 (unat p)) = Inr p"
proof -
  assume "p \<noteq> 0"
  have "unat p < 2 ^ LENGTH(16)" by (rule unsigned_less)
  then have "strconv_ParseUint (utoa 10 (unat p)) 10 16 = Inr (unat p)"
    by (intro ParseUint_decimal) simp
  with \<open>p \<noteq> 0\<close> show ?thesis by (simp add: parsePort_def unat_eq_zero)
qed

end
