(* ===== verification/Keys.thy ===== *)
theory Keys
  imports PolicyText
begin

unbundle bit_operations_syntax

text \<open>
  The keys of the eBPF maps: the byte-order helpers of \<open>cmd/killswitch/util.go\<close>, the key
  types of \<open>types.go\<close>, their orders, and \<open>uniqueSorted\<close> of \<open>bpf_maps.go\<close>, which
  makes a slice of keys canonical. The padding fields (\<open>Reserved\<close>, \<open>Reserved0\<close>,
  \<open>Reserved1\<close>) are zero in every value the program builds, so the types leave them out.
\<close>

section \<open>\<open>util.go\<close>\<close>

definition boolByte :: "bool \<Rightarrow> u8" where
  "boolByte v = (if v then 1 else 0)"

definition ntohs :: "u16 \<Rightarrow> u16" where
  "ntohs v = push_bit 8 v OR drop_bit 8 v"

definition htons :: "u16 \<Rightarrow> u16" where
  "htons v = ntohs v"

text \<open>\<open>net.IPv4(a, b, c, d)\<close>, as its four octets, and its \<open>String\<close>.\<close>

definition net_IPv4 :: "u8 \<Rightarrow> u8 \<Rightarrow> u8 \<Rightarrow> u8 \<Rightarrow> u8 list" where
  "net_IPv4 a b c d = [a, b, c, d]"

definition IP_String :: "u8 list \<Rightarrow> string" where
  "IP_String os = join_with CHR ''.'' (map (\<lambda>x. utoa 10 (unat x)) os)"

definition ipv4FromNetworkOrder :: "u32 \<Rightarrow> u8 list" where
  "ipv4FromNetworkOrder v = net_IPv4 (ucast v) (ucast (drop_bit 8 v)) (ucast (drop_bit 16 v)) (ucast (drop_bit 24 v))"

text \<open>\<open>netip.Addr.As4\<close>, which panics on an address that is not IPv4, and \<open>As16\<close>.\<close>

fun As4 :: "addr \<Rightarrow> nat list res" where
  "As4 (Addr4 w) = Inr (octets4 w)"
| "As4 (Addr6 w z) = (if mapped4 w then Inr (octets4 (ucast w)) else Inl (Panic ''As4 called on IPv6 address''))"
| "As4 AddrZero = Inl (Panic ''As4 called on IP zero value'')"

fun As16 :: "addr \<Rightarrow> bytes16" where
  "As16 AddrZero = 0"
| "As16 (Addr4 w) = word_of_nat (65535 * 2 ^ 32 + unat w)"
| "As16 (Addr6 w z) = w"

text \<open>\<open>binary.LittleEndian.Uint32\<close> of four octets.\<close>

definition LittleEndian_Uint32 :: "nat list \<Rightarrow> u32" where
  "LittleEndian_Uint32 os = word_of_nat (be_nat 256 (rev os))"

definition ipv4Key :: "addr \<Rightarrow> u32 res" where
  "ipv4Key a = bindR (As4 a) (\<lambda>os. Inr (LittleEndian_Uint32 os))"

section \<open>Key types\<close>

datatype portKey = portKey (Dport: u16) (Protocol: u8)
datatype ipv6AddrKey = ipv6AddrKey (Addr16: bytes16)
datatype hostport4Key = hostport4Key (Daddr4: u32) (Dport4: u16) (Protocol4: u8)
datatype hostport6Key = hostport6Key (Daddr6: bytes16) (Dport6: u16) (Protocol6: u8)

datatype markPolicyKey = markPolicyKey (mpk_Ifindex: u32) (mpk_Mark: u32)
datatype portPolicyKey = portPolicyKey (ppk_Ifindex: u32) (ppk_Dport: u16) (ppk_Protocol: u8)
datatype v4HostPolicyKey = v4HostPolicyKey (v4pk_Ifindex: u32) (v4pk_Daddr: u32)
datatype v6HostPolicyKey = v6HostPolicyKey (v6pk_Ifindex: u32) (v6pk_Addr: bytes16)
datatype hostport4PolicyKey =
  hostport4PolicyKey (hp4_Ifindex: u32) (hp4_Daddr: u32) (hp4_Dport: u16) (hp4_Protocol: u8)
datatype hostport6PolicyKey =
  hostport6PolicyKey (hp6_Ifindex: u32) (hp6_Daddr: bytes16) (hp6_Dport: u16) (hp6_Protocol: u8)

definition ipv6Key :: "addr \<Rightarrow> ipv6AddrKey" where
  "ipv6Key a = ipv6AddrKey (As16 a)"

section \<open>Byte order\<close>

lemma ntohs_ntohs [simp, go_simps]: "ntohs (ntohs v) = v"
  unfolding ntohs_def by (rule bit_word_eqI) (auto simp: bit_simps)

lemma htons_inverse [simp, go_simps]: "ntohs (htons v) = v" "htons (ntohs v) = v" "htons (htons v) = v"
  by (simp_all add: htons_def)

lemma htons_eq_iff [simp]: "htons a = htons b \<longleftrightarrow> a = b"
  by (metis htons_inverse(3))

lemma htons_0 [simp]: "htons 0 = 0" "ntohs 0 = 0"
  by (simp_all add: htons_def ntohs_def)

lemma htons_eq_0 [simp]: "htons a = 0 \<longleftrightarrow> a = 0" "ntohs a = 0 \<longleftrightarrow> a = 0"
  by (metis htons_0 htons_inverse(1), metis htons_0(2) ntohs_ntohs)

lemma unat_ucast_byte: "unat (ucast (w :: u32) :: u8) = unat w mod 256"
  by (simp add: unsigned_ucast_eq take_bit_eq_mod)

lemma octets4_eq:
  "octets4 v = [unat v div 2 ^ 24 mod 256, unat v div 2 ^ 16 mod 256, unat v div 2 ^ 8 mod 256, unat v mod 256]"
proof -
  have "be_digits 256 (Suc (Suc (Suc (Suc 0)))) n = [n div 256 div 256 div 256 mod 256, n div 256 div 256 mod 256, n div 256 mod 256, n mod 256]" for n
    by simp
  moreover have "(4 :: nat) = Suc (Suc (Suc (Suc 0)))" by simp
  ultimately have "octets4 v = [unat v div 256 div 256 div 256 mod 256, unat v div 256 div 256 mod 256, unat v div 256 mod 256, unat v mod 256]"
    unfolding octets4_def by metis
  then show ?thesis
    by (simp flip: div_mult2_eq)
qed

lemma octets4_ipv4FromNetworkOrder: "map unat (ipv4FromNetworkOrder v) = rev (octets4 v)"
  by (simp add: ipv4FromNetworkOrder_def net_IPv4_def octets4_eq unat_ucast_byte unsigned_drop_bit_eq drop_bit_eq_div
      unat_div_distrib)

text \<open>Reversing the bytes of a word: the key of the address with octets \<open>octets4 w\<close>.\<close>

definition bswap32 :: "u32 \<Rightarrow> u32" where
  "bswap32 w = LittleEndian_Uint32 (octets4 w)"

lemma octets4_of: "length os = 4 \<Longrightarrow> \<forall>x \<in> set os. x < 256 \<Longrightarrow> octets4 (word_of_nat (be_nat 256 os)) = os"
proof -
  assume os: "length os = 4" "\<forall>x \<in> set os. x < 256"
  have "be_nat 256 os < 2 ^ LENGTH(32)"
    using be_nat_lt [OF os(2)] by (simp add: os)
  then show ?thesis
    using be_digits_be_nat [OF os(2)] by (simp add: octets4_def os unat_of_nat take_bit_nat_eq_self_iff)
qed

lemma octets4_bswap32: "octets4 (bswap32 w) = rev (octets4 w)"
  unfolding bswap32_def LittleEndian_Uint32_def by (rule octets4_of) (use octets4_lt in auto)

lemma octets4_inject [simp]: "octets4 a = octets4 b \<longleftrightarrow> a = b"
  by (metis octets4_word)

lemma bswap32_bswap32 [simp, go_simps]: "bswap32 (bswap32 w) = w"
  by (rule iffD1 [OF octets4_inject]) (simp only: octets4_bswap32 rev_rev_ident)

lemma bswap32_eq_iff [simp]: "bswap32 a = bswap32 b \<longleftrightarrow> a = b"
  by (metis bswap32_bswap32)

lemma ipv4Key_Addr4 [simp, go_simps]: "ipv4Key (Addr4 w) = Inr (bswap32 w)"
  by (simp add: ipv4Key_def bswap32_def)

lemma ipv4Key_Is4: "Is4 a \<Longrightarrow> \<exists>k. ipv4Key a = Inr k"
  by (cases a) auto

lemma IP_String_ipv4FromNetworkOrder [go_simps]: "IP_String (ipv4FromNetworkOrder v) = string4 (bswap32 v)"
proof -
  have "IP_String os = join_with CHR ''.'' (map (utoa 10) (map unat os))" for os
    by (simp add: IP_String_def comp_def)
  then show ?thesis
    by (simp add: octets4_ipv4FromNetworkOrder string4_def octets4_bswap32 del: map_map)
qed

text \<open>The inverse of \<open>ipv4Key\<close> up to the way an address is written.\<close>

lemma ipv4Key_roundtrip: "ipv4Key (Addr4 (bswap32 k)) = Inr k"
  by simp

section \<open>\<open>uniqueSorted\<close>\<close>

text \<open>
  The duplicates are dropped in place: \<open>out\<close> shares the array of \<open>values\<close>, but the
  loop writes no further than it has read, so the values it ranges over are the sorted ones.
\<close>

definition uniqueSorted :: "('a \<Rightarrow> 'a \<Rightarrow> bool) \<Rightarrow> 'a list \<Rightarrow> 'a list" where
  "uniqueSorted lt vs =
     (if vs = [] then []
      else foldl (\<lambda>out v. if out = [] \<or> last out \<noteq> v then out @ [v] else out) [] (sort_slice lt vs))"

lemma remdups_adj_snoc:
  "remdups_adj (xs @ [x]) = (if xs \<noteq> [] \<and> last xs = x then remdups_adj xs else remdups_adj xs @ [x])"
  by (induction xs rule: remdups_adj.induct) auto

lemma dedup_loop:
  "foldl (\<lambda>out v. if out = [] \<or> last out \<noteq> v then out @ [v] else out) [] xs = remdups_adj xs"
  by (induction xs rule: rev_induct) (auto simp: remdups_adj_snoc)

lemma uniqueSorted_eq: "uniqueSorted lt xs = remdups_adj (sort_slice lt xs)"
  by (simp add: uniqueSorted_def dedup_loop)

lemma set_uniqueSorted [simp]: "set (uniqueSorted lt xs) = set xs"
  by (simp add: uniqueSorted_eq)

lemma uniqueSorted_Nil [simp]: "uniqueSorted lt [] = []"
  by (simp add: uniqueSorted_def)

lemma uniqueSorted_eq_Nil [simp]: "uniqueSorted lt xs = [] \<longleftrightarrow> xs = []"
  by (metis set_empty set_uniqueSorted)

text \<open>
  What a comparison passed to \<open>uniqueSorted\<close> has to promise, and what the caller gets: a
  representative of the set of the values that does not depend on their order or repetition.
\<close>

locale key_order =
  fixes lt :: "'a \<Rightarrow> 'a \<Rightarrow> bool"
  assumes irrefl: "\<not> lt a a"
    and trans: "lt a b \<Longrightarrow> lt b c \<Longrightarrow> lt a c"
    and total: "a \<noteq> b \<Longrightarrow> lt a b \<or> lt b a"
begin

sublocale ord: linorder "\<lambda>a b. lt a b \<or> a = b" lt
  by unfold_locales (use irrefl trans total in blast)+

lemma insort_by_eq: "insort_by lt x xs = ord.insort x xs"
  by (induction xs) (use ord.not_less in auto)

lemma sort_slice_eq: "sort_slice lt xs = ord.sort xs"
  by (induction xs) (simp_all add: sort_slice_Cons insort_by_eq)

lemma sorted_wrt_remdups: "sorted_wrt (\<lambda>a b. lt a b \<or> a = b) xs \<Longrightarrow> sorted_wrt lt (remdups_adj xs)"
  by (induction xs rule: remdups_adj.induct) (use trans in auto)

lemma strictly_sorted: "sorted_wrt lt (uniqueSorted lt xs)"
  unfolding uniqueSorted_eq sort_slice_eq by (rule sorted_wrt_remdups) (rule ord.sorted_sort)

lemma sorted_unique: "sorted_wrt lt xs \<Longrightarrow> sorted_wrt lt ys \<Longrightarrow> set xs = set ys \<Longrightarrow> xs = ys"
  using ord.strict_sorted_equal by blast

lemma canonical_iff: "uniqueSorted lt xs = uniqueSorted lt ys \<longleftrightarrow> set xs = set ys"
  by (metis set_uniqueSorted sorted_unique strictly_sorted)

lemma canonical_id: "sorted_wrt lt xs \<Longrightarrow> uniqueSorted lt xs = xs"
  by (rule sorted_unique [OF strictly_sorted]) simp_all

lemma idempotent: "uniqueSorted lt (uniqueSorted lt xs) = uniqueSorted lt xs"
  by (rule canonical_id [OF strictly_sorted])

lemma distinct_canonical: "distinct (uniqueSorted lt xs)"
  using strictly_sorted ord.strict_sorted_iff by blast

end

section \<open>The orders of \<open>canonicalAllowRules\<close>\<close>

text \<open>
  A \<open>[16]byte\<close> is one number with its first byte most significant, so \<open>bytes.Compare\<close>
  on two of them compares the numbers.
\<close>

definition uint32_less :: "u32 \<Rightarrow> u32 \<Rightarrow> bool" where
  "uint32_less a b = (a < b)"

definition portKey_less :: "portKey \<Rightarrow> portKey \<Rightarrow> bool" where
  "portKey_less a b =
     (if Protocol a \<noteq> Protocol b then Protocol a < Protocol b
      else Dport a < Dport b)"

definition ipv6AddrKey_less :: "ipv6AddrKey \<Rightarrow> ipv6AddrKey \<Rightarrow> bool" where
  "ipv6AddrKey_less a b = (Addr16 a < Addr16 b)"

definition hostport4Key_less :: "hostport4Key \<Rightarrow> hostport4Key \<Rightarrow> bool" where
  "hostport4Key_less a b =
     (if Protocol4 a \<noteq> Protocol4 b then Protocol4 a < Protocol4 b
      else if Daddr4 a \<noteq> Daddr4 b then Daddr4 a < Daddr4 b
      else Dport4 a < Dport4 b)"

definition hostport6Key_less :: "hostport6Key \<Rightarrow> hostport6Key \<Rightarrow> bool" where
  "hostport6Key_less a b =
     (if Protocol6 a \<noteq> Protocol6 b then Protocol6 a < Protocol6 b
      else if Daddr6 a \<noteq> Daddr6 b then Daddr6 a < Daddr6 b
      else Dport6 a < Dport6 b)"

interpretation mark_order: key_order uint32_less
  by unfold_locales (auto simp: uint32_less_def)

lemma key_eq_iff:
  "p = q \<longleftrightarrow> Dport p = Dport q \<and> Protocol p = Protocol q"
  "a = b \<longleftrightarrow> Addr16 a = Addr16 b"
  "x = y \<longleftrightarrow> Daddr4 x = Daddr4 y \<and> Dport4 x = Dport4 y \<and> Protocol4 x = Protocol4 y"
  "u = v \<longleftrightarrow> Daddr6 u = Daddr6 v \<and> Dport6 u = Dport6 v \<and> Protocol6 u = Protocol6 v"
  by (auto intro: portKey.expand ipv6AddrKey.expand hostport4Key.expand hostport6Key.expand)

interpretation port_order: key_order portKey_less
  by unfold_locales (auto simp: portKey_less_def key_eq_iff split: if_splits)

interpretation v6host_order: key_order ipv6AddrKey_less
  by unfold_locales (auto simp: ipv6AddrKey_less_def key_eq_iff)

interpretation v4pair_order: key_order hostport4Key_less
  by unfold_locales (auto simp: hostport4Key_less_def key_eq_iff split: if_splits)

interpretation v6pair_order: key_order hostport6Key_less
  by unfold_locales (auto simp: hostport6Key_less_def key_eq_iff split: if_splits)

instantiation portKey :: linorder
begin

definition less_portKey :: "portKey \<Rightarrow> portKey \<Rightarrow> bool" where
  "less_portKey = portKey_less"

definition less_eq_portKey :: "portKey \<Rightarrow> portKey \<Rightarrow> bool" where
  "less_eq_portKey a b \<longleftrightarrow> portKey_less a b \<or> a = b"

instance
  by (standard; unfold less_portKey_def less_eq_portKey_def)
    (fact port_order.ord.less_le_not_le port_order.ord.order_refl port_order.ord.order_trans
      port_order.ord.order_antisym port_order.ord.linear)+

end

instantiation ipv6AddrKey :: linorder
begin

definition less_ipv6AddrKey :: "ipv6AddrKey \<Rightarrow> ipv6AddrKey \<Rightarrow> bool" where
  "less_ipv6AddrKey = ipv6AddrKey_less"

definition less_eq_ipv6AddrKey :: "ipv6AddrKey \<Rightarrow> ipv6AddrKey \<Rightarrow> bool" where
  "less_eq_ipv6AddrKey a b \<longleftrightarrow> ipv6AddrKey_less a b \<or> a = b"

instance
  by (standard; unfold less_ipv6AddrKey_def less_eq_ipv6AddrKey_def)
    (fact v6host_order.ord.less_le_not_le v6host_order.ord.order_refl v6host_order.ord.order_trans
      v6host_order.ord.order_antisym v6host_order.ord.linear)+

end

text \<open>
  The keys of the kernel maps are ordered by their fields, so that the library's sorted listing of
  a finite set of keys is a concrete order in which a map can be walked.
\<close>

instantiation markPolicyKey :: linorder
begin

definition less_markPolicyKey :: "markPolicyKey \<Rightarrow> markPolicyKey \<Rightarrow> bool" where
  "less_markPolicyKey a b \<longleftrightarrow> (mpk_Ifindex a, mpk_Mark a) < (mpk_Ifindex b, mpk_Mark b)"

definition less_eq_markPolicyKey :: "markPolicyKey \<Rightarrow> markPolicyKey \<Rightarrow> bool" where
  "less_eq_markPolicyKey a b \<longleftrightarrow> (mpk_Ifindex a, mpk_Mark a) \<le> (mpk_Ifindex b, mpk_Mark b)"

instance
  by (standard; unfold less_markPolicyKey_def less_eq_markPolicyKey_def)
    (auto intro: markPolicyKey.expand simp: less_le_not_le)

end

instantiation portPolicyKey :: linorder
begin

definition less_portPolicyKey :: "portPolicyKey \<Rightarrow> portPolicyKey \<Rightarrow> bool" where
  "less_portPolicyKey a b \<longleftrightarrow> (ppk_Ifindex a, ppk_Dport a, ppk_Protocol a) < (ppk_Ifindex b, ppk_Dport b, ppk_Protocol b)"

definition less_eq_portPolicyKey :: "portPolicyKey \<Rightarrow> portPolicyKey \<Rightarrow> bool" where
  "less_eq_portPolicyKey a b \<longleftrightarrow> (ppk_Ifindex a, ppk_Dport a, ppk_Protocol a) \<le> (ppk_Ifindex b, ppk_Dport b, ppk_Protocol b)"

instance
  by (standard; unfold less_portPolicyKey_def less_eq_portPolicyKey_def)
    (auto intro: portPolicyKey.expand simp: less_le_not_le)

end

instantiation v4HostPolicyKey :: linorder
begin

definition less_v4HostPolicyKey :: "v4HostPolicyKey \<Rightarrow> v4HostPolicyKey \<Rightarrow> bool" where
  "less_v4HostPolicyKey a b \<longleftrightarrow> (v4pk_Ifindex a, v4pk_Daddr a) < (v4pk_Ifindex b, v4pk_Daddr b)"

definition less_eq_v4HostPolicyKey :: "v4HostPolicyKey \<Rightarrow> v4HostPolicyKey \<Rightarrow> bool" where
  "less_eq_v4HostPolicyKey a b \<longleftrightarrow> (v4pk_Ifindex a, v4pk_Daddr a) \<le> (v4pk_Ifindex b, v4pk_Daddr b)"

instance
  by (standard; unfold less_v4HostPolicyKey_def less_eq_v4HostPolicyKey_def)
    (auto intro: v4HostPolicyKey.expand simp: less_le_not_le)

end

instantiation v6HostPolicyKey :: linorder
begin

definition less_v6HostPolicyKey :: "v6HostPolicyKey \<Rightarrow> v6HostPolicyKey \<Rightarrow> bool" where
  "less_v6HostPolicyKey a b \<longleftrightarrow> (v6pk_Ifindex a, v6pk_Addr a) < (v6pk_Ifindex b, v6pk_Addr b)"

definition less_eq_v6HostPolicyKey :: "v6HostPolicyKey \<Rightarrow> v6HostPolicyKey \<Rightarrow> bool" where
  "less_eq_v6HostPolicyKey a b \<longleftrightarrow> (v6pk_Ifindex a, v6pk_Addr a) \<le> (v6pk_Ifindex b, v6pk_Addr b)"

instance
  by (standard; unfold less_v6HostPolicyKey_def less_eq_v6HostPolicyKey_def)
    (auto intro: v6HostPolicyKey.expand simp: less_le_not_le)

end

instantiation hostport4PolicyKey :: linorder
begin

definition less_hostport4PolicyKey :: "hostport4PolicyKey \<Rightarrow> hostport4PolicyKey \<Rightarrow> bool" where
  "less_hostport4PolicyKey a b \<longleftrightarrow> (hp4_Ifindex a, hp4_Daddr a, hp4_Dport a, hp4_Protocol a) < (hp4_Ifindex b, hp4_Daddr b, hp4_Dport b, hp4_Protocol b)"

definition less_eq_hostport4PolicyKey :: "hostport4PolicyKey \<Rightarrow> hostport4PolicyKey \<Rightarrow> bool" where
  "less_eq_hostport4PolicyKey a b \<longleftrightarrow> (hp4_Ifindex a, hp4_Daddr a, hp4_Dport a, hp4_Protocol a) \<le> (hp4_Ifindex b, hp4_Daddr b, hp4_Dport b, hp4_Protocol b)"

instance
  by (standard; unfold less_hostport4PolicyKey_def less_eq_hostport4PolicyKey_def)
    (auto intro: hostport4PolicyKey.expand simp: less_le_not_le)

end

instantiation hostport6PolicyKey :: linorder
begin

definition less_hostport6PolicyKey :: "hostport6PolicyKey \<Rightarrow> hostport6PolicyKey \<Rightarrow> bool" where
  "less_hostport6PolicyKey a b \<longleftrightarrow> (hp6_Ifindex a, hp6_Daddr a, hp6_Dport a, hp6_Protocol a) < (hp6_Ifindex b, hp6_Daddr b, hp6_Dport b, hp6_Protocol b)"

definition less_eq_hostport6PolicyKey :: "hostport6PolicyKey \<Rightarrow> hostport6PolicyKey \<Rightarrow> bool" where
  "less_eq_hostport6PolicyKey a b \<longleftrightarrow> (hp6_Ifindex a, hp6_Daddr a, hp6_Dport a, hp6_Protocol a) \<le> (hp6_Ifindex b, hp6_Daddr b, hp6_Dport b, hp6_Protocol b)"

instance
  by (standard; unfold less_hostport6PolicyKey_def less_eq_hostport6PolicyKey_def)
    (auto intro: hostport6PolicyKey.expand simp: less_le_not_le)

end

end
