(* ===== verification/AllowRules.thy ===== *)
theory AllowRules
  imports Keys
begin

text \<open>
  Allow rules: the \<open>allowRules\<close> record of \<open>cmd/killswitch/types.go\<close>, how it is read
  from the strings of a configuration (\<open>allowed*Keys\<close>, \<open>allowRulesFromConfig\<close>), how the
  admin API prints it (\<open>apiAllowRules\<close> of \<open>effective_policy.go\<close>), and how rules are
  merged, made canonical and compared (\<open>bpf_maps.go\<close>). The abstract view of the rules is
  six sets and three switches (\<open>abs_rules\<close>).
\<close>

section \<open>Data\<close>

record allowRules =
  ar_AllowAll :: bool
  ar_EnableV4 :: bool
  ar_EnableV6 :: bool
  ar_AllowedMarks :: "u32 list"
  ar_AllowedPorts :: "portKey list"
  ar_AllowedV4Hosts :: "u32 list"
  ar_AllowedV6Hosts :: "ipv6AddrKey list"
  ar_AllowedV4Pairs :: "hostport4Key list"
  ar_AllowedV6Pairs :: "hostport6Key list"

definition no_rules :: allowRules where
  "no_rules = \<lparr>ar_AllowAll = False, ar_EnableV4 = False, ar_EnableV6 = False, ar_AllowedMarks = [],
     ar_AllowedPorts = [], ar_AllowedV4Hosts = [], ar_AllowedV6Hosts = [], ar_AllowedV4Pairs = [],
     ar_AllowedV6Pairs = []\<rparr>"

record triggerConfig =
  tc_InterfaceTypes :: "string list"
  tc_InterfaceNames :: "string list"
  tc_InterfaceRegexps :: "string list"
  tc_IPAddrs :: "string list"
  tc_SSIDs :: "string list"
  tc_BSSIDs :: "string list"
  tc_GatewayMACs :: "string list"

definition no_trigger :: triggerConfig where
  "no_trigger = \<lparr>tc_InterfaceTypes = [], tc_InterfaceNames = [], tc_InterfaceRegexps = [],
     tc_IPAddrs = [], tc_SSIDs = [], tc_BSSIDs = [], tc_GatewayMACs = []\<rparr>"

record rulesetConfig =
  rc_Disabled :: bool
  rc_Match :: string
  rc_MatchAll :: bool
  rc_Trigger :: triggerConfig
  rc_AllowAll :: bool
  rc_EnableV4 :: bool
  rc_EnableV6 :: bool
  rc_AllowedMarks :: "string list"
  rc_AllowedPorts :: "string list"
  rc_AllowedV4Hosts :: "string list"
  rc_AllowedV6Hosts :: "string list"
  rc_AllowedV4Pairs :: "string list"
  rc_AllowedV6Pairs :: "string list"

text \<open>\<open>adminapi.AllowRules\<close>.\<close>

record apiRules =
  aar_AllowAll :: bool
  aar_EnableV4 :: bool
  aar_EnableV6 :: bool
  aar_AllowedMarks :: "string list"
  aar_AllowedPorts :: "string list"
  aar_AllowedV4Hosts :: "string list"
  aar_AllowedV6Hosts :: "string list"
  aar_AllowedV4Pairs :: "string list"
  aar_AllowedV6Pairs :: "string list"

section \<open>Reading rules\<close>

definition allowedPortKeys :: "string list \<Rightarrow> portKey list res" where
  "allowedPortKeys values =
     bindR (ParseAllowedPorts values) (\<lambda>rules.
     Inr (map (\<lambda>rule. portKey (htons (pr_Port rule)) (pr_Protocol rule)) rules))"

definition allowedV4HostKeys :: "string list \<Rightarrow> u32 list res" where
  "allowedV4HostKeys values = bindR (ParseAllowedV4Hosts values) (mapR ipv4Key)"

definition allowedV6HostKeys :: "string list \<Rightarrow> ipv6AddrKey list res" where
  "allowedV6HostKeys values = bindR (ParseAllowedV6Hosts values) (\<lambda>addrs. Inr (map ipv6Key addrs))"

definition allowedV4HostportKeys :: "string list \<Rightarrow> hostport4Key list res" where
  "allowedV4HostportKeys values =
     bindR (ParseAllowedV4Hostports values) (mapR (\<lambda>rule.
       bindR (ipv4Key (fst (hpr_AddrPort rule))) (\<lambda>daddr.
       Inr (hostport4Key daddr (htons (snd (hpr_AddrPort rule))) (hpr_Protocol rule)))))"

definition allowedV6HostportKeys :: "string list \<Rightarrow> hostport6Key list res" where
  "allowedV6HostportKeys values =
     bindR (ParseAllowedV6Hostports values) (\<lambda>rules.
     Inr (map (\<lambda>rule. hostport6Key (Addr16 (ipv6Key (fst (hpr_AddrPort rule))))
                         (htons (snd (hpr_AddrPort rule))) (hpr_Protocol rule)) rules))"

definition allowRulesFromConfig :: "rulesetConfig \<Rightarrow> allowRules res" where
  "allowRulesFromConfig cfg =
     bindR (ParseAllowedMarks (rc_AllowedMarks cfg)) (\<lambda>marks.
     bindR (allowedPortKeys (rc_AllowedPorts cfg)) (\<lambda>ports.
     bindR (allowedV4HostKeys (rc_AllowedV4Hosts cfg)) (\<lambda>v4hosts.
     bindR (allowedV6HostKeys (rc_AllowedV6Hosts cfg)) (\<lambda>v6hosts.
     bindR (allowedV4HostportKeys (rc_AllowedV4Pairs cfg)) (\<lambda>v4pairs.
     bindR (allowedV6HostportKeys (rc_AllowedV6Pairs cfg)) (\<lambda>v6pairs.
     Inr \<lparr>ar_AllowAll = rc_AllowAll cfg, ar_EnableV4 = rc_EnableV4 cfg, ar_EnableV6 = rc_EnableV6 cfg,
          ar_AllowedMarks = marks, ar_AllowedPorts = ports, ar_AllowedV4Hosts = v4hosts,
          ar_AllowedV6Hosts = v6hosts, ar_AllowedV4Pairs = v4pairs, ar_AllowedV6Pairs = v6pairs\<rparr>))))))"

text \<open>
  \<open>allowRulesFromAPI(&policy, nil)\<close>: the branch for a decoded policy. (The branch that decodes
  the policy first is in theory \<open>AdminMutation\<close>.)
\<close>

definition config_of_api :: "apiRules \<Rightarrow> rulesetConfig" where
  "config_of_api api =
     \<lparr>rc_Disabled = False, rc_Match = [], rc_MatchAll = False, rc_Trigger = no_trigger,
      rc_AllowAll = aar_AllowAll api, rc_EnableV4 = aar_EnableV4 api, rc_EnableV6 = aar_EnableV6 api,
      rc_AllowedMarks = aar_AllowedMarks api, rc_AllowedPorts = aar_AllowedPorts api,
      rc_AllowedV4Hosts = aar_AllowedV4Hosts api, rc_AllowedV6Hosts = aar_AllowedV6Hosts api,
      rc_AllowedV4Pairs = aar_AllowedV4Pairs api, rc_AllowedV6Pairs = aar_AllowedV6Pairs api\<rparr>"

definition allowRulesFromAPI_policy :: "apiRules \<Rightarrow> allowRules res" where
  "allowRulesFromAPI_policy api = allowRulesFromConfig (config_of_api api)"

section \<open>Printing rules\<close>

definition apiProtocol :: "u8 \<Rightarrow> string" where
  "apiProtocol protocol =
     (if protocol = IPProtoTCP then ''tcp''
      else if protocol = IPProtoUDP then ''udp''
      else ''proto'' @ utoa 10 (unat protocol))"

definition apiAllowedMarks :: "u32 list \<Rightarrow> string list" where
  "apiAllowedMarks values = map (\<lambda>v. ''0x'' @ utoa 16 (unat v)) values"

definition apiAllowedPorts :: "portKey list \<Rightarrow> string list" where
  "apiAllowedPorts values =
     map (\<lambda>v. apiProtocol (Protocol v) @ ''/'' @ utoa 10 (unat (ntohs (Dport v)))) values"

definition apiAllowedV4Hosts :: "u32 list \<Rightarrow> string list" where
  "apiAllowedV4Hosts values = map (\<lambda>v. IP_String (ipv4FromNetworkOrder v)) values"

definition apiAllowedV6Hosts :: "ipv6AddrKey list \<Rightarrow> string list" where
  "apiAllowedV6Hosts values = map (\<lambda>v. addr_String (Addr6 (Addr16 v) [])) values"

definition apiAllowedV4Pairs :: "hostport4Key list \<Rightarrow> string list" where
  "apiAllowedV4Pairs values =
     map (\<lambda>v. apiProtocol (Protocol4 v) @ ''/'' @ IP_String (ipv4FromNetworkOrder (Daddr4 v)) @ '':'' @
               utoa 10 (unat (ntohs (Dport4 v)))) values"

definition apiAllowedV6Pairs :: "hostport6Key list \<Rightarrow> string list" where
  "apiAllowedV6Pairs values =
     map (\<lambda>v. apiProtocol (Protocol6 v) @ ''/'' @ addrPort_String (Addr6 (Daddr6 v) [], ntohs (Dport6 v))) values"

definition apiAllowRules :: "allowRules \<Rightarrow> apiRules" where
  "apiAllowRules rules =
     \<lparr>aar_AllowAll = ar_AllowAll rules, aar_EnableV4 = ar_EnableV4 rules, aar_EnableV6 = ar_EnableV6 rules,
      aar_AllowedMarks = apiAllowedMarks (ar_AllowedMarks rules),
      aar_AllowedPorts = apiAllowedPorts (ar_AllowedPorts rules),
      aar_AllowedV4Hosts = apiAllowedV4Hosts (ar_AllowedV4Hosts rules),
      aar_AllowedV6Hosts = apiAllowedV6Hosts (ar_AllowedV6Hosts rules),
      aar_AllowedV4Pairs = apiAllowedV4Pairs (ar_AllowedV4Pairs rules),
      aar_AllowedV6Pairs = apiAllowedV6Pairs (ar_AllowedV6Pairs rules)\<rparr>"

definition apiAddrs :: "addr list \<Rightarrow> string list" where
  "apiAddrs values = map addr_String values"

section \<open>Merging and comparing\<close>

definition canonicalAllowRules :: "allowRules \<Rightarrow> allowRules" where
  "canonicalAllowRules rules = rules\<lparr>
     ar_AllowedMarks := uniqueSorted uint32_less (ar_AllowedMarks rules),
     ar_AllowedPorts := uniqueSorted portKey_less (ar_AllowedPorts rules),
     ar_AllowedV4Hosts := uniqueSorted uint32_less (ar_AllowedV4Hosts rules),
     ar_AllowedV6Hosts := uniqueSorted ipv6AddrKey_less (ar_AllowedV6Hosts rules),
     ar_AllowedV4Pairs := uniqueSorted hostport4Key_less (ar_AllowedV4Pairs rules),
     ar_AllowedV6Pairs := uniqueSorted hostport6Key_less (ar_AllowedV6Pairs rules)\<rparr>"

definition mergeAllowRules :: "allowRules \<Rightarrow> allowRules \<Rightarrow> allowRules" where
  "mergeAllowRules base overlay = canonicalAllowRules
     \<lparr>ar_AllowAll = (ar_AllowAll base \<or> ar_AllowAll overlay),
      ar_EnableV4 = (ar_EnableV4 base \<or> ar_EnableV4 overlay),
      ar_EnableV6 = (ar_EnableV6 base \<or> ar_EnableV6 overlay),
      ar_AllowedMarks = ar_AllowedMarks base @ ar_AllowedMarks overlay,
      ar_AllowedPorts = ar_AllowedPorts base @ ar_AllowedPorts overlay,
      ar_AllowedV4Hosts = ar_AllowedV4Hosts base @ ar_AllowedV4Hosts overlay,
      ar_AllowedV6Hosts = ar_AllowedV6Hosts base @ ar_AllowedV6Hosts overlay,
      ar_AllowedV4Pairs = ar_AllowedV4Pairs base @ ar_AllowedV4Pairs overlay,
      ar_AllowedV6Pairs = ar_AllowedV6Pairs base @ ar_AllowedV6Pairs overlay\<rparr>"

text \<open>
  \<open>reflect.DeepEqual\<close> on the two canonical values: every empty slice of a canonical value is
  nil, so that equality of the records is equality for \<open>DeepEqual\<close>.
\<close>

definition allowRulesEqual :: "allowRules \<Rightarrow> allowRules \<Rightarrow> bool" where
  "allowRulesEqual a b \<longleftrightarrow> canonicalAllowRules a = canonicalAllowRules b"

section \<open>The abstract view\<close>

text \<open>What the rules permit, without the order and the repetitions of the slices.\<close>

record rule_sets =
  rs_all :: bool
  rs_v4 :: bool
  rs_v6 :: bool
  rs_marks :: "u32 set"
  rs_ports :: "portKey set"
  rs_v4hosts :: "u32 set"
  rs_v6hosts :: "ipv6AddrKey set"
  rs_v4pairs :: "hostport4Key set"
  rs_v6pairs :: "hostport6Key set"

definition abs_rules :: "allowRules \<Rightarrow> rule_sets" where
  "abs_rules r = \<lparr>rs_all = ar_AllowAll r, rs_v4 = ar_EnableV4 r, rs_v6 = ar_EnableV6 r,
     rs_marks = set (ar_AllowedMarks r), rs_ports = set (ar_AllowedPorts r),
     rs_v4hosts = set (ar_AllowedV4Hosts r), rs_v6hosts = set (ar_AllowedV6Hosts r),
     rs_v4pairs = set (ar_AllowedV4Pairs r), rs_v6pairs = set (ar_AllowedV6Pairs r)\<rparr>"

definition join_rules :: "rule_sets \<Rightarrow> rule_sets \<Rightarrow> rule_sets" where
  "join_rules a b = \<lparr>rs_all = (rs_all a \<or> rs_all b), rs_v4 = (rs_v4 a \<or> rs_v4 b), rs_v6 = (rs_v6 a \<or> rs_v6 b),
     rs_marks = rs_marks a \<union> rs_marks b, rs_ports = rs_ports a \<union> rs_ports b,
     rs_v4hosts = rs_v4hosts a \<union> rs_v4hosts b, rs_v6hosts = rs_v6hosts a \<union> rs_v6hosts b,
     rs_v4pairs = rs_v4pairs a \<union> rs_v4pairs b, rs_v6pairs = rs_v6pairs a \<union> rs_v6pairs b\<rparr>"

definition rules_le :: "rule_sets \<Rightarrow> rule_sets \<Rightarrow> bool" where
  "rules_le a b \<longleftrightarrow> (rs_all a \<longrightarrow> rs_all b) \<and> (rs_v4 a \<longrightarrow> rs_v4 b) \<and> (rs_v6 a \<longrightarrow> rs_v6 b) \<and>
     rs_marks a \<subseteq> rs_marks b \<and> rs_ports a \<subseteq> rs_ports b \<and>
     rs_v4hosts a \<subseteq> rs_v4hosts b \<and> rs_v6hosts a \<subseteq> rs_v6hosts b \<and>
     rs_v4pairs a \<subseteq> rs_v4pairs b \<and> rs_v6pairs a \<subseteq> rs_v6pairs b"

named_theorems rules_simps \<open>the fields of abstract and canonical rules\<close>

lemma abs_rules_simps [simp, rules_simps]:
  "rs_all (abs_rules r) = ar_AllowAll r" "rs_v4 (abs_rules r) = ar_EnableV4 r"
  "rs_v6 (abs_rules r) = ar_EnableV6 r" "rs_marks (abs_rules r) = set (ar_AllowedMarks r)"
  "rs_ports (abs_rules r) = set (ar_AllowedPorts r)"
  "rs_v4hosts (abs_rules r) = set (ar_AllowedV4Hosts r)"
  "rs_v6hosts (abs_rules r) = set (ar_AllowedV6Hosts r)"
  "rs_v4pairs (abs_rules r) = set (ar_AllowedV4Pairs r)"
  "rs_v6pairs (abs_rules r) = set (ar_AllowedV6Pairs r)"
  by (simp_all add: abs_rules_def)

lemma rules_eqI:
  fixes a b :: rule_sets
  assumes "rs_all a = rs_all b" "rs_v4 a = rs_v4 b" "rs_v6 a = rs_v6 b"
    "rs_marks a = rs_marks b" "rs_ports a = rs_ports b" "rs_v4hosts a = rs_v4hosts b"
    "rs_v6hosts a = rs_v6hosts b" "rs_v4pairs a = rs_v4pairs b" "rs_v6pairs a = rs_v6pairs b"
  shows "a = b"
  using assms by (cases a; cases b) simp

lemma abs_canonical [simp, rules_simps]: "abs_rules (canonicalAllowRules r) = abs_rules r"
  by (rule rules_eqI) (simp_all add: canonicalAllowRules_def)

lemma abs_merge [simp, rules_simps]: "abs_rules (mergeAllowRules a b) = join_rules (abs_rules a) (abs_rules b)"
  unfolding mergeAllowRules_def abs_canonical by (simp add: abs_rules_def join_rules_def)

lemma join_rules_comm: "join_rules a b = join_rules b a"
  by (auto simp: join_rules_def)

lemma join_rules_assoc: "join_rules (join_rules a b) c = join_rules a (join_rules b c)"
  by (auto simp: join_rules_def)

lemma join_rules_left_comm: "join_rules a (join_rules b c) = join_rules b (join_rules a c)"
  by (auto simp: join_rules_def)

lemma join_rules_idem [simp]: "join_rules a a = a"
  by (simp add: join_rules_def)

lemmas join_rules_ac = join_rules_assoc join_rules_comm join_rules_left_comm

lemma rules_le_refl [simp, intro]: "rules_le a a"
  by (simp add: rules_le_def)

lemma rules_le_trans: "rules_le a b \<Longrightarrow> rules_le b c \<Longrightarrow> rules_le a c"
  by (auto simp: rules_le_def)

lemma rules_le_antisym: "rules_le a b \<Longrightarrow> rules_le b a \<Longrightarrow> a = b"
  unfolding rules_le_def by (intro rules_eqI) blast+

lemma join_rules_upper [intro]: "rules_le a (join_rules a b)" "rules_le b (join_rules a b)"
  by (auto simp: rules_le_def join_rules_def)

lemma join_rules_le_iff: "rules_le (join_rules a b) c \<longleftrightarrow> rules_le a c \<and> rules_le b c"
  by (auto simp: rules_le_def join_rules_def)

lemma canonical_eq_iff: "canonicalAllowRules a = canonicalAllowRules b \<longleftrightarrow> abs_rules a = abs_rules b"
proof
  assume "abs_rules a = abs_rules b"
  then show "canonicalAllowRules a = canonicalAllowRules b"
    by (cases a; cases b) (simp add: canonicalAllowRules_def abs_rules_def mark_order.canonical_iff
        port_order.canonical_iff v6host_order.canonical_iff v4pair_order.canonical_iff v6pair_order.canonical_iff)
qed (metis abs_canonical)

lemma canonical_idem [simp]: "canonicalAllowRules (canonicalAllowRules r) = canonicalAllowRules r"
  by (simp add: canonical_eq_iff)

lemma canonical_merge [simp]: "canonicalAllowRules (mergeAllowRules a b) = mergeAllowRules a b"
  by (simp add: mergeAllowRules_def)

lemma mergeAllowRules_cong:
  "abs_rules a = abs_rules a' \<Longrightarrow> abs_rules b = abs_rules b' \<Longrightarrow> mergeAllowRules a b = mergeAllowRules a' b'"
  by (metis abs_merge canonical_eq_iff canonical_merge)

lemma canonical_sorted:
  "sorted_wrt uint32_less (ar_AllowedMarks (canonicalAllowRules r))"
  "sorted_wrt portKey_less (ar_AllowedPorts (canonicalAllowRules r))"
  "sorted_wrt uint32_less (ar_AllowedV4Hosts (canonicalAllowRules r))"
  "sorted_wrt ipv6AddrKey_less (ar_AllowedV6Hosts (canonicalAllowRules r))"
  "sorted_wrt hostport4Key_less (ar_AllowedV4Pairs (canonicalAllowRules r))"
  "sorted_wrt hostport6Key_less (ar_AllowedV6Pairs (canonicalAllowRules r))"
  by (simp_all add: canonicalAllowRules_def mark_order.strictly_sorted port_order.strictly_sorted
      v6host_order.strictly_sorted v4pair_order.strictly_sorted v6pair_order.strictly_sorted)

section \<open>Reading back what was printed\<close>

text \<open>
  The contract between the parsers of the rule lists and the printers of the admin API:
  printed keys are read back as they were, and what is read can be printed and read again.
\<close>

locale text_codec =
  fixes parse :: "string list \<Rightarrow> 'k list res"
    and print :: "'k list \<Rightarrow> string list"
    and ok :: "'k \<Rightarrow> bool"
  assumes roundtrip: "\<forall>k \<in> set ks. ok k \<Longrightarrow> parse (print ks) = Inr ks"
    and sound: "parse ss = Inr ks \<Longrightarrow> \<forall>k \<in> set ks. ok k"
begin

lemma reparse: "parse ss = Inr ks \<Longrightarrow> parse (print ks) = Inr ks"
  using roundtrip sound by blast

lemma print_inj: "\<forall>k \<in> set ks. ok k \<Longrightarrow> \<forall>k \<in> set ls. ok k \<Longrightarrow> print ks = print ls \<Longrightarrow> ks = ls"
  by (metis roundtrip sum.inject(2))

lemma accepted_iff: "(\<exists>ss. parse ss = Inr ks) \<longleftrightarrow> (\<forall>k \<in> set ks. ok k)"
  using roundtrip sound by blast

end

definition port_ok :: "portKey \<Rightarrow> bool" where
  "port_ok k \<longleftrightarrow> rule_protocol (Protocol k) \<and> Dport k \<noteq> 0"

definition v6host_ok :: "ipv6AddrKey \<Rightarrow> bool" where
  "v6host_ok k \<longleftrightarrow> \<not> mapped4 (Addr16 k)"

definition v4pair_ok :: "hostport4Key \<Rightarrow> bool" where
  "v4pair_ok k \<longleftrightarrow> rule_protocol (Protocol4 k)"

definition v6pair_ok :: "hostport6Key \<Rightarrow> bool" where
  "v6pair_ok k \<longleftrightarrow> rule_protocol (Protocol6 k) \<and> \<not> mapped4 (Daddr6 k)"

lemma parseProtocol_api: "rule_protocol p \<Longrightarrow> parseProtocol (apiProtocol p) = Inr p"
  by (auto simp: rule_protocol_def apiProtocol_def parseProtocol_def IPProtoTCP_def IPProtoUDP_def
      strings_ToLower_def lower_char_def)

lemma apiProtocol_slash: "rule_protocol p \<Longrightarrow> CHR ''/'' \<notin> set (apiProtocol p)"
  by (auto simp: rule_protocol_def apiProtocol_def)

lemma addr_String_v6: "\<not> mapped4 w \<Longrightarrow> addr_String (Addr6 w []) = string6 w"
  by (simp add: addr_String.simps)

lemma addrPort_String_v6: "\<not> mapped4 w \<Longrightarrow> addrPort_String (Addr6 w [], p) = CHR ''['' # string6 w @ '']:'' @ utoa 10 (unat p)"
  by (simp add: addrPort_String_def)

lemma parseMark_print: "strconv_ParseUint (''0x'' @ utoa 16 (unat (m :: u32))) 0 32 = Inr (unat m)"
  by (rule ParseUint_hex) (rule order.strict_trans2 [OF unsigned_less], simp)

lemma unat_inverse: "word_of_nat (unat (w :: 'a :: len word)) = w"
  by simp

interpretation marks_codec: text_codec ParseAllowedMarks apiAllowedMarks "\<lambda>_. True"
proof unfold_locales
  fix ks :: "u32 list"
  show "ParseAllowedMarks (apiAllowedMarks ks) = Inr ks"
    unfolding ParseAllowedMarks_def apiAllowedMarks_def
    by (rule mapR_roundtrip) (simp only: parseMark_print wrapR_simps bindR_simps unat_inverse)
qed simp

interpretation ports_codec: text_codec allowedPortKeys apiAllowedPorts port_ok
proof unfold_locales
  fix ks :: "portKey list"
  assume ok: "\<forall>k \<in> set ks. port_ok k"
  have "ParseAllowedPorts (apiAllowedPorts ks) = Inr (map (\<lambda>k. \<lparr>pr_Protocol = Protocol k, pr_Port = ntohs (Dport k)\<rparr>) ks)"
    using ok unfolding ParseAllowedPorts_def apiAllowedPorts_def
    by (auto simp: res_simps list_all2_conv_all_nth port_ok_def parseProtocolPort_def strings_Cut_notin
        apiProtocol_slash parseProtocol_api parsePort_utoa all_set_conv_all_nth)
  then show "allowedPortKeys (apiAllowedPorts ks) = Inr ks"
    by (simp add: allowedPortKeys_def comp_def)
next
  fix ss ks
  assume "allowedPortKeys ss = Inr ks"
  then obtain rules where rules: "ParseAllowedPorts ss = Inr rules"
    "ks = map (\<lambda>rule. portKey (htons (pr_Port rule)) (pr_Protocol rule)) rules"
    by (auto simp: allowedPortKeys_def res_simps)
  from rules(1) have "\<forall>r \<in> set rules. rule_protocol (pr_Protocol r) \<and> pr_Port r \<noteq> 0"
    unfolding ParseAllowedPorts_def
    by (rule mapR_pred) (auto simp: res_simps parseProtocolPort_def split: option.splits
        dest: parseProtocol_ok parsePort_nonzero)
  with rules(2) show "\<forall>k \<in> set ks. port_ok k"
    by (auto simp: port_ok_def)
qed

lemma mapR_map: "mapR f (map g xs) = mapR (\<lambda>x. f (g x)) xs"
  by (induction xs) simp_all

lemma mapR_total: "(\<And>x. x \<in> set xs \<Longrightarrow> f x = Inr (g x)) \<Longrightarrow> mapR f xs = Inr (map g xs)"
  by (induction xs) simp_all

lemma parseAddr_string4: "parseAddr (string4 w) = Inr (Addr4 w)"
  by (simp add: parseAddr_def ParseAddr_string4)

lemma parseAddr_string6: "\<not> mapped4 w \<Longrightarrow> parseAddr (string6 w) = Inr (Addr6 w [])"
  by (simp add: parseAddr_def ParseAddr_string6)

interpretation v4hosts_codec: text_codec allowedV4HostKeys apiAllowedV4Hosts "\<lambda>_. True"
proof unfold_locales
  fix ks :: "u32 list"
  have "ParseAllowedV4Hosts (apiAllowedV4Hosts ks) = Inr (map (\<lambda>k. Addr4 (bswap32 k)) ks)"
    unfolding ParseAllowedV4Hosts_def apiAllowedV4Hosts_def mapR_map
    by (rule mapR_total) (simp add: IP_String_ipv4FromNetworkOrder parseAddr_string4)
  then show "allowedV4HostKeys (apiAllowedV4Hosts ks) = Inr ks"
    by (simp add: allowedV4HostKeys_def mapR_map mapR_total)
qed simp

lemma not_Is4_Unmap: "Is6 a \<Longrightarrow> \<not> Is4In6 a \<Longrightarrow> \<not> mapped4 (As16 a)"
  by (cases a) auto

interpretation v6hosts_codec: text_codec allowedV6HostKeys apiAllowedV6Hosts v6host_ok
proof unfold_locales
  fix ks :: "ipv6AddrKey list"
  assume "\<forall>k \<in> set ks. v6host_ok k"
  then have "ParseAllowedV6Hosts (apiAllowedV6Hosts ks) = Inr (map (\<lambda>k. Addr6 (Addr16 k) []) ks)"
    unfolding ParseAllowedV6Hosts_def apiAllowedV6Hosts_def mapR_map
    by (intro mapR_total) (simp add: v6host_ok_def addr_String_v6 parseAddr_string6)
  then show "allowedV6HostKeys (apiAllowedV6Hosts ks) = Inr ks"
    by (simp add: allowedV6HostKeys_def ipv6Key_def comp_def)
next
  fix ss ks
  assume "allowedV6HostKeys ss = Inr ks"
  then obtain addrs where addrs: "ParseAllowedV6Hosts ss = Inr addrs" "ks = map ipv6Key addrs"
    by (auto simp: allowedV6HostKeys_def res_simps)
  from addrs(1) have "\<forall>a \<in> set addrs. Is6 a \<and> \<not> Is4In6 a"
    unfolding ParseAllowedV6Hosts_def by (rule mapR_pred) (auto simp: res_simps)
  with addrs(2) show "\<forall>k \<in> set ks. v6host_ok k"
    by (auto simp: v6host_ok_def ipv6Key_def not_Is4_Unmap)
qed

lemma parseProtocolAddrPort_ok: "parseProtocolAddrPort v = Inr r \<Longrightarrow> rule_protocol (hpr_Protocol r)"
  by (auto simp: parseProtocolAddrPort_def res_simps split: option.splits dest!: parseProtocol_ok)

interpretation v4pairs_codec: text_codec allowedV4HostportKeys apiAllowedV4Pairs v4pair_ok
proof unfold_locales
  fix ks :: "hostport4Key list"
  assume "\<forall>k \<in> set ks. v4pair_ok k"
  then have "ParseAllowedV4Hostports (apiAllowedV4Pairs ks) =
      Inr (map (\<lambda>k. \<lparr>hpr_Protocol = Protocol4 k, hpr_AddrPort = (Addr4 (bswap32 (Daddr4 k)), ntohs (Dport4 k))\<rparr>) ks)"
    unfolding ParseAllowedV4Hostports_def apiAllowedV4Pairs_def mapR_map
    by (intro mapR_total) (simp add: v4pair_ok_def parseProtocolAddrPort_def strings_Cut_notin apiProtocol_slash
        parseProtocol_api IP_String_ipv4FromNetworkOrder ParseAddrPort_v4)
  then show "allowedV4HostportKeys (apiAllowedV4Pairs ks) = Inr ks"
    by (simp add: allowedV4HostportKeys_def mapR_map mapR_total)
next
  fix ss ks
  assume "allowedV4HostportKeys ss = Inr ks"
  then obtain rules where rules: "ParseAllowedV4Hostports ss = Inr rules"
    "list_all2 (\<lambda>r k. \<exists>d. ipv4Key (fst (hpr_AddrPort r)) = Inr d \<and>
       hostport4Key d (htons (snd (hpr_AddrPort r))) (hpr_Protocol r) = k) rules ks"
    by (auto simp: allowedV4HostportKeys_def res_simps)
  from rules(1) have "\<forall>r \<in> set rules. rule_protocol (hpr_Protocol r)"
    unfolding ParseAllowedV4Hostports_def
    by (rule mapR_pred) (auto simp: res_simps dest!: parseProtocolAddrPort_ok)
  with rules(2) show "\<forall>k \<in> set ks. v4pair_ok k"
    by (auto simp: v4pair_ok_def list_all2_conv_all_nth all_set_conv_all_nth) (metis hostport4Key.sel(3))
qed

interpretation v6pairs_codec: text_codec allowedV6HostportKeys apiAllowedV6Pairs v6pair_ok
proof unfold_locales
  fix ks :: "hostport6Key list"
  assume "\<forall>k \<in> set ks. v6pair_ok k"
  then have "ParseAllowedV6Hostports (apiAllowedV6Pairs ks) =
      Inr (map (\<lambda>k. \<lparr>hpr_Protocol = Protocol6 k, hpr_AddrPort = (Addr6 (Daddr6 k) [], ntohs (Dport6 k))\<rparr>) ks)"
    unfolding ParseAllowedV6Hostports_def apiAllowedV6Pairs_def mapR_map
    by (intro mapR_total) (simp add: v6pair_ok_def parseProtocolAddrPort_def strings_Cut_notin apiProtocol_slash
        parseProtocol_api addrPort_String_v6 ParseAddrPort_v6 [simplified])
  then show "allowedV6HostportKeys (apiAllowedV6Pairs ks) = Inr ks"
    by (simp add: allowedV6HostportKeys_def ipv6Key_def comp_def)
next
  fix ss ks
  assume "allowedV6HostportKeys ss = Inr ks"
  then obtain rules where rules: "ParseAllowedV6Hostports ss = Inr rules"
    "ks = map (\<lambda>rule. hostport6Key (Addr16 (ipv6Key (fst (hpr_AddrPort rule))))
                 (htons (snd (hpr_AddrPort rule))) (hpr_Protocol rule)) rules"
    by (auto simp: allowedV6HostportKeys_def res_simps)
  from rules(1) have "\<forall>r \<in> set rules. rule_protocol (hpr_Protocol r) \<and>
      Is6 (fst (hpr_AddrPort r)) \<and> \<not> Is4In6 (fst (hpr_AddrPort r))"
    unfolding ParseAllowedV6Hostports_def
    by (rule mapR_pred) (auto simp: res_simps dest!: parseProtocolAddrPort_ok)
  with rules(2) show "\<forall>k \<in> set ks. v6pair_ok k"
    by (auto simp: v6pair_ok_def ipv6Key_def not_Is4_Unmap)
qed

section \<open>What a reader of rules establishes\<close>

definition rules_ok :: "allowRules \<Rightarrow> bool" where
  "rules_ok r \<longleftrightarrow> list_all port_ok (ar_AllowedPorts r) \<and> list_all v6host_ok (ar_AllowedV6Hosts r) \<and>
     list_all v4pair_ok (ar_AllowedV4Pairs r) \<and> list_all v6pair_ok (ar_AllowedV6Pairs r)"

lemma rules_ok_no_rules [simp]: "rules_ok no_rules"
  by (simp add: rules_ok_def no_rules_def)

lemma allowRulesFromConfig_Inr [res_simps]:
  "allowRulesFromConfig cfg = Inr r \<longleftrightarrow>
     ar_AllowAll r = rc_AllowAll cfg \<and> ar_EnableV4 r = rc_EnableV4 cfg \<and> ar_EnableV6 r = rc_EnableV6 cfg \<and>
     ParseAllowedMarks (rc_AllowedMarks cfg) = Inr (ar_AllowedMarks r) \<and>
     allowedPortKeys (rc_AllowedPorts cfg) = Inr (ar_AllowedPorts r) \<and>
     allowedV4HostKeys (rc_AllowedV4Hosts cfg) = Inr (ar_AllowedV4Hosts r) \<and>
     allowedV6HostKeys (rc_AllowedV6Hosts cfg) = Inr (ar_AllowedV6Hosts r) \<and>
     allowedV4HostportKeys (rc_AllowedV4Pairs cfg) = Inr (ar_AllowedV4Pairs r) \<and>
     allowedV6HostportKeys (rc_AllowedV6Pairs cfg) = Inr (ar_AllowedV6Pairs r)"
  by (cases r) (auto simp: allowRulesFromConfig_def bindR_Inr)

lemma allowRulesFromConfig_ok: "allowRulesFromConfig cfg = Inr r \<Longrightarrow> rules_ok r"
  unfolding allowRulesFromConfig_Inr rules_ok_def list_all_iff
  using ports_codec.sound v6hosts_codec.sound v4pairs_codec.sound v6pairs_codec.sound by blast

lemma rules_ok_canonical [simp]: "rules_ok (canonicalAllowRules r) = rules_ok r"
  by (simp add: rules_ok_def canonicalAllowRules_def list_all_iff)

lemma rules_ok_merge: "rules_ok a \<Longrightarrow> rules_ok b \<Longrightarrow> rules_ok (mergeAllowRules a b)"
  unfolding mergeAllowRules_def rules_ok_canonical by (simp add: rules_ok_def)

text \<open>
  No panic escapes: the only call in the readers that can panic is \<open>As4\<close>, behind the
  \<open>Is4\<close> check of the policy parsers.
\<close>

fun no_panic :: "'a res \<Rightarrow> bool" where
  "no_panic (Inl (Panic m)) = False"
| "no_panic r = True"

lemma no_panic_wrapR [simp]: "no_panic (wrapR f a m)"
  by (cases m) auto

lemma no_panic_bindR: "no_panic m \<Longrightarrow> (\<And>x. m = Inr x \<Longrightarrow> no_panic (f x)) \<Longrightarrow> no_panic (bindR m f)"
  by (cases m) (auto elim: no_panic.elims)

lemma no_panic_guardR [simp]: "(\<And>m. e \<noteq> Panic m) \<Longrightarrow> no_panic (guardR b e)"
  by (cases e) (auto simp: guardR_def)

lemma no_panic_mapR: "(\<And>x. x \<in> set xs \<Longrightarrow> no_panic (f x)) \<Longrightarrow> no_panic (mapR f xs)"
  by (induction xs) (auto intro!: no_panic_bindR)

lemma no_panic_ipv4Key: "Is4 a \<Longrightarrow> no_panic (ipv4Key a)"
  by (cases a) auto

lemma no_panic_parsers:
  "no_panic (ParseAllowedMarks vs)" "no_panic (ParseAllowedPorts vs)"
  "no_panic (ParseAllowedV4Hosts vs)" "no_panic (ParseAllowedV6Hosts vs)"
  "no_panic (ParseAllowedV4Hostports vs)" "no_panic (ParseAllowedV6Hostports vs)"
  unfolding ParseAllowedMarks_def ParseAllowedPorts_def ParseAllowedV4Hosts_def ParseAllowedV6Hosts_def
    ParseAllowedV4Hostports_def ParseAllowedV6Hostports_def
  by (auto intro!: no_panic_mapR no_panic_bindR)

lemma no_panic_v4:
  "no_panic (allowedV4HostKeys vs)" "no_panic (allowedV4HostportKeys ws)"
proof -
  have "ParseAllowedV4Hosts vs = Inr as \<Longrightarrow> \<forall>a \<in> set as. Is4 a" for as
    unfolding ParseAllowedV4Hosts_def by (erule mapR_pred) (auto simp: res_simps)
  then show "no_panic (allowedV4HostKeys vs)"
    unfolding allowedV4HostKeys_def by (blast intro: no_panic_bindR no_panic_parsers no_panic_mapR no_panic_ipv4Key)
  have "ParseAllowedV4Hostports ws = Inr rs \<Longrightarrow> \<forall>r \<in> set rs. Is4 (fst (hpr_AddrPort r))" for rs
    unfolding ParseAllowedV4Hostports_def by (erule mapR_pred) (auto simp: res_simps)
  then show "no_panic (allowedV4HostportKeys ws)"
    unfolding allowedV4HostportKeys_def
    by (auto intro!: no_panic_bindR no_panic_parsers no_panic_mapR no_panic_ipv4Key)
qed

lemma no_panic_allowRulesFromConfig: "no_panic (allowRulesFromConfig cfg)"
  unfolding allowRulesFromConfig_def allowedPortKeys_def allowedV6HostKeys_def allowedV6HostportKeys_def
  by (auto intro!: no_panic_bindR no_panic_parsers no_panic_v4)

section \<open>Properties\<close>

text \<open>Merging two rule sets is their least upper bound: the result permits what either
  permits, any rules that permit both permit it, and the merged value is in canonical form, so that
  its slices are sorted and free of repetitions.\<close>

theorem mergeAllowRules_least_upper_bound:
  "rules_le (abs_rules a) (abs_rules (mergeAllowRules a b)) \<and>
   rules_le (abs_rules b) (abs_rules (mergeAllowRules a b)) \<and>
   (rules_le (abs_rules (mergeAllowRules a b)) (abs_rules c) \<longleftrightarrow>
      rules_le (abs_rules a) (abs_rules c) \<and> rules_le (abs_rules b) (abs_rules c)) \<and>
   canonicalAllowRules (mergeAllowRules a b) = mergeAllowRules a b \<and>
   mergeAllowRules a b = mergeAllowRules b a"
proof -
  have comm: "mergeAllowRules a b = mergeAllowRules b a"
    by (metis abs_merge canonical_eq_iff canonical_merge join_rules_comm)
  show ?thesis
    by (intro conjI comm) (simp_all only: abs_merge join_rules_upper join_rules_le_iff canonical_merge)
qed

text \<open>C8: the comparison that decides whether the maps are rewritten, \<open>allowRulesEqual\<close>,
  is equality of what the rules permit: order and repetition of the entries never trigger a rewrite
  and a real change always does.\<close>

theorem allowRulesEqual_iff: "allowRulesEqual a b \<longleftrightarrow> abs_rules a = abs_rules b"
  by (simp add: allowRulesEqual_def canonical_eq_iff)

lemma allowRulesFromAPI_policy_apiAllowRules: "allowRulesFromAPI_policy (apiAllowRules r) = Inr r \<longleftrightarrow> rules_ok r"
proof
  show "allowRulesFromAPI_policy (apiAllowRules r) = Inr r" if "rules_ok r"
    using that by (simp add: allowRulesFromAPI_policy_def config_of_api_def apiAllowRules_def allowRulesFromConfig_Inr
        rules_ok_def list_all_iff marks_codec.roundtrip ports_codec.roundtrip v4hosts_codec.roundtrip
        v6hosts_codec.roundtrip v4pairs_codec.roundtrip v6pairs_codec.roundtrip)
qed (use allowRulesFromConfig_ok in \<open>auto simp: allowRulesFromAPI_policy_def\<close>)

text \<open>the admin API's text of a rule set is read back as that rule set exactly when the
  rules are of the kind a configuration can hold (TCP or UDP, no zero port in \<open>allowed_ports\<close>,
  no IPv4-mapped address among the IPv6 ones), and reading a configuration, which never panics, gives
  rules of that kind.\<close>

theorem apiAllowRules_roundtrip:
  "(allowRulesFromAPI_policy (apiAllowRules r) = Inr r \<longleftrightarrow> rules_ok r) \<and>
   (case allowRulesFromConfig cfg of Inr q \<Rightarrow> rules_ok q | Inl e \<Rightarrow> no_panic (Inl e :: unit res))"
proof
  show "allowRulesFromAPI_policy (apiAllowRules r) = Inr r \<longleftrightarrow> rules_ok r"
    by (rule allowRulesFromAPI_policy_apiAllowRules)
  show "case allowRulesFromConfig cfg of Inr q \<Rightarrow> rules_ok q | Inl e \<Rightarrow> no_panic (Inl e :: unit res)"
    using allowRulesFromConfig_ok [of cfg] no_panic_allowRulesFromConfig [of cfg]
    by (auto split: sum.split elim!: no_panic.elims)
qed

end
