(* ===== verification/Options.thy ===== *)
theory Options
  imports AllowRules
begin

text \<open>
  The configuration and state records of \<open>cmd/killswitch/types.go\<close>, of the admin API options
  in \<open>admin.go\<close> and of the SOCKS proxy options in \<open>socks_proxy.go\<close>, with the functions
  that copy them (\<open>admin_mutation.go\<close>).

  A slice is a list, except where the program can tell a nil slice from an empty one: the addresses
  of an interface are compared with \<open>reflect.DeepEqual\<close>, for which the two differ.
\<close>

datatype 'a slice = NilSlice | Slice (slice_elems: "'a list")

fun elems :: "'a slice \<Rightarrow> 'a list" where
  "elems NilSlice = []"
| "elems (Slice xs) = xs"

text \<open>\<open>append([]T(nil), s...)\<close>: nil for an empty slice, whether \<open>s\<close> is nil or not.\<close>

definition append_nil :: "'a slice \<Rightarrow> 'a slice" where
  "append_nil s = (if elems s = [] then NilSlice else Slice (elems s))"

section \<open>Rule sets and options\<close>

record rulesetTrigger =
  tr_InterfaceTypes :: "string list"
  tr_InterfaceNames :: "string list"
  tr_InterfaceRegexps :: "string list"
  tr_IPAddrs :: "addr list"
  tr_SSIDs :: "string list"
  tr_BSSIDs :: "string list"
  tr_GatewayMACs :: "string list"

record ruleset =
  rset_Name :: string
  rset_Disabled :: bool
  rset_MatchAll :: bool
  rset_Trigger :: rulesetTrigger
  rset_Rules :: allowRules

record adminAPIAuthRules =
  aa_UIDs :: "u32 list"
  aa_GIDs :: "u32 list"
  aa_Usernames :: "string list"
  aa_Groupnames :: "string list"

record adminAPIOptions =
  ao_SocketPath :: string
  ao_Auth :: adminAPIAuthRules
  ao_Debug :: bool

record adminAPIConfig =
  acf_SocketPath :: string
  acf_Auth :: adminAPIAuthRules
  acf_Debug :: bool

record socksProxyProtectedOptions =
  sp_UIDs :: "u32 list"
  sp_GIDs :: "u32 list"
  sp_Usernames :: "string list"

record socksProxyOptions =
  so_Enabled :: bool
  so_Port :: u16
  so_FWMark :: u32
  so_DNSServer :: string
  so_Protected :: socksProxyProtectedOptions

record socksProxyConfig =
  sc_Enabled :: bool
  sc_Port :: u16
  sc_FWMark :: string
  sc_DNSServer :: string
  sc_Protected :: socksProxyProtectedOptions

record options =
  o_InterfaceTypes :: "string list"
  o_InterfaceNames :: "string list"
  o_InterfaceRegexps :: "string list"
  o_IgnoredInterfaceTypes :: "string list"
  o_IgnoredInterfaceNames :: "string list"
  o_IgnoredInterfaceRegexps :: "string list"
  o_AdminAPI :: adminAPIOptions
  o_SocksProxy :: socksProxyOptions
  o_Rules :: allowRules
  o_Rulesets :: "ruleset list"

text \<open>
  A decoded configuration file. \<open>cf_Rulesets\<close> is the Go map from names to rule sets, and
  \<open>cf_Rules\<close> holds the policy fields, which have the types of those of \<open>rulesetConfig\<close>.
\<close>

record configFile =
  cf_InterfaceTypes :: "string list"
  cf_InterfaceNames :: "string list"
  cf_InterfaceRegexps :: "string list"
  cf_IgnoredInterfaceTypes :: "string list"
  cf_IgnoredInterfaceNames :: "string list"
  cf_IgnoredInterfaceRegexps :: "string list"
  cf_AdminAPI :: adminAPIConfig
  cf_SocksProxy :: socksProxyConfig
  cf_AllowAll :: bool
  cf_EnableV4 :: bool
  cf_EnableV6 :: bool
  cf_AllowedMarks :: "string list"
  cf_AllowedPorts :: "string list"
  cf_AllowedV4Hosts :: "string list"
  cf_AllowedV6Hosts :: "string list"
  cf_AllowedV4Pairs :: "string list"
  cf_AllowedV6Pairs :: "string list"
  cf_Rulesets :: "(string, rulesetConfig) fmap"

section \<open>Interfaces and policies\<close>

record interfaceInfo =
  ii_Index :: int
  ii_Name :: string
  ii_Type :: string
  ii_Addrs :: "addr slice"
  ii_SSID :: string
  ii_BSSID :: string
  ii_GatewayMACs :: "string list"

record interfacePolicy =
  ip_Info :: interfaceInfo
  ip_Rules :: allowRules
  ip_ActiveRulesets :: "string list"
  ip_ForcedRulesets :: "string list"
  ip_TemporaryRulesets :: "string list"

record temporaryRuleset =
  tmp_Owner :: string
  tmp_Interfaces :: "string list"
  tmp_Rules :: allowRules

record forceRuleset =
  fr_Name :: string
  fr_Owners :: "string list"
  fr_Interfaces :: "string list"

record socksProxyState =
  ss_Enabled :: bool
  ss_Running :: bool
  ss_Port :: u16
  ss_FWMark :: u32
  ss_DNSServer :: string
  ss_LastError :: string

definition no_socksProxyState :: socksProxyState where
  "no_socksProxyState = \<lparr>ss_Enabled = False, ss_Running = False, ss_Port = 0, ss_FWMark = 0,
     ss_DNSServer = [], ss_LastError = []\<rparr>"

section \<open>Lists of strings\<close>

text \<open>
  \<open>uniqueStrings\<close> keeps the first occurrence of each value. The map \<open>seen\<close> is the list of
  its keys.
\<close>

fun uniqueStrings_loop :: "string list \<Rightarrow> string list \<Rightarrow> string list \<Rightarrow> string list" where
  "uniqueStrings_loop seen out [] = out"
| "uniqueStrings_loop seen out (v # vs) =
     (if v \<in> set seen then uniqueStrings_loop seen out vs
      else uniqueStrings_loop (v # seen) (out @ [v]) vs)"

definition uniqueStrings :: "string list \<Rightarrow> string list" where
  "uniqueStrings values = (if values = [] then [] else uniqueStrings_loop [] [] values)"

definition uniqueSortedStrings :: "string list \<Rightarrow> string list" where
  "uniqueSortedStrings values = sort (uniqueStrings values)"

fun removeStrings_loop :: "string list \<Rightarrow> string list \<Rightarrow> string list \<Rightarrow> string list" where
  "removeStrings_loop removeSet out [] = out"
| "removeStrings_loop removeSet out (v # vs) =
     removeStrings_loop removeSet (if v \<notin> set removeSet then out @ [v] else out) vs"

definition removeStrings :: "string list \<Rightarrow> string list \<Rightarrow> string list" where
  "removeStrings values remove = removeStrings_loop remove [] values"

fun stringInSlice :: "string \<Rightarrow> string list \<Rightarrow> bool" where
  "stringInSlice v [] = False"
| "stringInSlice v (c # cs) = (if c = v then True else stringInSlice v cs)"

definition cloneStrings :: "string list \<Rightarrow> string list" where
  "cloneStrings values = (if values = [] then [] else [] @ values)"

lemma uniqueStrings_loop_spec:
  assumes "set seen = set out" and "distinct out"
  shows "set (uniqueStrings_loop seen out vs) = set out \<union> set vs \<and> distinct (uniqueStrings_loop seen out vs)"
  using assms by (induction seen out vs rule: uniqueStrings_loop.induct) auto

lemma set_uniqueStrings [simp]: "set (uniqueStrings vs) = set vs"
  using uniqueStrings_loop_spec [of "[]" "[]" vs] by (simp add: uniqueStrings_def)

lemma distinct_uniqueStrings [simp]: "distinct (uniqueStrings vs)"
  using uniqueStrings_loop_spec [of "[]" "[]" vs] by (simp add: uniqueStrings_def)

lemma set_uniqueSortedStrings [simp]: "set (uniqueSortedStrings vs) = set vs"
  by (simp add: uniqueSortedStrings_def)

lemma sorted_uniqueSortedStrings [simp]: "sorted (uniqueSortedStrings vs)" "distinct (uniqueSortedStrings vs)"
  by (simp_all add: uniqueSortedStrings_def)

lemma uniqueSortedStrings_eq_Nil [simp]: "uniqueSortedStrings vs = [] \<longleftrightarrow> vs = []"
  by (metis set_empty set_uniqueSortedStrings)

lemma uniqueSortedStrings_eq: "uniqueSortedStrings vs = sorted_list_of_set (set vs)"
  by (rule sorted_distinct_eqI) simp_all

lemma removeStrings_loop_eq: "removeStrings_loop rs out vs = out @ filter (\<lambda>v. v \<notin> set rs) vs"
  by (induction rs out vs rule: removeStrings_loop.induct) auto

lemma removeStrings_eq [simp]: "removeStrings vs rs = filter (\<lambda>v. v \<notin> set rs) vs"
  by (simp add: removeStrings_def removeStrings_loop_eq)

lemma stringInSlice_iff [simp]: "stringInSlice v vs \<longleftrightarrow> v \<in> set vs"
  by (induction vs) auto

lemma cloneStrings_eq [simp]: "cloneStrings vs = vs"
  by (simp add: cloneStrings_def)

section \<open>Copies\<close>

text \<open>
  The copies are deep, so that a value that was handed out never shares an array with the one it
  was made from. As values they are equal to it, except that an empty slice becomes nil.
\<close>

definition cloneAllowRules :: "allowRules \<Rightarrow> allowRules" where
  "cloneAllowRules rules =
     \<lparr>ar_AllowAll = ar_AllowAll rules, ar_EnableV4 = ar_EnableV4 rules, ar_EnableV6 = ar_EnableV6 rules,
      ar_AllowedMarks = [] @ ar_AllowedMarks rules, ar_AllowedPorts = [] @ ar_AllowedPorts rules,
      ar_AllowedV4Hosts = [] @ ar_AllowedV4Hosts rules, ar_AllowedV6Hosts = [] @ ar_AllowedV6Hosts rules,
      ar_AllowedV4Pairs = [] @ ar_AllowedV4Pairs rules, ar_AllowedV6Pairs = [] @ ar_AllowedV6Pairs rules\<rparr>"

definition cloneRulesetTrigger :: "rulesetTrigger \<Rightarrow> rulesetTrigger" where
  "cloneRulesetTrigger trigger =
     \<lparr>tr_InterfaceTypes = cloneStrings (tr_InterfaceTypes trigger),
      tr_InterfaceNames = cloneStrings (tr_InterfaceNames trigger),
      tr_InterfaceRegexps = cloneStrings (tr_InterfaceRegexps trigger),
      tr_IPAddrs = [] @ tr_IPAddrs trigger,
      tr_SSIDs = cloneStrings (tr_SSIDs trigger),
      tr_BSSIDs = cloneStrings (tr_BSSIDs trigger),
      tr_GatewayMACs = cloneStrings (tr_GatewayMACs trigger)\<rparr>"

definition cloneOptions :: "options \<Rightarrow> options" where
  "cloneOptions opts = opts
     \<lparr>o_InterfaceTypes := cloneStrings (o_InterfaceTypes opts),
      o_InterfaceNames := cloneStrings (o_InterfaceNames opts),
      o_InterfaceRegexps := cloneStrings (o_InterfaceRegexps opts),
      o_IgnoredInterfaceTypes := cloneStrings (o_IgnoredInterfaceTypes opts),
      o_IgnoredInterfaceNames := cloneStrings (o_IgnoredInterfaceNames opts),
      o_IgnoredInterfaceRegexps := cloneStrings (o_IgnoredInterfaceRegexps opts),
      o_Rules := cloneAllowRules (o_Rules opts),
      o_Rulesets := map (\<lambda>rs. \<lparr>rset_Name = rset_Name rs, rset_Disabled = rset_Disabled rs,
         rset_MatchAll = rset_MatchAll rs, rset_Trigger = cloneRulesetTrigger (rset_Trigger rs),
         rset_Rules = cloneAllowRules (rset_Rules rs)\<rparr>) (o_Rulesets opts)\<rparr>"

lemma cloneAllowRules_id [simp]: "cloneAllowRules r = r"
  by (simp add: cloneAllowRules_def)

lemma cloneRulesetTrigger_id [simp]: "cloneRulesetTrigger t = t"
  by (simp add: cloneRulesetTrigger_def)

lemma cloneOptions_id [simp]: "cloneOptions opts = opts"
  by (cases opts) (auto simp: cloneOptions_def intro: map_idI)

definition cloneInterfacePolicy :: "interfacePolicy \<Rightarrow> interfacePolicy" where
  "cloneInterfacePolicy p = p
     \<lparr>ip_Info := (ip_Info p)\<lparr>ii_Addrs := append_nil (ii_Addrs (ip_Info p)),
                    ii_GatewayMACs := cloneStrings (ii_GatewayMACs (ip_Info p))\<rparr>,
      ip_Rules := cloneAllowRules (ip_Rules p),
      ip_ActiveRulesets := cloneStrings (ip_ActiveRulesets p),
      ip_ForcedRulesets := cloneStrings (ip_ForcedRulesets p),
      ip_TemporaryRulesets := cloneStrings (ip_TemporaryRulesets p)\<rparr>"

text \<open>
  \<open>cloneInterfacePolicyMap\<close>. A nil map and an empty one behave alike in every use of the
  result, so a Go map is its finite map.
\<close>

definition cloneInterfacePolicyMap :: "(int, interfacePolicy) fmap \<Rightarrow> (int, interfacePolicy) fmap" where
  "cloneInterfacePolicyMap values = fmmap cloneInterfacePolicy values"

lemma cloneInterfacePolicy_sel [simp]:
  "ip_Rules (cloneInterfacePolicy p) = ip_Rules p"
  "ii_Name (ip_Info (cloneInterfacePolicy p)) = ii_Name (ip_Info p)"
  "ii_Type (ip_Info (cloneInterfacePolicy p)) = ii_Type (ip_Info p)"
  "ii_Index (ip_Info (cloneInterfacePolicy p)) = ii_Index (ip_Info p)"
  "ii_Addrs (ip_Info (cloneInterfacePolicy p)) = append_nil (ii_Addrs (ip_Info p))"
  "ip_ActiveRulesets (cloneInterfacePolicy p) = ip_ActiveRulesets p"
  by (simp_all add: cloneInterfacePolicy_def)

lemma cloneInterfacePolicyMap_simps [simp]:
  "fmlookup (cloneInterfacePolicyMap m) i = map_option cloneInterfacePolicy (fmlookup m i)"
  "fmdom (cloneInterfacePolicyMap m) = fmdom m"
  by (simp_all add: cloneInterfacePolicyMap_def)

section \<open>Rule sets by name\<close>

fun findRuleset_from :: "int \<Rightarrow> ruleset list \<Rightarrow> string \<Rightarrow> int" where
  "findRuleset_from i [] name = - 1"
| "findRuleset_from i (rs # rss) name = (if rset_Name rs = name then i else findRuleset_from (i + 1) rss name)"

definition findRuleset :: "ruleset list \<Rightarrow> string \<Rightarrow> int" where
  "findRuleset rulesets name = findRuleset_from 0 rulesets name"

lemma findRuleset_from_range: "findRuleset_from i rss name = - 1 \<or> i \<le> findRuleset_from i rss name"
  by (induction i rss name rule: findRuleset_from.induct) auto

lemma findRuleset_from_iff: "0 \<le> i \<Longrightarrow> 0 \<le> findRuleset_from i rss name \<longleftrightarrow> name \<in> rset_Name ` set rss"
  by (induction i rss name rule: findRuleset_from.induct) auto

lemma findRuleset_iff: "0 \<le> findRuleset rss name \<longleftrightarrow> name \<in> rset_Name ` set rss"
  by (simp add: findRuleset_def findRuleset_from_iff)

lemma findRuleset_neg: "findRuleset rss name < 0 \<longleftrightarrow> name \<notin> rset_Name ` set rss"
  using findRuleset_iff [of rss name] by linarith

lemma findRuleset_from_nth:
  "0 \<le> findRuleset_from i rss name \<Longrightarrow> 0 \<le> i \<Longrightarrow>
   i \<le> findRuleset_from i rss name \<and> findRuleset_from i rss name < i + int (length rss) \<and>
   find (\<lambda>rs. rset_Name rs = name) rss = Some (rss ! nat (findRuleset_from i rss name - i))"
proof (induction i rss name rule: findRuleset_from.induct)
  case (2 i rs rss name)
  show ?case
  proof (cases "rset_Name rs = name")
    case False
    then have "0 \<le> findRuleset_from (i + 1) rss name" using 2 by simp
    with 2 False have "i + 1 \<le> findRuleset_from (i + 1) rss name \<and>
        findRuleset_from (i + 1) rss name < i + 1 + int (length rss) \<and>
        find (\<lambda>rs. rset_Name rs = name) rss = Some (rss ! nat (findRuleset_from (i + 1) rss name - (i + 1)))"
      by simp
    moreover from this have "nat (findRuleset_from (i + 1) rss name - i) =
        Suc (nat (findRuleset_from (i + 1) rss name - (i + 1)))" by (simp add: Suc_nat_eq_nat_zadd1)
    ultimately show ?thesis using False by auto
  qed (use 2 in auto)
qed simp

lemma findRuleset_nth:
  assumes "0 \<le> findRuleset rss name"
  shows "nat (findRuleset rss name) < length rss"
    "find (\<lambda>rs. rset_Name rs = name) rss = Some (rss ! nat (findRuleset rss name))"
    "rset_Name (rss ! nat (findRuleset rss name)) = name"
proof -
  from assms findRuleset_from_nth [of 0 rss name]
  show "nat (findRuleset rss name) < length rss"
    and found: "find (\<lambda>rs. rset_Name rs = name) rss = Some (rss ! nat (findRuleset rss name))"
    by (auto simp: findRuleset_def)
  from found show "rset_Name (rss ! nat (findRuleset rss name)) = name"
    using find_Some_in by fastforce
qed

end
