(* ===== verification/Interfaces.thy ===== *)
theory Interfaces
  imports Options
begin

text \<open>
  Which interfaces are protected: \<open>cmd/killswitch/interfaces.go\<close>, with the MAC address
  helpers of \<open>admin_mutation.go\<close>.

  \<open>rx\<close>, an argument of what matches a pattern, is \<open>regexp.Compile\<close>: \<open>None\<close> when a
  pattern does not compile, and what the compiled pattern matches otherwise. Every lemma holds for
  each such function. What the kernel reports through netlink and the output of \<open>iw\<close> are the
  fields of \<open>nl_link\<close>.
\<close>

type_synonym regexps = "string \<Rightarrow> (string \<Rightarrow> bool) option"

definition regexpError :: error where
  "regexpError = Lib ''error parsing regexp''"

definition regexp_MatchString :: "regexps \<Rightarrow> string \<Rightarrow> string \<Rightarrow> bool res" where
  "regexp_MatchString rx pattern s = (case rx pattern of None \<Rightarrow> Inl regexpError | Some f \<Rightarrow> Inr (f s))"

section \<open>MAC addresses\<close>

text \<open>\<open>net.ParseMAC\<close> and \<open>HardwareAddr.String\<close>.\<close>

definition macError :: "string \<Rightarrow> error" where
  "macError s = Errf ''address %s: invalid MAC address'' [s]"

definition xtoi2 :: "string \<Rightarrow> char option \<Rightarrow> u8 option" where
  "xtoi2 s e =
     (case s of
        c # d # rest \<Rightarrow>
          (if rest \<noteq> [] \<and> Some (hd rest) \<noteq> e then None
           else case (hex_val c, hex_val d) of
                  (Some h, Some l) \<Rightarrow> Some (word_of_nat (16 * h + l))
                | _ \<Rightarrow> None)
      | _ \<Rightarrow> None)"

fun mac_groups3 :: "nat \<Rightarrow> char \<Rightarrow> string \<Rightarrow> u8 list option" where
  "mac_groups3 0 sep s = Some []"
| "mac_groups3 (Suc n) sep s =
     (case xtoi2 s (Some sep) of
        None \<Rightarrow> None
      | Some b \<Rightarrow> map_option ((#) b) (mac_groups3 n sep (drop 3 s)))"

fun mac_groups5 :: "nat \<Rightarrow> string \<Rightarrow> u8 list option" where
  "mac_groups5 0 s = Some []"
| "mac_groups5 (Suc n) s =
     (case (xtoi2 (take 2 s) None, xtoi2 (drop 2 s) (Some CHR ''.'')) of
        (Some a, Some b) \<Rightarrow> map_option (\<lambda>bs. a # b # bs) (mac_groups5 n (drop 5 s))
      | _ \<Rightarrow> None)"

definition mac_size :: "nat \<Rightarrow> bool" where
  "mac_size n \<longleftrightarrow> n = 6 \<or> n = 8 \<or> n = 20"

definition net_ParseMAC :: "string \<Rightarrow> u8 list res" where
  "net_ParseMAC s =
     (let parsed =
        (if length s < 14 then None
         else if s ! 2 = CHR '':'' \<or> s ! 2 = CHR ''-'' then
           (if (length s + 1) mod 3 \<noteq> 0 \<or> \<not> mac_size ((length s + 1) div 3) then None
            else mac_groups3 ((length s + 1) div 3) (s ! 2) s)
         else if s ! 4 = CHR ''.'' then
           (if (length s + 1) mod 5 \<noteq> 0 \<or> \<not> mac_size (2 * (length s + 1) div 5) then None
            else mac_groups5 ((length s + 1) div 5) s)
         else None)
      in case parsed of None \<Rightarrow> Inl (macError s) | Some hw \<Rightarrow> Inr hw)"

definition hex_byte :: "u8 \<Rightarrow> string" where
  "hex_byte b = [digit_char (unat b div 16), digit_char (unat b mod 16)]"

definition HardwareAddr_String :: "u8 list \<Rightarrow> string" where
  "HardwareAddr_String hw = join_with CHR '':'' (map hex_byte hw)"

definition normalizeMAC :: "string \<Rightarrow> string" where
  "normalizeMAC v =
     (case net_ParseMAC (strings_TrimSpace v) of
        Inl _ \<Rightarrow> strings_ToLower (strings_TrimSpace v)
      | Inr hw \<Rightarrow> strings_ToLower (HardwareAddr_String hw))"

definition normalizeMACList :: "string \<Rightarrow> string list \<Rightarrow> string list res" where
  "normalizeMACList field values =
     bindR (mapR (\<lambda>v.
       bindR (wrapR (''parse '' @ field @ '' %q'') [v] (net_ParseMAC (strings_TrimSpace v))) (\<lambda>hw.
       Inr (strings_ToLower (HardwareAddr_String hw)))) values) (\<lambda>out.
     Inr (uniqueSortedStrings out))"

section \<open>Reading the interfaces\<close>

text \<open>\<open>net.IP\<close> is a slice of bytes.\<close>

type_synonym net_IP = "u8 list"

definition v4InV6Prefix :: "u8 list" where
  "v4InV6Prefix = replicate 10 0 @ [255, 255]"

definition IP_To4 :: "net_IP \<Rightarrow> net_IP option" where
  "IP_To4 ip =
     (if length ip = 4 then Some ip
      else if length ip = 16 \<and> take 12 ip = v4InV6Prefix then Some (drop 12 ip)
      else None)"

definition IP_To16 :: "net_IP \<Rightarrow> net_IP option" where
  "IP_To16 ip =
     (if length ip = 4 then Some (v4InV6Prefix @ ip)
      else if length ip = 16 then Some ip
      else None)"

definition IP_Equal :: "net_IP \<Rightarrow> net_IP \<Rightarrow> bool" where
  "IP_Equal ip x =
     (if length ip = length x then ip = x
      else if length ip = 4 \<and> length x = 16 then take 12 x = v4InV6Prefix \<and> ip = drop 12 x
      else if length ip = 16 \<and> length x = 4 then take 12 ip = v4InV6Prefix \<and> drop 12 ip = x
      else False)"

definition IP_IsUnspecified :: "net_IP \<Rightarrow> bool" where
  "IP_IsUnspecified ip \<longleftrightarrow> IP_Equal ip (v4InV6Prefix @ [0, 0, 0, 0]) \<or> IP_Equal ip (replicate 16 0)"

definition netip_AddrFromSlice :: "u8 list \<Rightarrow> (addr \<times> bool)" where
  "netip_AddrFromSlice bs =
     (if length bs = 4 then (Addr4 (word_of_nat (be_nat 256 (map unat bs))), True)
      else if length bs = 16 then (Addr6 (word_of_nat (be_nat 256 (map unat bs))) [], True)
      else (AddrZero, False))"

definition netipAddrFromIP :: "net_IP \<Rightarrow> (addr \<times> bool)" where
  "netipAddrFromIP ip =
     (case IP_To4 ip of
        Some v4 \<Rightarrow> (let (addr, ok) = netip_AddrFromSlice v4 in (Unmap addr, ok))
      | None \<Rightarrow>
          (case IP_To16 ip of
             Some v6 \<Rightarrow> (let (addr, ok) = netip_AddrFromSlice v6 in (Unmap addr, ok))
           | None \<Rightarrow> (AddrZero, False)))"

text \<open>\<open>netip.Addr.Less\<close>: by bit length, then by value, then by zone.\<close>

fun addr_rank :: "addr \<Rightarrow> nat \<times> nat \<times> string" where
  "addr_rank AddrZero = (0, 0, [])"
| "addr_rank (Addr4 w) = (32, unat w, [])"
| "addr_rank (Addr6 w z) = (128, unat w, z)"

definition addr_Less :: "addr \<Rightarrow> addr \<Rightarrow> bool" where
  "addr_Less a b \<longleftrightarrow> addr_rank a < addr_rank b"

record nl_neigh =
  ng_IP :: "net_IP option"
  ng_HardwareAddr :: "u8 list option"

record nl_link =
  nl_Attrs :: "(int \<times> string) option"
  nl_Type :: string
  nl_Addrs :: "net_IP list res"
  nl_Routes :: "net_IP option list res"
  nl_Neighs :: "nl_neigh list res"
  nl_IWOutput :: "string option"

text \<open>\<open>strings.Split(output, "\n")\<close> and the two \<open>case\<close>s of the loop.\<close>

definition parseIWLine :: "string \<times> string \<Rightarrow> string \<Rightarrow> string \<times> string" where
  "parseIWLine = (\<lambda>(ssid, bssid) line0.
     let line = strings_TrimSpace line0 in
     if strings_HasPrefix line ''Connected to '' then
       (let fields = strings_Fields line in
        if 3 \<le> length fields then (ssid, normalizeMAC (fields ! 2)) else (ssid, bssid))
     else if strings_HasPrefix line ''SSID:'' then
       (strings_TrimSpace (strings_TrimPrefix line ''SSID:''), bssid)
     else (ssid, bssid))"

definition newline :: char where
  "newline = char_of (10 :: nat)"

definition parseIWLinkInfo :: "string \<Rightarrow> string \<times> string" where
  "parseIWLinkInfo output = foldl parseIWLine ([], []) (strings_Split output newline)"

definition wifiLinkInfo :: "nl_link \<Rightarrow> string \<times> string" where
  "wifiLinkInfo l = (case nl_IWOutput l of None \<Rightarrow> ([], []) | Some output \<Rightarrow> parseIWLinkInfo output)"

definition gateway_macs_of :: "net_IP option list \<Rightarrow> nl_neigh list \<Rightarrow> string list" where
  "gateway_macs_of routes neighs =
     concat (map (\<lambda>route.
       case route of
         None \<Rightarrow> []
       | Some gw \<Rightarrow>
           (if IP_IsUnspecified gw then []
            else concat (map (\<lambda>neigh.
              case (ng_IP neigh, ng_HardwareAddr neigh) of
                (Some ip, Some hw) \<Rightarrow>
                  (if IP_Equal gw ip then [normalizeMAC (HardwareAddr_String hw)] else [])
              | _ \<Rightarrow> []) neighs))) routes)"

definition interfaceGatewayMACs :: "nl_link \<Rightarrow> string list res" where
  "interfaceGatewayMACs l =
     (case nl_Attrs l of
        None \<Rightarrow> Inr []
      | Some (index, name) \<Rightarrow>
          bindR (wrapR ''list routes for %s(index %d)'' [name, itoa index] (nl_Routes l)) (\<lambda>routes.
          bindR (wrapR ''list neighbors for %s(index %d)'' [name, itoa index] (nl_Neighs l)) (\<lambda>neighs.
          Inr (uniqueSortedStrings (gateway_macs_of routes neighs)))))"

definition interfaceAddrs :: "nl_link \<Rightarrow> addr slice res" where
  "interfaceAddrs l =
     bindR (case nl_Attrs l of
              Some (index, name) \<Rightarrow> wrapR ''list addresses for %s(index %d)'' [name, itoa index] (nl_Addrs l)
            | None \<Rightarrow> wrapR ''list addresses'' [] (nl_Addrs l)) (\<lambda>addrList.
     Inr (Slice (sort_slice addr_Less
           (map fst (filter snd (map netipAddrFromIP addrList))))))"

fun listInterfaces_loop :: "nl_link list \<Rightarrow> interfaceInfo list res" where
  "listInterfaces_loop [] = Inr []"
| "listInterfaces_loop (l # ls) =
     (case nl_Attrs l of
        None \<Rightarrow> listInterfaces_loop ls
      | Some (index, name) \<Rightarrow>
          bindR (interfaceAddrs l) (\<lambda>addrs.
          let (ssid, bssid) = wifiLinkInfo l in
          bindR (interfaceGatewayMACs l) (\<lambda>gatewayMACs.
          bindR (listInterfaces_loop ls) (\<lambda>rest.
          Inr (\<lparr>ii_Index = index, ii_Name = name, ii_Type = nl_Type l, ii_Addrs = addrs,
                ii_SSID = ssid, ii_BSSID = bssid, ii_GatewayMACs = gatewayMACs\<rparr> # rest)))))"

definition listInterfaces :: "nl_link list res \<Rightarrow> interfaceInfo list res" where
  "listInterfaces links = bindR links listInterfaces_loop"

section \<open>Selecting interfaces\<close>

text \<open>The loop over patterns that stops at the first error or match.\<close>

fun match_patterns :: "regexps \<Rightarrow> string \<Rightarrow> string \<Rightarrow> string list \<Rightarrow> bool res" where
  "match_patterns rx fmt name [] = Inr False"
| "match_patterns rx fmt name (pattern # ps) =
     bindR (wrapR fmt [pattern] (regexp_MatchString rx pattern name)) (\<lambda>matches.
     if matches then Inr True else match_patterns rx fmt name ps)"

definition interfaceMatchesIgnoreSelectors :: "regexps \<Rightarrow> interfaceInfo \<Rightarrow> options \<Rightarrow> bool res" where
  "interfaceMatchesIgnoreSelectors rx iface opts =
     (if ii_Name iface = ''lo'' then Inr True
      else if list_ex (\<lambda>typ. ii_Type iface = typ) (o_IgnoredInterfaceTypes opts) then Inr True
      else if list_ex (\<lambda>name. ii_Name iface = name) (o_IgnoredInterfaceNames opts) then Inr True
      else match_patterns rx ''compile ignored interface regexp %q'' (ii_Name iface) (o_IgnoredInterfaceRegexps opts))"

definition interfaceMatchesSelectors :: "regexps \<Rightarrow> interfaceInfo \<Rightarrow> options \<Rightarrow> bool res" where
  "interfaceMatchesSelectors rx iface opts =
     bindR (interfaceMatchesIgnoreSelectors rx iface opts) (\<lambda>ignored.
     if ignored then Inr False
     else if list_ex (\<lambda>typ. ii_Type iface = typ) (o_InterfaceTypes opts) then Inr True
     else if list_ex (\<lambda>name. ii_Name iface = name) (o_InterfaceNames opts) then Inr True
     else match_patterns rx ''compile interface regexp %q'' (ii_Name iface) (o_InterfaceRegexps opts))"

fun filterR :: "('a \<Rightarrow> bool res) \<Rightarrow> 'a list \<Rightarrow> 'a list res" where
  "filterR f [] = Inr []"
| "filterR f (x # xs) =
     bindR (f x) (\<lambda>keep. bindR (filterR f xs) (\<lambda>rest. Inr (if keep then x # rest else rest)))"

definition selectInterfaces :: "regexps \<Rightarrow> interfaceInfo list \<Rightarrow> options \<Rightarrow> interfaceInfo list res" where
  "selectInterfaces rx all opts =
     bindR (filterR (\<lambda>iface. interfaceMatchesSelectors rx iface opts) all) (\<lambda>selected.
     Inr (sort_slice (\<lambda>a b. ii_Name a < ii_Name b) selected))"

definition selectedInterfaces :: "regexps \<Rightarrow> nl_link list res \<Rightarrow> options \<Rightarrow> interfaceInfo list res" where
  "selectedInterfaces rx links opts =
     bindR (wrapR ''list interfaces'' [] (listInterfaces links)) (\<lambda>all. selectInterfaces rx all opts)"

fun strings_Join :: "string list \<Rightarrow> string \<Rightarrow> string" where
  "strings_Join [] sep = []"
| "strings_Join [x] sep = x"
| "strings_Join (x # xs) sep = x @ sep @ strings_Join xs sep"

definition interfaceNames :: "interfaceInfo list \<Rightarrow> string" where
  "interfaceNames ifaces = strings_Join (map ii_Name ifaces) '', ''"

section \<open>What is selected\<close>

definition patterns_ok :: "regexps \<Rightarrow> string list \<Rightarrow> bool" where
  "patterns_ok rx ps \<longleftrightarrow> list_all (\<lambda>p. rx p \<noteq> None) ps"

definition pattern_matches :: "regexps \<Rightarrow> string \<Rightarrow> string \<Rightarrow> bool" where
  "pattern_matches rx pattern s \<longleftrightarrow> (case rx pattern of None \<Rightarrow> False | Some f \<Rightarrow> f s)"

text \<open>The specification of the selectors: ignore rules first, then any of the three lists.\<close>

definition ignored_iface :: "regexps \<Rightarrow> options \<Rightarrow> interfaceInfo \<Rightarrow> bool" where
  "ignored_iface rx opts iface \<longleftrightarrow> ii_Name iface = ''lo'' \<or>
     ii_Type iface \<in> set (o_IgnoredInterfaceTypes opts) \<or>
     ii_Name iface \<in> set (o_IgnoredInterfaceNames opts) \<or>
     (\<exists>p \<in> set (o_IgnoredInterfaceRegexps opts). pattern_matches rx p (ii_Name iface))"

definition selected_iface :: "regexps \<Rightarrow> options \<Rightarrow> interfaceInfo \<Rightarrow> bool" where
  "selected_iface rx opts iface \<longleftrightarrow> \<not> ignored_iface rx opts iface \<and>
     (ii_Type iface \<in> set (o_InterfaceTypes opts) \<or>
      ii_Name iface \<in> set (o_InterfaceNames opts) \<or>
      (\<exists>p \<in> set (o_InterfaceRegexps opts). pattern_matches rx p (ii_Name iface)))"

lemma match_patterns_ok:
  "patterns_ok rx ps \<Longrightarrow> match_patterns rx fmt name ps = Inr (\<exists>p \<in> set ps. pattern_matches rx p name)"
  by (induction rx fmt name ps rule: match_patterns.induct)
    (auto simp: patterns_ok_def regexp_MatchString_def pattern_matches_def)

lemma list_ex_eq [simp]: "list_ex (\<lambda>t. x = t) xs \<longleftrightarrow> x \<in> set xs"
  by (auto simp: list_ex_iff)

lemma interfaceMatchesIgnoreSelectors_ok:
  "patterns_ok rx (o_IgnoredInterfaceRegexps opts) \<Longrightarrow>
   interfaceMatchesIgnoreSelectors rx iface opts = Inr (ignored_iface rx opts iface)"
  by (auto simp: interfaceMatchesIgnoreSelectors_def ignored_iface_def match_patterns_ok)

lemma interfaceMatchesSelectors_ok:
  "patterns_ok rx (o_InterfaceRegexps opts) \<Longrightarrow> patterns_ok rx (o_IgnoredInterfaceRegexps opts) \<Longrightarrow>
   interfaceMatchesSelectors rx iface opts = Inr (selected_iface rx opts iface)"
  by (auto simp: interfaceMatchesSelectors_def interfaceMatchesIgnoreSelectors_ok selected_iface_def match_patterns_ok)

lemma filterR_ok: "(\<And>x. x \<in> set xs \<Longrightarrow> f x = Inr (P x)) \<Longrightarrow> filterR f xs = Inr (filter P xs)"
  by (induction xs) auto

lemma interfaceMatchesSelectors_lo: "ii_Name iface = ''lo'' \<Longrightarrow> interfaceMatchesSelectors rx iface opts = Inr False"
  by (simp add: interfaceMatchesSelectors_def interfaceMatchesIgnoreSelectors_def)

lemma selectInterfaces_ok:
  "patterns_ok rx (o_InterfaceRegexps opts) \<Longrightarrow> patterns_ok rx (o_IgnoredInterfaceRegexps opts) \<Longrightarrow>
   selectInterfaces rx all opts = Inr (sort_key ii_Name (filter (selected_iface rx opts) all))"
  by (simp add: selectInterfaces_def filterR_ok interfaceMatchesSelectors_ok sort_slice_key)

lemma filterR_subset: "filterR f xs = Inr ys \<Longrightarrow> set ys \<subseteq> {x \<in> set xs. f x = Inr True}"
proof (induction xs arbitrary: ys)
  case (Cons x xs)
  then show ?case by (cases "f x") (auto simp: bindR_Inr split: if_splits)
qed simp

lemma selectInterfaces_subset: "selectInterfaces rx all opts = Inr sel \<Longrightarrow> set sel \<subseteq> set all"
  by (auto simp: selectInterfaces_def bindR_Inr dest!: filterR_subset)

lemma selectInterfaces_not_lo: "selectInterfaces rx all opts = Inr sel \<Longrightarrow> x \<in> set sel \<Longrightarrow> ii_Name x \<noteq> ''lo''"
  using interfaceMatchesSelectors_lo by (auto simp: selectInterfaces_def bindR_Inr dest!: filterR_subset)

section \<open>Normal forms of MAC addresses\<close>

lemma lower_char_digit_char [simp]: "d < 16 \<Longrightarrow> lower_char (digit_char d) = digit_char d"
  by (auto simp: lower_char_def ccode_digit_char)

lemma lower_colon: "lower_char CHR '':'' = CHR '':''"
  by (simp add: lower_char_def)

lemma hex_byte_lower: "map lower_char (hex_byte b) = hex_byte b"
proof -
  have "unat b < 2 ^ LENGTH(8)" by (rule unsigned_less)
  then show ?thesis by (simp add: hex_byte_def)
qed

lemma HardwareAddr_lower: "strings_ToLower (HardwareAddr_String hw) = HardwareAddr_String hw"
proof -
  have "map lower_char (join_with CHR '':'' (map hex_byte hw)) = join_with CHR '':'' (map hex_byte hw)"
    by (induction hw rule: induct_list012) (simp_all add: hex_byte_lower lower_colon)
  then show ?thesis by (simp add: strings_ToLower_def HardwareAddr_String_def)
qed

lemma xtoi2_hex_byte: "rest = [] \<or> Some (hd rest) = e \<Longrightarrow> xtoi2 (hex_byte b @ rest) e = Some b"
proof -
  assume "rest = [] \<or> Some (hd rest) = e"
  moreover have "unat b < 2 ^ LENGTH(8)" by (rule unsigned_less)
  ultimately show ?thesis
    by (auto simp: xtoi2_def hex_byte_def hex_val_digit_char mult.commute)
qed

lemma length_hex_byte [simp]: "length (hex_byte b) = 2"
  by (simp add: hex_byte_def)

lemma mac_groups3_String:
  "mac_groups3 (length hw) CHR '':'' (HardwareAddr_String hw) = Some hw"
proof (induction hw rule: induct_list012)
  case (2 b)
  then show ?case using xtoi2_hex_byte [of "[]" _ b] by (simp add: HardwareAddr_String_def)
next
  case (3 b c bs)
  have "HardwareAddr_String (b # c # bs) = hex_byte b @ CHR '':'' # HardwareAddr_String (c # bs)"
    by (simp add: HardwareAddr_String_def)
  moreover have "mac_groups3 (Suc n) CHR '':'' (hex_byte b @ CHR '':'' # s) =
      map_option ((#) b) (mac_groups3 n CHR '':'' s)" for n s
    using xtoi2_hex_byte [of "CHR '':'' # s" "Some CHR '':''" b] by simp
  ultimately show ?case using 3(2) by (metis length_Cons option.simps(9))
qed (simp add: HardwareAddr_String_def)

lemma length_HardwareAddr_String: "hw \<noteq> [] \<Longrightarrow> Suc (length (HardwareAddr_String hw)) = 3 * length hw"
  unfolding HardwareAddr_String_def by (induction hw rule: induct_list012) simp_all

lemma HardwareAddr_String_third:
  "2 \<le> length hw \<Longrightarrow> HardwareAddr_String hw ! 2 = CHR '':''"
  by (cases hw rule: remdups_adj.cases) (auto simp: HardwareAddr_String_def nth_append)

lemma ParseMAC_String: "mac_size (length hw) \<Longrightarrow> net_ParseMAC (HardwareAddr_String hw) = Inr hw"
proof -
  assume size: "mac_size (length hw)"
  then have "hw \<noteq> []" "2 \<le> length hw" "6 \<le> length hw" by (auto simp: mac_size_def)
  moreover from this have "Suc (length (HardwareAddr_String hw)) = 3 * length hw"
    by (simp add: length_HardwareAddr_String)
  ultimately show ?thesis
    using size by (simp add: net_ParseMAC_def HardwareAddr_String_third mac_groups3_String Let_def)
qed

lemma mac_groups3_length: "mac_groups3 n sep s = Some hw \<Longrightarrow> length hw = n"
  by (induction n sep s arbitrary: hw rule: mac_groups3.induct) (auto split: option.splits)

lemma mac_groups5_length: "mac_groups5 n s = Some hw \<Longrightarrow> length hw = 2 * n"
  by (induction n s arbitrary: hw rule: mac_groups5.induct) (auto split: option.splits)

lemma ParseMAC_size:
  assumes "net_ParseMAC s = Inr hw"
  shows "mac_size (length hw)"
proof -
  have "length hw = 2 * (k div 5) \<Longrightarrow> k mod 5 = 0 \<Longrightarrow> mac_size (2 * k div 5) \<Longrightarrow> mac_size (length hw)" for k
    by (auto simp: mac_size_def)
  then show ?thesis
    using assms mac_groups3_length mac_groups5_length
    by (fastforce simp: net_ParseMAC_def Let_def split: option.splits if_splits)
qed

lemma hex_byte_no_space: "c \<in> set (hex_byte b) \<Longrightarrow> \<not> is_space c"
proof -
  have "unat b < 2 ^ LENGTH(8)" by (rule unsigned_less)
  then have "unat b div 16 < 36" "unat b mod 16 < 36" by simp_all
  then have "plain_digit c" if "c \<in> set (hex_byte b)"
    using that by (auto simp: hex_byte_def)
  then show "c \<in> set (hex_byte b) \<Longrightarrow> \<not> is_space c"
    by (auto simp: is_space_def plain_digit_def is_dec_def)
qed

lemma space_colon: "\<not> is_space CHR '':''"
  by (simp add: is_space_def)

lemma HardwareAddr_String_no_space: "c \<in> set (HardwareAddr_String hw) \<Longrightarrow> \<not> is_space c"
  unfolding HardwareAddr_String_def
  by (induction hw rule: induct_list012) (auto simp: hex_byte_no_space space_colon)

lemma TrimSpace_id:
  assumes "\<And>c. c \<in> set s \<Longrightarrow> \<not> is_space c"
  shows "strings_TrimSpace s = s"
proof -
  have "dropWhile is_space t = t" if "set t \<subseteq> set s" for t
    using that assms by (cases t) auto
  then show ?thesis by (simp add: strings_TrimSpace_def)
qed

lemma normalizeMAC_String [simp]: "mac_size (length hw) \<Longrightarrow> normalizeMAC (HardwareAddr_String hw) = HardwareAddr_String hw"
  by (simp add: normalizeMAC_def TrimSpace_id HardwareAddr_String_no_space ParseMAC_String HardwareAddr_lower)

lemma normalizeMACList_Inr:
  "normalizeMACList field vs = Inr out \<Longrightarrow>
   out = uniqueSortedStrings (map normalizeMAC vs) \<and>
   (\<forall>v \<in> set vs. \<exists>hw. net_ParseMAC (strings_TrimSpace v) = Inr hw)"
proof -
  assume "normalizeMACList field vs = Inr out"
  then obtain ms where ms: "list_all2 (\<lambda>v m. \<exists>hw. net_ParseMAC (strings_TrimSpace v) = Inr hw \<and>
      strings_ToLower (HardwareAddr_String hw) = m) vs ms" "out = uniqueSortedStrings ms"
    by (auto simp: normalizeMACList_def res_simps)
  from ms(1) have "ms = map normalizeMAC vs"
    by (induction rule: list_all2_induct) (auto simp: normalizeMAC_def)
  moreover from ms(1) have "\<forall>v \<in> set vs. \<exists>hw. net_ParseMAC (strings_TrimSpace v) = Inr hw"
    by (induction rule: list_all2_induct) auto
  ultimately show ?thesis using ms(2) by simp
qed

section \<open>Properties\<close>

text \<open>C7: with patterns that compile, the selected interfaces are exactly those that no
  ignore rule covers and that some selector covers, sorted by name and each as often as it is
  listed; the loopback interface is never one of them.\<close>

theorem selectInterfaces_exact:
  assumes "patterns_ok rx (o_InterfaceRegexps opts)" and "patterns_ok rx (o_IgnoredInterfaceRegexps opts)"
  shows "\<exists>sel. selectInterfaces rx all opts = Inr sel \<and>
     mset sel = filter_mset (selected_iface rx opts) (mset all) \<and>
     sorted (map ii_Name sel) \<and> ''lo'' \<notin> ii_Name ` set sel"
proof -
  let ?sel = "sort_key ii_Name (filter (selected_iface rx opts) all)"
  have sel: "selectInterfaces rx all opts = Inr ?sel"
    using assms by (rule selectInterfaces_ok)
  moreover have "''lo'' \<notin> ii_Name ` set ?sel"
    using selectInterfaces_not_lo [OF sel] by fastforce
  ultimately show ?thesis by (auto simp: mset_filter)
qed

definition example_rx :: regexps where
  "example_rx p = (if p = ''('' then None else Some (\<lambda>s. strings_HasPrefix s p))"

definition example_iface :: "int \<Rightarrow> string \<Rightarrow> string \<Rightarrow> interfaceInfo" where
  "example_iface i name typ = \<lparr>ii_Index = i, ii_Name = name, ii_Type = typ, ii_Addrs = Slice [],
     ii_SSID = [], ii_BSSID = [], ii_GatewayMACs = []\<rparr>"

definition example_options :: options where
  "example_options = \<lparr>o_InterfaceTypes = [''wireguard''], o_InterfaceNames = [''eth0''],
     o_InterfaceRegexps = [''wl''], o_IgnoredInterfaceTypes = [], o_IgnoredInterfaceNames = [''wl9''],
     o_IgnoredInterfaceRegexps = [''eth1''],
     o_AdminAPI = \<lparr>ao_SocketPath = ''/run/s'', ao_Auth = \<lparr>aa_UIDs = [0], aa_GIDs = [], aa_Usernames = [],
       aa_Groupnames = []\<rparr>, ao_Debug = False\<rparr>,
     o_SocksProxy = \<lparr>so_Enabled = False, so_Port = 1080, so_FWMark = 1, so_DNSServer = [],
       so_Protected = \<lparr>sp_UIDs = [], sp_GIDs = [], sp_Usernames = []\<rparr>\<rparr>,
     o_Rules = no_rules, o_Rulesets = []\<rparr>"

lemma selectInterfaces_exact_witness:
  "\<exists>sel. selectInterfaces example_rx [example_iface 1 ''lo'' ''device'', example_iface 2 ''wl0'' ''device''] example_options = Inr sel \<and>
     mset sel = filter_mset (selected_iface example_rx example_options)
       (mset [example_iface 1 ''lo'' ''device'', example_iface 2 ''wl0'' ''device'']) \<and>
     sorted (map ii_Name sel) \<and> ''lo'' \<notin> ii_Name ` set sel"
  by (rule selectInterfaces_exact) (simp_all add: patterns_ok_def example_rx_def example_options_def)

text \<open>a list of MAC addresses that is accepted is brought to a normal form: sorted, free of
  repetitions, equal to what \<open>normalizeMAC\<close> makes of the single addresses, so that it can be compared
  with what \<open>iw\<close> and the neighbour table report, and unchanged by a second normalisation; a
  rejected list has an entry that is not a MAC address.\<close>

theorem normalizeMACList_normal_form:
  "case normalizeMACList field vs of
     Inr out \<Rightarrow> set out = normalizeMAC ` set vs \<and> sorted out \<and> distinct out \<and>
        normalizeMACList field out = Inr out \<and> map normalizeMAC out = out
   | Inl e \<Rightarrow> \<exists>v. v \<in> set vs \<and> (\<forall>hw. net_ParseMAC (strings_TrimSpace v) \<noteq> Inr hw)"
proof (cases "normalizeMACList field vs")
  case (Inl e)
  then have "\<exists>v \<in> set vs. \<exists>e'. net_ParseMAC (strings_TrimSpace v) = Inl e'"
    by (auto simp: normalizeMACList_def bindR_Inl dest!: mapR_Inl) (auto simp: wrapR_Inl)
  with Inl show ?thesis by (fastforce split: sum.split)
next
  case (Inr out)
  note n = normalizeMACList_Inr [OF this]
  have norm: "\<exists>hw. mac_size (length hw) \<and> w = HardwareAddr_String hw" if "w \<in> set out" for w
  proof -
    from that n obtain v hw where "v \<in> set vs" "w = normalizeMAC v" "net_ParseMAC (strings_TrimSpace v) = Inr hw"
      by auto
    then show ?thesis using ParseMAC_size by (auto simp: normalizeMAC_def HardwareAddr_lower)
  qed
  then have id: "map normalizeMAC out = out" by (metis map_idI normalizeMAC_String)
  have "mapR (\<lambda>v. bindR (wrapR (''parse '' @ field @ '' %q'') [v] (net_ParseMAC (strings_TrimSpace v)))
      (\<lambda>hw. Inr (strings_ToLower (HardwareAddr_String hw)))) out = Inr (map (\<lambda>v. v) out)"
  proof (rule mapR_total)
    fix w assume "w \<in> set out"
    with norm obtain hw where "mac_size (length hw)" "w = HardwareAddr_String hw" by blast
    then show "bindR (wrapR (''parse '' @ field @ '' %q'') [w] (net_ParseMAC (strings_TrimSpace w)))
        (\<lambda>hw. Inr (strings_ToLower (HardwareAddr_String hw))) = Inr w"
      by (simp add: TrimSpace_id HardwareAddr_String_no_space ParseMAC_String HardwareAddr_lower)
  qed
  then have "normalizeMACList field out = Inr (uniqueSortedStrings out)"
    unfolding normalizeMACList_def by (simp only: bindR_simps list.map_ident)
  moreover have "uniqueSortedStrings out = out"
    using n by (intro sorted_distinct_eqI) simp_all
  ultimately show ?thesis using Inr n id by simp
qed

end
