(* ===== verification/Config.thy ===== *)
theory Config
  imports Interfaces
begin

text \<open>
  From a decoded configuration file to the options of the daemon: \<open>cmd/killswitch/config.go\<close>,
  the option functions of \<open>admin.go\<close> and those of \<open>socks_proxy.go\<close>, and the invariant
  \<open>opts_ok\<close> that every \<open>options\<close> value of a running daemon has. Decoding the file is the
  work of \<open>encoding/json\<close>; its result is the \<open>configFile\<close> record.
\<close>

section \<open>Host and port\<close>

text \<open>\<open>net.SplitHostPort\<close> and \<open>net.JoinHostPort\<close>.\<close>

definition splitError :: "string \<Rightarrow> string \<Rightarrow> error" where
  "splitError why hostport = Errf (''address %s: '' @ why) [hostport]"

definition net_SplitHostPort :: "string \<Rightarrow> (string \<times> string) res" where
  "net_SplitHostPort hostport =
     (case last_cut hostport CHR '':'' of
        None \<Rightarrow> Inl (splitError ''missing port in address'' hostport)
      | Some (before, port) \<Rightarrow>
          (if hd hostport = CHR ''['' then
             (case strings_Cut (tl hostport) CHR '']'' of
                None \<Rightarrow> Inl (splitError ''missing ] in address'' hostport)
              | Some (host, after) \<Rightarrow>
                  (if after = [] then Inl (splitError ''missing port in address'' hostport)
                   else if after \<noteq> CHR '':'' # port then
                     (if hd after = CHR '':'' then Inl (splitError ''too many colons in address'' hostport)
                      else Inl (splitError ''missing port in address'' hostport))
                   else if CHR ''['' \<in> set (tl hostport) then Inl (splitError ''unexpected [ in address'' hostport)
                   else if CHR '']'' \<in> set after then Inl (splitError ''unexpected ] in address'' hostport)
                   else Inr (host, port)))
           else if CHR '':'' \<in> set before then Inl (splitError ''too many colons in address'' hostport)
           else if CHR ''['' \<in> set hostport then Inl (splitError ''unexpected [ in address'' hostport)
           else if CHR '']'' \<in> set hostport then Inl (splitError ''unexpected ] in address'' hostport)
           else Inr (before, port)))"

definition net_JoinHostPort :: "string \<Rightarrow> string \<Rightarrow> string" where
  "net_JoinHostPort host port =
     (if CHR '':'' \<in> set host then CHR ''['' # host @ '']:'' @ port else host @ CHR '':'' # port)"

section \<open>Admin API options (\<open>admin.go\<close>)\<close>

definition defaultAdminAPISocketPath :: string where
  "defaultAdminAPISocketPath = ''/run/killswitch/admin.sock''"

definition defaultAdminAPIGroup :: string where
  "defaultAdminAPIGroup = ''killswitch''"

definition adminAPIOptionsFromConfig :: "adminAPIConfig \<Rightarrow> adminAPIOptions" where
  "adminAPIOptionsFromConfig cfg =
     (let auth = acf_Auth cfg in
      \<lparr>ao_SocketPath = (if acf_SocketPath cfg = [] then defaultAdminAPISocketPath else acf_SocketPath cfg),
       ao_Auth =
         (if aa_UIDs auth = [] \<and> aa_GIDs auth = [] \<and> aa_Usernames auth = [] \<and> aa_Groupnames auth = []
          then auth\<lparr>aa_Groupnames := [defaultAdminAPIGroup]\<rparr> else auth),
       ao_Debug = acf_Debug cfg\<rparr>)"

text \<open>\<open>filepath.IsAbs\<close>.\<close>

definition filepath_IsAbs :: "string \<Rightarrow> bool" where
  "filepath_IsAbs path = strings_HasPrefix path ''/''"

definition validateAdminAPIOptions :: "adminAPIOptions \<Rightarrow> unit res" where
  "validateAdminAPIOptions opts =
     bindR (guardR (ao_SocketPath opts = []) (Err ''admin_api.socket_path is required'')) (\<lambda>_.
     bindR (guardR (\<not> filepath_IsAbs (ao_SocketPath opts))
              (Errf ''admin_api.socket_path must be absolute, got %q'' [ao_SocketPath opts])) (\<lambda>_.
     bindR (guardR (list_ex (\<lambda>name. name = []) (aa_Usernames (ao_Auth opts)))
              (Err ''admin_api.auth.usernames contains an empty username'')) (\<lambda>_.
     guardR (list_ex (\<lambda>name. name = []) (aa_Groupnames (ao_Auth opts)))
              (Err ''admin_api.auth.groupnames contains an empty groupname''))))"

section \<open>SOCKS proxy options (\<open>socks_proxy.go\<close>)\<close>

definition defaultSocksProxyHost :: string where "defaultSocksProxyHost = ''127.0.0.1''"
definition defaultSocksProxyPort :: u16 where "defaultSocksProxyPort = 1080"
definition defaultSocksProxyFWMark :: string where "defaultSocksProxyFWMark = ''0xeb9f0001''"

definition trimStrings :: "string list \<Rightarrow> string list" where
  "trimStrings values = map strings_TrimSpace values"

definition socksProxyOptionsFromConfig :: "socksProxyConfig \<Rightarrow> socksProxyOptions" where
  "socksProxyOptionsFromConfig cfg =
     (let prot = sc_Protected cfg;
          fwmark = (if sc_FWMark cfg = [] then defaultSocksProxyFWMark else sc_FWMark cfg)
      in \<lparr>so_Enabled = sc_Enabled cfg,
          so_Port = (if sc_Port cfg = 0 then defaultSocksProxyPort else sc_Port cfg),
          so_FWMark = (case ParseAllowedMarks [fwmark] of Inr [m] \<Rightarrow> m | _ \<Rightarrow> 0),
          so_DNSServer = strings_TrimSpace (sc_DNSServer cfg),
          so_Protected = prot\<lparr>sp_Usernames := trimStrings (sp_Usernames prot)\<rparr>\<rparr>)"

definition netipAddrOrHostPort :: "string \<Rightarrow> string res" where
  "netipAddrOrHostPort v =
     (if v = [] then Inl (Err ''address is empty'')
      else case net_SplitHostPort v of
        Inr (host, port) \<Rightarrow>
          (if host = [] then Inl (Err ''host is empty'')
           else case strconv_ParseUint port 10 16 of
             Inl _ \<Rightarrow> (if port \<noteq> ''dns'' then Inl (Errf ''invalid port %q'' [port]) else Inr v)
           | Inr _ \<Rightarrow> Inr v)
      | Inl _ \<Rightarrow> Inr (net_JoinHostPort v ''53''))"

definition validateSocksProxyOptions :: "socksProxyOptions \<Rightarrow> unit res" where
  "validateSocksProxyOptions opts =
     bindR (guardR (so_FWMark opts = 0) (Err ''socks_proxy.fwmark must be a non-zero uint32 mark'')) (\<lambda>_.
     bindR (if so_DNSServer opts = [] then Inr ()
            else bindR (wrapR ''socks_proxy.dns_server'' [] (netipAddrOrHostPort (so_DNSServer opts))) (\<lambda>_. Inr ())) (\<lambda>_.
     guardR (list_ex (\<lambda>username. username = []) (sp_Usernames (so_Protected opts)))
       (Err ''socks_proxy.protected.usernames entries must not be empty'')))"

section \<open>Rule sets\<close>

definition parseRulesetMatch :: "rulesetConfig \<Rightarrow> bool res" where
  "parseRulesetMatch cfg =
     (let m = strings_ToLower (rc_Match cfg) in
      if m = [] \<or> m = ''or'' then Inr (rc_MatchAll cfg)
      else if m = ''and'' then Inr True
      else Inl (Errf ''match must be and or or, got %q'' [rc_Match cfg]))"

definition rulesetTriggerPredicateCount :: "rulesetTrigger \<Rightarrow> nat" where
  "rulesetTriggerPredicateCount trigger =
     length (tr_InterfaceTypes trigger) + length (tr_InterfaceNames trigger) + length (tr_InterfaceRegexps trigger) +
     length (tr_IPAddrs trigger) + length (tr_SSIDs trigger) + length (tr_BSSIDs trigger) + length (tr_GatewayMACs trigger)"

definition rulesetTriggerHasPredicates :: "rulesetTrigger \<Rightarrow> bool" where
  "rulesetTriggerHasPredicates trigger \<longleftrightarrow> rulesetTriggerPredicateCount trigger > 0"

text \<open>The loop \<open>for _, pattern := range patterns { if _, err := regexp.Compile(pattern) ... }\<close>.\<close>

definition compile_all :: "regexps \<Rightarrow> string \<Rightarrow> string list \<Rightarrow> unit res" where
  "compile_all rx fmt patterns =
     bindR (mapR (\<lambda>p. if rx p = None then Inl (Wrap fmt [p] regexpError) else Inr ()) patterns) (\<lambda>_. Inr ())"

definition triggerRequired :: error where
  "triggerRequired = Err ''trigger requires at least one interface_types, interface_names, interface_regexps, ip_addrs, ssids, bssids, or gateway_macs entry''"

definition triggerFromConfig :: "regexps \<Rightarrow> triggerConfig \<Rightarrow> rulesetTrigger res" where
  "triggerFromConfig rx cfg =
     bindR (compile_all rx ''compile trigger interface regexp %q'' (tc_InterfaceRegexps cfg)) (\<lambda>_.
     bindR (mapR (\<lambda>v. bindR (wrapR ''parse trigger ip_addrs %q'' [v] (ParseAddr v)) (\<lambda>addr. Inr (Unmap addr)))
              (tc_IPAddrs cfg)) (\<lambda>addrs.
     bindR (normalizeMACList ''trigger bssids'' (tc_BSSIDs cfg)) (\<lambda>bssids.
     bindR (normalizeMACList ''trigger gateway_macs'' (tc_GatewayMACs cfg)) (\<lambda>gatewayMACs.
     let trigger = \<lparr>tr_InterfaceTypes = tc_InterfaceTypes cfg, tr_InterfaceNames = tc_InterfaceNames cfg,
                    tr_InterfaceRegexps = tc_InterfaceRegexps cfg, tr_IPAddrs = addrs, tr_SSIDs = tc_SSIDs cfg,
                    tr_BSSIDs = bssids, tr_GatewayMACs = gatewayMACs\<rparr> in
     bindR (guardR (\<not> rulesetTriggerHasPredicates trigger) triggerRequired) (\<lambda>_.
     Inr trigger)))))"

definition rulesetFromConfig :: "regexps \<Rightarrow> string \<Rightarrow> rulesetConfig \<Rightarrow> ruleset res" where
  "rulesetFromConfig rx name cfg =
     bindR (wrapR ''ruleset %q'' [name] (parseRulesetMatch cfg)) (\<lambda>matchAll.
     bindR (wrapR ''ruleset %q'' [name] (triggerFromConfig rx (rc_Trigger cfg))) (\<lambda>trigger.
     bindR (wrapR ''ruleset %q'' [name] (allowRulesFromConfig cfg)) (\<lambda>rules.
     Inr \<lparr>rset_Name = name, rset_Disabled = rc_Disabled cfg, rset_MatchAll = matchAll,
          rset_Trigger = trigger, rset_Rules = rules\<rparr>)))"

text \<open>The map is walked to collect its names, which are sorted before they are used.\<close>

definition rulesetsFromConfig :: "regexps \<Rightarrow> (string, rulesetConfig) fmap \<Rightarrow> ruleset list res" where
  "rulesetsFromConfig rx configs =
     bindR (guardR ([] |\<in>| fmdom configs) (Err ''ruleset name is required'')) (\<lambda>_.
     mapR (\<lambda>name. rulesetFromConfig rx name (the (fmlookup configs name))) (sorted_list_of_fset (fmdom configs)))"

section \<open>\<open>configToOptions\<close>\<close>

definition selectorRequired :: error where
  "selectorRequired = Err ''at least one interface_types, interface_names, or interface_regexps entry is required''"

definition configToOptions :: "regexps \<Rightarrow> configFile \<Rightarrow> options res" where
  "configToOptions rx cfg =
     (let adminAPI = adminAPIOptionsFromConfig (cf_AdminAPI cfg);
          socksProxy = socksProxyOptionsFromConfig (cf_SocksProxy cfg) in
      bindR (guardR (cf_InterfaceTypes cfg = [] \<and> cf_InterfaceNames cfg = [] \<and> cf_InterfaceRegexps cfg = [])
               selectorRequired) (\<lambda>_.
      bindR (validateAdminAPIOptions adminAPI) (\<lambda>_.
      bindR (validateSocksProxyOptions socksProxy) (\<lambda>_.
      bindR (compile_all rx ''compile interface regexp %q'' (cf_InterfaceRegexps cfg)) (\<lambda>_.
      bindR (compile_all rx ''compile ignored interface regexp %q'' (cf_IgnoredInterfaceRegexps cfg)) (\<lambda>_.
      bindR (ParseAllowedMarks (cf_AllowedMarks cfg)) (\<lambda>marks.
      bindR (allowedPortKeys (cf_AllowedPorts cfg)) (\<lambda>ports.
      bindR (allowedV4HostKeys (cf_AllowedV4Hosts cfg)) (\<lambda>v4hosts.
      bindR (allowedV6HostKeys (cf_AllowedV6Hosts cfg)) (\<lambda>v6hosts.
      bindR (allowedV4HostportKeys (cf_AllowedV4Pairs cfg)) (\<lambda>v4pairs.
      bindR (allowedV6HostportKeys (cf_AllowedV6Pairs cfg)) (\<lambda>v6pairs.
      bindR (rulesetsFromConfig rx (cf_Rulesets cfg)) (\<lambda>rulesets.
      Inr \<lparr>o_InterfaceTypes = cf_InterfaceTypes cfg, o_InterfaceNames = cf_InterfaceNames cfg,
           o_InterfaceRegexps = cf_InterfaceRegexps cfg, o_IgnoredInterfaceTypes = cf_IgnoredInterfaceTypes cfg,
           o_IgnoredInterfaceNames = cf_IgnoredInterfaceNames cfg,
           o_IgnoredInterfaceRegexps = cf_IgnoredInterfaceRegexps cfg,
           o_AdminAPI = adminAPI, o_SocksProxy = socksProxy,
           o_Rules = \<lparr>ar_AllowAll = cf_AllowAll cfg, ar_EnableV4 = cf_EnableV4 cfg, ar_EnableV6 = cf_EnableV6 cfg,
             ar_AllowedMarks = marks, ar_AllowedPorts = ports, ar_AllowedV4Hosts = v4hosts,
             ar_AllowedV6Hosts = v6hosts, ar_AllowedV4Pairs = v4pairs, ar_AllowedV6Pairs = v6pairs\<rparr>,
           o_Rulesets = rulesets\<rparr>)))))))))))))"

section \<open>The invariant of options\<close>

definition admin_ok :: "adminAPIOptions \<Rightarrow> bool" where
  "admin_ok a \<longleftrightarrow> filepath_IsAbs (ao_SocketPath a) \<and> [] \<notin> set (aa_Usernames (ao_Auth a)) \<and>
     [] \<notin> set (aa_Groupnames (ao_Auth a)) \<and>
     \<not> (aa_UIDs (ao_Auth a) = [] \<and> aa_GIDs (ao_Auth a) = [] \<and> aa_Usernames (ao_Auth a) = [] \<and> aa_Groupnames (ao_Auth a) = [])"

definition socks_ok :: "socksProxyOptions \<Rightarrow> bool" where
  "socks_ok o' \<longleftrightarrow> so_FWMark o' \<noteq> 0 \<and> so_Port o' \<noteq> 0 \<and> [] \<notin> set (sp_Usernames (so_Protected o'))"

definition trigger_ok :: "regexps \<Rightarrow> rulesetTrigger \<Rightarrow> bool" where
  "trigger_ok rx t \<longleftrightarrow> rulesetTriggerHasPredicates t \<and> patterns_ok rx (tr_InterfaceRegexps t) \<and>
     list_all (\<lambda>a. \<not> Is4In6 a) (tr_IPAddrs t)"

definition ruleset_ok :: "regexps \<Rightarrow> ruleset \<Rightarrow> bool" where
  "ruleset_ok rx rs \<longleftrightarrow> rset_Name rs \<noteq> [] \<and> trigger_ok rx (rset_Trigger rs) \<and> rules_ok (rset_Rules rs)"

definition has_selector :: "options \<Rightarrow> bool" where
  "has_selector opts \<longleftrightarrow> o_InterfaceTypes opts \<noteq> [] \<or> o_InterfaceNames opts \<noteq> [] \<or> o_InterfaceRegexps opts \<noteq> []"

definition opts_ok :: "regexps \<Rightarrow> options \<Rightarrow> bool" where
  "opts_ok rx opts \<longleftrightarrow> has_selector opts \<and> patterns_ok rx (o_InterfaceRegexps opts) \<and>
     patterns_ok rx (o_IgnoredInterfaceRegexps opts) \<and> admin_ok (o_AdminAPI opts) \<and> socks_ok (o_SocksProxy opts) \<and>
     rules_ok (o_Rules opts) \<and> list_all (ruleset_ok rx) (o_Rulesets opts) \<and>
     sorted_wrt (<) (map rset_Name (o_Rulesets opts))"

lemma compile_all_Inr [res_simps]: "compile_all rx fmt ps = Inr u \<longleftrightarrow> patterns_ok rx ps"
  by (induction ps) (auto simp: compile_all_def patterns_ok_def bindR_Inr)

lemma triggerFromConfig_ok:
  assumes "triggerFromConfig rx cfg = Inr t"
  shows "trigger_ok rx t"
proof -
  from assms obtain addrs where t: "patterns_ok rx (tc_InterfaceRegexps cfg)"
    "mapR (\<lambda>v. bindR (wrapR ''parse trigger ip_addrs %q'' [v] (ParseAddr v)) (\<lambda>addr. Inr (Unmap addr))) (tc_IPAddrs cfg) = Inr addrs"
    "tr_IPAddrs t = addrs" "tr_InterfaceRegexps t = tc_InterfaceRegexps cfg" "rulesetTriggerHasPredicates t"
    unfolding triggerFromConfig_def Let_def bindR_Inr guardR_Inr compile_all_Inr by fastforce
  from t(2) have "\<forall>a \<in> set addrs. \<not> Is4In6 a"
    by (rule mapR_pred) (auto simp: bindR_Inr)
  with t show ?thesis by (simp add: trigger_ok_def list_all_iff)
qed

lemma rulesetFromConfig_ok:
  "rulesetFromConfig rx name cfg = Inr rs \<Longrightarrow> name \<noteq> [] \<Longrightarrow> ruleset_ok rx rs \<and> rset_Name rs = name"
  by (auto simp: rulesetFromConfig_def bindR_Inr wrapR_Inr ruleset_ok_def triggerFromConfig_ok allowRulesFromConfig_ok)

lemma rulesetsFromConfig_ok:
  assumes "rulesetsFromConfig rx configs = Inr rss"
  shows "list_all (ruleset_ok rx) rss \<and> map rset_Name rss = sorted_list_of_fset (fmdom configs)"
proof -
  from assms have ne: "[] \<notin> set (sorted_list_of_fset (fmdom configs))"
    and "list_all2 (\<lambda>name rs. rulesetFromConfig rx name (the (fmlookup configs name)) = Inr rs)
      (sorted_list_of_fset (fmdom configs)) rss"
    by (auto simp: rulesetsFromConfig_def bindR_Inr guardR_Inr mapR_Inr)
  then have "list_all2 (\<lambda>name rs. ruleset_ok rx rs \<and> rset_Name rs = name) (sorted_list_of_fset (fmdom configs)) rss"
    using rulesetFromConfig_ok unfolding list_all2_conv_all_nth by (metis nth_mem)
  then show ?thesis
    by (induction rule: list_all2_induct) auto
qed

lemma sorted_strict_names: "sorted_wrt (<) (sorted_list_of_fset (S :: 'a :: linorder fset))"
  by (simp add: sorted_list_of_fset.rep_eq)

lemma adminAPIOptionsFromConfig_ok:
  "validateAdminAPIOptions (adminAPIOptionsFromConfig cfg) = Inr u \<Longrightarrow> admin_ok (adminAPIOptionsFromConfig cfg)"
  by (auto simp: validateAdminAPIOptions_def bindR_Inr guardR_Inr admin_ok_def list_ex_iff adminAPIOptionsFromConfig_def Let_def
      split: if_splits)

lemma socksProxyOptionsFromConfig_port: "so_Port (socksProxyOptionsFromConfig cfg) \<noteq> 0"
  by (simp add: socksProxyOptionsFromConfig_def Let_def defaultSocksProxyPort_def)

lemma socksProxyOptionsFromConfig_ok:
  "validateSocksProxyOptions (socksProxyOptionsFromConfig cfg) = Inr u \<Longrightarrow> socks_ok (socksProxyOptionsFromConfig cfg)"
  by (auto simp: validateSocksProxyOptions_def bindR_Inr guardR_Inr socks_ok_def list_ex_iff socksProxyOptionsFromConfig_port)

lemma configToOptions_opts_ok:
  assumes "configToOptions rx cfg = Inr opts"
  shows "opts_ok rx opts"
proof -
  from assms have
    "\<not> (cf_InterfaceTypes cfg = [] \<and> cf_InterfaceNames cfg = [] \<and> cf_InterfaceRegexps cfg = [])"
    "validateAdminAPIOptions (o_AdminAPI opts) = Inr ()" "o_AdminAPI opts = adminAPIOptionsFromConfig (cf_AdminAPI cfg)"
    "validateSocksProxyOptions (o_SocksProxy opts) = Inr ()" "o_SocksProxy opts = socksProxyOptionsFromConfig (cf_SocksProxy cfg)"
    "patterns_ok rx (cf_InterfaceRegexps cfg)" "patterns_ok rx (cf_IgnoredInterfaceRegexps cfg)"
    "o_InterfaceTypes opts = cf_InterfaceTypes cfg" "o_InterfaceNames opts = cf_InterfaceNames cfg"
    "o_InterfaceRegexps opts = cf_InterfaceRegexps cfg" "o_IgnoredInterfaceRegexps opts = cf_IgnoredInterfaceRegexps cfg"
    "rulesetsFromConfig rx (cf_Rulesets cfg) = Inr (o_Rulesets opts)"
    "allowedPortKeys (cf_AllowedPorts cfg) = Inr (ar_AllowedPorts (o_Rules opts))"
    "allowedV6HostKeys (cf_AllowedV6Hosts cfg) = Inr (ar_AllowedV6Hosts (o_Rules opts))"
    "allowedV4HostportKeys (cf_AllowedV4Pairs cfg) = Inr (ar_AllowedV4Pairs (o_Rules opts))"
    "allowedV6HostportKeys (cf_AllowedV6Pairs cfg) = Inr (ar_AllowedV6Pairs (o_Rules opts))"
    unfolding configToOptions_def Let_def bindR_Inr guardR_Inr compile_all_Inr by auto
  then show ?thesis
    using rulesetsFromConfig_ok [of rx "cf_Rulesets cfg" "o_Rulesets opts"]
      adminAPIOptionsFromConfig_ok socksProxyOptionsFromConfig_ok
    by (simp add: opts_ok_def has_selector_def rules_ok_def list_all_iff sorted_strict_names
        ports_codec.sound v6hosts_codec.sound v4pairs_codec.sound v6pairs_codec.sound)
qed

lemma configToOptions_total_selectors:
  "configToOptions rx cfg = Inr opts \<Longrightarrow> patterns_ok rx (o_InterfaceRegexps opts) \<and> patterns_ok rx (o_IgnoredInterfaceRegexps opts)"
  using configToOptions_opts_ok by (auto simp: opts_ok_def)

section \<open>Properties\<close>

text \<open>a configuration that is accepted gives options on which the daemon cannot fail later: at
  least one selector, only patterns that compile (so that no \<open>MustCompile\<close> panics), rule sets with
  non-empty distinct sorted names and a trigger with a predicate, rules that the admin API can print and
  read back, an absolute socket path with some authorisation rule and a SOCKS mark that is not zero. A
  configuration without a selector is rejected.\<close>

theorem configToOptions_establishes_opts_ok:
  "(case configToOptions rx cfg of Inr opts \<Rightarrow> opts_ok rx opts | Inl e \<Rightarrow> True) \<and>
   configToOptions rx (cfg\<lparr>cf_InterfaceTypes := [], cf_InterfaceNames := [], cf_InterfaceRegexps := []\<rparr>) = Inl selectorRequired"
  using configToOptions_opts_ok [of rx cfg]
  by (auto simp: configToOptions_def [of rx "cfg\<lparr>cf_InterfaceTypes := [], cf_InterfaceNames := [], cf_InterfaceRegexps := []\<rparr>"]
      Let_def split: sum.split)

end
