(* ===== verification/AdminAuth.thy ===== *)
theory AdminAuth
  imports Config
begin

text \<open>
  The first half of \<open>cmd/killswitch/admin.go\<close>: how the admin socket is made and who may connect to it. The
  user database and the file system are parameters, one answer for each call that the code makes.
\<close>

unbundle bit_operations_syntax

section \<open>The user database\<close>

record adminAPIPeer =
  peer_UID :: u32
  peer_GID :: u32
  peer_PID :: int

text \<open>\<open>user.Lookup\<close> (the text of the uid), \<open>user.LookupId\<close> with \<open>GroupIds\<close> of its user, and
  \<open>user.LookupGroup\<close> (the text of the gid).\<close>

record user_db =
  db_Lookup :: "string \<Rightarrow> string res"
  db_LookupId :: "string \<Rightarrow> string list res res"
  db_LookupGroup :: "string \<Rightarrow> string res"

section \<open>Authentication\<close>

definition parseUint32ID :: "string \<Rightarrow> u32 res" where
  "parseUint32ID raw = bindR (strconv_ParseUint raw 10 32) (\<lambda>value. Inr (of_nat value))"

definition parseUserID :: "string \<Rightarrow> u32 res" where
  "parseUserID raw = parseUint32ID raw"

definition parseGroupID :: "string \<Rightarrow> u32 res" where
  "parseGroupID raw = parseUint32ID raw"

definition keepFirstErr :: "error option \<Rightarrow> error \<Rightarrow> error option" where
  "keepFirstErr first err = (case first of Some e \<Rightarrow> Some e | None \<Rightarrow> Some err)"

text \<open>The loop over the supplementary groups stops at the first identifier that is no number.\<close>

fun add_groups :: "u32 \<Rightarrow> string list \<Rightarrow> u32 fset \<Rightarrow> u32 fset \<times> error option" where
  "add_groups uid [] groups = (groups, None)"
| "add_groups uid (raw # raws) groups =
     (case parseGroupID raw of
        Inl err \<Rightarrow> (groups, Some (Wrap ''parse supplementary gid %q for uid %d'' [raw, utoa 10 (unat uid)] err))
      | Inr gid \<Rightarrow> add_groups uid raws (finsert gid groups))"

definition adminAPIClientGroups :: "user_db \<Rightarrow> adminAPIPeer \<Rightarrow> u32 fset \<times> error option" where
  "adminAPIClientGroups db peer =
     (let groups = {|peer_GID peer|}; uid = utoa 10 (unat (peer_UID peer)) in
      case db_LookupId db uid of
        Inl err \<Rightarrow> (groups, Some (Wrap ''lookup uid %d'' [uid] err))
      | Inr (Inl err) \<Rightarrow> (groups, Some (Wrap ''list groups for uid %d'' [uid] err))
      | Inr (Inr groupIDs) \<Rightarrow> add_groups (peer_UID peer) groupIDs groups)"

text \<open>The loops over the names return the name that matched, or the first error so far.\<close>

fun match_username :: "user_db \<Rightarrow> u32 \<Rightarrow> error option \<Rightarrow> string list \<Rightarrow> error option + string" where
  "match_username db uid firstErr [] = Inl firstErr"
| "match_username db uid firstErr (username # names) =
     (case db_Lookup db username of
        Inl err \<Rightarrow> match_username db uid (keepFirstErr firstErr (Wrap ''lookup username %q'' [username] err)) names
      | Inr raw \<Rightarrow>
          (case parseUserID raw of
             Inl err \<Rightarrow> match_username db uid (keepFirstErr firstErr (Wrap ''parse uid for username %q'' [username] err)) names
           | Inr found \<Rightarrow> if uid = found then Inr username else match_username db uid firstErr names))"

fun match_groupname :: "user_db \<Rightarrow> u32 fset \<Rightarrow> error option \<Rightarrow> string list \<Rightarrow> error option + string" where
  "match_groupname db groups firstErr [] = Inl firstErr"
| "match_groupname db groups firstErr (groupname # names) =
     (case db_LookupGroup db groupname of
        Inl err \<Rightarrow> match_groupname db groups (keepFirstErr firstErr (Wrap ''lookup groupname %q'' [groupname] err)) names
      | Inr raw \<Rightarrow>
          (case parseGroupID raw of
             Inl err \<Rightarrow> match_groupname db groups (keepFirstErr firstErr (Wrap ''parse gid for groupname %q'' [groupname] err)) names
           | Inr gid \<Rightarrow> if gid |\<in>| groups then Inr groupname else match_groupname db groups firstErr names))"

definition adminAPIClientAllowed :: "user_db \<Rightarrow> adminAPIPeer \<Rightarrow> adminAPIAuthRules \<Rightarrow> bool \<times> string \<times> error option" where
  "adminAPIClientAllowed db peer rules =
     (case find (\<lambda>uid. peer_UID peer = uid) (aa_UIDs rules) of
        Some uid \<Rightarrow> (True, ''uid:'' @ utoa 10 (unat uid), None)
      | None \<Rightarrow>
     (case match_username db (peer_UID peer) None (aa_Usernames rules) of
        Inr username \<Rightarrow> (True, ''username:'' @ username, None)
      | Inl firstErr \<Rightarrow>
          (let (groups, err) = adminAPIClientGroups db peer;
               firstErr = (case err of Some e \<Rightarrow> keepFirstErr firstErr e | None \<Rightarrow> firstErr)
           in case find (\<lambda>gid. gid |\<in>| groups) (aa_GIDs rules) of
                Some gid \<Rightarrow> (True, ''gid:'' @ utoa 10 (unat gid), None)
              | None \<Rightarrow>
             (case match_groupname db groups firstErr (aa_Groupnames rules) of
                Inr groupname \<Rightarrow> (True, ''groupname:'' @ groupname, None)
              | Inl firstErr \<Rightarrow> (False, [], firstErr)))))"

section \<open>What the rules mean\<close>

text \<open>The identifier a name stands for, when there is one.\<close>

definition uid_of :: "user_db \<Rightarrow> string \<Rightarrow> u32 option" where
  "uid_of db name = (case db_Lookup db name of Inl _ \<Rightarrow> None | Inr raw \<Rightarrow>
     (case parseUserID raw of Inl _ \<Rightarrow> None | Inr uid \<Rightarrow> Some uid))"

definition gid_of :: "user_db \<Rightarrow> string \<Rightarrow> u32 option" where
  "gid_of db name = (case db_LookupGroup db name of Inl _ \<Rightarrow> None | Inr raw \<Rightarrow>
     (case parseGroupID raw of Inl _ \<Rightarrow> None | Inr gid \<Rightarrow> Some gid))"

text \<open>The groups of a peer: its own and the supplementary ones that are known.\<close>

definition known_groups :: "user_db \<Rightarrow> adminAPIPeer \<Rightarrow> u32 set" where
  "known_groups db peer = insert (peer_GID peer)
     (case db_LookupId db (utoa 10 (unat (peer_UID peer))) of
        Inr (Inr raws) \<Rightarrow> {gid. \<exists>raw \<in> set (takeWhile (\<lambda>raw. parseGroupID raw \<in> range Inr) raws). parseGroupID raw = Inr gid}
      | _ \<Rightarrow> {})"

lemma match_username_iff:
  "(\<exists>n. match_username db uid e names = Inr n) \<longleftrightarrow> (\<exists>n \<in> set names. uid_of db n = Some uid)"
  by (induction db uid e names rule: match_username.induct) (auto simp: uid_of_def split: sum.splits)

lemma match_groupname_iff:
  "(\<exists>n. match_groupname db groups e names = Inr n) \<longleftrightarrow> (\<exists>n \<in> set names. \<exists>g. gid_of db n = Some g \<and> g |\<in>| groups)"
  by (induction db groups e names rule: match_groupname.induct) (auto simp: gid_of_def split: sum.splits)

lemma add_groups_fset: "fset (fst (add_groups uid raws groups)) =
    fset groups \<union> {gid. \<exists>raw \<in> set (takeWhile (\<lambda>raw. parseGroupID raw \<in> range Inr) raws). parseGroupID raw = Inr gid}"
  by (induction uid raws groups rule: add_groups.induct) (auto split: sum.split)

lemma client_groups: "fset (fst (adminAPIClientGroups db peer)) = known_groups db peer"
  by (auto simp: adminAPIClientGroups_def known_groups_def Let_def add_groups_fset split: sum.split)

section \<open>The socket\<close>

text \<open>\<open>0x1FF\<close> is the mask \<open>0o777\<close> of the permission bits, \<open>0x12\<close> is \<open>0o022\<close>, write permission for group and others.\<close>

definition ModeDir :: u32 where "ModeDir = push_bit 31 1"
definition ModeSocket :: u32 where "ModeSocket = push_bit 24 1"

text \<open>The mode bits of a file and the owner, when its \<open>Sys\<close> has one of the two types the code knows.\<close>

record file_info =
  fi_Mode :: u32
  fi_UID :: "u32 option"

datatype stat_result = Found file_info | NotExist | StatError error

record file_system =
  fs_Stat :: "string \<Rightarrow> stat_result"
  fs_Lstat :: "string \<Rightarrow> stat_result"
  fs_MkdirAll :: "string \<Rightarrow> unit res"
  fs_Dial :: "string \<Rightarrow> unit res"
  fs_Remove :: "string \<Rightarrow> unit res"
  fs_Listen :: "string \<Rightarrow> unit res"
  fs_Chmod :: "string \<Rightarrow> unit res"
  fs_Geteuid :: u32

datatype fs_call = MkdirAll string | Remove string | Listen string | Chmod string | CloseListener

text \<open>\<open>filepath.Clean\<close> and \<open>filepath.Dir\<close> on Unix, by the parts of a path.\<close>

definition clean_part :: "bool \<Rightarrow> string list \<Rightarrow> string \<Rightarrow> string list" where
  "clean_part rooted out part =
     (if part = [] \<or> part = ''.'' then out
      else if part = ''..'' then
        (case out of [] \<Rightarrow> if rooted then [] else [part] | p # ps \<Rightarrow> if p = ''..'' then part # out else ps)
      else part # out)"

fun split_path :: "string \<Rightarrow> string list" where
  "split_path [] = [[]]"
| "split_path (c # cs) = (if c = CHR ''/'' then [] # split_path cs
     else case split_path cs of [] \<Rightarrow> [[c]] | p # ps \<Rightarrow> (c # p) # ps)"

fun join_path :: "string list \<Rightarrow> string" where
  "join_path [] = []"
| "join_path [p] = p"
| "join_path (p # ps) = p @ ''/'' @ join_path ps"

definition filepath_Clean :: "string \<Rightarrow> string" where
  "filepath_Clean path =
     (let rooted = filepath_IsAbs path;
          parts = rev (foldl (clean_part rooted) [] (split_path path));
          cleaned = (if rooted then ''/'' else []) @ join_path parts
      in if cleaned = [] then ''.'' else cleaned)"

definition filepath_Dir :: "string \<Rightarrow> string" where
  "filepath_Dir path = filepath_Clean (rev (dropWhile (\<lambda>c. c \<noteq> CHR ''/'') (rev path)))"

definition ensureAdminAPISocketDir :: "file_system \<Rightarrow> string \<Rightarrow> unit res \<times> fs_call list" where
  "ensureAdminAPISocketDir fs dir =
     (case fs_Stat fs dir of
        NotExist \<Rightarrow> (wrapR ''create admin API socket directory'' [] (fs_MkdirAll fs dir), [MkdirAll dir])
      | StatError err \<Rightarrow> (Inl (Wrap ''stat admin API socket directory %s'' [dir] err), [])
      | Found info \<Rightarrow>
          (if fi_Mode info AND ModeDir = 0 then Inl (Errf ''admin API socket directory %s is not a directory'' [dir])
           else if (fi_Mode info AND 0x1FF) AND 0x12 \<noteq> 0
           then Inl (Errf ''admin API socket directory %s must not be group- or world-writable'' [dir])
           else case fi_UID info of
             None \<Rightarrow> Inl (Errf ''stat admin API socket directory %s: unsupported stat type'' [dir])
           | Some uid \<Rightarrow> guardR (uid \<noteq> fs_Geteuid fs)
               (Errf ''admin API socket directory %s must be owned by uid %d, got uid %d''
                  [dir, utoa 10 (unat (fs_Geteuid fs)), utoa 10 (unat uid)]), []))"

definition removeStaleAdminAPISocket :: "file_system \<Rightarrow> string \<Rightarrow> unit res \<times> fs_call list" where
  "removeStaleAdminAPISocket fs socketPath =
     (case fs_Lstat fs socketPath of
        NotExist \<Rightarrow> (Inr (), [])
      | StatError err \<Rightarrow> (Inl (Wrap ''stat admin API socket %s'' [socketPath] err), [])
      | Found info \<Rightarrow>
          (if fi_Mode info AND ModeSocket = 0
           then (Inl (Errf ''admin API socket path %s exists and is not a socket'' [socketPath]), [])
           else case fs_Dial fs socketPath of
             Inr _ \<Rightarrow> (Inl (Errf ''admin API socket %s is already accepting connections'' [socketPath]), [])
           | Inl _ \<Rightarrow> (wrapR ''remove stale admin API socket %s'' [socketPath] (fs_Remove fs socketPath), [Remove socketPath])))"

definition listenAdminAPIUnix :: "file_system \<Rightarrow> string \<Rightarrow> unit res \<times> fs_call list" where
  "listenAdminAPIUnix fs socketPath =
     (case ensureAdminAPISocketDir fs (filepath_Dir socketPath) of
        (Inl err, calls) \<Rightarrow> (Inl err, calls)
      | (Inr _, calls) \<Rightarrow>
     (case removeStaleAdminAPISocket fs socketPath of
        (Inl err, calls') \<Rightarrow> (Inl err, calls @ calls')
      | (Inr _, calls') \<Rightarrow>
     (case fs_Listen fs socketPath of
        Inl err \<Rightarrow> (Inl (Wrap ''listen on admin API socket %s'' [socketPath] err), calls @ calls' @ [Listen socketPath])
      | Inr _ \<Rightarrow>
     (case fs_Chmod fs socketPath of
        Inl err \<Rightarrow> (Inl (Wrap ''chmod admin API socket %s'' [socketPath] err),
                    calls @ calls' @ [Listen socketPath, Chmod socketPath, CloseListener, Remove socketPath])
      | Inr _ \<Rightarrow> (Inr (), calls @ calls' @ [Listen socketPath, Chmod socketPath])))))"

text \<open>The directory is one that only the daemon's user can change.\<close>

definition private_dir :: "file_system \<Rightarrow> string \<Rightarrow> bool" where
  "private_dir fs dir \<longleftrightarrow> (case fs_Stat fs dir of
     Found info \<Rightarrow> fi_Mode info AND ModeDir \<noteq> 0 \<and> \<not> bit (fi_Mode info) 4 \<and> \<not> bit (fi_Mode info) 1 \<and> fi_UID info = Some (fs_Geteuid fs)
   | _ \<Rightarrow> False)"

definition stale_socket :: "file_system \<Rightarrow> string \<Rightarrow> bool" where
  "stale_socket fs path \<longleftrightarrow> (case fs_Lstat fs path of Found info \<Rightarrow> fi_Mode info AND ModeSocket \<noteq> 0 | _ \<Rightarrow> False) \<and>
     (\<exists>e. fs_Dial fs path = Inl e)"

lemma perm_022: "((m :: u32) AND 0x1FF) AND 0x12 = 0 \<longleftrightarrow> \<not> bit m 4 \<and> \<not> bit m 1"
proof -
  have "(m AND 0x1FF) AND 0x12 = (m AND push_bit 4 1) OR (m AND push_bit 1 1)"
    by (simp add: and.assoc flip: bit.conj_disj_distrib)
  then show ?thesis by (simp add: or_eq_0_iff bit_iff_and_push_bit_not_eq_0)
qed

lemma ensure_dir_spec:
  assumes "ensureAdminAPISocketDir fs dir = (res, calls)"
  shows "res = Inr () \<longleftrightarrow> fs_Stat fs dir = NotExist \<and> fs_MkdirAll fs dir = Inr () \<or> private_dir fs dir"
    and "set calls \<subseteq> {MkdirAll dir}"
  using assms
  by (auto simp: ensureAdminAPISocketDir_def private_dir_def perm_022 wrapR_Inr guardR_Inr split: stat_result.splits if_splits option.splits)

lemma remove_stale_spec:
  assumes "removeStaleAdminAPISocket fs path = (res, calls)"
  shows "calls = (if stale_socket fs path then [Remove path] else [])"
    and "res = Inr () \<Longrightarrow> fs_Lstat fs path = NotExist \<or> stale_socket fs path"
proof -
  have "calls = (if stale_socket fs path then [Remove path] else []) \<and>
    (res = Inr () \<longrightarrow> fs_Lstat fs path = NotExist \<or> stale_socket fs path)"
  proof (cases "stale_socket fs path")
    case True
    then obtain info e where "fs_Lstat fs path = Found info" "fi_Mode info AND ModeSocket \<noteq> 0" "fs_Dial fs path = Inl e"
      by (auto simp: stale_socket_def split: stat_result.splits)
    with True assms show ?thesis by (simp add: removeStaleAdminAPISocket_def)
  next
    case False
    show ?thesis
    proof (cases "fs_Lstat fs path")
      case (Found info)
      with False have "fi_Mode info AND ModeSocket = 0 \<or> fs_Dial fs path = Inr ()"
        by (cases "fs_Dial fs path") (simp_all add: stale_socket_def)
      then have "\<exists>err. removeStaleAdminAPISocket fs path = (Inl err, [])"
        unfolding removeStaleAdminAPISocket_def Found by (elim disjE) simp_all
      with assms False show ?thesis by auto
    qed (use assms False in \<open>auto simp: removeStaleAdminAPISocket_def\<close>)
  qed
  then show "calls = (if stale_socket fs path then [Remove path] else [])"
    and "res = Inr () \<Longrightarrow> fs_Lstat fs path = NotExist \<or> stale_socket fs path" by simp_all
qed

section \<open>Properties\<close>

text \<open>C21: a client is let in exactly when its user is listed by number or by a name of that number, or one
  of its known groups is listed by number or by name; a lookup that fails lets nobody in, and nobody is refused for
  the failure of a rule that does not concern them. An error is only reported with a refusal.\<close>

theorem client_allowed_iff:
  "case adminAPIClientAllowed db peer rules of (allowed, reason, err) \<Rightarrow>
     (allowed \<longleftrightarrow> peer_UID peer \<in> set (aa_UIDs rules) \<or> (\<exists>n \<in> set (aa_Usernames rules). uid_of db n = Some (peer_UID peer)) \<or>
       (\<exists>g \<in> known_groups db peer. g \<in> set (aa_GIDs rules) \<or> (\<exists>n \<in> set (aa_Groupnames rules). gid_of db n = Some g))) \<and>
     (if allowed then err = None \<and> reason \<noteq> [] else reason = [])"
proof (cases "find (\<lambda>uid. peer_UID peer = uid) (aa_UIDs rules)")
  case (Some uid)
  then show ?thesis using find_Some_in [OF Some] by (auto simp: adminAPIClientAllowed_def)
next
  case None
  then have uids: "peer_UID peer \<notin> set (aa_UIDs rules)" by (auto simp: find_None_iff)
  show ?thesis
  proof (cases "match_username db (peer_UID peer) None (aa_Usernames rules)")
    case (Inr n)
    then show ?thesis using None match_username_iff [of db "peer_UID peer" None "aa_Usernames rules"]
      by (auto simp: adminAPIClientAllowed_def)
  next
    case (Inl e)
    then have names: "\<not> (\<exists>n \<in> set (aa_Usernames rules). uid_of db n = Some (peer_UID peer))"
      using match_username_iff [of db "peer_UID peer" None "aa_Usernames rules"] by auto
    obtain groups err where g: "adminAPIClientGroups db peer = (groups, err)" by fastforce
    then have known: "known_groups db peer = fset groups" using client_groups [of db peer] by simp
    define first where "first = (case err of Some e' \<Rightarrow> keepFirstErr e e' | None \<Rightarrow> e)"
    show ?thesis
    proof (cases "find (\<lambda>gid. gid |\<in>| groups) (aa_GIDs rules)")
      case (Some gid)
      then show ?thesis using None Inl g known find_Some_in [OF Some] by (auto simp: adminAPIClientAllowed_def Let_def)
    next
      case none: None
      then have "\<forall>gid \<in> set (aa_GIDs rules). gid |\<notin>| groups" by (auto simp: find_None_iff)
      then show ?thesis
        using None Inl g known none uids names match_groupname_iff [of db groups first "aa_Groupnames rules"]
        by (cases "match_groupname db groups first (aa_Groupnames rules)") (auto simp: adminAPIClientAllowed_def Let_def first_def)
    qed
  qed
qed

text \<open>C22: the daemon listens in a directory that only its own user can change, or that it has just made, and it
  removes a file at the path only when that is a socket nobody answers on.\<close>

theorem listen_is_safe:
  assumes "listenAdminAPIUnix fs path = (res, calls)"
  shows "(Listen p \<in> set calls \<longrightarrow> p = path \<and> (fs_Stat fs (filepath_Dir path) = NotExist \<and> MkdirAll (filepath_Dir path) \<in> set calls \<or>
      private_dir fs (filepath_Dir path)) \<and> (fs_Lstat fs path = NotExist \<or> stale_socket fs path)) \<and>
    (Remove p \<in> set (takeWhile (\<lambda>c. c \<noteq> Listen path) calls) \<longrightarrow> p = path \<and> stale_socket fs path) \<and>
    (res = Inr () \<longrightarrow> Listen path \<in> set calls)"
proof -
  obtain r1 c1 where e: "ensureAdminAPISocketDir fs (filepath_Dir path) = (r1, c1)" by fastforce
  obtain r2 c2 where s: "removeStaleAdminAPISocket fs path = (r2, c2)" by fastforce
  note dir = ensure_dir_spec [OF e] and sock = remove_stale_spec [OF s]
  have c1: "\<forall>c \<in> set c1. c = MkdirAll (filepath_Dir path)" using dir(2) by auto
  show ?thesis
  proof (cases r1)
    case (Inl err)
    then show ?thesis using assms e c1 by (auto simp: listenAdminAPIUnix_def dest: set_takeWhileD)
  next
    case one: (Inr u)
    note good = dir(1) [unfolded one, simplified]
    show ?thesis
    proof (cases r2)
      case (Inl err)
      then have "res = Inl err" "calls = c1 @ c2" using assms e s one by (simp_all add: listenAdminAPIUnix_def)
      then show ?thesis using c1 sock(1) by (auto dest!: set_takeWhileD split: if_splits)
    next
      case two: (Inr v)
      have listen: "\<exists>rest. calls = c1 @ c2 @ Listen path # rest \<and> set rest \<subseteq> {Chmod path, CloseListener, Remove path}"
        using assms e s one two by (auto simp: listenAdminAPIUnix_def split: sum.splits)
      then obtain rest where calls: "calls = c1 @ c2 @ Listen path # rest" "set rest \<subseteq> {Chmod path, CloseListener, Remove path}" by blast
      have c2: "set c2 \<subseteq> {Remove path}" using sock(1) by (auto split: if_splits)
      have pre: "takeWhile (\<lambda>c. c \<noteq> Listen path) calls = c1 @ c2"
        unfolding calls(1) append_assoc [symmetric] by (subst takeWhile_append2) (use c1 c2 in auto)
      show ?thesis unfolding pre using calls c1 c2 sock good two e
        by (auto simp: ensureAdminAPISocketDir_def private_dir_def split: if_splits)
    qed
  qed
qed

definition example_fs :: file_system where
  "example_fs = \<lparr>fs_Stat = (\<lambda>_. Found \<lparr>fi_Mode = ModeDir OR 0x1ED, fi_UID = Some 0\<rparr>),
     fs_Lstat = (\<lambda>_. Found \<lparr>fi_Mode = ModeSocket OR 0x1B6, fi_UID = Some 0\<rparr>), fs_MkdirAll = (\<lambda>_. Inr ()),
     fs_Dial = (\<lambda>_. Inl (Lib ''connection refused'')), fs_Remove = (\<lambda>_. Inr ()), fs_Listen = (\<lambda>_. Inr ()),
     fs_Chmod = (\<lambda>_. Inr ()), fs_Geteuid = 0\<rparr>"

lemma listen_is_safe_witness:
  "private_dir example_fs (filepath_Dir ''/run/ks/../killswitch.sock'') \<and> filepath_Dir ''/run/ks/../killswitch.sock'' = ''/run''"
proof -
  have run: "listenAdminAPIUnix example_fs ''/run/ks/../killswitch.sock'' =
      (Inr (), [Remove ''/run/ks/../killswitch.sock'', Listen ''/run/ks/../killswitch.sock'', Chmod ''/run/ks/../killswitch.sock''])"
    by code_simp
  have "filepath_Dir ''/run/ks/../killswitch.sock'' = ''/run''" by code_simp
  with listen_is_safe [OF run, of "''/run/ks/../killswitch.sock''"] show ?thesis
    by (simp add: example_fs_def)
qed

end
