(* ===== verification/EffectivePolicy.thy ===== *)
theory EffectivePolicy
  imports Config
begin

text \<open>
  The policy of each interface: \<open>cmd/killswitch/effective_policy.go\<close> and the comparison of
  policy maps in \<open>bpf_maps.go\<close>. A Go map is a finite map; where the order of a walk over one
  can matter, the keys in the order of the walk are an argument.
\<close>

section \<open>Triggers\<close>

text \<open>\<open>regexp.MustCompile(pattern).MatchString(s)\<close> panics on a pattern that does not compile.\<close>

definition MustCompile_MatchString :: "regexps \<Rightarrow> string \<Rightarrow> string \<Rightarrow> bool res" where
  "MustCompile_MatchString rx pattern s =
     (case rx pattern of None \<Rightarrow> Inl (Panic ''regexp: Compile'') | Some f \<Rightarrow> Inr (f s))"

definition count_matches :: "('a \<Rightarrow> bool) \<Rightarrow> 'a list \<Rightarrow> nat" where
  "count_matches P xs = foldl (\<lambda>matched x. if P x then matched + 1 else matched) 0 xs"

fun count_patterns :: "regexps \<Rightarrow> string \<Rightarrow> string list \<Rightarrow> nat res" where
  "count_patterns rx name [] = Inr 0"
| "count_patterns rx name (pattern # ps) =
     bindR (MustCompile_MatchString rx pattern name) (\<lambda>m.
     bindR (count_patterns rx name ps) (\<lambda>n. Inr (if m then n + 1 else n)))"

definition rulesetTriggerMatchesInterface :: "regexps \<Rightarrow> interfaceInfo \<Rightarrow> rulesetTrigger \<Rightarrow> bool \<Rightarrow> bool res" where
  "rulesetTriggerMatchesInterface rx iface trigger matchAll =
     (let total = rulesetTriggerPredicateCount trigger in
      if total = 0 then Inr False
      else
        bindR (count_patterns rx (ii_Name iface) (tr_InterfaceRegexps trigger)) (\<lambda>byRegexp.
        let matched =
          count_matches (\<lambda>typ. ii_Type iface = typ) (tr_InterfaceTypes trigger) +
          count_matches (\<lambda>name. ii_Name iface = name) (tr_InterfaceNames trigger) +
          byRegexp +
          count_matches (\<lambda>addr. list_ex (\<lambda>ifaceAddr. Unmap ifaceAddr = Unmap addr) (elems (ii_Addrs iface)))
            (tr_IPAddrs trigger) +
          count_matches (\<lambda>ssid. ii_SSID iface = ssid) (tr_SSIDs trigger) +
          count_matches (\<lambda>bssid. ii_BSSID iface = bssid) (tr_BSSIDs trigger) +
          count_matches (\<lambda>gatewayMAC. stringInSlice gatewayMAC (ii_GatewayMACs iface)) (tr_GatewayMACs trigger)
        in Inr (if matchAll then matched = total else matched > 0)))"

definition activeRulesetsForInterface :: "regexps \<Rightarrow> interfaceInfo \<Rightarrow> ruleset list \<Rightarrow> ruleset list res" where
  "activeRulesetsForInterface rx iface rulesets =
     filterR (\<lambda>rs. if rset_Disabled rs then Inr False
                   else rulesetTriggerMatchesInterface rx iface (rset_Trigger rs) (rset_MatchAll rs)) rulesets"

section \<open>Forced and temporary rule sets\<close>

fun forcedRulesetsForInterface :: "ruleset list \<Rightarrow> forceRuleset list \<Rightarrow> string \<Rightarrow> ruleset list" where
  "forcedRulesetsForInterface rulesets [] ifaceName = []"
| "forcedRulesetsForInterface rulesets (forced # rest) ifaceName =
     (if \<not> stringInSlice ifaceName (fr_Interfaces forced)
      then forcedRulesetsForInterface rulesets rest ifaceName
      else let idx = findRuleset rulesets (fr_Name forced) in
        (if 0 \<le> idx then rulesets ! nat idx # forcedRulesetsForInterface rulesets rest ifaceName
         else forcedRulesetsForInterface rulesets rest ifaceName))"

definition temporaryRulesetsForInterface :: "temporaryRuleset list \<Rightarrow> string \<Rightarrow> temporaryRuleset list" where
  "temporaryRulesetsForInterface rulesets ifaceName =
     filter (\<lambda>rs. stringInSlice ifaceName (tmp_Interfaces rs)) rulesets"

section \<open>Effective rules\<close>

definition socks_of :: "socksProxyState list \<Rightarrow> socksProxyState" where
  "socks_of opt = (case opt of [] \<Rightarrow> no_socksProxyState | s # _ \<Rightarrow> s)"

definition effectiveAllowRules ::
  "allowRules \<Rightarrow> ruleset list \<Rightarrow> ruleset list \<Rightarrow> temporaryRuleset list \<Rightarrow> socksProxyState list \<Rightarrow> allowRules" where
  "effectiveAllowRules base active forceRulesets tmpRulesets socksProxyStateOpt =
     (let effective1 = foldl (\<lambda>eff rs. mergeAllowRules eff (rset_Rules rs)) base active;
          effective2 = foldl (\<lambda>eff rs. mergeAllowRules eff (rset_Rules rs)) effective1 forceRulesets;
          effective3 = foldl (\<lambda>eff tmp. mergeAllowRules eff (tmp_Rules tmp)) effective2 tmpRulesets;
          socksProxy = socks_of socksProxyStateOpt;
          effective4 = (if ss_Running socksProxy
            then mergeAllowRules effective3 (no_rules\<lparr>ar_AllowedMarks := [ss_FWMark socksProxy]\<rparr>)
            else effective3)
      in canonicalAllowRules effective4)"

definition rulesetNames :: "ruleset list \<Rightarrow> string list" where
  "rulesetNames rulesets = sort (map rset_Name rulesets)"

definition temporaryRulesetOwners :: "temporaryRuleset list \<Rightarrow> string list" where
  "temporaryRulesetOwners rulesets = sort (map tmp_Owner rulesets)"

definition policyForInterface ::
  "regexps \<Rightarrow> interfaceInfo \<Rightarrow> options \<Rightarrow> temporaryRuleset list \<Rightarrow> forceRuleset list \<Rightarrow> socksProxyState \<Rightarrow> interfacePolicy res" where
  "policyForInterface rx iface opts tmpRulesets forceRulesets socksProxy =
     bindR (activeRulesetsForInterface rx iface (o_Rulesets opts)) (\<lambda>active.
     let forced = forcedRulesetsForInterface (o_Rulesets opts) forceRulesets (ii_Name iface);
         tmp = temporaryRulesetsForInterface tmpRulesets (ii_Name iface)
     in Inr \<lparr>ip_Info = iface,
             ip_Rules = effectiveAllowRules (o_Rules opts) active forced tmp [socksProxy],
             ip_ActiveRulesets = rulesetNames active,
             ip_ForcedRulesets = rulesetNames forced,
             ip_TemporaryRulesets = temporaryRulesetOwners tmp\<rparr>)"

definition effectivePoliciesForInterfaces ::
  "regexps \<Rightarrow> interfaceInfo list \<Rightarrow> options \<Rightarrow> temporaryRuleset list \<Rightarrow> forceRuleset list \<Rightarrow> socksProxyState list \<Rightarrow>
   (int, interfacePolicy) fmap res" where
  "effectivePoliciesForInterfaces rx ifaces opts tmpRulesets forceRulesets socksProxyStateOpt =
     bindR (mapR (\<lambda>iface. policyForInterface rx iface opts tmpRulesets forceRulesets (socks_of socksProxyStateOpt)) ifaces)
       (\<lambda>policies. Inr (foldl (\<lambda>out p. fmupd (ii_Index (ip_Info p)) p out) fmempty policies))"

section \<open>Comparing policy maps (\<open>bpf_maps.go\<close>)\<close>

text \<open>
  \<open>reflect.DeepEqual\<close> on two slices of addresses: a nil slice differs from an empty one. The
  walk over \<open>a\<close> stops at the first difference, in an order that does not matter to the answer.
\<close>

definition interfacePolicyRulesEqual :: "(int, interfacePolicy) fmap \<Rightarrow> (int, interfacePolicy) fmap \<Rightarrow> bool" where
  "interfacePolicyRulesEqual a b =
     (if fcard (fmdom a) \<noteq> fcard (fmdom b) then False
      else list_all (\<lambda>index.
        case (fmlookup a index, fmlookup b index) of
          (Some aPolicy, Some bPolicy) \<Rightarrow>
            ii_Name (ip_Info aPolicy) = ii_Name (ip_Info bPolicy) \<and>
            ii_Type (ip_Info aPolicy) = ii_Type (ip_Info bPolicy) \<and>
            ii_Addrs (ip_Info aPolicy) = ii_Addrs (ip_Info bPolicy) \<and>
            allowRulesEqual (ip_Rules aPolicy) (ip_Rules bPolicy)
        | _ \<Rightarrow> False) (sorted_list_of_fset (fmdom a)))"

definition policy_less :: "interfacePolicy \<Rightarrow> interfacePolicy \<Rightarrow> bool" where
  "policy_less a b =
     (if ii_Name (ip_Info a) \<noteq> ii_Name (ip_Info b) then ii_Name (ip_Info a) < ii_Name (ip_Info b)
      else ii_Index (ip_Info a) < ii_Index (ip_Info b))"

definition sortedInterfacePolicies :: "int list \<Rightarrow> (int, interfacePolicy) fmap \<Rightarrow> interfacePolicy list" where
  "sortedInterfacePolicies walk policies = sort_slice policy_less (map (\<lambda>i. the (fmlookup policies i)) walk)"

definition firstEffectivePolicy :: "int list \<Rightarrow> (int, interfacePolicy) fmap \<Rightarrow> allowRules \<Rightarrow> allowRules" where
  "firstEffectivePolicy walk current fallback =
     (case walk of [] \<Rightarrow> fallback | i # _ \<Rightarrow> ip_Rules (the (fmlookup current i)))"

fun firstActiveRuleset :: "int list \<Rightarrow> (int, interfacePolicy) fmap \<Rightarrow> string" where
  "firstActiveRuleset [] current = []"
| "firstActiveRuleset (i # walk) current =
     (case ip_ActiveRulesets (the (fmlookup current i)) of
        name # _ \<Rightarrow> name
      | [] \<Rightarrow> firstActiveRuleset walk current)"

definition activeRulesetSet :: "int list \<Rightarrow> (int, interfacePolicy) fmap \<Rightarrow> string set" where
  "activeRulesetSet walk current = set (concat (map (\<lambda>i. ip_ActiveRulesets (the (fmlookup current i))) walk))"

section \<open>What the trigger means\<close>

lemma foldl_count: "foldl (\<lambda>matched x. if P x then matched + 1 else matched) n xs = n + length (filter P xs)"
  by (induction xs arbitrary: n) auto

lemma count_matches_eq [simp]: "count_matches P xs = length (filter P xs)"
  by (simp add: count_matches_def foldl_count)

lemma count_patterns_ok:
  "patterns_ok rx ps \<Longrightarrow> count_patterns rx name ps = Inr (length (filter (\<lambda>p. pattern_matches rx p name) ps))"
  by (induction rx name ps rule: count_patterns.induct)
    (auto simp: patterns_ok_def MustCompile_MatchString_def pattern_matches_def)

text \<open>The entries of a trigger, each with the question it asks about an interface.\<close>

datatype predicate =
  PType string | PName string | PRegexp string | PAddr addr | PSSID string | PBSSID string | PGatewayMAC string

definition trigger_predicates :: "rulesetTrigger \<Rightarrow> predicate list" where
  "trigger_predicates t = map PType (tr_InterfaceTypes t) @ map PName (tr_InterfaceNames t) @
     map PRegexp (tr_InterfaceRegexps t) @ map PAddr (tr_IPAddrs t) @ map PSSID (tr_SSIDs t) @
     map PBSSID (tr_BSSIDs t) @ map PGatewayMAC (tr_GatewayMACs t)"

fun predicate_holds :: "regexps \<Rightarrow> interfaceInfo \<Rightarrow> predicate \<Rightarrow> bool" where
  "predicate_holds rx iface (PType typ) \<longleftrightarrow> ii_Type iface = typ"
| "predicate_holds rx iface (PName name) \<longleftrightarrow> ii_Name iface = name"
| "predicate_holds rx iface (PRegexp p) \<longleftrightarrow> pattern_matches rx p (ii_Name iface)"
| "predicate_holds rx iface (PAddr a) \<longleftrightarrow> Unmap a \<in> Unmap ` set (elems (ii_Addrs iface))"
| "predicate_holds rx iface (PSSID s) \<longleftrightarrow> ii_SSID iface = s"
| "predicate_holds rx iface (PBSSID s) \<longleftrightarrow> ii_BSSID iface = s"
| "predicate_holds rx iface (PGatewayMAC m) \<longleftrightarrow> m \<in> set (ii_GatewayMACs iface)"

definition trigger_matches :: "regexps \<Rightarrow> interfaceInfo \<Rightarrow> rulesetTrigger \<Rightarrow> bool \<Rightarrow> bool" where
  "trigger_matches rx iface t matchAll \<longleftrightarrow> trigger_predicates t \<noteq> [] \<and>
     (if matchAll then list_all (predicate_holds rx iface) (trigger_predicates t)
      else list_ex (predicate_holds rx iface) (trigger_predicates t))"

lemma length_trigger_predicates: "length (trigger_predicates t) = rulesetTriggerPredicateCount t"
  by (simp add: trigger_predicates_def rulesetTriggerPredicateCount_def)

lemma filter_all_iff: "length (filter P xs) = length xs \<longleftrightarrow> list_all P xs"
  by (metis filter_True length_filter_less less_irrefl list_all_iff)

lemma filter_ex_iff: "filter P xs = [] \<longleftrightarrow> \<not> list_ex P xs"
  by (induction xs) auto

lemma rulesetTriggerMatchesInterface_ok:
  assumes "patterns_ok rx (tr_InterfaceRegexps t)"
  shows "rulesetTriggerMatchesInterface rx iface t matchAll = Inr (trigger_matches rx iface t matchAll)"
proof -
  let ?P = "predicate_holds rx iface"
  have "length (filter ?P (trigger_predicates t)) =
      length (filter (\<lambda>typ. ii_Type iface = typ) (tr_InterfaceTypes t)) +
      length (filter (\<lambda>name. ii_Name iface = name) (tr_InterfaceNames t)) +
      length (filter (\<lambda>p. pattern_matches rx p (ii_Name iface)) (tr_InterfaceRegexps t)) +
      length (filter (\<lambda>a. Unmap a \<in> Unmap ` set (elems (ii_Addrs iface))) (tr_IPAddrs t)) +
      length (filter (\<lambda>s. ii_SSID iface = s) (tr_SSIDs t)) +
      length (filter (\<lambda>s. ii_BSSID iface = s) (tr_BSSIDs t)) +
      length (filter (\<lambda>m. m \<in> set (ii_GatewayMACs iface)) (tr_GatewayMACs t))"
    by (simp add: trigger_predicates_def filter_map comp_def)
  moreover have "list_ex (\<lambda>ia. Unmap ia = Unmap a) xs \<longleftrightarrow> Unmap a \<in> Unmap ` set xs" for a xs
    by (auto simp: list_ex_iff image_iff eq_commute)
  ultimately have "rulesetTriggerMatchesInterface rx iface t matchAll =
      (if rulesetTriggerPredicateCount t = 0 then Inr False
       else Inr (if matchAll then length (filter ?P (trigger_predicates t)) = length (trigger_predicates t)
                 else 0 < length (filter ?P (trigger_predicates t))))"
    by (simp add: rulesetTriggerMatchesInterface_def Let_def count_patterns_ok [OF assms] length_trigger_predicates)
  then show ?thesis
    by (auto simp: trigger_matches_def filter_all_iff filter_ex_iff simp flip: length_trigger_predicates)
qed

section \<open>Which rule sets apply\<close>

definition rulesets_patterns_ok :: "regexps \<Rightarrow> ruleset list \<Rightarrow> bool" where
  "rulesets_patterns_ok rx rss \<longleftrightarrow> list_all (\<lambda>rs. patterns_ok rx (tr_InterfaceRegexps (rset_Trigger rs))) rss"

definition active_ruleset :: "regexps \<Rightarrow> interfaceInfo \<Rightarrow> ruleset \<Rightarrow> bool" where
  "active_ruleset rx iface rs \<longleftrightarrow> \<not> rset_Disabled rs \<and> trigger_matches rx iface (rset_Trigger rs) (rset_MatchAll rs)"

lemma opts_ok_patterns: "opts_ok rx opts \<Longrightarrow> rulesets_patterns_ok rx (o_Rulesets opts)"
  by (auto simp: opts_ok_def rulesets_patterns_ok_def ruleset_ok_def trigger_ok_def list_all_iff)

lemma activeRulesets_ok:
  "rulesets_patterns_ok rx rss \<Longrightarrow> activeRulesetsForInterface rx iface rss = Inr (filter (active_ruleset rx iface) rss)"
  unfolding activeRulesetsForInterface_def
  by (rule filterR_ok) (auto simp: rulesets_patterns_ok_def list_all_iff rulesetTriggerMatchesInterface_ok active_ruleset_def)

lemma forcedRulesets_eq:
  "forcedRulesetsForInterface rss frs name =
     List.map_filter (\<lambda>fr. if name \<in> set (fr_Interfaces fr) then find (\<lambda>rs. rset_Name rs = fr_Name fr) rss else None) frs"
proof (induction frs)
  case (Cons fr frs)
  have "findRuleset rss (fr_Name fr) < 0 \<longleftrightarrow> find (\<lambda>rs. rset_Name rs = fr_Name fr) rss = None"
    unfolding findRuleset_neg find_None_iff by (metis image_iff)
  with Cons findRuleset_nth(2) [of rss "fr_Name fr"] show ?case
    by (cases "0 \<le> findRuleset rss (fr_Name fr)") (auto simp: map_filter_simps Let_def)
qed (simp add: map_filter_simps)

section \<open>The effective rules are a least upper bound\<close>

lemma abs_no_rules_mark: "rules_le (abs_rules (no_rules\<lparr>ar_AllowedMarks := [m]\<rparr>)) c \<longleftrightarrow> m \<in> rs_marks c"
  by (simp add: rules_le_def no_rules_def)

lemma foldl_merge_le:
  "rules_le (abs_rules (foldl (\<lambda>eff x. mergeAllowRules eff (f x)) base xs)) c \<longleftrightarrow>
     rules_le (abs_rules base) c \<and> (\<forall>x \<in> set xs. rules_le (abs_rules (f x)) c)"
  by (induction xs arbitrary: base) (auto simp: join_rules_le_iff)

lemma effectiveAllowRules_le:
  "rules_le (abs_rules (effectiveAllowRules base active forced tmp socks)) c \<longleftrightarrow>
     rules_le (abs_rules base) c \<and>
     (\<forall>rs \<in> set active \<union> set forced. rules_le (abs_rules (rset_Rules rs)) c) \<and>
     (\<forall>t \<in> set tmp. rules_le (abs_rules (tmp_Rules t)) c) \<and>
     (ss_Running (socks_of socks) \<longrightarrow> ss_FWMark (socks_of socks) \<in> rs_marks c)"
  by (auto simp: effectiveAllowRules_def Let_def foldl_merge_le join_rules_le_iff abs_no_rules_mark)

lemma rules_eq_via_le: "(\<And>c. rules_le a c \<longleftrightarrow> rules_le b c) \<Longrightarrow> a = b"
  by (meson rules_le_antisym rules_le_refl)

lemma canonical_effective [simp]: "canonicalAllowRules (effectiveAllowRules base active forced tmp socks) =
    effectiveAllowRules base active forced tmp socks"
  by (simp add: effectiveAllowRules_def Let_def)

lemma effectiveAllowRules_cong:
  assumes "abs_rules base = abs_rules base'" and "set active \<union> set forced = set active' \<union> set forced'"
    and "set tmp = set tmp'" and "socks_of socks = socks_of socks'"
  shows "effectiveAllowRules base active forced tmp socks = effectiveAllowRules base' active' forced' tmp' socks'"
proof -
  have "abs_rules (effectiveAllowRules base active forced tmp socks) = abs_rules (effectiveAllowRules base' active' forced' tmp' socks')"
    by (rule rules_eq_via_le) (simp only: effectiveAllowRules_le assms)
  then show ?thesis by (metis canonical_eq_iff canonical_effective)
qed

lemma foldl_merge_ok:
  "rules_ok base \<Longrightarrow> \<forall>x \<in> set xs. rules_ok (f x) \<Longrightarrow> rules_ok (foldl (\<lambda>eff x. mergeAllowRules eff (f x)) base xs)"
  by (induction xs arbitrary: base) (auto simp: rules_ok_merge)

lemma rules_ok_effective:
  assumes "rules_ok base" and "\<forall>rs \<in> set active \<union> set forced. rules_ok (rset_Rules rs)" and "\<forall>t \<in> set tmp. rules_ok (tmp_Rules t)"
  shows "rules_ok (effectiveAllowRules base active forced tmp socks)"
proof -
  have "rules_ok (no_rules\<lparr>ar_AllowedMarks := ms\<rparr>)" for ms
    by (simp add: rules_ok_def no_rules_def)
  with assms show ?thesis
    by (auto simp: effectiveAllowRules_def Let_def intro!: foldl_merge_ok rules_ok_merge)
qed

section \<open>The map of policies\<close>

lemma policyForInterface_ok:
  assumes "rulesets_patterns_ok rx (o_Rulesets opts)"
  shows "\<exists>p. policyForInterface rx iface opts tmps frs socks = Inr p \<and> ip_Info p = iface \<and>
     ip_Rules p = effectiveAllowRules (o_Rules opts) (filter (active_ruleset rx iface) (o_Rulesets opts))
       (forcedRulesetsForInterface (o_Rulesets opts) frs (ii_Name iface))
       (temporaryRulesetsForInterface tmps (ii_Name iface)) [socks]"
  by (simp add: policyForInterface_def activeRulesets_ok [OF assms] Let_def)

definition policy_of :: "regexps \<Rightarrow> options \<Rightarrow> temporaryRuleset list \<Rightarrow> forceRuleset list \<Rightarrow> socksProxyState \<Rightarrow> interfaceInfo \<Rightarrow> interfacePolicy" where
  "policy_of rx opts tmps frs socks iface =
     (case policyForInterface rx iface opts tmps frs socks of Inr p \<Rightarrow> p
      | Inl _ \<Rightarrow> \<lparr>ip_Info = iface, ip_Rules = no_rules, ip_ActiveRulesets = [], ip_ForcedRulesets = [], ip_TemporaryRulesets = []\<rparr>)"

lemma policy_of_sel:
  assumes "rulesets_patterns_ok rx (o_Rulesets opts)"
  shows "ip_Info (policy_of rx opts tmps frs socks iface) = iface"
    "ip_Rules (policy_of rx opts tmps frs socks iface) =
       effectiveAllowRules (o_Rules opts) (filter (active_ruleset rx iface) (o_Rulesets opts))
       (forcedRulesetsForInterface (o_Rulesets opts) frs (ii_Name iface))
       (temporaryRulesetsForInterface tmps (ii_Name iface)) [socks]"
  using policyForInterface_ok [OF assms, of iface tmps frs socks] by (auto simp: policy_of_def)

lemma foldl_fmupd_dom: "fmdom (foldl (\<lambda>out p. fmupd (k p) p out) m ps) = fmdom m |\<union>| fset_of_list (map k ps)"
  by (induction ps arbitrary: m) auto

lemma foldl_fmupd_lookup:
  "distinct (map k ps) \<Longrightarrow> p \<in> set ps \<Longrightarrow> fmlookup (foldl (\<lambda>out p. fmupd (k p) p out) m ps) (k p) = Some p"
proof (induction ps arbitrary: m)
  case (Cons q ps)
  have "i \<notin> k ` set ps \<Longrightarrow> fmlookup (foldl (\<lambda>out p. fmupd (k p) p out) m' ps) i = fmlookup m' i" for i m'
    by (induction ps arbitrary: m') auto
  with Cons show ?case by (auto simp: image_iff)
qed simp

lemma effectivePolicies_ok:
  assumes "rulesets_patterns_ok rx (o_Rulesets opts)"
  shows "effectivePoliciesForInterfaces rx ifaces opts tmps frs socks =
    Inr (foldl (\<lambda>out p. fmupd (ii_Index (ip_Info p)) p out) fmempty (map (policy_of rx opts tmps frs (socks_of socks)) ifaces))"
proof -
  have "policyForInterface rx iface opts tmps frs s = Inr (policy_of rx opts tmps frs s iface)" for iface s
    using policyForInterface_ok [OF assms, of iface tmps frs s] by (auto simp: policy_of_def)
  then show ?thesis
    by (simp add: effectivePoliciesForInterfaces_def mapR_total)
qed

lemma effectivePolicies_lookup:
  assumes "rulesets_patterns_ok rx (o_Rulesets opts)" and "distinct (map ii_Index ifaces)"
    and "effectivePoliciesForInterfaces rx ifaces opts tmps frs socks = Inr m"
  shows "fset (fmdom m) = ii_Index ` set ifaces"
    "iface \<in> set ifaces \<Longrightarrow> fmlookup m (ii_Index iface) = Some (policy_of rx opts tmps frs (socks_of socks) iface)"
proof -
  let ?ps = "map (policy_of rx opts tmps frs (socks_of socks)) ifaces"
  note info = policy_of_sel(1) [OF assms(1)]
  have m: "m = foldl (\<lambda>out p. fmupd (ii_Index (ip_Info p)) p out) fmempty ?ps"
    using assms(3) by (simp add: effectivePolicies_ok [OF assms(1)])
  show "fset (fmdom m) = ii_Index ` set ifaces"
    by (simp add: m foldl_fmupd_dom fset_of_list.rep_eq info image_image)
  have "distinct (map (\<lambda>p. ii_Index (ip_Info p)) ?ps)"
    using assms(2) by (simp add: comp_def info)
  then show "iface \<in> set ifaces \<Longrightarrow> fmlookup m (ii_Index iface) = Some (policy_of rx opts tmps frs (socks_of socks) iface)"
    using foldl_fmupd_lookup [of "\<lambda>p. ii_Index (ip_Info p)" ?ps "policy_of rx opts tmps frs (socks_of socks) iface" fmempty]
    by (simp add: m info)
qed

lemma fmdom_eq_of_subset: "fmdom a |\<subseteq>| fmdom b \<Longrightarrow> fcard (fmdom a) = fcard (fmdom b) \<Longrightarrow> fmdom a = fmdom b"
  by (metis fcard_seteq order_refl)

definition same_policy :: "interfacePolicy option \<Rightarrow> interfacePolicy option \<Rightarrow> bool" where
  "same_policy p q \<longleftrightarrow> (case (p, q) of
     (None, None) \<Rightarrow> True
   | (Some p, Some q) \<Rightarrow> ii_Name (ip_Info p) = ii_Name (ip_Info q) \<and> ii_Type (ip_Info p) = ii_Type (ip_Info q) \<and>
        ii_Addrs (ip_Info p) = ii_Addrs (ip_Info q) \<and> abs_rules (ip_Rules p) = abs_rules (ip_Rules q)
   | _ \<Rightarrow> False)"

lemma interfacePolicyRulesEqual_iff:
  "interfacePolicyRulesEqual a b \<longleftrightarrow> (\<forall>i. same_policy (fmlookup a i) (fmlookup b i))"
proof
  assume eq: "interfacePolicyRulesEqual a b"
  then have pt: "\<forall>i. i |\<in>| fmdom a \<longrightarrow> fmlookup b i \<noteq> None \<and> same_policy (fmlookup a i) (fmlookup b i)"
    by (fastforce simp: interfacePolicyRulesEqual_def list_all_iff same_policy_def allowRulesEqual_def canonical_eq_iff
        split: if_splits option.splits)
  then have "fmdom a |\<subseteq>| fmdom b" by (auto intro: fmdomI)
  moreover have "fcard (fmdom a) = fcard (fmdom b)"
    using eq by (auto simp: interfacePolicyRulesEqual_def split: if_splits)
  ultimately have "fmdom a = fmdom b" by (rule fmdom_eq_of_subset)
  with pt show "\<forall>i. same_policy (fmlookup a i) (fmlookup b i)"
    by (metis (no_types, lifting) case_prod_conv fmdom_notD option.simps(4) same_policy_def)
next
  assume all: "\<forall>i. same_policy (fmlookup a i) (fmlookup b i)"
  have "fmlookup a i = None \<longleftrightarrow> fmlookup b i = None" for i
    using all [THEN spec, of i] by (auto simp: same_policy_def split: option.splits)
  then have dom: "fmdom a = fmdom b" by (metis fmdom_notD fmdom_notI fset_eqI)
  have "case (fmlookup a i, fmlookup b i) of
          (Some aPolicy, Some bPolicy) \<Rightarrow>
            ii_Name (ip_Info aPolicy) = ii_Name (ip_Info bPolicy) \<and>
            ii_Type (ip_Info aPolicy) = ii_Type (ip_Info bPolicy) \<and>
            ii_Addrs (ip_Info aPolicy) = ii_Addrs (ip_Info bPolicy) \<and>
            allowRulesEqual (ip_Rules aPolicy) (ip_Rules bPolicy)
        | _ \<Rightarrow> False" if "i |\<in>| fmdom a" for i
    using all [THEN spec, of i] that dom
    by (auto simp: same_policy_def allowRulesEqual_def canonical_eq_iff fmlookup_dom_iff split: option.splits)
  with dom show "interfacePolicyRulesEqual a b"
    by (simp add: interfacePolicyRulesEqual_def list_all_iff)
qed

section \<open>Properties\<close>

text \<open>C5: the effective rules of an interface are the least upper bound of the base policy, the
  rules of the active and of the forced rule sets, the temporary rules and, while the SOCKS proxy runs, its
  mark: everything a contribution permits is permitted, and nothing else is. The value is in canonical form,
  so it does not depend on the order or repetition of the contributions.\<close>

theorem effectiveAllowRules_least_upper_bound:
  "(rules_le (abs_rules (effectiveAllowRules base active forced tmp socks)) c \<longleftrightarrow>
      {abs_rules base} \<union> (abs_rules \<circ> rset_Rules) ` (set active \<union> set forced) \<union> (abs_rules \<circ> tmp_Rules) ` set tmp \<union>
      (if ss_Running (socks_of socks) then {abs_rules (no_rules\<lparr>ar_AllowedMarks := [ss_FWMark (socks_of socks)]\<rparr>)} else {})
      \<subseteq> {r. rules_le r c}) \<and>
   canonicalAllowRules (effectiveAllowRules base active forced tmp socks) = effectiveAllowRules base active forced tmp socks"
  unfolding effectiveAllowRules_le canonical_effective by (auto simp: abs_no_rules_mark)


lemma example_options_ok: "opts_ok example_rx example_options"
  by (simp add: opts_ok_def example_options_def example_rx_def patterns_ok_def has_selector_def admin_ok_def
      socks_ok_def filepath_IsAbs_def)


text \<open>A trigger counts entries, not kinds of entries: under \<open>match_all\<close> two names never
  match one interface, although each of them is a value of the same selector. Without \<open>match_all\<close> one
  of them is enough.\<close>

theorem match_all_counts_entries:
  "rulesetTriggerMatchesInterface rx iface
     \<lparr>tr_InterfaceTypes = [], tr_InterfaceNames = [a, b], tr_InterfaceRegexps = [], tr_IPAddrs = [], tr_SSIDs = [],
      tr_BSSIDs = [], tr_GatewayMACs = []\<rparr> matchAll =
   Inr (if matchAll then ii_Name iface = a \<and> ii_Name iface = b else ii_Name iface = a \<or> ii_Name iface = b)"
  by (subst rulesetTriggerMatchesInterface_ok) (auto simp: patterns_ok_def trigger_matches_def trigger_predicates_def)

text \<open>The stored copy of a policy map counts as unchanged exactly when no interface of the map
  has an empty address list: the copy turns such a list into a nil slice, which \<open>DeepEqual\<close>
  tells from the empty one that a new listing has, so that a change is reported and logged although nothing
  changed.\<close>

theorem clone_compares_equal_iff:
  "interfacePolicyRulesEqual (cloneInterfacePolicyMap m) m \<longleftrightarrow>
     (\<forall>i. case fmlookup m i of Some p \<Rightarrow> ii_Addrs (ip_Info p) \<noteq> Slice [] | None \<Rightarrow> True)"
proof -
  have "append_nil s = s \<longleftrightarrow> s \<noteq> Slice []" for s :: "addr slice"
    by (cases s) (auto simp: append_nil_def)
  then show ?thesis
    by (auto simp: interfacePolicyRulesEqual_iff same_policy_def split: option.splits)
qed

end
