(* ===== verification/BpfMaps.thy ===== *)
theory BpfMaps
  imports EffectivePolicy
begin

text \<open>
  Writing policies into the maps of the eBPF program: \<open>cmd/killswitch/bpf_maps.go\<close>.

  The kernel is a record of the seven maps, with the list of every state the maps went through
  (\<open>k_seen\<close>, newest first): the eBPF program can run between any two system calls, so the
  safety of an update is a statement about all of them. \<open>env\<close> is what the code does not
  control: which system calls fail, what a walk over a kernel map visits while entries are deleted under
  it and whether it is aborted, and in what order a Go map is walked. The library documents that a walk
  that is not aborted has visited every key (\<open>env_ok\<close>).
\<close>

section \<open>The kernel maps\<close>

record runtimeConfig =
  rtc_AllowAll :: u8
  rtc_EnableV4 :: u8
  rtc_EnableV6 :: u8

record kmaps =
  km_config :: "(u32, runtimeConfig) fmap"
  km_marks :: "(markPolicyKey, u8) fmap"
  km_ports :: "(portPolicyKey, u8) fmap"
  km_v4hosts :: "(v4HostPolicyKey, u8) fmap"
  km_v6hosts :: "(v6HostPolicyKey, u8) fmap"
  km_v4hostports :: "(hostport4PolicyKey, u8) fmap"
  km_v6hostports :: "(hostport6PolicyKey, u8) fmap"

record kernel =
  k_maps :: kmaps
  k_seen :: "kmaps list"
  k_n :: nat

type_synonym 'k walk = "nat \<Rightarrow> 'k list \<Rightarrow> 'k list \<times> bool"

record env =
  e_fail :: "nat \<Rightarrow> bool"
  e_marks :: "markPolicyKey walk"
  e_ports :: "portPolicyKey walk"
  e_v4hosts :: "v4HostPolicyKey walk"
  e_v6hosts :: "v6HostPolicyKey walk"
  e_v4hostports :: "hostport4PolicyKey walk"
  e_v6hostports :: "hostport6PolicyKey walk"
  e_range :: "nat \<Rightarrow> int list \<Rightarrow> int list"

definition walk_ok :: "'k walk \<Rightarrow> bool" where
  "walk_ok w \<longleftrightarrow> (\<forall>n keys. snd (w n keys) \<or> set keys \<subseteq> set (fst (w n keys)))"

definition env_ok :: "env \<Rightarrow> bool" where
  "env_ok e \<longleftrightarrow> walk_ok (e_marks e) \<and> walk_ok (e_ports e) \<and> walk_ok (e_v4hosts e) \<and> walk_ok (e_v6hosts e) \<and>
     walk_ok (e_v4hostports e) \<and> walk_ok (e_v6hostports e) \<and> (\<forall>n is. set (e_range e n is) = set is)"

section \<open>System calls\<close>

type_synonym 'a sysM = "kernel \<Rightarrow> 'a res \<times> kernel"

definition returnK :: "'a \<Rightarrow> 'a sysM" where
  "returnK x k = (Inr x, k)"

definition failK :: "error \<Rightarrow> 'a sysM" where
  "failK err k = (Inl err, k)"

definition bindK :: "'a sysM \<Rightarrow> ('a \<Rightarrow> 'b sysM) \<Rightarrow> 'b sysM" where
  "bindK m f k = (case m k of (Inl err, k') \<Rightarrow> (Inl err, k') | (Inr x, k') \<Rightarrow> f x k')"

datatype sysErr = SysOK | KeyNotExist | SysFail

text \<open>One system call: it fails and changes nothing, or changes the maps.\<close>

definition sys_apply :: "(kmaps \<Rightarrow> kmaps) \<Rightarrow> kernel \<Rightarrow> kernel" where
  "sys_apply f k = k\<lparr>k_maps := f (k_maps k), k_seen := f (k_maps k) # k_seen k, k_n := Suc (k_n k)\<rparr>"

definition tick :: "kernel \<Rightarrow> kernel" where
  "tick k = k\<lparr>k_n := Suc (k_n k)\<rparr>"

definition map_Update :: "env \<Rightarrow> ((('k, 'v) fmap \<Rightarrow> ('k, 'v) fmap) \<Rightarrow> kmaps \<Rightarrow> kmaps) \<Rightarrow> 'k \<Rightarrow> 'v \<Rightarrow> kernel \<Rightarrow> sysErr \<times> kernel" where
  "map_Update e upd key v k =
     (if e_fail e (k_n k) then (SysFail, tick k) else (SysOK, sys_apply (upd (fmupd key v)) k))"

definition map_Delete ::
  "env \<Rightarrow> (kmaps \<Rightarrow> ('k, 'v) fmap) \<Rightarrow> ((('k, 'v) fmap \<Rightarrow> ('k, 'v) fmap) \<Rightarrow> kmaps \<Rightarrow> kmaps) \<Rightarrow> 'k \<Rightarrow> kernel \<Rightarrow> sysErr \<times> kernel" where
  "map_Delete e get upd key k =
     (if e_fail e (k_n k) then (SysFail, tick k)
      else if fmlookup (get (k_maps k)) key = None then (KeyNotExist, tick k)
      else (SysOK, sys_apply (upd (fmdrop key)) k))"

section \<open>\<open>bpf_maps.go\<close>\<close>

definition updateError :: "string \<Rightarrow> error" where
  "updateError name = Wrap ''update %s map'' [name] (Lib ''update'')"

definition deleteError :: "string \<Rightarrow> error" where
  "deleteError name = Wrap ''delete %s map entry'' [name] (Lib ''delete'')"

definition iterateError :: "string \<Rightarrow> error" where
  "iterateError name = Wrap ''iterate %s map'' [name] (Lib ''iteration aborted'')"

definition writeRuntimeConfig :: "env \<Rightarrow> u32 \<Rightarrow> runtimeConfig \<Rightarrow> unit sysM" where
  "writeRuntimeConfig e ifindex config k =
     (case map_Update e km_config_update ifindex config k of
        (SysOK, k') \<Rightarrow> (Inr (), k')
      | (_, k') \<Rightarrow> (Inl (updateError ''runtime_config''), k'))"

definition clearRuntimeConfig :: "env \<Rightarrow> u32 \<Rightarrow> unit sysM" where
  "clearRuntimeConfig e ifindex k =
     (case map_Delete e km_config km_config_update ifindex k of
        (SysFail, k') \<Rightarrow> (Inl (deleteError ''runtime_config''), k')
      | (_, k') \<Rightarrow> (Inr (), k'))"

fun clear_loop ::
  "env \<Rightarrow> (kmaps \<Rightarrow> ('k, u8) fmap) \<Rightarrow> ((('k, u8) fmap \<Rightarrow> ('k, u8) fmap) \<Rightarrow> kmaps \<Rightarrow> kmaps) \<Rightarrow> string \<Rightarrow> u32 \<Rightarrow>
   ('k \<Rightarrow> u32) \<Rightarrow> 'k list \<Rightarrow> unit sysM" where
  "clear_loop e get upd name ifindex keyIfindex [] k = (Inr (), k)"
| "clear_loop e get upd name ifindex keyIfindex (key # visited) k =
     (if keyIfindex key \<noteq> ifindex then clear_loop e get upd name ifindex keyIfindex visited k
      else case map_Delete e get upd key k of
        (SysFail, k') \<Rightarrow> (Inl (deleteError name), k')
      | (_, k') \<Rightarrow> clear_loop e get upd name ifindex keyIfindex visited k')"

definition clearAllowedMapForInterface ::
  "env \<Rightarrow> ('k :: linorder) walk \<Rightarrow> (kmaps \<Rightarrow> ('k, u8) fmap) \<Rightarrow> ((('k, u8) fmap \<Rightarrow> ('k, u8) fmap) \<Rightarrow> kmaps \<Rightarrow> kmaps) \<Rightarrow>
   string \<Rightarrow> u32 \<Rightarrow> ('k \<Rightarrow> u32) \<Rightarrow> unit sysM" where
  "clearAllowedMapForInterface e walk get upd name ifindex keyIfindex k =
     (let (visited, aborted) = walk (k_n k) (sorted_list_of_fset (fmdom (get (k_maps k)))) in
      bindK (clear_loop e get upd name ifindex keyIfindex visited) (\<lambda>_.
        if aborted then failK (iterateError name) else returnK ()) k)"

definition clearPolicyForInterface :: "env \<Rightarrow> u32 \<Rightarrow> unit sysM" where
  "clearPolicyForInterface e ifindex =
     bindK (clearRuntimeConfig e ifindex) (\<lambda>_.
     bindK (clearAllowedMapForInterface e (e_marks e) km_marks km_marks_update ''allowed_marks'' ifindex mpk_Ifindex) (\<lambda>_.
     bindK (clearAllowedMapForInterface e (e_ports e) km_ports km_ports_update ''allowed_ports'' ifindex ppk_Ifindex) (\<lambda>_.
     bindK (clearAllowedMapForInterface e (e_v4hosts e) km_v4hosts km_v4hosts_update ''allowed_v4_hosts'' ifindex v4pk_Ifindex) (\<lambda>_.
     bindK (clearAllowedMapForInterface e (e_v6hosts e) km_v6hosts km_v6hosts_update ''allowed_v6_hosts'' ifindex v6pk_Ifindex) (\<lambda>_.
     bindK (clearAllowedMapForInterface e (e_v4hostports e) km_v4hostports km_v4hostports_update ''allowed_v4_hostports'' ifindex hp4_Ifindex) (\<lambda>_.
     clearAllowedMapForInterface e (e_v6hostports e) km_v6hostports km_v6hostports_update ''allowed_v6_hostports'' ifindex hp6_Ifindex))))))"

fun writeAllowedMap :: "env \<Rightarrow> ((('k, u8) fmap \<Rightarrow> ('k, u8) fmap) \<Rightarrow> kmaps \<Rightarrow> kmaps) \<Rightarrow> 'k list \<Rightarrow> string \<Rightarrow> unit sysM" where
  "writeAllowedMap e upd [] name k = (Inr (), k)"
| "writeAllowedMap e upd (key # keys) name k =
     (case map_Update e upd key 1 k of
        (SysOK, k') \<Rightarrow> writeAllowedMap e upd keys name k'
      | (_, k') \<Rightarrow> (Inl (updateError name), k'))"

definition scopedMarkKeys :: "u32 \<Rightarrow> u32 list \<Rightarrow> markPolicyKey list" where
  "scopedMarkKeys ifindex marks = map (\<lambda>mark. markPolicyKey ifindex mark) marks"

definition scopedPortKeys :: "u32 \<Rightarrow> portKey list \<Rightarrow> portPolicyKey list" where
  "scopedPortKeys ifindex values = map (\<lambda>v. portPolicyKey ifindex (Dport v) (Protocol v)) values"

definition scopedV4HostKeys :: "u32 \<Rightarrow> u32 list \<Rightarrow> v4HostPolicyKey list" where
  "scopedV4HostKeys ifindex values = map (\<lambda>v. v4HostPolicyKey ifindex v) values"

definition scopedV6HostKeys :: "u32 \<Rightarrow> ipv6AddrKey list \<Rightarrow> v6HostPolicyKey list" where
  "scopedV6HostKeys ifindex values = map (\<lambda>v. v6HostPolicyKey ifindex (Addr16 v)) values"

definition scopedV4HostportKeys :: "u32 \<Rightarrow> hostport4Key list \<Rightarrow> hostport4PolicyKey list" where
  "scopedV4HostportKeys ifindex values =
     map (\<lambda>v. hostport4PolicyKey ifindex (Daddr4 v) (Dport4 v) (Protocol4 v)) values"

definition scopedV6HostportKeys :: "u32 \<Rightarrow> hostport6Key list \<Rightarrow> hostport6PolicyKey list" where
  "scopedV6HostportKeys ifindex values =
     map (\<lambda>v. hostport6PolicyKey ifindex (Daddr6 v) (Dport6 v) (Protocol6 v)) values"

definition writeAllowedMarks :: "env \<Rightarrow> u32 \<Rightarrow> u32 list \<Rightarrow> unit sysM" where
  "writeAllowedMarks e ifindex marks = writeAllowedMap e km_marks_update (scopedMarkKeys ifindex marks) ''allowed_marks''"

definition writeAllowlists :: "env \<Rightarrow> u32 \<Rightarrow> allowRules \<Rightarrow> unit sysM" where
  "writeAllowlists e ifindex rules =
     bindK (writeAllowedMarks e ifindex (ar_AllowedMarks rules)) (\<lambda>_.
     bindK (writeAllowedMap e km_ports_update (scopedPortKeys ifindex (ar_AllowedPorts rules)) ''allowed_ports'') (\<lambda>_.
     bindK (writeAllowedMap e km_v4hosts_update (scopedV4HostKeys ifindex (ar_AllowedV4Hosts rules)) ''allowed_v4_hosts'') (\<lambda>_.
     bindK (writeAllowedMap e km_v6hosts_update (scopedV6HostKeys ifindex (ar_AllowedV6Hosts rules)) ''allowed_v6_hosts'') (\<lambda>_.
     bindK (writeAllowedMap e km_v4hostports_update (scopedV4HostportKeys ifindex (ar_AllowedV4Pairs rules)) ''allowed_v4_hostports'') (\<lambda>_.
     writeAllowedMap e km_v6hostports_update (scopedV6HostportKeys ifindex (ar_AllowedV6Pairs rules)) ''allowed_v6_hostports'')))))"

definition writeEffectivePolicyForInterface :: "env \<Rightarrow> u32 \<Rightarrow> allowRules \<Rightarrow> unit sysM" where
  "writeEffectivePolicyForInterface e ifindex rules =
     bindK (clearPolicyForInterface e ifindex) (\<lambda>_.
     bindK (writeAllowlists e ifindex rules) (\<lambda>_.
     writeRuntimeConfig e ifindex
       \<lparr>rtc_AllowAll = boolByte (ar_AllowAll rules), rtc_EnableV4 = boolByte (ar_EnableV4 rules),
        rtc_EnableV6 = boolByte (ar_EnableV6 rules)\<rparr>))"

type_synonym policies = "(int, interfacePolicy) fmap"

text \<open>The two loops over Go maps, over the keys in the order of the walk.\<close>

fun clear_removed :: "env \<Rightarrow> policies \<Rightarrow> int list \<Rightarrow> unit sysM" where
  "clear_removed e next [] = returnK ()"
| "clear_removed e next (index # is) =
     (if fmlookup next index = None
      then bindK (clearPolicyForInterface e (word_of_int index)) (\<lambda>_. clear_removed e next is)
      else clear_removed e next is)"

fun write_changed :: "env \<Rightarrow> policies \<Rightarrow> policies \<Rightarrow> int list \<Rightarrow> unit sysM" where
  "write_changed e current next [] = returnK ()"
| "write_changed e current next (index # is) =
     (case fmlookup next index of
        None \<Rightarrow> write_changed e current next is
      | Some policy \<Rightarrow>
          (if (case fmlookup current index of
                 None \<Rightarrow> False
               | Some currentPolicy \<Rightarrow> allowRulesEqual (ip_Rules currentPolicy) (ip_Rules policy))
           then write_changed e current next is
           else bindK (writeEffectivePolicyForInterface e (word_of_int index) (ip_Rules policy)) (\<lambda>_.
                write_changed e current next is)))"

definition range_keys :: "env \<Rightarrow> (int, 'v) fmap \<Rightarrow> kernel \<Rightarrow> int list" where
  "range_keys e m k = e_range e (k_n k) (sorted_list_of_fset (fmdom m))"

text \<open>\<open>hasObjs\<close> is \<open>objs != nil\<close>: the tests of the repository run without maps.\<close>

definition writeEffectivePolicies :: "bool \<Rightarrow> env \<Rightarrow> policies \<Rightarrow> policies \<Rightarrow> unit sysM" where
  "writeEffectivePolicies hasObjs e current next =
     (if \<not> hasObjs then returnK ()
      else bindK (\<lambda>k. clear_removed e next (range_keys e current k) k) (\<lambda>_.
             \<lambda>k. write_changed e current next (range_keys e next k) k))"

section \<open>What the maps say about an interface\<close>

text \<open>The entries of the six allow maps for one interface, and with the flags of its configuration.\<close>

definition tables :: "kmaps \<Rightarrow> u32 \<Rightarrow> rule_sets" where
  "tables m i = \<lparr>rs_all = False, rs_v4 = False, rs_v6 = False,
     rs_marks = {x. markPolicyKey i x |\<in>| fmdom (km_marks m)},
     rs_ports = {x. portPolicyKey i (Dport x) (Protocol x) |\<in>| fmdom (km_ports m)},
     rs_v4hosts = {x. v4HostPolicyKey i x |\<in>| fmdom (km_v4hosts m)},
     rs_v6hosts = {x. v6HostPolicyKey i (Addr16 x) |\<in>| fmdom (km_v6hosts m)},
     rs_v4pairs = {x. hostport4PolicyKey i (Daddr4 x) (Dport4 x) (Protocol4 x) |\<in>| fmdom (km_v4hostports m)},
     rs_v6pairs = {x. hostport6PolicyKey i (Daddr6 x) (Dport6 x) (Protocol6 x) |\<in>| fmdom (km_v6hostports m)}\<rparr>"

definition with_flags :: "runtimeConfig \<Rightarrow> rule_sets \<Rightarrow> rule_sets" where
  "with_flags c t = t\<lparr>rs_all := (rtc_AllowAll c \<noteq> 0), rs_v4 := (rtc_EnableV4 c \<noteq> 0), rs_v6 := (rtc_EnableV6 c \<noteq> 0)\<rparr>"

text \<open>The rules the kernel enforces on an interface: none (closed) without a configuration entry.\<close>

definition kernel_rules :: "kmaps \<Rightarrow> u32 \<Rightarrow> rule_sets option" where
  "kernel_rules m i = map_option (\<lambda>c. with_flags c (tables m i)) (fmlookup (km_config m) i)"

lemma kernel_rules_None: "kernel_rules m i = None \<longleftrightarrow> fmlookup (km_config m) i = None"
  by (simp add: kernel_rules_def)

section \<open>Frames\<close>

text \<open>
  A step inside the update of interface \<open>i\<close>: every state it goes through agrees with the state
  before it on the other interfaces and, for the steps on the allow maps, on the configuration.
\<close>

definition frame :: "u32 \<Rightarrow> kmaps \<Rightarrow> kmaps \<Rightarrow> bool" where
  "frame i m s \<longleftrightarrow> km_config s = km_config m \<and> (\<forall>j. j \<noteq> i \<longrightarrow> tables s j = tables m j)"

lemma frame_refl [simp, intro]: "frame i m m"
  by (simp add: frame_def)

lemma frame_trans: "frame i a b \<Longrightarrow> frame i b c \<Longrightarrow> frame i a c"
  by (simp add: frame_def)

definition framed :: "u32 \<Rightarrow> 'a sysM \<Rightarrow> bool" where
  "framed i op \<longleftrightarrow> (\<forall>k. frame i (k_maps k) (k_maps (snd (op k))) \<and>
     (\<exists>new. k_seen (snd (op k)) = new @ k_seen k \<and> (\<forall>s \<in> set new. frame i (k_maps k) s)))"

lemma framedI:
  assumes "\<And>k. frame i (k_maps k) (k_maps (snd (op k)))"
    and "\<And>k. \<exists>new. k_seen (snd (op k)) = new @ k_seen k \<and> (\<forall>s \<in> set new. frame i (k_maps k) s)"
  shows "framed i op"
  using assms by (simp add: framed_def)

lemma framed_return [intro]: "framed i (returnK x)" "framed i (failK err)"
  by (auto simp: framed_def returnK_def failK_def)

lemma framed_bind:
  assumes "framed i m" and "\<And>x. framed i (f x)"
  shows "framed i (bindK m f)"
proof (rule framedI)
  fix k :: kernel
  obtain r k1 where m: "m k = (r, k1)" by fastforce
  from assms(1) obtain new1 where 1: "frame i (k_maps k) (k_maps k1)" "k_seen k1 = new1 @ k_seen k"
    "\<forall>s \<in> set new1. frame i (k_maps k) s"
    unfolding framed_def by (metis m snd_conv)
  show "frame i (k_maps k) (k_maps (snd (bindK m f k)))"
  proof (cases r)
    case (Inr x)
    have "frame i (k_maps k1) (k_maps (snd (f x k1)))" using assms(2) by (simp add: framed_def)
    with 1 m Inr show ?thesis by (auto simp: bindK_def intro: frame_trans)
  qed (use 1 m in \<open>simp add: bindK_def\<close>)
  show "\<exists>new. k_seen (snd (bindK m f k)) = new @ k_seen k \<and> (\<forall>s \<in> set new. frame i (k_maps k) s)"
  proof (cases r)
    case (Inr x)
    obtain new2 where "k_seen (snd (f x k1)) = new2 @ k_seen k1" "\<forall>s \<in> set new2. frame i (k_maps k1) s"
      using assms(2) unfolding framed_def by blast
    with 1 m Inr have "k_seen (snd (bindK m f k)) = (new2 @ new1) @ k_seen k \<and> (\<forall>s \<in> set (new2 @ new1). frame i (k_maps k) s)"
      by (auto simp: bindK_def intro: frame_trans)
    then show ?thesis by blast
  qed (use 1 m in \<open>auto simp: bindK_def\<close>)
qed

lemma bindK_Inr: "fst (bindK m f k) = Inr y \<longleftrightarrow> (\<exists>x. fst (m k) = Inr x \<and> fst (f x (snd (m k))) = Inr y)"
  by (cases "m k"; cases "fst (m k)") (auto simp: bindK_def)

lemma bindK_snd: "fst (m k) = Inr x \<Longrightarrow> snd (bindK m f k) = snd (f x (snd (m k)))"
  by (cases "m k") (auto simp: bindK_def)

lemma sys_apply_sel [simp]: "k_maps (sys_apply f k) = f (k_maps k)" "k_seen (sys_apply f k) = f (k_maps k) # k_seen k"
  "k_maps (tick k) = k_maps k" "k_seen (tick k) = k_seen k"
  by (simp_all add: sys_apply_def tick_def)

section \<open>The six allow maps\<close>

text \<open>
  One allow map inside \<open>kmaps\<close>: how it is read and updated, how an entry of the rules becomes a
  key, and which component of the abstract view it is. What the clearing and the writing of a map do is
  proved once for all six.
\<close>

locale allow_map =
  fixes get :: "kmaps \<Rightarrow> ('k :: linorder, u8) fmap"
    and upd :: "(('k, u8) fmap \<Rightarrow> ('k, u8) fmap) \<Rightarrow> kmaps \<Rightarrow> kmaps"
    and key_of :: "u32 \<Rightarrow> 'e \<Rightarrow> 'k"
    and ifx :: "'k \<Rightarrow> u32"
    and put :: "('e set \<Rightarrow> 'e set) \<Rightarrow> rule_sets \<Rightarrow> rule_sets"
  assumes get_upd: "get (upd f m) = f (get m)"
    and config_upd: "km_config (upd f m) = km_config m"
    and ifx_key: "ifx (key_of i x) = i"
    and key_ex: "\<exists>x. k = key_of (ifx k) x"
    and key_inj: "key_of i x = key_of i y \<Longrightarrow> x = y"
    and tables_upd: "tables (upd f m) j = put (\<lambda>_. {x. key_of j x |\<in>| fmdom (f (get m))}) (tables m j)"
    and put_same: "put (\<lambda>_. {x. key_of j x |\<in>| fmdom (get m)}) (tables m j) = tables m j"
    and put_put: "put (\<lambda>_. A) (put (\<lambda>_. B) t) = put (\<lambda>_. A) t"
begin

lemma frame_upd:
  assumes "\<And>k. ifx k \<noteq> i \<Longrightarrow> k |\<in>| fmdom (f (get m)) \<longleftrightarrow> k |\<in>| fmdom (get m)"
  shows "frame i m (upd f m)"
proof -
  have "{x. key_of j x |\<in>| fmdom (f (get m))} = {x. key_of j x |\<in>| fmdom (get m)}" if "j \<noteq> i" for j
    using assms that by (simp add: ifx_key)
  then show ?thesis by (simp add: frame_def config_upd tables_upd put_same)
qed

lemma framed_clear_loop: "framed i (clear_loop e get upd name i ifx visited)"
proof (induction visited)
  case (Cons key visited)
  show ?case
  proof (cases "ifx key = i")
    case True
    have "clear_loop e get upd name i ifx (key # visited) =
        bindK (\<lambda>k. case map_Delete e get upd key k of (SysFail, k') \<Rightarrow> (Inl (deleteError name), k') | (_, k') \<Rightarrow> (Inr (), k'))
          (\<lambda>_. clear_loop e get upd name i ifx visited)"
      using True by (auto simp: bindK_def fun_eq_iff split: prod.splits sysErr.splits)
    moreover have "framed i (\<lambda>k. case map_Delete e get upd key k of (SysFail, k') \<Rightarrow> (Inl (deleteError name), k') | (_, k') \<Rightarrow> (Inr (), k'))"
      using True by (intro framedI) (auto simp: map_Delete_def intro!: frame_upd)
    ultimately show ?thesis using Cons by (simp add: framed_bind)
  next
    case False
    then have "clear_loop e get upd name i ifx (key # visited) = clear_loop e get upd name i ifx visited" by auto
    with Cons show ?thesis by simp
  qed
qed (auto simp: framed_def)

lemma framed_clear: "framed i (clearAllowedMapForInterface e walk get upd name i ifx)"
proof (rule framedI)
  fix k :: kernel
  obtain visited aborted where w: "walk (k_n k) (sorted_list_of_fset (fmdom (get (k_maps k)))) = (visited, aborted)"
    by fastforce
  have "framed i (bindK (clear_loop e get upd name i ifx visited)
      (\<lambda>_. if aborted then failK (iterateError name) else returnK ()))"
    by (intro framed_bind framed_clear_loop) (auto simp: framed_return)
  then show "frame i (k_maps k) (k_maps (snd (clearAllowedMapForInterface e walk get upd name i ifx k)))"
    and "\<exists>new. k_seen (snd (clearAllowedMapForInterface e walk get upd name i ifx k)) = new @ k_seen k \<and>
      (\<forall>s \<in> set new. frame i (k_maps k) s)"
    by (simp_all add: clearAllowedMapForInterface_def w framed_def)
qed

lemma clear_loop_done:
  "fst (clear_loop e get upd name i ifx visited k) = Inr u \<Longrightarrow>
   tables (k_maps (snd (clear_loop e get upd name i ifx visited k))) i =
     put (\<lambda>_. {x. key_of i x |\<in>| fmdom (get (k_maps k)) \<and> key_of i x \<notin> set visited}) (tables (k_maps k) i)"
proof (induction visited arbitrary: k)
  case Nil
  then show ?case by (simp add: put_same)
next
  case (Cons key visited)
  show ?case
  proof (cases "ifx key = i")
    case False
    then have "key_of i x \<noteq> key" for x using ifx_key by auto
    with Cons False show ?thesis by simp
  next
    case True
    obtain x where x: "key = key_of i x" using key_ex True by metis
    from Cons.prems True obtain k1 where k1: "map_Delete e get upd key k = (SysOK, k1) \<or> map_Delete e get upd key k = (KeyNotExist, k1)"
      "fst (clear_loop e get upd name i ifx visited k1) = Inr u"
      by (auto split: prod.splits sysErr.splits)
    with True have loop: "clear_loop e get upd name i ifx (key # visited) k = clear_loop e get upd name i ifx visited k1" by auto
    have t1: "tables (k_maps k1) i = put (\<lambda>_. {x. key_of i x |\<in>| fmdom (get (k_maps k1))}) (tables (k_maps k) i)"
      and g1: "fmdom (get (k_maps k1)) = fmdom (get (k_maps k)) |-| {|key|}"
      using k1(1) put_same [of i "k_maps k"]
      by (auto simp: map_Delete_def tables_upd get_upd split: if_splits dest: fmdom_notI)
    have "{y. key_of i y |\<in>| fmdom (get (k_maps k1)) \<and> key_of i y \<notin> set visited} =
        {y. key_of i y |\<in>| fmdom (get (k_maps k)) \<and> key_of i y \<notin> set (key # visited)}"
      by (auto simp: g1)
    then show ?thesis
      using Cons.IH [OF k1(2)] unfolding loop t1 put_put by auto
  qed
qed

lemma clear_done:
  assumes "walk_ok walk" and "fst (clearAllowedMapForInterface e walk get upd name i ifx k) = Inr u"
  shows "tables (k_maps (snd (clearAllowedMapForInterface e walk get upd name i ifx k))) i = put (\<lambda>_. {}) (tables (k_maps k) i)"
proof -
  let ?keys = "sorted_list_of_fset (fmdom (get (k_maps k)))"
  obtain visited aborted where w: "walk (k_n k) ?keys = (visited, aborted)" by fastforce
  from assms(2) have na: "\<not> aborted" and ok: "fst (clear_loop e get upd name i ifx visited k) = Inr ()"
    by (auto simp: clearAllowedMapForInterface_def w bindK_Inr failK_def split: if_splits)
  with assms(1) w have "set ?keys \<subseteq> set visited"
    unfolding walk_ok_def by (metis fst_conv snd_conv)
  then have none: "{x. key_of i x |\<in>| fmdom (get (k_maps k)) \<and> key_of i x \<notin> set visited} = {}"
    by auto
  have "snd (clearAllowedMapForInterface e walk get upd name i ifx k) = snd (clear_loop e get upd name i ifx visited k)"
    using na by (simp add: clearAllowedMapForInterface_def w bindK_snd [where m = "clear_loop e get upd name i ifx visited", OF ok] returnK_def)
  with clear_loop_done [OF ok] show ?thesis by (auto simp: none)
qed

lemma framed_write: "\<forall>x \<in> set xs. ifx x = i \<Longrightarrow> framed i (writeAllowedMap e upd xs name)"
proof (induction xs)
  case (Cons key keys)
  have "writeAllowedMap e upd (key # keys) name =
      bindK (\<lambda>k. case map_Update e upd key 1 k of (SysOK, k') \<Rightarrow> (Inr (), k') | (_, k') \<Rightarrow> (Inl (updateError name), k'))
        (\<lambda>_. writeAllowedMap e upd keys name)"
    by (auto simp: bindK_def fun_eq_iff split: prod.splits sysErr.splits)
  moreover have "framed i (\<lambda>k. case map_Update e upd key 1 k of (SysOK, k') \<Rightarrow> (Inr (), k') | (_, k') \<Rightarrow> (Inl (updateError name), k'))"
    using Cons.prems by (intro framedI) (auto simp: map_Update_def intro!: frame_upd)
  ultimately show ?case using Cons by (simp add: framed_bind)
qed (auto simp: framed_def)

lemma write_done:
  "fst (writeAllowedMap e upd (map (key_of i) xs) name k) = Inr u \<Longrightarrow>
   tables (k_maps (snd (writeAllowedMap e upd (map (key_of i) xs) name k))) i =
     put (\<lambda>_. {x. key_of i x |\<in>| fmdom (get (k_maps k))} \<union> set xs) (tables (k_maps k) i)"
proof (induction xs arbitrary: k)
  case Nil
  then show ?case by (simp add: put_same)
next
  case (Cons y xs)
  then obtain k1 where k1: "map_Update e upd (key_of i y) 1 k = (SysOK, k1)"
    "fst (writeAllowedMap e upd (map (key_of i) xs) name k1) = Inr u"
    by (auto split: prod.splits sysErr.splits)
  have "{x. key_of i x |\<in>| fmdom (get (k_maps k1))} = {x. key_of i x |\<in>| fmdom (get (k_maps k))} \<union> {y}"
    and "tables (k_maps k1) i = put (\<lambda>_. {x. key_of i x |\<in>| fmdom (get (k_maps k1))}) (tables (k_maps k) i)"
    using k1(1) key_inj by (auto simp: map_Update_def get_upd tables_upd split: if_splits)
  then show ?case
    using Cons.IH [OF k1(2)] k1(1) by (simp add: put_put Un_assoc)
qed

end

interpretation marks_map: allow_map km_marks km_marks_update markPolicyKey mpk_Ifindex rs_marks_update
  by unfold_locales (auto simp: tables_def, metis markPolicyKey.collapse)

interpretation ports_map: allow_map km_ports km_ports_update "\<lambda>i x. portPolicyKey i (Dport x) (Protocol x)" ppk_Ifindex rs_ports_update
  by unfold_locales (auto simp: tables_def key_eq_iff, metis portKey.sel portPolicyKey.collapse)

interpretation v4hosts_map: allow_map km_v4hosts km_v4hosts_update v4HostPolicyKey v4pk_Ifindex rs_v4hosts_update
  by unfold_locales (auto simp: tables_def, metis v4HostPolicyKey.collapse)

interpretation v6hosts_map: allow_map km_v6hosts km_v6hosts_update "\<lambda>i x. v6HostPolicyKey i (Addr16 x)" v6pk_Ifindex rs_v6hosts_update
  by unfold_locales (auto simp: tables_def key_eq_iff, metis ipv6AddrKey.sel v6HostPolicyKey.collapse)

interpretation v4hostports_map: allow_map km_v4hostports km_v4hostports_update
    "\<lambda>i x. hostport4PolicyKey i (Daddr4 x) (Dport4 x) (Protocol4 x)" hp4_Ifindex rs_v4pairs_update
  by unfold_locales (auto simp: tables_def key_eq_iff, metis hostport4Key.sel hostport4PolicyKey.collapse)

interpretation v6hostports_map: allow_map km_v6hostports km_v6hostports_update
    "\<lambda>i x. hostport6PolicyKey i (Daddr6 x) (Dport6 x) (Protocol6 x)" hp6_Ifindex rs_v6pairs_update
  by unfold_locales (auto simp: tables_def key_eq_iff, metis hostport6Key.sel hostport6PolicyKey.collapse)

section \<open>Clearing and writing one interface\<close>

lemma bindK_assoc: "bindK (bindK m f) g = bindK m (\<lambda>x. bindK (f x) g)"
  by (auto simp: bindK_def fun_eq_iff split: prod.splits sum.splits)

text \<open>The part of the clearing after the configuration entry is gone.\<close>

definition clearAllowMaps :: "env \<Rightarrow> u32 \<Rightarrow> unit sysM" where
  "clearAllowMaps e ifindex =
     bindK (clearAllowedMapForInterface e (e_marks e) km_marks km_marks_update ''allowed_marks'' ifindex mpk_Ifindex) (\<lambda>_.
     bindK (clearAllowedMapForInterface e (e_ports e) km_ports km_ports_update ''allowed_ports'' ifindex ppk_Ifindex) (\<lambda>_.
     bindK (clearAllowedMapForInterface e (e_v4hosts e) km_v4hosts km_v4hosts_update ''allowed_v4_hosts'' ifindex v4pk_Ifindex) (\<lambda>_.
     bindK (clearAllowedMapForInterface e (e_v6hosts e) km_v6hosts km_v6hosts_update ''allowed_v6_hosts'' ifindex v6pk_Ifindex) (\<lambda>_.
     bindK (clearAllowedMapForInterface e (e_v4hostports e) km_v4hostports km_v4hostports_update ''allowed_v4_hostports'' ifindex hp4_Ifindex) (\<lambda>_.
     clearAllowedMapForInterface e (e_v6hostports e) km_v6hostports km_v6hostports_update ''allowed_v6_hostports'' ifindex hp6_Ifindex)))))"

lemma clearPolicy_eq: "clearPolicyForInterface e i = bindK (clearRuntimeConfig e i) (\<lambda>_. clearAllowMaps e i)"
  by (simp add: clearPolicyForInterface_def clearAllowMaps_def)

lemma framed_clearAllowMaps: "framed i (clearAllowMaps e i)"
  unfolding clearAllowMaps_def
  by (intro framed_bind marks_map.framed_clear ports_map.framed_clear v4hosts_map.framed_clear
      v6hosts_map.framed_clear v4hostports_map.framed_clear v6hostports_map.framed_clear)

lemma framed_writeAllowlists: "framed i (writeAllowlists e i rules)"
  unfolding writeAllowlists_def writeAllowedMarks_def
  by (intro framed_bind marks_map.framed_write ports_map.framed_write v4hosts_map.framed_write
      v6hosts_map.framed_write v4hostports_map.framed_write v6hostports_map.framed_write)
    (auto simp: scopedMarkKeys_def scopedPortKeys_def scopedV4HostKeys_def scopedV6HostKeys_def
      scopedV4HostportKeys_def scopedV6HostportKeys_def)

definition empty_rules :: rule_sets where
  "empty_rules = \<lparr>rs_all = False, rs_v4 = False, rs_v6 = False, rs_marks = {}, rs_ports = {}, rs_v4hosts = {},
     rs_v6hosts = {}, rs_v4pairs = {}, rs_v6pairs = {}\<rparr>"

lemma tables_flags: "rs_all (tables m i) = False" "rs_v4 (tables m i) = False" "rs_v6 (tables m i) = False"
  by (simp_all add: tables_def)

lemmas clear_dones = marks_map.clear_done ports_map.clear_done v4hosts_map.clear_done v6hosts_map.clear_done
  v4hostports_map.clear_done v6hostports_map.clear_done

lemmas write_dones = marks_map.write_done ports_map.write_done v4hosts_map.write_done v6hosts_map.write_done
  v4hostports_map.write_done v6hostports_map.write_done

lemma clearAllowMaps_done:
  assumes "env_ok e" and "fst (clearAllowMaps e i k) = Inr u"
  shows "tables (k_maps (snd (clearAllowMaps e i k))) i = empty_rules"
proof -
  have w: "walk_ok (e_marks e)" "walk_ok (e_ports e)" "walk_ok (e_v4hosts e)" "walk_ok (e_v6hosts e)"
    "walk_ok (e_v4hostports e)" "walk_ok (e_v6hostports e)"
    using assms(1) by (auto simp: env_ok_def)
  from assms(2) show ?thesis
    unfolding clearAllowMaps_def
    by (auto simp: bindK_Inr bindK_snd clear_dones w tables_flags empty_rules_def intro!: rules_eqI)
qed

lemma set_scoped:
  "scopedMarkKeys i = map (markPolicyKey i)"
  "scopedPortKeys i = map (\<lambda>x. portPolicyKey i (Dport x) (Protocol x))"
  "scopedV4HostKeys i = map (v4HostPolicyKey i)"
  "scopedV6HostKeys i = map (\<lambda>x. v6HostPolicyKey i (Addr16 x))"
  "scopedV4HostportKeys i = map (\<lambda>x. hostport4PolicyKey i (Daddr4 x) (Dport4 x) (Protocol4 x))"
  "scopedV6HostportKeys i = map (\<lambda>x. hostport6PolicyKey i (Daddr6 x) (Dport6 x) (Protocol6 x))"
  by (auto simp: fun_eq_iff scopedMarkKeys_def scopedPortKeys_def scopedV4HostKeys_def scopedV6HostKeys_def
      scopedV4HostportKeys_def scopedV6HostportKeys_def)

lemma tables_sel:
  "{x. markPolicyKey i x |\<in>| fmdom (km_marks m)} = rs_marks (tables m i)"
  "{x. portPolicyKey i (Dport x) (Protocol x) |\<in>| fmdom (km_ports m)} = rs_ports (tables m i)"
  "{x. v4HostPolicyKey i x |\<in>| fmdom (km_v4hosts m)} = rs_v4hosts (tables m i)"
  "{x. v6HostPolicyKey i (Addr16 x) |\<in>| fmdom (km_v6hosts m)} = rs_v6hosts (tables m i)"
  "{x. hostport4PolicyKey i (Daddr4 x) (Dport4 x) (Protocol4 x) |\<in>| fmdom (km_v4hostports m)} = rs_v4pairs (tables m i)"
  "{x. hostport6PolicyKey i (Daddr6 x) (Dport6 x) (Protocol6 x) |\<in>| fmdom (km_v6hostports m)} = rs_v6pairs (tables m i)"
  by (simp_all add: tables_def)

lemma writeAllowlists_done:
  assumes "fst (writeAllowlists e i rules k) = Inr u" and "tables (k_maps k) i = empty_rules"
  shows "tables (k_maps (snd (writeAllowlists e i rules k))) i =
    (abs_rules rules)\<lparr>rs_all := False, rs_v4 := False, rs_v6 := False\<rparr>"
  using assms unfolding writeAllowlists_def writeAllowedMarks_def set_scoped
  by (auto simp: bindK_Inr bindK_snd write_dones tables_sel empty_rules_def intro!: rules_eqI)

section \<open>The update of one interface is safe at every moment\<close>

text \<open>
  Between two states of the maps, every other interface keeps its rules, and the interface itself is
  closed or has rules from \<open>R\<close>.
\<close>

definition guarded :: "u32 \<Rightarrow> rule_sets option set \<Rightarrow> kmaps \<Rightarrow> kmaps \<Rightarrow> bool" where
  "guarded i R m s \<longleftrightarrow> (\<forall>j. j \<noteq> i \<longrightarrow> kernel_rules s j = kernel_rules m j) \<and> kernel_rules s i \<in> insert None R"

definition guarded_run :: "u32 \<Rightarrow> rule_sets option set \<Rightarrow> kernel \<Rightarrow> kernel \<Rightarrow> bool" where
  "guarded_run i R k k' \<longleftrightarrow> guarded i R (k_maps k) (k_maps k') \<and>
     (\<exists>new. k_seen k' = new @ k_seen k \<and> (\<forall>s \<in> set new. guarded i R (k_maps k) s))"

lemma guarded_mono: "guarded i R m s \<Longrightarrow> R \<subseteq> R' \<Longrightarrow> guarded i R' m s"
  by (auto simp: guarded_def)

lemma guarded_run_mono: "guarded_run i R k k' \<Longrightarrow> R \<subseteq> R' \<Longrightarrow> guarded_run i R' k k'"
  unfolding guarded_run_def using guarded_mono by blast

lemma guarded_run_refl: "guarded_run i {kernel_rules (k_maps k) i} k k"
  by (auto simp: guarded_run_def guarded_def)

text \<open>A frame keeps a closed interface closed.\<close>

lemma guarded_frame: "guarded i {} m s \<Longrightarrow> frame i s t \<Longrightarrow> guarded i {} m t"
  by (auto simp: guarded_def frame_def kernel_rules_def)

lemma guarded_run_framed:
  assumes "guarded_run i R k k1" and "guarded i {} (k_maps k) (k_maps k1)" and "framed i op"
  shows "guarded_run i R k (snd (op k1)) \<and> guarded i {} (k_maps k) (k_maps (snd (op k1)))"
proof -
  from assms(3) obtain new where new: "k_seen (snd (op k1)) = new @ k_seen k1" "\<forall>s \<in> set new. frame i (k_maps k1) s"
    "frame i (k_maps k1) (k_maps (snd (op k1)))"
    unfolding framed_def by blast
  then have closed: "\<forall>s \<in> set new. guarded i {} (k_maps k) s" "guarded i {} (k_maps k) (k_maps (snd (op k1)))"
    using guarded_frame [OF assms(2)] by auto
  moreover obtain new1 where "k_seen k1 = new1 @ k_seen k" "\<forall>s \<in> set new1. guarded i R (k_maps k) s"
    using assms(1) by (auto simp: guarded_run_def)
  ultimately have "k_seen (snd (op k1)) = (new @ new1) @ k_seen k \<and> (\<forall>s \<in> set (new @ new1). guarded i R (k_maps k) s)"
    using new(1) by (auto intro: guarded_mono)
  then show ?thesis using closed(2) guarded_mono [of i "{}" _ _ R] unfolding guarded_run_def by blast
qed

lemma tables_config [simp]: "tables (km_config_update f m) j = tables m j"
  by (simp add: tables_def)

lemma clearRuntimeConfig_run:
  "guarded_run i {kernel_rules (k_maps k) i} k (snd (clearRuntimeConfig e i k))"
  "fst (clearRuntimeConfig e i k) = Inr u \<Longrightarrow> guarded i {} (k_maps k) (k_maps (snd (clearRuntimeConfig e i k)))"
  by (auto simp: clearRuntimeConfig_def map_Delete_def guarded_run_def guarded_def kernel_rules_def
      split: prod.splits sysErr.splits if_splits)

lemma bindK_Inl: "fst (m k) = Inl err \<Longrightarrow> bindK m f k = (Inl err, snd (m k))"
  by (cases "m k") (auto simp: bindK_def)

lemma bindK_go: "fst (m k) = Inr x \<Longrightarrow> bindK m f k = f x (snd (m k))"
  by (cases "m k") (auto simp: bindK_def)

lemma clearPolicy_run:
  "guarded_run i {kernel_rules (k_maps k) i} k (snd (clearPolicyForInterface e i k)) \<and>
   (fst (clearPolicyForInterface e i k) = Inr u \<longrightarrow> guarded i {} (k_maps k) (k_maps (snd (clearPolicyForInterface e i k))))"
proof (cases "fst (clearRuntimeConfig e i k)")
  case (Inl err)
  then show ?thesis using clearRuntimeConfig_run(1) [of i k e] by (simp add: clearPolicy_eq bindK_Inl)
next
  case (Inr x)
  then show ?thesis
    using guarded_run_framed [OF clearRuntimeConfig_run(1) clearRuntimeConfig_run(2) framed_clearAllowMaps]
    by (simp add: clearPolicy_eq bindK_go)
qed

lemma clearPolicy_done:
  assumes "env_ok e" and "fst (clearPolicyForInterface e i k) = Inr u"
  shows "tables (k_maps (snd (clearPolicyForInterface e i k))) i = empty_rules"
  using assms(2) clearAllowMaps_done [OF assms(1)] unfolding clearPolicy_eq
  by (auto simp: bindK_Inr bindK_snd)

lemma boolByte_nonzero [simp]: "boolByte b \<noteq> 0 \<longleftrightarrow> b" "boolByte b = 0 \<longleftrightarrow> \<not> b"
  by (simp_all add: boolByte_def)

lemma writeRuntimeConfig_run:
  assumes "guarded_run i R k k2" and "guarded i {} (k_maps k) (k_maps k2)"
    and "tables (k_maps k2) i = (abs_rules rules)\<lparr>rs_all := False, rs_v4 := False, rs_v6 := False\<rparr>"
    and "Some (abs_rules rules) \<in> R"
    and c: "c = \<lparr>rtc_AllowAll = boolByte (ar_AllowAll rules), rtc_EnableV4 = boolByte (ar_EnableV4 rules),
      rtc_EnableV6 = boolByte (ar_EnableV6 rules)\<rparr>"
  shows "guarded_run i R k (snd (writeRuntimeConfig e i c k2)) \<and>
    (fst (writeRuntimeConfig e i c k2) = Inr u \<longrightarrow> kernel_rules (k_maps (snd (writeRuntimeConfig e i c k2))) i = Some (abs_rules rules))"
proof -
  let ?m = "km_config_update (fmupd i c) (k_maps k2)"
  have rules: "kernel_rules ?m i = Some (abs_rules rules)"
    by (auto simp: kernel_rules_def assms(3) c with_flags_def intro!: rules_eqI)
  have "kernel_rules ?m j = kernel_rules (k_maps k2) j" if "j \<noteq> i" for j
    using that by (simp add: kernel_rules_def)
  with assms(2,4) rules have "guarded i R (k_maps k) ?m"
    by (auto simp: guarded_def)
  moreover obtain new where "k_seen k2 = new @ k_seen k" "\<forall>s \<in> set new. guarded i R (k_maps k) s"
    using assms(1) by (auto simp: guarded_run_def)
  moreover from this have "k_seen (sys_apply (km_config_update (fmupd i c)) k2) = (?m # new) @ k_seen k" by simp
  ultimately have "guarded_run i R k (sys_apply (km_config_update (fmupd i c)) k2)"
    unfolding guarded_run_def by (metis set_ConsD sys_apply_sel(1))
  then show ?thesis
    using assms(1) rules
    by (auto simp: writeRuntimeConfig_def map_Update_def guarded_run_def split: prod.splits sysErr.splits if_splits)
qed

lemma writePolicy_run:
  assumes "env_ok e"
  shows "guarded_run i {kernel_rules (k_maps k) i, Some (abs_rules rules)} k (snd (writeEffectivePolicyForInterface e i rules k)) \<and>
    (fst (writeEffectivePolicyForInterface e i rules k) = Inr u \<longrightarrow>
       kernel_rules (k_maps (snd (writeEffectivePolicyForInterface e i rules k))) i = Some (abs_rules rules))"
    (is "guarded_run i ?R k _ \<and> _")
proof -
  let ?k1 = "snd (clearPolicyForInterface e i k)"
  let ?k2 = "snd (writeAllowlists e i rules ?k1)"
  have clear: "guarded_run i ?R k ?k1"
    using clearPolicy_run [of i k e] by (auto intro: guarded_run_mono)
  show ?thesis
  proof (cases "fst (clearPolicyForInterface e i k)")
    case (Inl err)
    then show ?thesis using clear by (simp add: writeEffectivePolicyForInterface_def bindK_Inl)
  next
    case (Inr x)
    then have closed: "guarded i {} (k_maps k) (k_maps ?k1)" using clearPolicy_run [of i k e] by auto
    note two = guarded_run_framed [OF clear closed framed_writeAllowlists [of i e rules]]
    show ?thesis
    proof (cases "fst (writeAllowlists e i rules ?k1)")
      case (Inl err)
      then show ?thesis using two Inr by (simp add: writeEffectivePolicyForInterface_def bindK_Inl bindK_go)
    next
      case (Inr y)
      have "tables (k_maps ?k2) i = (abs_rules rules)\<lparr>rs_all := False, rs_v4 := False, rs_v6 := False\<rparr>"
        by (rule writeAllowlists_done [OF Inr clearPolicy_done [OF assms \<open>fst (clearPolicyForInterface e i k) = Inr x\<close>]])
      with two show ?thesis
        unfolding writeEffectivePolicyForInterface_def bindK_go [of "clearPolicyForInterface e i", OF \<open>fst (clearPolicyForInterface e i k) = Inr x\<close>]
          bindK_go [of "writeAllowlists e i rules", OF Inr]
        by (intro writeRuntimeConfig_run) auto
    qed
  qed
qed

section \<open>The update of all interfaces\<close>

definition valid_index :: "int \<Rightarrow> bool" where
  "valid_index i \<longleftrightarrow> 0 \<le> i \<and> i < 2 ^ 32"

lemma valid_index_uint [simp]: "valid_index (uint (j :: u32))"
proof -
  have "uint j < 2 ^ LENGTH(32)" by (rule unsigned_less)
  then show ?thesis by (simp add: valid_index_def)
qed

lemma word_of_int_eq_iff: "valid_index i \<Longrightarrow> word_of_int i = (j :: u32) \<longleftrightarrow> uint j = i"
  by (auto simp: valid_index_def uint_word_of_int_eq take_bit_int_eq_self)

text \<open>The rules that a policy map asks for on an interface.\<close>

definition wanted :: "policies \<Rightarrow> u32 \<Rightarrow> rule_sets option" where
  "wanted ps j = map_option (\<lambda>p. abs_rules (ip_Rules p)) (fmlookup ps (uint j))"

definition synced :: "policies \<Rightarrow> kmaps \<Rightarrow> bool" where
  "synced ps m \<longleftrightarrow> (\<forall>j. kernel_rules m j = wanted ps j)"

text \<open>What an interface may be seen with while the maps go from \<open>old\<close> to the policies \<open>next\<close>.\<close>

definition allowed_rules :: "kmaps \<Rightarrow> policies \<Rightarrow> u32 \<Rightarrow> rule_sets option set" where
  "allowed_rules old next j =
     (if kernel_rules old j = wanted next j then {wanted next j} else {None, kernel_rules old j, wanted next j})"

definition update_safe :: "kmaps \<Rightarrow> policies \<Rightarrow> kmaps \<Rightarrow> bool" where
  "update_safe old next s \<longleftrightarrow> (\<forall>j. kernel_rules s j \<in> allowed_rules old next j)"

definition always :: "(kmaps \<Rightarrow> bool) \<Rightarrow> kernel \<Rightarrow> kernel \<Rightarrow> bool" where
  "always P k k' \<longleftrightarrow> P (k_maps k') \<and> (\<exists>new. k_seen k' = new @ k_seen k \<and> (\<forall>s \<in> set new. P s))"

lemma always_refl: "P (k_maps k) \<Longrightarrow> always P k k"
  by (auto simp: always_def)

lemma always_trans: "always P a b \<Longrightarrow> always P b c \<Longrightarrow> always P a c"
  unfolding always_def by (auto simp: ball_Un)

lemma guarded_always:
  assumes "guarded_run i R k k'" and "update_safe old next (k_maps k)" and "insert None R \<subseteq> allowed_rules old next i"
  shows "always (update_safe old next) k k'"
proof -
  have "update_safe old next s" if "guarded i R (k_maps k) s" for s
    using that assms(2,3) unfolding update_safe_def guarded_def by (metis subset_iff)
  with assms(1) show ?thesis unfolding guarded_run_def always_def by blast
qed

lemma allowed_changed: "kernel_rules old j \<noteq> wanted next j \<Longrightarrow> update_safe old next m \<Longrightarrow>
    kernel_rules m j \<in> allowed_rules old next j \<and> None \<in> allowed_rules old next j \<and> wanted next j \<in> allowed_rules old next j"
  by (auto simp: allowed_rules_def update_safe_def dest!: spec [of _ j] split: if_splits)

lemma clear_removed_run:
  assumes "\<forall>i \<in> set is. valid_index i \<and> (fmlookup next i = None \<longrightarrow> kernel_rules old (word_of_int i) \<noteq> None)"
    and "update_safe old next (k_maps k)"
  shows "always (update_safe old next) k (snd (clear_removed e next is k)) \<and>
    (fst (clear_removed e next is k) = Inr u \<longrightarrow> (\<forall>j. kernel_rules (k_maps (snd (clear_removed e next is k))) j =
       (if uint j \<in> set is \<and> fmlookup next (uint j) = None then None else kernel_rules (k_maps k) j)))"
  using assms
proof (induction "is" arbitrary: k)
  case (Cons i "is")
  show ?case
  proof (cases "fmlookup next i")
    case (Some p)
    with Cons show ?thesis by auto
  next
    case None
    let ?i = "word_of_int i :: u32" and ?op = "clearPolicyForInterface e (word_of_int i)"
    have ui: "uint ?i = i" using Cons.prems(1) word_of_int_eq_iff by auto
    then have w: "wanted next ?i = None" using None by (simp add: wanted_def)
    then have "kernel_rules old ?i \<noteq> wanted next ?i" using Cons.prems(1) None by auto
    then have safe: "always (update_safe old next) k (snd (?op k))"
      using allowed_changed [OF _ Cons.prems(2)] clearPolicy_run [of ?i k e]
      by (intro guarded_always [OF _ Cons.prems(2)]) auto
    show ?thesis
    proof (cases "fst (?op k)")
      case (Inl err)
      then show ?thesis using safe None by (simp add: bindK_Inl)
    next
      case (Inr x)
      then have closed: "guarded ?i {} (k_maps k) (k_maps (snd (?op k)))" using clearPolicy_run [of ?i k e] by auto
      have "update_safe old next (k_maps (snd (?op k)))" using safe by (simp add: always_def)
      then have rest: "always (update_safe old next) (snd (?op k)) (snd (clear_removed e next is (snd (?op k)))) \<and>
        (fst (clear_removed e next is (snd (?op k))) = Inr u \<longrightarrow>
          (\<forall>j. kernel_rules (k_maps (snd (clear_removed e next is (snd (?op k))))) j =
            (if uint j \<in> set is \<and> fmlookup next (uint j) = None then None else kernel_rules (k_maps (snd (?op k))) j)))"
        using Cons.prems(1) by (intro Cons.IH) auto
      have "kernel_rules (k_maps (snd (?op k))) j = (if uint j = i then None else kernel_rules (k_maps k) j)" for j
        using closed ui by (auto simp: guarded_def) (metis word_of_int_uint)
      then show ?thesis
        using rest always_trans [OF safe] None by (auto simp: bindK_go [where m = ?op, OF Inr])
    qed
  qed
qed (auto simp: returnK_def intro: always_refl)

lemma write_changed_run:
  assumes "env_ok e" and "\<forall>i \<in> set is. valid_index i"
    and "\<forall>j. kernel_rules old j = wanted current j" and "update_safe old next (k_maps k)"
  shows "always (update_safe old next) k (snd (write_changed e current next is k)) \<and>
    (fst (write_changed e current next is k) = Inr u \<longrightarrow> (\<forall>j. kernel_rules (k_maps (snd (write_changed e current next is k))) j =
       (if uint j \<in> set is \<and> fmlookup next (uint j) \<noteq> None then wanted next j else kernel_rules (k_maps k) j)))"
  using assms(2,4)
proof (induction "is" arbitrary: k)
  case (Cons i "is")
  let ?i = "word_of_int i :: u32"
  have ui: "uint ?i = i" using Cons.prems(1) word_of_int_eq_iff by auto
  let ?skip = "case fmlookup next i of None \<Rightarrow> True | Some policy \<Rightarrow>
     (case fmlookup current i of None \<Rightarrow> False | Some cur \<Rightarrow> allowRulesEqual (ip_Rules cur) (ip_Rules policy))"
  show ?case
  proof (cases ?skip)
    case True
    then have eq: "write_changed e current next (i # is) = write_changed e current next is"
      by (auto simp: fun_eq_iff split: option.splits)
    have "kernel_rules old ?i = wanted next ?i" if "fmlookup next i \<noteq> None"
      using that True assms(3) [THEN spec, of ?i]
      by (auto simp: wanted_def ui allowRulesEqual_def canonical_eq_iff split: option.splits)
    then have "kernel_rules (k_maps k) ?i = wanted next ?i" if "fmlookup next i \<noteq> None"
      using that Cons.prems(2) by (auto simp: update_safe_def allowed_rules_def dest!: spec [of _ ?i])
    then show ?thesis
      using Cons ui unfolding eq by (auto split: if_splits)
  next
    case False
    then obtain p where p: "fmlookup next i = Some p" by (auto split: option.splits)
    let ?op = "writeEffectivePolicyForInterface e ?i (ip_Rules p)"
    have w: "wanted next ?i = Some (abs_rules (ip_Rules p))" by (simp add: wanted_def ui p)
    have eq: "write_changed e current next (i # is) k = bindK ?op (\<lambda>_. write_changed e current next is) k"
      using False p by (auto split: option.splits)
    have "kernel_rules old ?i \<noteq> wanted next ?i"
      using False p assms(3) by (auto simp: w wanted_def ui allowRulesEqual_def canonical_eq_iff split: option.splits)
    from allowed_changed [OF this Cons.prems(2)]
    have safe: "always (update_safe old next) k (snd (?op k))"
      using writePolicy_run [OF assms(1), of ?i k "ip_Rules p"]
      by (intro guarded_always [OF _ Cons.prems(2)]) (auto simp: w)
    show ?thesis
    proof (cases "fst (?op k)")
      case (Inl err)
      then show ?thesis using safe unfolding eq by (simp add: bindK_Inl)
    next
      case (Inr x)
      then have wrote: "kernel_rules (k_maps (snd (?op k))) ?i = wanted next ?i"
        and others: "j \<noteq> ?i \<Longrightarrow> kernel_rules (k_maps (snd (?op k))) j = kernel_rules (k_maps k) j" for j
        using writePolicy_run [OF assms(1), of ?i k "ip_Rules p"] by (auto simp: w guarded_run_def guarded_def)
      have "update_safe old next (k_maps (snd (?op k)))" using safe by (simp add: always_def)
      then have rest: "always (update_safe old next) (snd (?op k)) (snd (write_changed e current next is (snd (?op k)))) \<and>
        (fst (write_changed e current next is (snd (?op k))) = Inr u \<longrightarrow>
          (\<forall>j. kernel_rules (k_maps (snd (write_changed e current next is (snd (?op k))))) j =
            (if uint j \<in> set is \<and> fmlookup next (uint j) \<noteq> None then wanted next j else kernel_rules (k_maps (snd (?op k))) j)))"
        using Cons.prems(1) by (intro Cons.IH) auto
      have "kernel_rules (k_maps (snd (?op k))) j = (if uint j = i then wanted next j else kernel_rules (k_maps k) j)" for j
        using wrote others ui by (cases "j = ?i") auto
      then show ?thesis
        using rest always_trans [OF safe] p unfolding eq by (auto simp: bindK_go [where m = ?op, OF Inr])
    qed
  qed
qed (auto simp: returnK_def intro: always_refl)

definition valid_policies :: "policies \<Rightarrow> bool" where
  "valid_policies ps \<longleftrightarrow> (\<forall>i. i |\<in>| fmdom ps \<longrightarrow> valid_index i)"

lemma range_keys_set: "env_ok e \<Longrightarrow> set (range_keys e m k) = fset (fmdom m)"
  by (simp add: range_keys_def env_ok_def)

lemma update_safe_refl: "update_safe m next m"
  by (simp add: update_safe_def allowed_rules_def)

lemma writeEffectivePolicies_run:
  assumes env: "env_ok e" and valid: "valid_policies current" "valid_policies next"
    and sync: "synced current (k_maps k)"
  shows "always (update_safe (k_maps k) next) k (snd (writeEffectivePolicies True e current next k)) \<and>
    (fst (writeEffectivePolicies True e current next k) = Inr u \<longrightarrow>
       synced next (k_maps (snd (writeEffectivePolicies True e current next k))))"
proof -
  let ?old = "k_maps k"
  let ?rm = "\<lambda>k. clear_removed e next (range_keys e current k) k"
  let ?wr = "\<lambda>_ k. write_changed e current next (range_keys e next k) k"
  have eq: "writeEffectivePolicies True e current next k = bindK ?rm ?wr k"
    by (simp add: writeEffectivePolicies_def)
  have cur: "kernel_rules ?old j = wanted current j" for j
    using sync by (simp add: synced_def)
  have in_current: "kernel_rules ?old (word_of_int i) \<noteq> None" if "i |\<in>| fmdom current" for i
    using that valid(1) word_of_int_eq_iff [of i "word_of_int i"]
    by (auto simp: cur wanted_def valid_policies_def fmlookup_dom_iff)
  note rm = clear_removed_run [of "range_keys e current k" "next" ?old k e]
  have rm: "always (update_safe ?old next) k (snd (?rm k)) \<and>
    (fst (?rm k) = Inr () \<longrightarrow> (\<forall>j. kernel_rules (k_maps (snd (?rm k))) j =
       (if uint j |\<in>| fmdom current \<and> fmlookup next (uint j) = None then None else kernel_rules ?old j)))"
    using clear_removed_run [of "range_keys e current k" "next" ?old k e] in_current valid(1)
    by (simp add: range_keys_set [OF env] valid_policies_def update_safe_refl)
  show ?thesis
  proof (cases "fst (?rm k)")
    case (Inl err)
    then show ?thesis using rm unfolding eq by (simp add: bindK_Inl)
  next
    case (Inr x)
    let ?k1 = "snd (?rm k)"
    have "update_safe ?old next (k_maps ?k1)" using rm by (simp add: always_def)
    then have wr: "always (update_safe ?old next) ?k1 (snd (?wr () ?k1)) \<and>
      (fst (?wr () ?k1) = Inr u \<longrightarrow> (\<forall>j. kernel_rules (k_maps (snd (?wr () ?k1))) j =
        (if uint j |\<in>| fmdom next \<and> fmlookup next (uint j) \<noteq> None then wanted next j else kernel_rules (k_maps ?k1) j)))"
      using write_changed_run [OF env, of "range_keys e next ?k1" ?old current "next" ?k1 u] cur valid(2)
      by (simp add: range_keys_set [OF env] valid_policies_def)
    have "synced next (k_maps (snd (?wr () ?k1)))" if ok: "fst (?wr () ?k1) = Inr u"
      unfolding synced_def
    proof
      fix j
      show "kernel_rules (k_maps (snd (?wr () ?k1))) j = wanted next j"
        using wr ok rm Inr cur [of j] by (cases "fmlookup next (uint j)"; cases "fmlookup current (uint j)")
          (auto simp: wanted_def intro: fmdomI)
    qed
    then show ?thesis
      using wr always_trans [of _ k ?k1] rm unfolding eq bindK_go [where m = ?rm, OF Inr] by blast
  qed
qed

section \<open>Updates that meet no failure\<close>

definition calm :: "env \<Rightarrow> bool" where
  "calm e \<longleftrightarrow> (\<forall>n. \<not> e_fail e n) \<and> (\<forall>n ks. \<not> snd (e_marks e n ks)) \<and> (\<forall>n ks. \<not> snd (e_ports e n ks)) \<and>
     (\<forall>n ks. \<not> snd (e_v4hosts e n ks)) \<and> (\<forall>n ks. \<not> snd (e_v6hosts e n ks)) \<and>
     (\<forall>n ks. \<not> snd (e_v4hostports e n ks)) \<and> (\<forall>n ks. \<not> snd (e_v6hostports e n ks))"

lemma clear_loop_calm: "\<forall>n. \<not> e_fail e n \<Longrightarrow> fst (clear_loop e get upd name i ifx visited k) = Inr ()"
  by (induction visited arbitrary: k) (auto simp: map_Delete_def split: prod.splits)

lemma clear_calm:
  assumes "\<forall>n. \<not> e_fail e n" and "\<forall>n ks. \<not> snd (w n ks)"
  shows "fst (clearAllowedMapForInterface e w get upd name i ifx k) = Inr ()"
proof -
  obtain visited where "w (k_n k) (sorted_list_of_fset (fmdom (get (k_maps k)))) = (visited, False)"
    using assms(2) by (metis prod.collapse)
  then show ?thesis
    by (simp add: clearAllowedMapForInterface_def bindK_Inr clear_loop_calm [OF assms(1)] returnK_def)
qed

lemma write_calm: "\<forall>n. \<not> e_fail e n \<Longrightarrow> fst (writeAllowedMap e upd keys name k) = Inr ()"
  by (induction keys arbitrary: k) (auto simp: map_Update_def split: prod.splits)

lemma clearPolicy_calm: "calm e \<Longrightarrow> fst (clearPolicyForInterface e i k) = Inr ()"
  by (simp add: clearPolicyForInterface_def bindK_Inr clear_calm calm_def)
    (simp add: clearRuntimeConfig_def map_Delete_def)

lemma writePolicy_calm: "calm e \<Longrightarrow> fst (writeEffectivePolicyForInterface e i rules k) = Inr ()"
  by (simp add: writeEffectivePolicyForInterface_def writeAllowlists_def writeAllowedMarks_def bindK_Inr clearPolicy_calm write_calm calm_def)
    (simp add: writeRuntimeConfig_def map_Update_def)

lemma clear_removed_calm: "calm e \<Longrightarrow> fst (clear_removed e next is k) = Inr ()"
  by (induction "is" arbitrary: k) (simp_all add: bindK_Inr clearPolicy_calm returnK_def)

lemma write_changed_calm: "calm e \<Longrightarrow> fst (write_changed e current next is k) = Inr ()"
  by (induction "is" arbitrary: k) (simp_all add: bindK_Inr writePolicy_calm returnK_def split: option.split)

lemma writeEffectivePolicies_calm: "calm e \<Longrightarrow> fst (writeEffectivePolicies hasObjs e current next k) = Inr ()"
  by (simp add: writeEffectivePolicies_def bindK_Inr clear_removed_calm write_changed_calm returnK_def)

section \<open>Properties\<close>

definition no_maps :: kmaps where
  "no_maps = \<lparr>km_config = fmempty, km_marks = fmempty, km_ports = fmempty, km_v4hosts = fmempty, km_v6hosts = fmempty,
     km_v4hostports = fmempty, km_v6hostports = fmempty\<rparr>"

definition new_kernel :: kernel where
  "new_kernel = \<lparr>k_maps = no_maps, k_seen = [], k_n = 0\<rparr>"

definition calm_env :: env where
  "calm_env = \<lparr>e_fail = (\<lambda>_. False), e_marks = (\<lambda>_ ks. (ks, False)), e_ports = (\<lambda>_ ks. (ks, False)),
     e_v4hosts = (\<lambda>_ ks. (ks, False)), e_v6hosts = (\<lambda>_ ks. (ks, False)), e_v4hostports = (\<lambda>_ ks. (ks, False)),
     e_v6hostports = (\<lambda>_ ks. (ks, False)), e_range = (\<lambda>_ is. is)\<rparr>"

lemma calm_env_ok: "env_ok calm_env"
  by (simp add: env_ok_def walk_ok_def calm_env_def)

lemma calm_env_calm: "calm calm_env"
  by (simp add: calm_def calm_env_def)

lemma synced_new_kernel: "synced fmempty (k_maps new_kernel)"
  by (simp add: synced_def new_kernel_def no_maps_def kernel_rules_def wanted_def)

definition example_policies :: policies where
  "example_policies = fmupd 2 \<lparr>ip_Info = example_iface 2 ''wl0'' ''device'',
     ip_Rules = no_rules\<lparr>ar_EnableV4 := True, ar_AllowedMarks := [7]\<rparr>,
     ip_ActiveRulesets = [], ip_ForcedRulesets = [], ip_TemporaryRulesets = []\<rparr> fmempty"

lemma example_policies_valid: "valid_policies fmempty" "valid_policies example_policies"
  by (simp_all add: valid_policies_def example_policies_def valid_index_def)

text \<open>a policy update that returns without error leaves the kernel enforcing, on every
  interface, exactly the rules of the new policy map, and nothing on the interfaces the map does not name,
  whatever order the Go maps are walked in and however the kernel maps are walked while entries are
  deleted.\<close>

theorem writeEffectivePolicies_refines:
  assumes "env_ok e" and "valid_policies current" and "valid_policies next" and "synced current (k_maps k)"
    and "fst (writeEffectivePolicies True e current next k) = Inr ()"
  shows "synced next (k_maps (snd (writeEffectivePolicies True e current next k)))"
  using writeEffectivePolicies_run [OF assms(1-4), where u = "()"] assms(5) by blast

lemma writeEffectivePolicies_refines_witness:
  "synced example_policies (k_maps (snd (writeEffectivePolicies True calm_env fmempty example_policies new_kernel)))"
  by (rule writeEffectivePolicies_refines [OF calm_env_ok example_policies_valid synced_new_kernel writeEffectivePolicies_calm])
    (rule calm_env_calm)

text \<open>C2: an update is safe at every moment, also when system calls fail or a walk is aborted in the
  middle: in each state the maps go through, an interface has its old rules, its new rules, or is closed; it
  is never seen with a mixture or with a part of its new rules, and an interface whose rules do not change
  keeps them all the time.\<close>

theorem writeEffectivePolicies_safe_at_every_moment:
  assumes "env_ok e" and "valid_policies current" and "valid_policies next" and "synced current (k_maps k)"
  shows "\<exists>new. k_seen (snd (writeEffectivePolicies True e current next k)) = new @ k_seen k \<and>
     (\<forall>s \<in> insert (k_maps (snd (writeEffectivePolicies True e current next k))) (set new). \<forall>j.
        if kernel_rules (k_maps k) j = wanted next j then kernel_rules s j = kernel_rules (k_maps k) j
        else kernel_rules s j \<in> {None, kernel_rules (k_maps k) j, wanted next j})"
proof -
  have "update_safe (k_maps k) next s \<longleftrightarrow>
      (\<forall>j. if kernel_rules (k_maps k) j = wanted next j then kernel_rules s j = kernel_rules (k_maps k) j
        else kernel_rules s j \<in> {None, kernel_rules (k_maps k) j, wanted next j})" for s
    by (simp add: update_safe_def allowed_rules_def if_distrib [of "\<lambda>S. _ \<in> S"] cong: if_cong)
  then show ?thesis
    using writeEffectivePolicies_run [OF assms] unfolding always_def by blast
qed

lemma writeEffectivePolicies_safe_at_every_moment_witness:
  "\<exists>new. k_seen (snd (writeEffectivePolicies True calm_env fmempty example_policies new_kernel)) = new @ k_seen new_kernel \<and>
     (\<forall>s \<in> insert (k_maps (snd (writeEffectivePolicies True calm_env fmempty example_policies new_kernel))) (set new). \<forall>j.
        if kernel_rules (k_maps new_kernel) j = wanted example_policies j then kernel_rules s j = kernel_rules (k_maps new_kernel) j
        else kernel_rules s j \<in> {None, kernel_rules (k_maps new_kernel) j, wanted example_policies j})"
  by (rule writeEffectivePolicies_safe_at_every_moment [OF calm_env_ok example_policies_valid synced_new_kernel])

end
