(* ===== verification/EgressManager.thy ===== *)
theory EgressManager
  imports BpfMaps
begin

text \<open>
  The egress manager of \<open>cmd/killswitch/egress.go\<close>: it attaches the eBPF program to the
  selected interfaces and detaches it from the others. A link is the interface index it was made for;
  \<open>em_links\<close> is the set of interfaces the kernel runs the program on. Which system calls fail
  and the order in which the map of attached interfaces is walked are an argument (\<open>attach_env\<close>).
\<close>

section \<open>State\<close>

record egressManager =
  em_attached :: "(int, interfaceInfo) fmap"
  em_links :: "int fset"

record attach_env =
  ae_close_fails :: "int \<Rightarrow> bool"
  ae_attach_fails :: "int \<Rightarrow> bool"
  ae_range :: "int list \<Rightarrow> int list"

definition attach_env_ok :: "attach_env \<Rightarrow> bool" where
  "attach_env_ok ae \<longleftrightarrow> (\<forall>is. set (ae_range ae is) = set is \<and> (distinct is \<longrightarrow> distinct (ae_range ae is)))"

definition newEgressManager :: egressManager where
  "newEgressManager = \<lparr>em_attached = fmempty, em_links = {||}\<rparr>"

definition attachedIndexSnapshot :: "egressManager \<Rightarrow> int fset" where
  "attachedIndexSnapshot m = fmdom (em_attached m)"

section \<open>\<open>reconcile\<close>\<close>

definition desired_of :: "interfaceInfo list \<Rightarrow> (int, interfaceInfo) fmap" where
  "desired_of selected = foldl (\<lambda>desired iface. fmupd (ii_Index iface) iface desired) fmempty selected"

definition close_link :: "attach_env \<Rightarrow> int \<Rightarrow> egressManager \<Rightarrow> egressManager" where
  "close_link ae index m =
     m\<lparr>em_attached := fmdrop index (em_attached m),
       em_links := (if ae_close_fails ae index then em_links m else em_links m |-| {|index|})\<rparr>"

fun detach_loop :: "attach_env \<Rightarrow> (int, interfaceInfo) fmap \<Rightarrow> int list \<Rightarrow> egressManager \<times> bool \<Rightarrow> egressManager \<times> bool" where
  "detach_loop ae desired [] s = s"
| "detach_loop ae desired (index # is) (m, changed) =
     (if fmlookup desired index \<noteq> None then detach_loop ae desired is (m, changed)
      else detach_loop ae desired is (close_link ae index m, True))"

definition attachError :: "interfaceInfo \<Rightarrow> error" where
  "attachError iface = Wrap ''attach tc egress program to %s(index %d type %s)'' [ii_Name iface, itoa (ii_Index iface), ii_Type iface] (Lib ''attach'')"

text \<open>The error joined so far is the list of its parts; \<open>[]\<close> is nil.\<close>

fun attach_loop :: "attach_env \<Rightarrow> interfaceInfo list \<Rightarrow> egressManager \<times> bool \<times> error list \<Rightarrow> egressManager \<times> bool \<times> error list" where
  "attach_loop ae [] s = s"
| "attach_loop ae (iface # rest) (m, changed, attachErr) =
     (if fmlookup (em_attached m) (ii_Index iface) \<noteq> None
      then attach_loop ae rest (m\<lparr>em_attached := fmupd (ii_Index iface) iface (em_attached m)\<rparr>, changed, attachErr)
      else if ae_attach_fails ae (ii_Index iface)
      then attach_loop ae rest (m, changed, attachErr @ [attachError iface])
      else attach_loop ae rest
        (m\<lparr>em_attached := fmupd (ii_Index iface) iface (em_attached m),
           em_links := finsert (ii_Index iface) (em_links m)\<rparr>, True, attachErr))"

definition em_reconcile :: "attach_env \<Rightarrow> interfaceInfo list \<Rightarrow> bool \<Rightarrow> egressManager \<Rightarrow> egressManager \<times> bool \<times> error list" where
  "em_reconcile ae selected strict m =
     (let desired = desired_of selected;
          (m1, changed1) = detach_loop ae desired (ae_range ae (sorted_list_of_fset (fmdom (em_attached m)))) (m, False);
          (m2, changed2, attachErr) = attach_loop ae selected (m1, changed1, [])
      in if strict then (m2, changed2, attachErr) else (m2, changed2, []))"

definition em_reconcileCurrent ::
  "attach_env \<Rightarrow> regexps \<Rightarrow> nl_link list res \<Rightarrow> options \<Rightarrow> bool \<Rightarrow> egressManager \<Rightarrow> egressManager \<times> bool \<times> error list" where
  "em_reconcileCurrent ae rx links opts strict m =
     (case selectedInterfaces rx links opts of
        Inl err \<Rightarrow> (m, False, [err])
      | Inr selected \<Rightarrow> em_reconcile ae selected strict m)"

definition attachedInterfacesLocked :: "int list \<Rightarrow> egressManager \<Rightarrow> interfaceInfo list" where
  "attachedInterfacesLocked walk m =
     sort_slice (\<lambda>a b. ii_Name a < ii_Name b) (map (\<lambda>i. the (fmlookup (em_attached m) i)) walk)"

definition em_close :: "attach_env \<Rightarrow> egressManager \<Rightarrow> egressManager" where
  "em_close ae m = foldl (\<lambda>m index. close_link ae index m) m (ae_range ae (sorted_list_of_fset (fmdom (em_attached m))))"

section \<open>What is attached\<close>

lemma desired_of_dom: "fmlookup (desired_of selected) i \<noteq> None \<longleftrightarrow> i \<in> ii_Index ` set selected"
proof -
  have "fmdom (foldl (\<lambda>desired iface. fmupd (ii_Index iface) iface desired) m selected) = fmdom m |\<union>| fset_of_list (map ii_Index selected)" for m
    by (induction selected arbitrary: m) auto
  then have "i |\<in>| fmdom (desired_of selected) \<longleftrightarrow> i \<in> ii_Index ` set selected"
    by (simp add: desired_of_def fset_of_list.rep_eq)
  then show ?thesis by (simp add: fmlookup_dom_iff)
qed

lemma detach_loop_spec:
  assumes "distinct is" and "set is \<subseteq> fset (fmdom (em_attached m))"
  shows "detach_loop ae desired is (m, changed) =
     (fst (detach_loop ae desired is (m, changed)), changed \<or> (\<exists>i \<in> set is. fmlookup desired i = None)) \<and>
   em_attached (fst (detach_loop ae desired is (m, changed))) =
     fmfilter (\<lambda>i. i \<notin> set is \<or> fmlookup desired i \<noteq> None) (em_attached m) \<and>
   em_links (fst (detach_loop ae desired is (m, changed))) =
     em_links m |-| fset_of_list (filter (\<lambda>i. fmlookup desired i = None \<and> \<not> ae_close_fails ae i) is)"
  using assms
proof (induction "is" arbitrary: m changed)
  case Nil
  then show ?case by (auto intro!: fmap_ext)
next
  case (Cons i "is")
  show ?case
  proof (cases "fmlookup desired i")
    case None
    have sub: "set is \<subseteq> fset (fmdom (em_attached (close_link ae i m)))"
      using Cons.prems by (auto simp: close_link_def)
    have IH: "detach_loop ae desired is (close_link ae i m, True) =
        (fst (detach_loop ae desired is (close_link ae i m, True)), True) \<and>
      em_attached (fst (detach_loop ae desired is (close_link ae i m, True))) =
        fmfilter (\<lambda>i. i \<notin> set is \<or> fmlookup desired i \<noteq> None) (em_attached (close_link ae i m)) \<and>
      em_links (fst (detach_loop ae desired is (close_link ae i m, True))) =
        em_links (close_link ae i m) |-| fset_of_list (filter (\<lambda>i. fmlookup desired i = None \<and> \<not> ae_close_fails ae i) is)"
      using Cons.IH [OF _ sub, of True] Cons.prems by simp
    have "em_attached (fst (detach_loop ae desired is (close_link ae i m, True))) =
        fmfilter (\<lambda>j. j \<notin> set (i # is) \<or> fmlookup desired j \<noteq> None) (em_attached m)"
      using IH None by (auto intro!: fmap_ext simp: close_link_def)
    moreover have "em_links (fst (detach_loop ae desired is (close_link ae i m, True))) =
        em_links m |-| fset_of_list (filter (\<lambda>i. fmlookup desired i = None \<and> \<not> ae_close_fails ae i) (i # is))"
      using IH None by (auto simp: close_link_def)
    ultimately show ?thesis using IH None by simp
  next
    case (Some x)
    have "fmfilter (\<lambda>j. j \<notin> set is \<or> fmlookup desired j \<noteq> None) (em_attached m) =
        fmfilter (\<lambda>j. j \<notin> set (i # is) \<or> fmlookup desired j \<noteq> None) (em_attached m)"
      using Some by (auto intro!: fmap_ext)
    then show ?thesis using Cons.IH [of m changed] Cons.prems Some by simp
  qed
qed

lemma attach_loop_spec:
  "fst (attach_loop ae selected (m, changed, errs)) = m' \<Longrightarrow>
   fset (fmdom (em_attached m')) = fset (fmdom (em_attached m)) \<union> {i \<in> ii_Index ` set selected. \<not> ae_attach_fails ae i} \<and>
   fset (em_links m') = fset (em_links m) \<union> {i \<in> ii_Index ` set selected - fset (fmdom (em_attached m)). \<not> ae_attach_fails ae i} \<and>
   fst (snd (attach_loop ae selected (m, changed, errs))) =
     (changed \<or> {i \<in> ii_Index ` set selected - fset (fmdom (em_attached m)). \<not> ae_attach_fails ae i} \<noteq> {}) \<and>
   (snd (snd (attach_loop ae selected (m, changed, errs))) = errs \<longleftrightarrow>
     {i \<in> ii_Index ` set selected - fset (fmdom (em_attached m)). ae_attach_fails ae i} = {}) \<and>
   (\<exists>more. snd (snd (attach_loop ae selected (m, changed, errs))) = errs @ more)"
proof (induction selected arbitrary: m changed errs)
  case (Cons iface rest)
  let ?i = "ii_Index iface"
  consider (old) "fmlookup (em_attached m) ?i \<noteq> None" | (fails) "fmlookup (em_attached m) ?i = None" "ae_attach_fails ae ?i"
    | (new) "fmlookup (em_attached m) ?i = None" "\<not> ae_attach_fails ae ?i" by blast
  then show ?case
  proof cases
    case old
    have dom: "finsert ?i (fmdom (em_attached m)) = fmdom (em_attached m)"
      using old by (auto simp: finsert_absorb fmlookup_dom_iff)
    then have "?i |\<in>| fmdom (em_attached m)" by auto
    with Cons.IH [of "m\<lparr>em_attached := fmupd ?i iface (em_attached m)\<rparr>" changed errs] Cons.prems old show ?thesis
      by (simp add: dom) auto
  next
    case fails
    then have "?i |\<notin>| fmdom (em_attached m)" by auto
    with Cons.IH [of m changed "errs @ [attachError iface]"] Cons.prems fails show ?thesis by auto
  next
    case new
    then have "?i |\<notin>| fmdom (em_attached m)" by auto
    with Cons.IH [of "m\<lparr>em_attached := fmupd ?i iface (em_attached m), em_links := finsert ?i (em_links m)\<rparr>" True errs] Cons.prems new
    show ?thesis by auto
  qed
qed auto

text \<open>The kernel runs the program on every interface the manager knows as attached.\<close>

definition em_ok :: "egressManager \<Rightarrow> bool" where
  "em_ok m \<longleftrightarrow> fmdom (em_attached m) |\<subseteq>| em_links m"

lemma em_reconcile_spec:
  assumes "attach_env_ok ae" and "em_reconcile ae selected strict m = (m', changed, errs)"
  shows "fset (fmdom (em_attached m')) =
      {i \<in> ii_Index ` set selected. i |\<in>| fmdom (em_attached m) \<or> \<not> ae_attach_fails ae i}"
    and "changed \<longleftrightarrow> fset (fmdom (em_attached m')) \<noteq> fset (fmdom (em_attached m))"
    and "fset (em_links m') = fset (em_links m) - {i \<in> fset (fmdom (em_attached m)). i \<notin> ii_Index ` set selected \<and> \<not> ae_close_fails ae i}
      \<union> {i \<in> ii_Index ` set selected. i |\<notin>| fmdom (em_attached m) \<and> \<not> ae_attach_fails ae i}"
    and "errs = [] \<longleftrightarrow> \<not> strict \<or> ii_Index ` set selected \<subseteq> fset (fmdom (em_attached m'))"
proof -
  let ?D = "desired_of selected" and ?A = "fset (fmdom (em_attached m))" and ?S = "ii_Index ` set selected"
  let ?walk = "ae_range ae (sorted_list_of_fset (fmdom (em_attached m)))"
  define m1 where "m1 = fst (detach_loop ae ?D ?walk (m, False))"
  have walk: "distinct ?walk" "set ?walk = ?A"
    using assms(1) by (auto simp: attach_env_ok_def sorted_list_of_fset.rep_eq)
  have none: "fmlookup ?D i = None \<longleftrightarrow> i \<notin> ?S" for i
    using desired_of_dom [of selected i] by auto
  note detach = detach_loop_spec [OF walk(1), of m ae ?D False, folded m1_def]
  have d1: "detach_loop ae ?D ?walk (m, False) = (m1, \<not> ?A \<subseteq> ?S)"
    and a1: "fset (fmdom (em_attached m1)) = ?A \<inter> ?S"
    and l1: "fset (em_links m1) = fset (em_links m) - {i \<in> ?A. i \<notin> ?S \<and> \<not> ae_close_fails ae i}"
    using detach walk(2) by (auto simp: none fset_of_list.rep_eq)
  obtain m2 changed2 errs2 where loop: "attach_loop ae selected (m1, \<not> ?A \<subseteq> ?S, []) = (m2, changed2, errs2)"
    by (metis prod_cases3)
  note attach = attach_loop_spec [of ae selected m1 "\<not> ?A \<subseteq> ?S" "[]" m2, unfolded loop fst_conv snd_conv, OF refl]
  note at1 = attach [THEN conjunct1] and at2 = attach [THEN conjunct2, THEN conjunct1]
    and at3 = attach [THEN conjunct2, THEN conjunct2, THEN conjunct1]
    and at4 = attach [THEN conjunct2, THEN conjunct2, THEN conjunct2, THEN conjunct1]
  have res: "m' = m2" "changed = changed2" "errs = (if strict then errs2 else [])"
    using assms(2) by (auto simp: em_reconcile_def d1 loop Let_def split: if_splits)
  show dom: "fset (fmdom (em_attached m')) = {i \<in> ?S. i |\<in>| fmdom (em_attached m) \<or> \<not> ae_attach_fails ae i}"
    unfolding res at1 a1 by blast
  show "changed \<longleftrightarrow> fset (fmdom (em_attached m')) \<noteq> ?A"
    unfolding dom unfolding res at3 a1 by blast
  show "fset (em_links m') = fset (em_links m) - {i \<in> ?A. i \<notin> ?S \<and> \<not> ae_close_fails ae i}
      \<union> {i \<in> ?S. i |\<notin>| fmdom (em_attached m) \<and> \<not> ae_attach_fails ae i}"
    unfolding res at2 l1 a1 by blast
  show "errs = [] \<longleftrightarrow> \<not> strict \<or> ?S \<subseteq> fset (fmdom (em_attached m'))"
    unfolding dom using at4 unfolding res a1 by auto
qed

lemma em_reconcile_ok:
  assumes "attach_env_ok ae" and "em_reconcile ae selected strict m = (m', changed, errs)" and "em_ok m"
  shows "em_ok m'"
  using em_reconcile_spec(1,3) [OF assms(1,2)] assms(3) unfolding em_ok_def less_eq_fset.rep_eq by auto

section \<open>Properties\<close>

definition calm_attach :: attach_env where
  "calm_attach = \<lparr>ae_close_fails = (\<lambda>_. False), ae_attach_fails = (\<lambda>_. False), ae_range = (\<lambda>is. is)\<rparr>"

lemma calm_attach_ok: "attach_env_ok calm_attach"
  by (simp add: attach_env_ok_def calm_attach_def)

text \<open>C12: after a reconcile the attached interfaces are the selected ones, less those that were not
  attached before and cannot be attached now; \<open>changed\<close> says whether the set changed, a strict reconcile
  reports an error exactly when a selected interface stays unattached, and the kernel still runs the program
  on every interface that counts as attached.\<close>

theorem em_reconcile_attaches_selected:
  assumes "attach_env_ok ae" and "em_reconcile ae selected strict m = (m', changed, errs)" and "em_ok m"
  shows "fset (fmdom (em_attached m')) =
      {i \<in> ii_Index ` set selected. i |\<in>| fmdom (em_attached m) \<or> \<not> ae_attach_fails ae i} \<and>
    (changed \<longleftrightarrow> fset (fmdom (em_attached m')) \<noteq> fset (fmdom (em_attached m))) \<and>
    (errs = [] \<longleftrightarrow> \<not> strict \<or> ii_Index ` set selected \<subseteq> fset (fmdom (em_attached m'))) \<and>
    em_ok m'"
proof (intro conjI)
qed (rule em_reconcile_spec [OF assms(1,2)] em_reconcile_ok [OF assms])+

lemma em_reconcile_attaches_selected_witness:
  "case em_reconcile calm_attach [example_iface 2 ''wl0'' ''device''] True newEgressManager of
     (m', changed, errs) \<Rightarrow> fset (fmdom (em_attached m')) = {2} \<and> changed \<and> errs = [] \<and> em_ok m'"
proof -
  obtain m' changed errs where r: "em_reconcile calm_attach [example_iface 2 ''wl0'' ''device''] True newEgressManager = (m', changed, errs)"
    by (metis prod_cases3)
  have "em_ok newEgressManager" by (simp add: em_ok_def newEgressManager_def)
  note spec = em_reconcile_attaches_selected [OF calm_attach_ok r this]
  have "fset (fmdom (em_attached m')) = {2}"
    unfolding spec [THEN conjunct1] by (auto simp: example_iface_def calm_attach_def)
  moreover from this have "changed \<and> errs = [] \<and> em_ok m'"
    using spec [THEN conjunct2] by (simp add: newEgressManager_def example_iface_def)
  ultimately show ?thesis by (simp add: r)
qed

end
