(* ===== verification/PolicyManager.thy ===== *)
theory PolicyManager
  imports EgressManager
begin

text \<open>
  The policy manager of \<open>cmd/killswitch/policy_manager.go\<close> and the copies of its maps in
  \<open>admin_mutation.go\<close>: the options in force, the temporary rule sets of clients, the rule sets clients
  have forced on interfaces (with a count per client and interface), and the policy map that was last written
  to the kernel. Every operation holds the manager's lock, so each is one step on the record.
\<close>

section \<open>State\<close>

type_synonym owner_counts = "(string, int) fmap"
type_synonym force_map = "(string, (string, owner_counts) fmap) fmap"

record policyManager =
  pm_hasObjs :: bool
  pm_opts :: options
  pm_socksProxy :: socksProxyState
  pm_tmpRulesets :: "(string, temporaryRuleset) fmap"
  pm_forceRulesets :: force_map
  pm_current :: policies
  pm_set :: bool

definition socksProxyStateFromOptions :: "socksProxyOptions \<Rightarrow> socksProxyState" where
  "socksProxyStateFromOptions opts =
     \<lparr>ss_Enabled = so_Enabled opts, ss_Running = False, ss_Port = so_Port opts, ss_FWMark = so_FWMark opts,
      ss_DNSServer = so_DNSServer opts, ss_LastError = []\<rparr>"

definition newPolicyManager :: "bool \<Rightarrow> options \<Rightarrow> policyManager" where
  "newPolicyManager hasObjs opts =
     \<lparr>pm_hasObjs = hasObjs, pm_opts = cloneOptions opts, pm_socksProxy = socksProxyStateFromOptions (o_SocksProxy opts),
      pm_tmpRulesets = fmempty, pm_forceRulesets = fmempty, pm_current = fmempty, pm_set = False\<rparr>"

definition optionsSnapshot :: "policyManager \<Rightarrow> options" where
  "optionsSnapshot pm = cloneOptions (pm_opts pm)"

text \<open>
  The loop over the names deletes from the map it walks, which Go allows; the order does not matter.
\<close>

definition pruneForceRulesetsLocked :: "policyManager \<Rightarrow> policyManager" where
  "pruneForceRulesetsLocked pm =
     (if pm_forceRulesets pm = fmempty then pm
      else foldl (\<lambda>pm name. if findRuleset (o_Rulesets (pm_opts pm)) name < 0
                             then pm\<lparr>pm_forceRulesets := fmdrop name (pm_forceRulesets pm)\<rparr> else pm)
             pm (sorted_list_of_fset (fmdom (pm_forceRulesets pm))))"

definition replaceOptions :: "options \<Rightarrow> policyManager \<Rightarrow> policyManager" where
  "replaceOptions opts pm =
     (let pm1 = pm\<lparr>pm_opts := cloneOptions opts\<rparr>;
          pm2 = (if \<not> ss_Enabled (pm_socksProxy pm1) \<and> \<not> ss_Running (pm_socksProxy pm1)
                 then pm1\<lparr>pm_socksProxy := socksProxyStateFromOptions (o_SocksProxy opts)\<rparr> else pm1)
      in pruneForceRulesetsLocked pm2)"

definition setSocksProxyState :: "socksProxyState \<Rightarrow> policyManager \<Rightarrow> policyManager" where
  "setSocksProxyState state pm = pm\<lparr>pm_socksProxy := state\<rparr>"

definition socksProxyStateSnapshot :: "policyManager \<Rightarrow> socksProxyState" where
  "socksProxyStateSnapshot pm = pm_socksProxy pm"

section \<open>Temporary rule sets\<close>

definition cloneTemporaryRulesets :: "(string, temporaryRuleset) fmap \<Rightarrow> temporaryRuleset list" where
  "cloneTemporaryRulesets rulesets =
     map (\<lambda>owner. let tmp = the (fmlookup rulesets owner) in
            \<lparr>tmp_Owner = owner, tmp_Interfaces = cloneStrings (tmp_Interfaces tmp), tmp_Rules = cloneAllowRules (tmp_Rules tmp)\<rparr>)
       (sorted_list_of_fset (fmdom rulesets))"

definition temporaryRulesetsSnapshot :: "policyManager \<Rightarrow> temporaryRuleset list" where
  "temporaryRulesetsSnapshot pm = cloneTemporaryRulesets (pm_tmpRulesets pm)"

definition setTemporaryRuleset :: "string \<Rightarrow> string list \<Rightarrow> allowRules \<Rightarrow> policyManager \<Rightarrow> policyManager" where
  "setTemporaryRuleset owner interfaces rules pm = pm\<lparr>pm_tmpRulesets :=
     fmupd owner \<lparr>tmp_Owner = owner, tmp_Interfaces = cloneStrings interfaces, tmp_Rules = cloneAllowRules rules\<rparr>
       (pm_tmpRulesets pm)\<rparr>"

definition removeTemporaryRuleset :: "string \<Rightarrow> policyManager \<Rightarrow> bool \<times> policyManager" where
  "removeTemporaryRuleset owner pm =
     (if fmlookup (pm_tmpRulesets pm) owner = None then (False, pm)
      else (True, pm\<lparr>pm_tmpRulesets := fmdrop owner (pm_tmpRulesets pm)\<rparr>))"

section \<open>Forced rule sets\<close>

text \<open>A missing entry of a Go map reads as the zero value: nil, an empty map, or the count 0.\<close>

definition counts_of :: "(string, owner_counts) fmap \<Rightarrow> string \<Rightarrow> owner_counts" where
  "counts_of owners owner = (case fmlookup owners owner of None \<Rightarrow> fmempty | Some c \<Rightarrow> c)"

definition count_of :: "owner_counts \<Rightarrow> string \<Rightarrow> int" where
  "count_of c iface = (case fmlookup c iface of None \<Rightarrow> 0 | Some n \<Rightarrow> n)"

definition forceActivateRuleset :: "string \<Rightarrow> string \<Rightarrow> string list \<Rightarrow> bool \<Rightarrow> policyManager \<Rightarrow> bool \<times> policyManager" where
  "forceActivateRuleset owner name interfaces replace pm =
     (if findRuleset (o_Rulesets (pm_opts pm)) name < 0 then (False, pm)
      else
        let owners = (case fmlookup (pm_forceRulesets pm) name of None \<Rightarrow> fmempty | Some owners \<Rightarrow> owners);
            counts = (if replace then fmempty else counts_of owners owner);
            counts' = foldl (\<lambda>c iface. fmupd iface (count_of c iface + 1) c) counts interfaces
        in (True, pm\<lparr>pm_forceRulesets := fmupd name (fmupd owner counts' owners) (pm_forceRulesets pm)\<rparr>))"

definition release_counts :: "string list \<Rightarrow> owner_counts \<Rightarrow> owner_counts" where
  "release_counts interfaces counts =
     foldl (\<lambda>c iface. if count_of c iface \<le> 1 then fmdrop iface c else fmupd iface (count_of c iface - 1) c) counts interfaces"

definition put_owners :: "string \<Rightarrow> (string, owner_counts) fmap \<Rightarrow> policyManager \<Rightarrow> policyManager" where
  "put_owners name owners pm = pm\<lparr>pm_forceRulesets :=
     (if owners = fmempty then fmdrop name (pm_forceRulesets pm) else fmupd name owners (pm_forceRulesets pm))\<rparr>"

definition releaseForceRulesetLocked :: "string \<Rightarrow> string \<Rightarrow> string list \<Rightarrow> policyManager \<Rightarrow> bool \<times> policyManager" where
  "releaseForceRulesetLocked owner name interfaces pm =
     (case fmlookup (pm_forceRulesets pm) name of
        None \<Rightarrow> (False, pm)
      | Some owners \<Rightarrow>
          (if counts_of owners owner = fmempty then (False, pm)
           else if interfaces = [] then (True, put_owners name (fmdrop owner owners) pm)
           else let counts = release_counts interfaces (counts_of owners owner) in
             (True, put_owners name (if counts = fmempty then fmdrop owner owners else fmupd owner counts owners) pm)))"

definition releaseForceRuleset :: "string \<Rightarrow> string \<Rightarrow> string list \<Rightarrow> policyManager \<Rightarrow> bool \<times> policyManager" where
  "releaseForceRuleset owner name interfaces pm = releaseForceRulesetLocked owner name interfaces pm"

definition releaseAllForceRulesetLocked :: "string \<Rightarrow> string \<Rightarrow> policyManager \<Rightarrow> bool \<times> policyManager" where
  "releaseAllForceRulesetLocked owner name pm =
     (case fmlookup (pm_forceRulesets pm) name of
        None \<Rightarrow> (False, pm)
      | Some owners \<Rightarrow>
          (if counts_of owners owner = fmempty then (False, pm)
           else (True, put_owners name (fmdrop owner owners) pm)))"

definition removeForceRulesets :: "string \<Rightarrow> policyManager \<Rightarrow> bool \<times> policyManager" where
  "removeForceRulesets owner pm =
     foldl (\<lambda>(changed, pm) name.
       let (released, pm') = releaseAllForceRulesetLocked owner name pm in (if released then True else changed, pm'))
       (False, pm) (sorted_list_of_fset (fmdom (pm_forceRulesets pm)))"

definition cloneForceRulesets :: "force_map \<Rightarrow> forceRuleset list" where
  "cloneForceRulesets rulesets =
     map (\<lambda>name.
       let owners = the (fmlookup rulesets name);
           ownerNames = sorted_list_of_fset (fmdom owners)
       in \<lparr>fr_Name = name, fr_Owners = ownerNames,
           fr_Interfaces = sorted_list_of_set (\<Union> ((\<lambda>o'. fset (fmdom (counts_of owners o'))) ` set ownerNames))\<rparr>)
       (filter (\<lambda>name. fmlookup rulesets name \<noteq> Some fmempty) (sorted_list_of_fset (fmdom rulesets)))"

definition forceRulesetsSnapshot :: "policyManager \<Rightarrow> forceRuleset list" where
  "forceRulesetsSnapshot pm = cloneForceRulesets (pm_forceRulesets pm)"

section \<open>Reconciling\<close>

definition pm_reconcile ::
  "env \<Rightarrow> regexps \<Rightarrow> interfaceInfo list \<Rightarrow> policyManager \<Rightarrow> kernel \<Rightarrow> bool res \<times> policyManager \<times> kernel" where
  "pm_reconcile e rx all pm k =
     (let opts = optionsSnapshot pm;
          tmpRulesets = temporaryRulesetsSnapshot pm;
          forceRulesets = forceRulesetsSnapshot pm;
          socksProxy = socksProxyStateSnapshot pm in
      case bindR (selectInterfaces rx all opts) (\<lambda>selected.
             effectivePoliciesForInterfaces rx selected opts tmpRulesets forceRulesets [socksProxy]) of
        Inl err \<Rightarrow> (Inl err, pm, k)
      | Inr next \<Rightarrow>
          (if pm_set pm \<and> interfacePolicyRulesEqual (pm_current pm) next
           then (Inr False, pm\<lparr>pm_current := cloneInterfacePolicyMap next\<rparr>, k)
           else case writeEffectivePolicies (pm_hasObjs pm) e (pm_current pm) next k of
               (Inl err, k') \<Rightarrow> (Inl err, pm, k')
             | (Inr _, k') \<Rightarrow> (Inr True, pm\<lparr>pm_current := cloneInterfacePolicyMap next, pm_set := True\<rparr>, k')))"

text \<open>\<open>manager\<close> is nil in the tests only. \<open>links\<close> is what netlink reports at the moment of the call.\<close>

definition pm_reconcileAttached ::
  "env \<Rightarrow> regexps \<Rightarrow> nl_link list res \<Rightarrow> egressManager option \<Rightarrow> policyManager \<Rightarrow> kernel \<Rightarrow> bool res \<times> policyManager \<times> kernel" where
  "pm_reconcileAttached e rx links manager pm k =
     (case manager of
        None \<Rightarrow> pm_reconcile e rx [] pm k
      | Some em \<Rightarrow>
          (let attached = attachedIndexSnapshot em in
           if attached = {||} then pm_reconcile e rx [] pm k
           else case wrapR ''list interfaces'' [] (listInterfaces links) of
             Inl err \<Rightarrow> (Inl err, pm, k)
           | Inr all \<Rightarrow> pm_reconcile e rx (filter (\<lambda>iface. ii_Index iface |\<in>| attached) all) pm k))"

section \<open>Who holds a forced rule set\<close>

text \<open>How often a client has forced a rule set on an interface.\<close>

definition force_count :: "policyManager \<Rightarrow> string \<Rightarrow> string \<Rightarrow> string \<Rightarrow> int" where
  "force_count pm name owner iface =
     (case fmlookup (pm_forceRulesets pm) name of None \<Rightarrow> 0 | Some owners \<Rightarrow> count_of (counts_of owners owner) iface)"

definition counts_ok :: "owner_counts \<Rightarrow> bool" where
  "counts_ok c \<longleftrightarrow> c \<noteq> fmempty \<and> (\<forall>iface n. fmlookup c iface = Some n \<longrightarrow> 1 \<le> n)"

definition owners_ok :: "(string, owner_counts) fmap \<Rightarrow> bool" where
  "owners_ok owners \<longleftrightarrow> owners \<noteq> fmempty \<and> (\<forall>owner c. fmlookup owners owner = Some c \<longrightarrow> counts_ok c)"

definition force_ok :: "policyManager \<Rightarrow> bool" where
  "force_ok pm \<longleftrightarrow> (\<forall>name owners. fmlookup (pm_forceRulesets pm) name = Some owners \<longrightarrow>
     owners_ok owners \<and> name \<in> rset_Name ` set (o_Rulesets (pm_opts pm)))"

lemma count_of_simps [simp]: "count_of fmempty x = 0"
  "count_of (fmupd y n c) x = (if x = y then n else count_of c x)" "count_of (fmdrop y c) x = (if x = y then 0 else count_of c x)"
  by (auto simp: count_of_def)

lemma counts_of_simps [simp]: "counts_of fmempty x = fmempty"
  "counts_of (fmupd y c os) x = (if x = y then c else counts_of os x)" "counts_of (fmdrop y os) x = (if x = y then fmempty else counts_of os x)"
  by (auto simp: counts_of_def)

lemma counts_of_ok: "owners_ok owners \<Longrightarrow> counts_of owners owner = fmempty \<longleftrightarrow> fmlookup owners owner = None"
  by (auto simp: counts_of_def owners_ok_def counts_ok_def split: option.splits)

lemma acquire_counts:
  "count_of (foldl (\<lambda>c iface. fmupd iface (count_of c iface + 1) c) c is) x = count_of c x + int (count_list is x)"
  by (induction "is" arbitrary: c) auto

lemma acquire_ok:
  assumes "\<forall>iface n. fmlookup c iface = Some n \<longrightarrow> 1 \<le> n" and "c \<noteq> fmempty \<or> is \<noteq> []"
  shows "counts_ok (foldl (\<lambda>c iface. fmupd iface (count_of c iface + 1) c) c is)"
  using assms
proof (induction "is" arbitrary: c)
  case (Cons i "is")
  have "0 \<le> count_of c i" using Cons.prems(1) by (fastforce simp: count_of_def split: option.split)
  with Cons show ?case by (auto split: if_splits)
qed (simp add: counts_ok_def)

lemma release_counts_count: "0 \<le> count_of c x \<Longrightarrow> count_of (release_counts is c) x = max 0 (count_of c x - int (count_list is x))"
  unfolding release_counts_def by (induction "is" arbitrary: c) (auto simp: max_def)

lemma release_counts_ok:
  "\<forall>iface n. fmlookup c iface = Some n \<longrightarrow> 1 \<le> n \<Longrightarrow> fmlookup (release_counts is c) iface = Some n \<Longrightarrow> 1 \<le> n"
  unfolding release_counts_def
proof (induction "is" arbitrary: c)
  case (Cons i "is")
  show ?case by (rule Cons.IH [OF _ Cons.prems(2) [unfolded foldl_Cons]]) (use Cons.prems(1) in \<open>auto split: if_splits\<close>)
qed auto

lemma force_count_nonneg: "force_ok pm \<Longrightarrow> 0 \<le> force_count pm name owner iface"
  by (fastforce simp: force_ok_def owners_ok_def counts_ok_def force_count_def counts_of_def count_of_def split: option.splits)

lemma put_owners_sel [simp]: "pm_opts (put_owners name owners pm) = pm_opts pm"
  "pm_tmpRulesets (put_owners name owners pm) = pm_tmpRulesets pm" "pm_current (put_owners name owners pm) = pm_current pm"
  "pm_set (put_owners name owners pm) = pm_set pm" "pm_socksProxy (put_owners name owners pm) = pm_socksProxy pm"
  "pm_hasObjs (put_owners name owners pm) = pm_hasObjs pm"
  by (simp_all add: put_owners_def)

lemma put_owners_count: "force_count (put_owners name owners pm) n o' i =
    (if n = name then count_of (counts_of owners o') i else force_count pm n o' i)"
  by (auto simp: put_owners_def force_count_def)

lemma put_owners_ok:
  assumes "force_ok pm" and "owners = fmempty \<or> owners_ok owners" and "name \<in> rset_Name ` set (o_Rulesets (pm_opts pm))"
  shows "force_ok (put_owners name owners pm)"
  using assms by (auto simp: force_ok_def put_owners_def)

lemma forceActivate_spec:
  assumes "forceActivateRuleset owner name is replace pm = (ok, pm')"
  shows "ok \<longleftrightarrow> name \<in> rset_Name ` set (o_Rulesets (pm_opts pm))"
    and "ok \<Longrightarrow> force_count pm' n o' i = (if n = name \<and> o' = owner
           then (if replace then 0 else force_count pm n o' i) + int (count_list is i) else force_count pm n o' i)"
    and "\<not> ok \<Longrightarrow> pm' = pm"
    and "force_ok pm \<Longrightarrow> is \<noteq> [] \<Longrightarrow> force_ok pm'"
proof -
  let ?owners = "case fmlookup (pm_forceRulesets pm) name of None \<Rightarrow> fmempty | Some owners \<Rightarrow> owners"
  let ?c = "if replace then fmempty else counts_of ?owners owner"
  let ?c' = "foldl (\<lambda>c iface. fmupd iface (count_of c iface + 1) c) ?c is"
  have res: "ok = (name \<in> rset_Name ` set (o_Rulesets (pm_opts pm)))"
    "pm' = (if ok then pm\<lparr>pm_forceRulesets := fmupd name (fmupd owner ?c' ?owners) (pm_forceRulesets pm)\<rparr> else pm)"
    using assms by (auto simp: forceActivateRuleset_def findRuleset_neg Let_def split: if_splits)
  show "ok \<longleftrightarrow> name \<in> rset_Name ` set (o_Rulesets (pm_opts pm))" by (fact res(1))
  show "\<not> ok \<Longrightarrow> pm' = pm" using res(2) by simp
  show "ok \<Longrightarrow> force_count pm' n o' i = (if n = name \<and> o' = owner
           then (if replace then 0 else force_count pm n o' i) + int (count_list is i) else force_count pm n o' i)"
    using res(2) by (auto simp: force_count_def acquire_counts split: option.split)
  assume ok: "force_ok pm" and ne: "is \<noteq> []"
  have "\<forall>o' c. fmlookup ?owners o' = Some c \<longrightarrow> counts_ok c"
    using ok by (auto simp: force_ok_def owners_ok_def split: option.splits)
  then have "\<forall>iface n. fmlookup (counts_of ?owners owner) iface = Some n \<longrightarrow> 1 \<le> n"
    by (cases "fmlookup ?owners owner") (simp_all add: counts_of_def counts_ok_def)
  then have "\<forall>iface n. fmlookup ?c iface = Some n \<longrightarrow> 1 \<le> n" by simp
  then have "counts_ok ?c'" using ne by (intro acquire_ok) auto
  moreover have "\<forall>o' c. fmlookup ?owners o' = Some c \<longrightarrow> counts_ok c"
    using ok by (fastforce simp: force_ok_def owners_ok_def split: option.splits)
  ultimately have "owners_ok (fmupd owner ?c' ?owners)"
    by (auto simp: owners_ok_def)
  then show "force_ok pm'"
    using ok res by (auto simp: force_ok_def)
qed

lemma release_spec:
  assumes "force_ok pm" and "releaseForceRulesetLocked owner name is pm = (released, pm')"
  shows "force_count pm' n o' i = (if n = name \<and> o' = owner
      then (if is = [] then 0 else max 0 (force_count pm n o' i - int (count_list is i))) else force_count pm n o' i)"
    and "force_ok pm'" and "pm_opts pm' = pm_opts pm"
proof -
  have "(force_count pm' n o' i = (if n = name \<and> o' = owner
      then (if is = [] then 0 else max 0 (force_count pm n o' i - int (count_list is i))) else force_count pm n o' i)) \<and>
      force_ok pm' \<and> pm_opts pm' = pm_opts pm"
  proof (cases "fmlookup (pm_forceRulesets pm) name")
    case None
    then show ?thesis using assms by (auto simp: releaseForceRulesetLocked_def force_count_def)
  next
    case (Some owners)
    then have oo: "owners_ok owners" and name: "name \<in> rset_Name ` set (o_Rulesets (pm_opts pm))"
      using assms(1) by (auto simp: force_ok_def)
    show ?thesis
    proof (cases "counts_of owners owner = fmempty")
      case True
      then show ?thesis using assms Some by (auto simp: releaseForceRulesetLocked_def force_count_def)
    next
      case False
      let ?counts = "release_counts is (counts_of owners owner)"
      let ?owners = "if is = [] \<or> ?counts = fmempty then fmdrop owner owners else fmupd owner ?counts owners"
      have pm': "pm' = put_owners name ?owners pm"
        using assms(2) Some False by (auto simp: releaseForceRulesetLocked_def Let_def split: if_splits)
      have pos: "\<forall>iface n. fmlookup (counts_of owners owner) iface = Some n \<longrightarrow> 1 \<le> n"
        using oo False by (auto simp: owners_ok_def counts_ok_def counts_of_def split: option.splits)
      then have nn: "0 \<le> count_of (counts_of owners owner) x" for x
        by (fastforce simp: count_of_def split: option.split)
      have "?owners = fmempty \<or> owners_ok ?owners"
        using oo release_counts_ok [OF pos] by (auto simp: owners_ok_def counts_ok_def split: if_splits)
      then have "force_ok pm'" unfolding pm' by (rule put_owners_ok [OF assms(1) _ name])
      moreover have "count_of (counts_of ?owners owner) i = (if is = [] then 0 else count_of ?counts i)" by simp
      moreover have "count_of ?counts i = max 0 (count_of (counts_of owners owner) i - int (count_list is i))"
        by (rule release_counts_count [OF nn])
      moreover have "o' \<noteq> owner \<Longrightarrow> counts_of ?owners o' = counts_of owners o'" by simp
      moreover have "force_count pm name x y = count_of (counts_of owners x) y" for x y
        using Some by (simp add: force_count_def)
      ultimately show ?thesis by (cases "n = name"; cases "o' = owner") (simp_all only: pm' put_owners_count put_owners_sel simp_thms if_True if_False)
    qed
  qed
  then show "force_count pm' n o' i = (if n = name \<and> o' = owner
      then (if is = [] then 0 else max 0 (force_count pm n o' i - int (count_list is i))) else force_count pm n o' i)"
    and "force_ok pm'" and "pm_opts pm' = pm_opts pm" by blast+
qed

lemma releaseAll_eq: "releaseAllForceRulesetLocked owner name pm = releaseForceRulesetLocked owner name [] pm"
  by (auto simp: releaseAllForceRulesetLocked_def releaseForceRulesetLocked_def split: option.split)

lemma release_changed: "force_ok pm \<Longrightarrow> fst (releaseForceRulesetLocked owner name is pm) \<longleftrightarrow> (\<exists>i. 0 < force_count pm name owner i)"
proof (cases "fmlookup (pm_forceRulesets pm) name")
  case (Some owners)
  assume "force_ok pm"
  then have oo: "owners_ok owners" using Some by (auto simp: force_ok_def)
  have "counts_of owners owner = fmempty \<longleftrightarrow> \<not> (\<exists>i. 0 < count_of (counts_of owners owner) i)"
  proof (cases "fmlookup owners owner")
    case (Some c)
    then have "counts_ok c" using oo by (auto simp: owners_ok_def)
    moreover obtain i where "counts_ok c \<longrightarrow> fmlookup c i \<noteq> None"
      by (metis counts_ok_def fmap_ext fmempty_lookup)
    ultimately show ?thesis using Some
      by (auto simp: counts_ok_def counts_of_def count_of_def intro!: exI [of _ i] split: option.split)
        (metis dual_order.strict_trans1 option.simps(5) zero_less_one)
  qed (simp add: counts_of_def)
  then show ?thesis using Some by (auto simp: releaseForceRulesetLocked_def force_count_def Let_def)
qed (simp add: releaseForceRulesetLocked_def force_count_def)

lemma removeForce_loop:
  fixes owner :: string
  assumes "force_ok pm"
  defines "step \<equiv> \<lambda>(changed, pm) name. let (released, pm') = releaseAllForceRulesetLocked owner name pm
    in (if released then True else changed, pm')"
  shows "force_count (snd (foldl step (changed, pm) names)) n o' i =
      (if n \<in> set names \<and> o' = owner then 0 else force_count pm n o' i) \<and>
    force_ok (snd (foldl step (changed, pm) names)) \<and>
    (fst (foldl step (changed, pm) names) \<longleftrightarrow> changed \<or> (\<exists>name \<in> set names. \<exists>i. 0 < force_count pm name owner i)) \<and>
    pm_opts (snd (foldl step (changed, pm) names)) = pm_opts pm"
  using assms(1)
proof (induction names arbitrary: changed pm)
  case (Cons name names)
  obtain released pm' where rel: "releaseForceRulesetLocked owner name [] pm = (released, pm')" by fastforce
  note sp = release_spec [OF Cons.prems rel]
  have ch: "released \<longleftrightarrow> (\<exists>i. 0 < force_count pm name owner i)"
    using release_changed [OF Cons.prems, of owner name "[]"] rel by simp
  have st: "step (changed, pm) name = (changed \<or> released, pm')"
    using rel by (simp add: step_def releaseAll_eq)
  have eq: "foldl step (changed, pm) (name # names) = foldl step (changed \<or> released, pm') names"
    by (simp only: foldl_Cons st)
  note IH = Cons.IH [OF sp(2), of "changed \<or> released"]
  note IH1 = IH [THEN conjunct1] and IH2 = IH [THEN conjunct2, THEN conjunct1]
    and IH3 = IH [THEN conjunct2, THEN conjunct2, THEN conjunct1] and IH4 = IH [THEN conjunct2, THEN conjunct2, THEN conjunct2]
  show ?case
    unfolding eq
  proof (intro conjI)
    show "force_count (snd (foldl step (changed \<or> released, pm') names)) n o' i =
        (if n \<in> set (name # names) \<and> o' = owner then 0 else force_count pm n o' i)"
      unfolding IH1 by (simp add: sp(1))
    show "fst (foldl step (changed \<or> released, pm') names) \<longleftrightarrow>
        changed \<or> (\<exists>name \<in> set (name # names). \<exists>i. 0 < force_count pm name owner i)"
      unfolding IH3 unfolding ch by (auto simp: sp(1) split: if_splits)
  qed (simp_all add: IH2 IH4 sp(3))
qed simp

lemma removeForceRulesets_spec:
  assumes "force_ok pm" and "removeForceRulesets owner pm = (changed, pm')"
  shows "force_count pm' n o' i = (if o' = owner then 0 else force_count pm n o' i)"
    and "force_ok pm'" and "changed \<longleftrightarrow> (\<exists>name i. 0 < force_count pm name owner i)" and "pm_opts pm' = pm_opts pm"
proof -
  note loop = removeForce_loop [OF assms(1), where owner = owner and changed = False
    and names = "sorted_list_of_fset (fmdom (pm_forceRulesets pm))", folded removeForceRulesets_def, unfolded assms(2)]
  have none: "name \<in> set (sorted_list_of_fset (fmdom (pm_forceRulesets pm)))" if "force_count pm name o'' j \<noteq> 0" for name o'' j
    using that by (auto simp: force_count_def sorted_list_of_fset.rep_eq intro: fmdomI split: option.splits)
  show "force_count pm' n o' i = (if o' = owner then 0 else force_count pm n o' i)"
    using loop [of n o' i] none [of n o' i] by auto
  show "force_ok pm'" "pm_opts pm' = pm_opts pm" using loop by simp_all
  show "changed \<longleftrightarrow> (\<exists>name i. 0 < force_count pm name owner i)"
    using loop none by (auto dest: less_imp_neq) (metis less_irrefl)
qed

lemma prune_eq: "pruneForceRulesetsLocked pm =
    pm\<lparr>pm_forceRulesets := fmfilter (\<lambda>name. name \<in> rset_Name ` set (o_Rulesets (pm_opts pm))) (pm_forceRulesets pm)\<rparr>"
proof -
  let ?step = "\<lambda>pm name. if findRuleset (o_Rulesets (pm_opts pm)) name < 0
     then pm\<lparr>pm_forceRulesets := fmdrop name (pm_forceRulesets pm)\<rparr> else pm"
  have "foldl ?step pm names = pm\<lparr>pm_forceRulesets := fmfilter (\<lambda>name. name \<in> set names \<longrightarrow>
      name \<in> rset_Name ` set (o_Rulesets (pm_opts pm))) (pm_forceRulesets pm)\<rparr>" for names
  proof (induction names arbitrary: pm)
    case (Cons name names)
    have "?step pm name = pm\<lparr>pm_forceRulesets := fmfilter (\<lambda>n. n = name \<longrightarrow>
        n \<in> rset_Name ` set (o_Rulesets (pm_opts pm))) (pm_forceRulesets pm)\<rparr>"
      by (cases "name \<in> rset_Name ` set (o_Rulesets (pm_opts pm))")
        (auto simp: findRuleset_neg intro!: policyManager.equality fmap_ext)
    then show ?case
      by (simp only: foldl_Cons Cons.IH) (auto intro!: policyManager.equality fmap_ext)
  qed (auto intro!: policyManager.equality fmap_ext)
  then show ?thesis
    by (auto simp: pruneForceRulesetsLocked_def sorted_list_of_fset.rep_eq intro!: policyManager.equality fmap_ext dest: fmdom_notI)
qed

lemma replaceOptions_spec:
  "pm_opts (replaceOptions opts pm) = opts"
  "force_count (replaceOptions opts pm) n o' i = (if n \<in> rset_Name ` set (o_Rulesets opts) then force_count pm n o' i else 0)"
  "force_ok pm \<Longrightarrow> force_ok (replaceOptions opts pm)"
  "pm_current (replaceOptions opts pm) = pm_current pm" "pm_set (replaceOptions opts pm) = pm_set pm"
  "pm_hasObjs (replaceOptions opts pm) = pm_hasObjs pm" "pm_tmpRulesets (replaceOptions opts pm) = pm_tmpRulesets pm"
  "pm_socksProxy (replaceOptions opts pm) =
     (if ss_Enabled (pm_socksProxy pm) \<or> ss_Running (pm_socksProxy pm) then pm_socksProxy pm
      else socksProxyStateFromOptions (o_SocksProxy opts))"
  by (auto simp: replaceOptions_def Let_def prune_eq force_count_def force_ok_def split: if_splits)

lemma replaceOptions_force:
  "pm_forceRulesets (replaceOptions opts pm) = fmfilter (\<lambda>name. name \<in> rset_Name ` set (o_Rulesets opts)) (pm_forceRulesets pm)"
  by (simp add: replaceOptions_def Let_def prune_eq cong del: fmfilter_cong)

lemma forceSnapshot_iff:
  assumes "force_ok pm"
  shows "(\<exists>fr \<in> set (forceRulesetsSnapshot pm). fr_Name fr = name \<and> iface \<in> set (fr_Interfaces fr)) \<longleftrightarrow>
     (\<exists>owner. 0 < force_count pm name owner iface)"
proof (cases "fmlookup (pm_forceRulesets pm) name")
  case None
  then show ?thesis
    by (auto simp: forceRulesetsSnapshot_def cloneForceRulesets_def Let_def force_count_def sorted_list_of_fset.rep_eq fmlookup_dom_iff)
next
  case (Some owners)
  have oo: "owners_ok owners" using assms Some by (auto simp: force_ok_def)
  have "(\<exists>fr \<in> set (forceRulesetsSnapshot pm). fr_Name fr = name \<and> iface \<in> set (fr_Interfaces fr)) \<longleftrightarrow>
      iface \<in> set (sorted_list_of_set (\<Union>o' \<in> fset (fmdom owners). fset (fmdom (counts_of owners o'))))"
    using Some oo by (auto simp: forceRulesetsSnapshot_def cloneForceRulesets_def Let_def sorted_list_of_fset.rep_eq
        owners_ok_def fmlookup_dom_iff image_iff)
  also have "\<dots> \<longleftrightarrow> (\<exists>owner. fmlookup (counts_of owners owner) iface \<noteq> None)"
    by (auto simp: fmlookup_dom_iff counts_of_def split: option.splits)
  also have "\<dots> \<longleftrightarrow> (\<exists>owner. 0 < force_count pm name owner iface)"
  proof -
    have "fmlookup (counts_of owners owner) iface \<noteq> None \<longleftrightarrow> 0 < force_count pm name owner iface" for owner
      using oo Some by (fastforce simp: owners_ok_def counts_ok_def counts_of_def count_of_def force_count_def split: option.splits)
    then show ?thesis by simp
  qed
  finally show ?thesis .
qed

section \<open>The manager and the kernel\<close>

definition pm_synced :: "policyManager \<Rightarrow> kernel \<Rightarrow> bool" where
  "pm_synced pm k \<longleftrightarrow> pm_hasObjs pm \<and> valid_policies (pm_current pm) \<and> synced (pm_current pm) (k_maps k)"

text \<open>The rules the state of the manager asks for on an interface, given what netlink reports.\<close>

definition target_rules :: "regexps \<Rightarrow> policyManager \<Rightarrow> interfaceInfo list \<Rightarrow> u32 \<Rightarrow> rule_sets option" where
  "target_rules rx pm all j = map_option
     (\<lambda>iface. abs_rules (ip_Rules (policy_of rx (pm_opts pm) (temporaryRulesetsSnapshot pm) (forceRulesetsSnapshot pm)
        (pm_socksProxy pm) iface)))
     (find (\<lambda>iface. selected_iface rx (pm_opts pm) iface \<and> ii_Index iface = uint j) all)"

definition indexes_ok :: "interfaceInfo list \<Rightarrow> bool" where
  "indexes_ok all \<longleftrightarrow> distinct (map ii_Index all) \<and> (\<forall>iface \<in> set all. valid_index (ii_Index iface))"

lemma wanted_clone [simp]: "wanted (cloneInterfacePolicyMap ps) = wanted ps"
  by (auto simp: fun_eq_iff wanted_def cloneInterfacePolicyMap_def cloneInterfacePolicy_def option.map_comp comp_def)

lemma valid_clone [simp]: "valid_policies (cloneInterfacePolicyMap ps) = valid_policies ps"
  by (simp add: valid_policies_def cloneInterfacePolicyMap_def)

lemma synced_clone [simp]: "synced (cloneInterfacePolicyMap ps) = synced ps"
  by (simp add: fun_eq_iff synced_def)

lemma find_distinct_key:
  "distinct (map f xs) \<Longrightarrow> x \<in> set xs \<Longrightarrow> P x \<Longrightarrow> find (\<lambda>y. P y \<and> f y = f x) xs = Some x"
  by (induction xs) (auto simp: image_iff)

text \<open>The policy map of a reconcile holds what the manager asks for.\<close>

lemma next_policies:
  assumes "opts_ok rx (pm_opts pm)" and "indexes_ok all"
  shows "\<exists>next. bindR (selectInterfaces rx all (optionsSnapshot pm)) (\<lambda>selected.
      effectivePoliciesForInterfaces rx selected (optionsSnapshot pm) (temporaryRulesetsSnapshot pm) (forceRulesetsSnapshot pm)
        [socksProxyStateSnapshot pm]) = Inr next \<and> valid_policies next \<and> wanted next = target_rules rx pm all"
proof -
  let ?sel = "sort_key ii_Name (filter (selected_iface rx (pm_opts pm)) all)"
  have rp: "rulesets_patterns_ok rx (o_Rulesets (pm_opts pm))" using assms(1) by (rule opts_ok_patterns)
  have sel: "selectInterfaces rx all (pm_opts pm) = Inr ?sel"
    using assms(1) by (intro selectInterfaces_ok) (auto simp: opts_ok_def)
  obtain m where m: "effectivePoliciesForInterfaces rx ?sel (pm_opts pm) (temporaryRulesetsSnapshot pm)
      (forceRulesetsSnapshot pm) [pm_socksProxy pm] = Inr m"
    using effectivePolicies_ok [OF rp] by blast
  have dist: "distinct (map ii_Index ?sel)"
  proof -
    have "distinct (map ii_Index (filter (selected_iface rx (pm_opts pm)) all))"
      using assms(2) by (auto simp: indexes_ok_def intro: distinct_map_filter)
    then show ?thesis by (simp add: distinct_map inj_on_def)
  qed
  note look = effectivePolicies_lookup [OF rp dist m]
  have "valid_policies m"
    using assms(2) look(1) by (auto simp: valid_policies_def indexes_ok_def)
  moreover have "wanted m j = target_rules rx pm all j" for j
  proof (cases "\<exists>iface \<in> set all. selected_iface rx (pm_opts pm) iface \<and> ii_Index iface = uint j")
    case True
    then obtain iface where i: "iface \<in> set all" "selected_iface rx (pm_opts pm) iface" "ii_Index iface = uint j" by blast
    then have "find (\<lambda>y. selected_iface rx (pm_opts pm) y \<and> ii_Index y = uint j) all = Some iface"
      using find_distinct_key [of ii_Index all iface "selected_iface rx (pm_opts pm)"] assms(2) by (simp add: indexes_ok_def)
    moreover have "fmlookup m (uint j) = Some (policy_of rx (pm_opts pm) (temporaryRulesetsSnapshot pm)
        (forceRulesetsSnapshot pm) (pm_socksProxy pm) iface)"
      using look(2) [of iface] i by (simp add: socks_of_def)
    ultimately show ?thesis by (simp add: wanted_def target_rules_def)
  next
    case False
    then have "find (\<lambda>y. selected_iface rx (pm_opts pm) y \<and> ii_Index y = uint j) all = None"
      by (auto simp: find_None_iff)
    moreover have "fmlookup m (uint j) = None"
      using False look(1) by (intro fmdom_notD) auto
    ultimately show ?thesis by (simp add: wanted_def target_rules_def)
  qed
  ultimately show ?thesis
    using sel m by (auto simp: optionsSnapshot_def socksProxyStateSnapshot_def)
qed

lemma pm_reconcile_run:
  assumes "env_ok e" and "opts_ok rx (pm_opts pm)" and "indexes_ok all" and "pm_synced pm k"
    and "pm_reconcile e rx all pm k = (r, pm', k')"
  shows "(\<forall>c. r = Inr c \<longrightarrow> pm_synced pm' k' \<and> (\<forall>j. kernel_rules (k_maps k') j = target_rules rx pm all j))"
    and "always (\<lambda>s. \<forall>j. kernel_rules s j \<in> {None, kernel_rules (k_maps k) j, target_rules rx pm all j}) k k'"
    and "r = Inr False \<longrightarrow> k' = k"
proof -
  obtain m where nx: "bindR (selectInterfaces rx all (optionsSnapshot pm)) (\<lambda>selected.
      effectivePoliciesForInterfaces rx selected (optionsSnapshot pm) (temporaryRulesetsSnapshot pm) (forceRulesetsSnapshot pm)
        [socksProxyStateSnapshot pm]) = Inr m" and vm: "valid_policies m" and w: "wanted m = target_rules rx pm all"
    using next_policies [OF assms(2,3)] by blast
  let ?P = "\<lambda>s. \<forall>j. kernel_rules s j \<in> {None, kernel_rules (k_maps k) j, target_rules rx pm all j}"
  have sy: "pm_hasObjs pm" "valid_policies (pm_current pm)" "synced (pm_current pm) (k_maps k)"
    using assms(4) by (simp_all add: pm_synced_def)
  have "(\<forall>c. r = Inr c \<longrightarrow> pm_synced pm' k' \<and> (\<forall>j. kernel_rules (k_maps k') j = target_rules rx pm all j)) \<and>
    always ?P k k' \<and> (r = Inr False \<longrightarrow> k' = k)"
  proof (cases "pm_set pm \<and> interfacePolicyRulesEqual (pm_current pm) m")
    case True
    then have res: "r = Inr False" "pm' = pm\<lparr>pm_current := cloneInterfacePolicyMap m\<rparr>" "k' = k"
      using assms(5) nx by (simp_all add: pm_reconcile_def Let_def)
    have "wanted (pm_current pm) j = wanted m j" for j
      using True unfolding interfacePolicyRulesEqual_iff
      by (auto simp: wanted_def same_policy_def dest!: spec [of _ "uint j"] split: option.splits)
    then have "synced m (k_maps k)" using sy(3) by (simp add: synced_def)
    with res vm sy(1) show ?thesis
      by (auto simp: pm_synced_def synced_def w intro: always_refl)
  next
    case False
    obtain rw kw where wr: "writeEffectivePolicies True e (pm_current pm) m k = (rw, kw)" by fastforce
    note run = writeEffectivePolicies_run [OF assms(1) sy(2) vm sy(3), unfolded wr fst_conv snd_conv]
    have k': "k' = kw" using assms(5) nx False wr sy(1) by (auto simp: pm_reconcile_def Let_def split: sum.splits)
    have "always (update_safe (k_maps k) m) k kw" using run by blast
    moreover have "update_safe (k_maps k) m s \<Longrightarrow> ?P s" for s
      by (auto simp: update_safe_def allowed_rules_def w split: if_splits)
    ultimately have al: "always ?P k k'" unfolding k' always_def by blast
    show ?thesis
    proof (cases rw)
      case (Inl err)
      then have "r = Inl err" using assms(5) nx False wr sy(1) by (simp add: pm_reconcile_def Let_def)
      then show ?thesis using al by simp
    next
      case (Inr u)
      then have res: "r = Inr True" "pm' = pm\<lparr>pm_current := cloneInterfacePolicyMap m, pm_set := True\<rparr>"
        using assms(5) nx False wr sy(1) by (simp_all add: pm_reconcile_def Let_def)
      have "synced m (k_maps kw)" using run Inr by simp
      then show ?thesis using al res vm sy(1) by (simp add: pm_synced_def synced_def w k')
    qed
  qed
  then show "(\<forall>c. r = Inr c \<longrightarrow> pm_synced pm' k' \<and> (\<forall>j. kernel_rules (k_maps k') j = target_rules rx pm all j))"
    and "always ?P k k'" and "r = Inr False \<longrightarrow> k' = k" by blast+
qed

section \<open>A scenario\<close>

definition leak_ifaces :: "interfaceInfo list" where
  "leak_ifaces = [(example_iface 2 ''wl0'' ''device'')\<lparr>ii_Addrs := NilSlice\<rparr>, (example_iface 3 ''wl1'' ''device'')\<lparr>ii_Addrs := NilSlice\<rparr>]"

definition leak_policies :: "allowRules \<Rightarrow> policies" where
  "leak_policies rules = fmap_of_list (map (\<lambda>iface. (ii_Index iface, \<lparr>ip_Info = iface, ip_Rules = rules,
     ip_ActiveRulesets = [], ip_ForcedRulesets = [], ip_TemporaryRulesets = []\<rparr>)) leak_ifaces)"

definition open_rules :: allowRules where
  "open_rules = no_rules\<lparr>ar_AllowAll := True\<rparr>"

definition leak_manager :: policyManager where
  "leak_manager = (newPolicyManager True example_options)\<lparr>pm_current := leak_policies no_rules, pm_set := True\<rparr>"

definition leak_kernel :: kernel where
  "leak_kernel = new_kernel\<lparr>k_maps := no_maps\<lparr>km_config := fmap_of_list
     [(2, \<lparr>rtc_AllowAll = 0, rtc_EnableV4 = 0, rtc_EnableV6 = 0\<rparr>), (3, \<lparr>rtc_AllowAll = 0, rtc_EnableV4 = 0, rtc_EnableV6 = 0\<rparr>)]\<rparr>\<rparr>"

definition failing_env :: "nat \<Rightarrow> env" where
  "failing_env n = calm_env\<lparr>e_fail := (\<lambda>i. n \<le> i)\<rparr>"

abbreviation open_options :: options where
  "open_options \<equiv> example_options\<lparr>o_Rules := open_rules\<rparr>"

lemma leak_next:
  assumes "pm_opts pm = opts" and "opts = example_options \<or> opts = open_options" and "pm_tmpRulesets pm = fmempty"
    and "pm_forceRulesets pm = fmempty" and "pm_socksProxy pm = socksProxyStateFromOptions (o_SocksProxy example_options)"
  shows "bindR (selectInterfaces example_rx leak_ifaces (optionsSnapshot pm)) (\<lambda>selected.
      effectivePoliciesForInterfaces example_rx selected (optionsSnapshot pm) (temporaryRulesetsSnapshot pm) (forceRulesetsSnapshot pm)
        [socksProxyStateSnapshot pm]) = Inr (leak_policies (o_Rules opts))"
proof -
  have "bindR (selectInterfaces example_rx leak_ifaces example_options) (\<lambda>sel. effectivePoliciesForInterfaces example_rx sel example_options [] []
      [socksProxyStateFromOptions (o_SocksProxy example_options)]) = Inr (leak_policies (o_Rules example_options))"
    by code_simp
  moreover have "bindR (selectInterfaces example_rx leak_ifaces open_options) (\<lambda>sel. effectivePoliciesForInterfaces example_rx sel open_options [] []
      [socksProxyStateFromOptions (o_SocksProxy example_options)]) = Inr (leak_policies (o_Rules open_options))"
    by code_simp
  ultimately show ?thesis
    using assms by (auto simp: optionsSnapshot_def temporaryRulesetsSnapshot_def cloneTemporaryRulesets_def forceRulesetsSnapshot_def
        cloneForceRulesets_def socksProxyStateSnapshot_def sorted_list_of_fset.rep_eq)
qed

lemma leak_write:
  "fst (writeEffectivePolicies True (failing_env 2) (leak_policies no_rules) (leak_policies open_rules) leak_kernel)
     = Inl (deleteError ''runtime_config'')"
  "map_option rtc_AllowAll (fmlookup (km_config (k_maps (snd
     (writeEffectivePolicies True (failing_env 2) (leak_policies no_rules) (leak_policies open_rules) leak_kernel)))) 2) = Some 1"
  by code_simp+

lemma leak_policies_clone: "cloneInterfacePolicyMap (leak_policies rules) = leak_policies rules"
  by (auto intro!: fmap_ext simp: leak_policies_def fmlookup_of_list leak_ifaces_def cloneInterfacePolicy_def example_iface_def append_nil_def)

section \<open>Properties\<close>

text \<open>C9: a reconcile of a manager whose stored policies are the ones in the kernel: when it returns without
  error, every interface that the options select has, in the kernel, the rules the options, the forced and
  temporary rule sets and the SOCKS proxy ask for at that moment, every other interface is closed, and the
  stored policies are again those of the kernel; and at every moment, also if it fails, each interface shows
  its old rules, its new rules, or is closed.\<close>

theorem pm_reconcile_enforces_options:
  assumes "env_ok e" and "opts_ok rx (pm_opts pm)" and "indexes_ok all" and "pm_synced pm k"
    and "pm_reconcile e rx all pm k = (r, pm', k')"
  shows "(\<forall>c. r = Inr c \<longrightarrow> pm_synced pm' k' \<and> (\<forall>j. kernel_rules (k_maps k') j = target_rules rx pm all j)) \<and>
    (\<exists>new. k_seen k' = new @ k_seen k \<and> (\<forall>s \<in> insert (k_maps k') (set new). \<forall>j.
       kernel_rules s j \<in> {None, kernel_rules (k_maps k) j, target_rules rx pm all j})) \<and>
    (r = Inr False \<longrightarrow> k' = k)"
proof (intro conjI)
  show "\<exists>new. k_seen k' = new @ k_seen k \<and> (\<forall>s \<in> insert (k_maps k') (set new). \<forall>j.
       kernel_rules s j \<in> {None, kernel_rules (k_maps k) j, target_rules rx pm all j})"
    using pm_reconcile_run(2) [OF assms] unfolding always_def by (metis insert_iff)
qed (rule pm_reconcile_run [OF assms])+

lemma pm_reconcile_enforces_options_witness:
  "\<exists>c pm' k'. pm_reconcile calm_env example_rx leak_ifaces (newPolicyManager True example_options) new_kernel = (Inr c, pm', k') \<and>
     kernel_rules (k_maps k') 7 = target_rules example_rx (newPolicyManager True example_options) leak_ifaces 7"
proof -
  let ?pm = "newPolicyManager True example_options"
  have ok: "opts_ok example_rx (pm_opts ?pm)" "indexes_ok leak_ifaces" "pm_synced ?pm new_kernel"
    using example_options_ok synced_new_kernel
    by (simp_all add: newPolicyManager_def pm_synced_def indexes_ok_def leak_ifaces_def example_iface_def valid_index_def valid_policies_def)
  obtain m where "bindR (selectInterfaces example_rx leak_ifaces (optionsSnapshot ?pm)) (\<lambda>selected.
      effectivePoliciesForInterfaces example_rx selected (optionsSnapshot ?pm) (temporaryRulesetsSnapshot ?pm) (forceRulesetsSnapshot ?pm)
        [socksProxyStateSnapshot ?pm]) = Inr m"
    using next_policies [OF ok(1,2)] by blast
  moreover obtain k' where "writeEffectivePolicies True calm_env fmempty m new_kernel = (Inr (), k')"
    using writeEffectivePolicies_calm [OF calm_env_calm] by (metis prod.collapse)
  ultimately obtain c pm' where run: "pm_reconcile calm_env example_rx leak_ifaces ?pm new_kernel = (Inr c, pm', k')"
    by (simp add: pm_reconcile_def Let_def newPolicyManager_def)
  then show ?thesis
    using pm_reconcile_enforces_options [OF calm_env_ok ok run] by blast
qed

text \<open>C10: the counts of forced rule sets follow the clients' holds: forcing adds one hold for each
  interface named (or replaces the client's holds), releasing takes away one each and never goes below zero,
  a client that leaves loses exactly its own holds, and a change of options drops the holds on rule sets that no
  longer exist; the invariant of the count maps is kept by all of them.\<close>

theorem force_operations_count_holds:
  assumes "force_ok pm"
  shows "force_count (snd (forceActivateRuleset owner name is replace pm)) n o' i =
      (if name \<in> rset_Name ` set (o_Rulesets (pm_opts pm)) \<and> n = name \<and> o' = owner
       then (if replace then 0 else force_count pm n o' i) + int (count_list is i) else force_count pm n o' i) \<and>
    force_count (snd (releaseForceRulesetLocked owner name is pm)) n o' i =
      (if n = name \<and> o' = owner then (if is = [] then 0 else max 0 (force_count pm n o' i - int (count_list is i)))
       else force_count pm n o' i) \<and>
    force_count (snd (removeForceRulesets owner pm)) n o' i = (if o' = owner then 0 else force_count pm n o' i) \<and>
    force_count (replaceOptions opts pm) n o' i =
      (if n \<in> rset_Name ` set (o_Rulesets opts) then force_count pm n o' i else 0) \<and>
    (is \<noteq> [] \<longrightarrow> force_ok (snd (forceActivateRuleset owner name is replace pm))) \<and>
    force_ok (snd (releaseForceRulesetLocked owner name is pm)) \<and> force_ok (snd (removeForceRulesets owner pm)) \<and>
    force_ok (replaceOptions opts pm)"
proof -
  obtain a pma b pmb c pmc where
    eqs: "forceActivateRuleset owner name is replace pm = (a, pma)" "releaseForceRulesetLocked owner name is pm = (b, pmb)"
      "removeForceRulesets owner pm = (c, pmc)" by (metis prod.collapse)
  note A = forceActivate_spec [OF eqs(1)] and R = release_spec [OF assms eqs(2)] and D = removeForceRulesets_spec [OF assms eqs(3)]
  show ?thesis
  proof (intro conjI impI)
    show "force_count (snd (forceActivateRuleset owner name is replace pm)) n o' i =
      (if name \<in> rset_Name ` set (o_Rulesets (pm_opts pm)) \<and> n = name \<and> o' = owner
       then (if replace then 0 else force_count pm n o' i) + int (count_list is i) else force_count pm n o' i)"
      using A(1) A(2) [of n o' i] A(3) by (cases a) (simp_all add: eqs)
    show "is \<noteq> [] \<Longrightarrow> force_ok (snd (forceActivateRuleset owner name is replace pm))"
      unfolding eqs snd_conv by (rule A(4) [OF assms])
  qed (simp_all only: eqs snd_conv R D replaceOptions_spec assms)
qed

lemma force_operations_count_holds_witness:
  "force_count (snd (releaseForceRulesetLocked ''c'' ''r'' [''eth0''] (newPolicyManager True example_options))) ''r'' ''c'' ''eth0'' = 0"
  using force_operations_count_holds [of "newPolicyManager True example_options" "''c''" "''r''" "[''eth0'']" False "''r''" "''c''" "''eth0''" example_options]
  by (simp add: newPolicyManager_def force_ok_def force_count_def)

text \<open>C11: the rule sets forced on an interface are exactly those that some client holds on it, and
  they apply even when the configuration disables them.\<close>

theorem forced_rulesets_are_the_held_ones:
  assumes "force_ok pm"
  shows "rset_Name ` set (forcedRulesetsForInterface (o_Rulesets (pm_opts pm)) (forceRulesetsSnapshot pm) iface) =
    {name. \<exists>owner. 0 < force_count pm name owner iface}"
proof -
  let ?rss = "o_Rulesets (pm_opts pm)"
  have known: "name \<in> rset_Name ` set ?rss" if "0 < force_count pm name owner iface" for name owner
    using that assms by (auto simp: force_count_def force_ok_def split: option.splits)
  have find: "(\<exists>rs. find (\<lambda>rs. rset_Name rs = n) ?rss = Some rs \<and> rset_Name rs = name) \<longleftrightarrow> n = name \<and> name \<in> rset_Name ` set ?rss" for n name
    by (cases "find (\<lambda>rs. rset_Name rs = n) ?rss") (auto simp: find_None_iff find_Some_iff)
  have "rset_Name ` set (forcedRulesetsForInterface ?rss frs iface) =
      {name. \<exists>fr \<in> set frs. iface \<in> set (fr_Interfaces fr) \<and>
         (\<exists>rs. find (\<lambda>rs. rset_Name rs = fr_Name fr) ?rss = Some rs \<and> rset_Name rs = name)}" for frs
    unfolding forcedRulesets_eq by (induction frs) (auto simp: map_filter_simps split: option.split)
  then have "rset_Name ` set (forcedRulesetsForInterface ?rss (forceRulesetsSnapshot pm) iface) =
      {name \<in> rset_Name ` set ?rss. \<exists>fr \<in> set (forceRulesetsSnapshot pm). fr_Name fr = name \<and> iface \<in> set (fr_Interfaces fr)}"
    unfolding find by blast
  also have "\<dots> = {name. \<exists>owner. 0 < force_count pm name owner iface}"
    using forceSnapshot_iff [OF assms] known by auto
  finally show ?thesis .
qed

lemma forced_rulesets_are_the_held_ones_witness:
  "rset_Name ` set (forcedRulesetsForInterface (o_Rulesets (pm_opts (newPolicyManager True example_options)))
     (forceRulesetsSnapshot (newPolicyManager True example_options)) ''eth0'') =
   {name. \<exists>owner. 0 < force_count (newPolicyManager True example_options) name owner ''eth0''}"
  by (rule forced_rulesets_are_the_held_ones) (simp add: newPolicyManager_def force_ok_def)

text \<open>C13: an update that fails half way is forgotten. Two interfaces are closed and an update opens
  both; the second write fails and the update reports an error. When the options are then put back, the next
  reconcile reports success without a change, and the first interface stays open, although nothing in
  the options allows it: the comparison is made with the policies stored before the failure.\<close>

theorem failed_update_can_leave_rules_behind:
  "pm_synced leak_manager leak_kernel \<and>
   (case pm_reconcile (failing_env 2) example_rx leak_ifaces (replaceOptions open_options leak_manager) leak_kernel of (r1, pm1, k1) \<Rightarrow>
      r1 = Inl (deleteError ''runtime_config'') \<and>
      (case pm_reconcile calm_env example_rx leak_ifaces (replaceOptions example_options pm1) k1 of (r2, pm2, k2) \<Rightarrow>
         r2 = Inr False \<and> map_option rs_all (target_rules example_rx pm2 leak_ifaces 2) = Some False \<and>
         map_option rs_all (kernel_rules (k_maps k2) 2) = Some True))"
proof -
  let ?pm1 = "replaceOptions open_options leak_manager"
  let ?pm2 = "replaceOptions example_options ?pm1"
  have pm1: "pm_opts ?pm1 = open_options" "pm_tmpRulesets ?pm1 = fmempty" "pm_forceRulesets ?pm1 = fmempty" "pm_hasObjs ?pm1"
    "pm_set ?pm1" "pm_current ?pm1 = leak_policies no_rules"
    "pm_socksProxy ?pm1 = socksProxyStateFromOptions (o_SocksProxy example_options)"
    by (simp_all add: replaceOptions_spec replaceOptions_force leak_manager_def newPolicyManager_def cong del: fmfilter_cong)
  have pm2: "pm_opts ?pm2 = example_options" "pm_tmpRulesets ?pm2 = fmempty" "pm_forceRulesets ?pm2 = fmempty"
    "pm_set ?pm2" "pm_current ?pm2 = leak_policies no_rules"
    "pm_socksProxy ?pm2 = socksProxyStateFromOptions (o_SocksProxy example_options)"
    using pm1 by (simp_all add: replaceOptions_spec replaceOptions_force cong del: fmfilter_cong)
  note nx1 = leak_next [OF pm1(1) _ pm1(2,3,7)] and nx2 = leak_next [OF pm2(1) _ pm2(2,3,6)]
  have neq: "\<not> interfacePolicyRulesEqual (leak_policies no_rules) (leak_policies open_rules)" by code_simp
  have eq: "interfacePolicyRulesEqual (leak_policies no_rules) (leak_policies no_rules)" by code_simp
  obtain k1 where w: "writeEffectivePolicies True (failing_env 2) (leak_policies no_rules) (leak_policies open_rules) leak_kernel
      = (Inl (deleteError ''runtime_config''), k1)"
    using leak_write(1) by (metis prod.collapse)
  have r1: "pm_reconcile (failing_env 2) example_rx leak_ifaces ?pm1 leak_kernel = (Inl (deleteError ''runtime_config''), ?pm1, k1)"
    using nx1 neq pm1(4-6) by (simp add: pm_reconcile_def Let_def w)
  have o: "o_Rules example_options = no_rules" by (simp add: example_options_def)
  let ?pm3 = "?pm2\<lparr>pm_current := leak_policies no_rules\<rparr>"
  have r2: "pm_reconcile calm_env example_rx leak_ifaces ?pm2 k1 = (Inr False, ?pm3, k1)"
    using nx2 eq pm2(4,5) by (simp add: pm_reconcile_def Let_def o leak_policies_clone)
  have pm3: "pm_opts ?pm3 = example_options" "pm_tmpRulesets ?pm3 = fmempty" "pm_forceRulesets ?pm3 = fmempty"
    "pm_socksProxy ?pm3 = socksProxyStateFromOptions (o_SocksProxy example_options)"
    using pm2 by simp_all
  have "indexes_ok leak_ifaces" by (simp add: indexes_ok_def leak_ifaces_def example_iface_def valid_index_def)
  moreover have "opts_ok example_rx (pm_opts ?pm3)" unfolding pm3 by (rule example_options_ok)
  ultimately have "target_rules example_rx ?pm3 leak_ifaces = wanted (leak_policies no_rules)"
    using next_policies [of example_rx ?pm3 leak_ifaces] leak_next [OF pm3(1) _ pm3(2-4)] by (auto simp: o)
  then have t: "map_option rs_all (target_rules example_rx ?pm3 leak_ifaces 2) = Some False"
    by (simp add: wanted_def leak_policies_def leak_ifaces_def example_iface_def no_rules_def)
  have k: "map_option rs_all (kernel_rules (k_maps k1) 2) = Some True"
    using leak_write(2) by (auto simp: w kernel_rules_def with_flags_def)
  have "kernel_rules (k_maps leak_kernel) j = wanted (leak_policies no_rules) j" for j
    by (auto simp: kernel_rules_def leak_kernel_def wanted_def leak_policies_def leak_ifaces_def example_iface_def word_uint_eq_iff
        with_flags_def tables_def no_maps_def abs_rules_def no_rules_def)
  moreover have "valid_policies (leak_policies no_rules)"
    by (simp add: valid_policies_def leak_policies_def leak_ifaces_def example_iface_def valid_index_def)
  ultimately have "pm_synced leak_manager leak_kernel"
    by (simp add: pm_synced_def synced_def leak_manager_def newPolicyManager_def)
  with r1 r2 t k show ?thesis by simp
qed

end
