(* ===== verification/Json.thy ===== *)
theory Json
  imports GoText
begin

text \<open>
  What the program uses of \<open>encoding/json\<close>. A JSON text is its tree: \<open>JStr\<close> holds the decoded
  string, \<open>JInt\<close> a number written as an integer, \<open>JFrac\<close> the literal of any other number. A decoder takes the
  tree and the value it decodes into, as \<open>Unmarshal\<close> does: \<open>null\<close> leaves most values as they are,
  and an object with a repeated key decodes into the same field twice. A type error is reported as one
  error, after which the callers in the program drop the value.
\<close>

datatype json = JNull | JBool bool | JInt int | JFrac string | JStr string | JArr "json list" | JObj "(string \<times> json) list"

type_synonym 'a decoder = "json \<Rightarrow> 'a \<Rightarrow> 'a res"

definition typeError :: error where
  "typeError = Lib ''json: cannot unmarshal''"

section \<open>Strings\<close>

text \<open>
  \<open>Marshal\<close> replaces each byte of a string that is not part of valid UTF-8 by U+FFFD.
  \<open>utf8_len\<close> is the length of the first rune of a string, 0 when its first byte is not valid.
\<close>

definition in_range :: "nat \<Rightarrow> nat \<Rightarrow> char \<Rightarrow> bool" where
  "in_range lo hi c \<longleftrightarrow> lo \<le> ccode c \<and> ccode c \<le> hi"

fun utf8_len :: "string \<Rightarrow> nat" where
  "utf8_len [] = 0"
| "utf8_len (a # s) =
     (let cont = (\<lambda>n lo hi. n \<le> length s \<and> in_range lo hi (hd s) \<and> list_all (in_range 128 191) (tl (take n s))) in
      if in_range 0 127 a then 1
      else if in_range 194 223 a \<and> cont 1 128 191 then 2
      else if ccode a = 224 \<and> cont 2 160 191 then 3
      else if ccode a = 237 \<and> cont 2 128 159 then 3
      else if in_range 225 239 a \<and> ccode a \<noteq> 237 \<and> cont 2 128 191 then 3
      else if ccode a = 240 \<and> cont 3 144 191 then 4
      else if ccode a = 244 \<and> cont 3 128 143 then 4
      else if in_range 241 243 a \<and> cont 3 128 191 then 4
      else 0)"

declare utf8_len.simps(2) [simp del]

definition replacement_rune :: string where
  "replacement_rune = map char_of [239, 191, 189 :: nat]"

function coerceUTF8 :: "string \<Rightarrow> string" where
  "coerceUTF8 [] = []"
| "coerceUTF8 (a # s) =
     (let n = utf8_len (a # s) in
      if n = 0 then replacement_rune @ coerceUTF8 s
      else take n (a # s) @ coerceUTF8 (drop n (a # s)))"
  by pat_completeness auto
termination by (relation "measure length") auto

fun valid_utf8_fuel :: "nat \<Rightarrow> string \<Rightarrow> bool" where
  "valid_utf8_fuel fuel [] = True"
| "valid_utf8_fuel 0 (a # s) = False"
| "valid_utf8_fuel (Suc fuel) (a # s) =
     (utf8_len (a # s) \<noteq> 0 \<and> valid_utf8_fuel fuel (drop (utf8_len (a # s)) (a # s)))"

definition valid_utf8 :: "string \<Rightarrow> bool" where
  "valid_utf8 s \<longleftrightarrow> valid_utf8_fuel (length s) s"

definition enc_string :: "string \<Rightarrow> json" where
  "enc_string s = JStr (coerceUTF8 s)"

lemma coerce_valid_fuel: "valid_utf8_fuel fuel s \<Longrightarrow> coerceUTF8 s = s"
proof (induction fuel s rule: valid_utf8_fuel.induct)
  case (3 fuel a s)
  then have "coerceUTF8 (a # s) = take (utf8_len (a # s)) (a # s) @ drop (utf8_len (a # s)) (a # s)"
    by (simp add: Let_def del: utf8_len.simps take_Cons drop_Cons append_take_drop_id)
  then show ?case by (simp only: append_take_drop_id)
qed auto

lemma coerce_valid: "valid_utf8 s \<Longrightarrow> coerceUTF8 s = s"
  unfolding valid_utf8_def by (rule coerce_valid_fuel)

text \<open>ASCII text is valid.\<close>

lemma ascii_valid: "list_all (in_range 0 127) s \<Longrightarrow> valid_utf8 s"
proof -
  have "list_all (in_range 0 127) s \<Longrightarrow> valid_utf8_fuel (length s) s"
    by (induction s) (auto simp: utf8_len.simps)
  then show "list_all (in_range 0 127) s \<Longrightarrow> valid_utf8 s" by (simp add: valid_utf8_def)
qed

section \<open>Scalars, lists and pointers\<close>

fun dec_bool :: "bool decoder" where
  "dec_bool (JBool b) old = Inr b"
| "dec_bool JNull old = Inr old"
| "dec_bool _ old = Inl typeError"

fun dec_string :: "string decoder" where
  "dec_string (JStr s) old = Inr s"
| "dec_string JNull old = Inr old"
| "dec_string _ old = Inl typeError"

text \<open>An integer of Go: a number that is out of the range of the type is an error.\<close>

fun dec_int :: "int \<Rightarrow> int \<Rightarrow> int decoder" where
  "dec_int lo hi (JInt n) old = (if lo \<le> n \<and> n < hi then Inr n else Inl typeError)"
| "dec_int lo hi JNull old = Inr old"
| "dec_int lo hi _ old = Inl typeError"

definition dec_word :: "('a :: len) word decoder" where
  "dec_word js old = bindR (dec_int 0 (2 ^ LENGTH('a)) js (uint old)) (\<lambda>n. Inr (word_of_int n))"

definition enc_word :: "('a :: len) word \<Rightarrow> json" where
  "enc_word w = JInt (uint w)"

definition dec_int64 :: "int decoder" where
  "dec_int64 = dec_int (- (2 ^ 63)) (2 ^ 63)"

definition dec_int32 :: "int decoder" where
  "dec_int32 = dec_int (- (2 ^ 31)) (2 ^ 31)"

text \<open>The elements of an array are decoded into the old elements of the slice, as far as it has any.\<close>

fun dec_elems :: "'a decoder \<Rightarrow> 'a \<Rightarrow> json list \<Rightarrow> 'a list \<Rightarrow> 'a list res" where
  "dec_elems dec zero [] old = Inr []"
| "dec_elems dec zero (js # jss) old =
     bindR (dec js (case old of [] \<Rightarrow> zero | x # _ \<Rightarrow> x)) (\<lambda>y.
     bindR (dec_elems dec zero jss (tl old)) (\<lambda>ys. Inr (y # ys)))"

fun dec_list :: "'a decoder \<Rightarrow> 'a \<Rightarrow> 'a list decoder" where
  "dec_list dec zero (JArr jss) old = dec_elems dec zero jss old"
| "dec_list dec zero JNull old = Inr []"
| "dec_list dec zero _ old = Inl typeError"

definition enc_list :: "('a \<Rightarrow> json) \<Rightarrow> 'a list \<Rightarrow> json" where
  "enc_list enc xs = JArr (map enc xs)"

text \<open>A pointer: \<open>null\<close> makes it nil, anything else is decoded into a new value or the old one.\<close>

definition dec_ptr :: "'a decoder \<Rightarrow> 'a \<Rightarrow> 'a option decoder" where
  "dec_ptr dec zero js old =
     (if js = JNull then Inr None
      else bindR (dec js (case old of None \<Rightarrow> zero | Some x \<Rightarrow> x)) (\<lambda>x. Inr (Some x)))"

text \<open>A \<open>RawMessage\<close> keeps the value, also \<open>null\<close>; an absent one has length 0.\<close>

definition dec_raw :: "json option decoder" where
  "dec_raw js old = Inr (Some js)"

section \<open>Structs\<close>

text \<open>
  The members of an object in order. A key names the field with the same name, or the first whose name is equal
  up to case, with the two non-ASCII runes that fold to letters; other keys are skipped, or an error when
  the decoder disallows unknown fields.
\<close>

fun fold_name :: "string \<Rightarrow> string" where
  "fold_name (a # b # c # s) =
     (if map ccode [a, b, c] = [226, 132, 170] then CHR ''k'' # fold_name s
      else if map ccode [a, b] = [197, 191] then CHR ''s'' # fold_name (c # s)
      else lower_char a # fold_name (b # c # s))"
| "fold_name [a, b] = (if map ccode [a, b] = [197, 191] then ''s'' else [lower_char a, lower_char b])"
| "fold_name [a] = [lower_char a]"
| "fold_name [] = []"

definition find_field :: "(string \<times> 'f) list \<Rightarrow> string \<Rightarrow> 'f option" where
  "find_field fields key = (case map_of fields key of
      Some f \<Rightarrow> Some f
    | None \<Rightarrow> map_option snd (find (\<lambda>f. fold_name (fst f) = fold_name key) fields))"

fun decode_members :: "bool \<Rightarrow> (string \<times> 'r decoder) list \<Rightarrow> (string \<times> json) list \<Rightarrow> 'r \<Rightarrow> 'r res" where
  "decode_members strict fields [] r = Inr r"
| "decode_members strict fields ((key, js) # ms) r =
     (case find_field fields key of
        None \<Rightarrow> (if strict then Inl (Lib ''json: unknown field'') else decode_members strict fields ms r)
      | Some f \<Rightarrow> bindR (f js r) (decode_members strict fields ms))"

fun dec_struct :: "bool \<Rightarrow> (string \<times> 'r decoder) list \<Rightarrow> 'r decoder" where
  "dec_struct strict fields (JObj ms) r = decode_members strict fields ms r"
| "dec_struct strict fields JNull r = Inr r"
| "dec_struct strict fields _ r = Inl typeError"

definition dec_field :: "'a decoder \<Rightarrow> ('r \<Rightarrow> 'a) \<Rightarrow> (('a \<Rightarrow> 'a) \<Rightarrow> 'r \<Rightarrow> 'r) \<Rightarrow> 'r decoder" where
  "dec_field dec get upd js r = bindR (dec js (get r)) (\<lambda>v. Inr (upd (\<lambda>_. v) r))"

text \<open>A member that the tag \<open>omitempty\<close> leaves out.\<close>

definition omit :: "string \<Rightarrow> bool \<Rightarrow> json \<Rightarrow> (string \<times> json) list" where
  "omit name isZero js = (if isZero then [] else [(name, js)])"

section \<open>Round trips\<close>

named_theorems codec_simps \<open>decoding the members an encoder wrote\<close>

locale json_codec =
  fixes enc :: "'a \<Rightarrow> json" and dec :: "'a decoder" and zero :: 'a and ok :: "'a \<Rightarrow> bool"
  assumes roundtrip: "ok x \<Longrightarrow> dec (enc x) zero = Inr x"
begin

lemma elems_roundtrip: "list_all ok xs \<Longrightarrow> dec_elems dec zero (map enc xs) [] = Inr xs"
  by (induction xs) (simp_all add: roundtrip)

lemma list_roundtrip: "list_all ok xs \<Longrightarrow> dec_list dec zero (enc_list enc xs) [] = Inr xs"
  by (simp add: enc_list_def elems_roundtrip)

lemma ptr_roundtrip: "ok x \<Longrightarrow> enc x \<noteq> JNull \<Longrightarrow> dec_ptr dec zero (enc x) None = Inr (Some x)"
  by (simp add: dec_ptr_def roundtrip)

lemma members_field:
  assumes "find_field fields name = Some (dec_field dec get upd)" and "ok x" and "get r = zero"
  shows "decode_members strict fields ((name, enc x) # ms) r = decode_members strict fields ms (upd (\<lambda>_. x) r)"
  using assms by (simp add: dec_field_def roundtrip)

lemma members_omit:
  assumes "find_field fields name = Some (dec_field dec get upd)" and "ok x" and "get r = zero" and "upd (\<lambda>_. zero) r = r"
    and "isZero \<Longrightarrow> x = zero"
  shows "decode_members strict fields (omit name isZero (enc x) @ ms) r = decode_members strict fields ms (upd (\<lambda>_. x) r)"
  using assms by (auto simp: dec_field_def roundtrip omit_def)

lemma members_omit_list:
  assumes "find_field fields name = Some (dec_field (dec_list dec zero) get upd)" and "list_all ok xs" and "get r = []"
    and "upd (\<lambda>_. []) r = r"
  shows "decode_members strict fields (omit name (xs = []) (enc_list enc xs) @ ms) r = decode_members strict fields ms (upd (\<lambda>_. xs) r)"
  using assms by (auto simp: dec_field_def list_roundtrip omit_def)

lemma members_omit_ptr:
  assumes "find_field fields name = Some (dec_field (dec_ptr dec zero) get upd)" and "pred_option ok p" and "get r = None"
    and "upd (\<lambda>_. None) r = r" and "\<And>x. enc x \<noteq> JNull"
  shows "decode_members strict fields (omit name (p = None) (enc (the p)) @ ms) r = decode_members strict fields ms (upd (\<lambda>_. p) r)"
  using assms by (cases p) (auto simp: dec_field_def ptr_roundtrip omit_def)

end

interpretation bool_codec: json_codec JBool dec_bool False "\<lambda>_. True"
  by unfold_locales simp

interpretation string_codec: json_codec enc_string dec_string "[]" valid_utf8
  by unfold_locales (simp add: enc_string_def coerce_valid)

interpretation word_codec: json_codec "enc_word :: 'a :: len word \<Rightarrow> json" dec_word 0 "\<lambda>_. True"
  by unfold_locales (simp add: enc_word_def dec_word_def unsigned_less)

interpretation int64_codec: json_codec JInt dec_int64 0 "\<lambda>n. - (2 ^ 63) \<le> n \<and> n < 2 ^ 63"
  by unfold_locales (simp add: dec_int64_def)

interpretation int32_codec: json_codec JInt dec_int32 0 "\<lambda>n. - (2 ^ 31) \<le> n \<and> n < 2 ^ 31"
  by unfold_locales (simp add: dec_int32_def)

lemma find_field_exact: "map_of fields key = Some f \<Longrightarrow> find_field fields key = Some f"
  by (simp add: find_field_def)

lemma members_raw:
  assumes "find_field fields name = Some (dec_field dec_raw get upd)" and "get r = None" and "upd (\<lambda>_. None) r = r"
  shows "decode_members strict fields (omit name (p = None) (the p) @ ms) r = decode_members strict fields ms (upd (\<lambda>_. p) r)"
  using assms by (cases p) (auto simp: dec_field_def dec_raw_def omit_def)

lemmas members_string_last = string_codec.members_omit [where ms = "[]", unfolded append_Nil2]
lemmas members_strings_last = string_codec.members_omit_list [where ms = "[]", unfolded append_Nil2]

lemma members_string:
  assumes "find_field fields name = Some (dec_field dec_string get upd)" and "valid_utf8 s" and "get r = []" and "upd (\<lambda>_. []) r = r"
  shows "decode_members strict fields (omit name (s = []) (enc_string s) @ ms) r = decode_members strict fields ms (upd (\<lambda>_. s) r)"
    "decode_members strict fields (omit name (s = []) (enc_string s)) r = decode_members strict fields [] (upd (\<lambda>_. s) r)"
  using string_codec.members_omit [OF assms, of "s = []" strict] string_codec.members_omit [OF assms, of "s = []" strict "[]"]
  by (simp_all del: decode_members.simps)

lemmas codec_rules [codec_simps] = dec_field_def find_field_exact members_raw members_string
  string_codec.members_omit_list members_strings_last bool_codec.roundtrip string_codec.roundtrip word_codec.roundtrip
  int64_codec.roundtrip int32_codec.roundtrip

end
