(* ===== verification/Protocol.thy ===== *)
theory Protocol
  imports AllowRules Json
begin

text \<open>
  The admin protocol: \<open>internal/adminapi/protocol.go\<close> and \<open>client.go\<close>. A struct is a record; its tags
  are the encoder (\<open>enc_T\<close>, with \<open>omitempty\<close> members left out when they are zero) and the table of fields
  of the decoder (\<open>fields_T\<close>). \<open>strict\<close> says whether the decoder disallows unknown fields.
  \<open>ok_T\<close> says which values a message carries unchanged: strings of valid UTF-8 and integers in the
  range of their Go type. Each struct is an instance of the codec contract of \<open>Json\<close>.

  A nil slice and an empty one behave alike in every use of these types, so that both are the empty
  list. A connection is the list of what reading the next value of it gives.
\<close>

section \<open>Structs\<close>

definition zero_apiRules :: apiRules where
  "zero_apiRules = \<lparr>
     aar_AllowAll = False, aar_EnableV4 = False, aar_EnableV6 = False, aar_AllowedMarks = [], aar_AllowedPorts = [],
     aar_AllowedV4Hosts = [], aar_AllowedV6Hosts = [], aar_AllowedV4Pairs = [], aar_AllowedV6Pairs = []\<rparr>"

definition enc_apiRules :: "apiRules \<Rightarrow> json" where
  "enc_apiRules x = JObj (
     (''allow_all'', JBool (aar_AllowAll x)) #
     (''enable_v4'', JBool (aar_EnableV4 x)) #
     (''enable_v6'', JBool (aar_EnableV6 x)) #
     omit ''allowed_marks'' (aar_AllowedMarks x = []) (enc_list enc_string (aar_AllowedMarks x)) @
     omit ''allowed_ports'' (aar_AllowedPorts x = []) (enc_list enc_string (aar_AllowedPorts x)) @
     omit ''allowed_v4_hosts'' (aar_AllowedV4Hosts x = []) (enc_list enc_string (aar_AllowedV4Hosts x)) @
     omit ''allowed_v6_hosts'' (aar_AllowedV6Hosts x = []) (enc_list enc_string (aar_AllowedV6Hosts x)) @
     omit ''allowed_v4_hostports'' (aar_AllowedV4Pairs x = []) (enc_list enc_string (aar_AllowedV4Pairs x)) @
     omit ''allowed_v6_hostports'' (aar_AllowedV6Pairs x = []) (enc_list enc_string (aar_AllowedV6Pairs x)))"

definition fields_apiRules :: "bool \<Rightarrow> (string \<times> apiRules decoder) list" where
  "fields_apiRules strict = [
     (''allow_all'', dec_field dec_bool aar_AllowAll aar_AllowAll_update),
     (''enable_v4'', dec_field dec_bool aar_EnableV4 aar_EnableV4_update),
     (''enable_v6'', dec_field dec_bool aar_EnableV6 aar_EnableV6_update),
     (''allowed_marks'', dec_field (dec_list dec_string []) aar_AllowedMarks aar_AllowedMarks_update),
     (''allowed_ports'', dec_field (dec_list dec_string []) aar_AllowedPorts aar_AllowedPorts_update),
     (''allowed_v4_hosts'', dec_field (dec_list dec_string []) aar_AllowedV4Hosts aar_AllowedV4Hosts_update),
     (''allowed_v6_hosts'', dec_field (dec_list dec_string []) aar_AllowedV6Hosts aar_AllowedV6Hosts_update),
     (''allowed_v4_hostports'', dec_field (dec_list dec_string []) aar_AllowedV4Pairs aar_AllowedV4Pairs_update),
     (''allowed_v6_hostports'', dec_field (dec_list dec_string []) aar_AllowedV6Pairs aar_AllowedV6Pairs_update)]"

definition dec_apiRules :: "bool \<Rightarrow> apiRules decoder" where
  "dec_apiRules strict = dec_struct strict (fields_apiRules strict)"

definition ok_apiRules :: "apiRules \<Rightarrow> bool" where
  "ok_apiRules x \<longleftrightarrow>
     list_all valid_utf8 (aar_AllowedMarks x) \<and> list_all valid_utf8 (aar_AllowedPorts x) \<and>
     list_all valid_utf8 (aar_AllowedV4Hosts x) \<and> list_all valid_utf8 (aar_AllowedV6Hosts x) \<and>
     list_all valid_utf8 (aar_AllowedV4Pairs x) \<and> list_all valid_utf8 (aar_AllowedV6Pairs x)"

interpretation apiRules_codec: json_codec enc_apiRules "dec_apiRules strict" zero_apiRules ok_apiRules for strict
proof unfold_locales
  fix x :: apiRules
  assume "ok_apiRules x"
  then show "dec_apiRules strict (enc_apiRules x) zero_apiRules = Inr x"
    by (cases x) (simp add: enc_apiRules_def dec_apiRules_def fields_apiRules_def zero_apiRules_def ok_apiRules_def codec_simps)
qed

lemma enc_apiRules_not_null [simp]: "enc_apiRules x \<noteq> JNull"
  by (simp add: enc_apiRules_def)

lemmas apiRules_codec_rules [codec_simps] = apiRules_codec.roundtrip apiRules_codec.members_omit_list apiRules_codec.members_omit_ptr
  apiRules_codec.members_omit_ptr [where ms = "[]", unfolded append_Nil2]

record apiTrigger =
  atr_InterfaceTypes :: "string list"
  atr_InterfaceNames :: "string list"
  atr_InterfaceRegexps :: "string list"
  atr_IPAddrs :: "string list"
  atr_SSIDs :: "string list"
  atr_BSSIDs :: "string list"
  atr_GatewayMACs :: "string list"

definition zero_apiTrigger :: apiTrigger where
  "zero_apiTrigger = \<lparr>
     atr_InterfaceTypes = [], atr_InterfaceNames = [], atr_InterfaceRegexps = [], atr_IPAddrs = [], atr_SSIDs = [],
     atr_BSSIDs = [], atr_GatewayMACs = []\<rparr>"

definition enc_apiTrigger :: "apiTrigger \<Rightarrow> json" where
  "enc_apiTrigger x = JObj (
     omit ''interface_types'' (atr_InterfaceTypes x = []) (enc_list enc_string (atr_InterfaceTypes x)) @
     omit ''interface_names'' (atr_InterfaceNames x = []) (enc_list enc_string (atr_InterfaceNames x)) @
     omit ''interface_regexps'' (atr_InterfaceRegexps x = []) (enc_list enc_string (atr_InterfaceRegexps x)) @
     omit ''ip_addrs'' (atr_IPAddrs x = []) (enc_list enc_string (atr_IPAddrs x)) @
     omit ''ssids'' (atr_SSIDs x = []) (enc_list enc_string (atr_SSIDs x)) @
     omit ''bssids'' (atr_BSSIDs x = []) (enc_list enc_string (atr_BSSIDs x)) @
     omit ''gateway_macs'' (atr_GatewayMACs x = []) (enc_list enc_string (atr_GatewayMACs x)))"

definition fields_apiTrigger :: "bool \<Rightarrow> (string \<times> apiTrigger decoder) list" where
  "fields_apiTrigger strict = [
     (''interface_types'', dec_field (dec_list dec_string []) atr_InterfaceTypes atr_InterfaceTypes_update),
     (''interface_names'', dec_field (dec_list dec_string []) atr_InterfaceNames atr_InterfaceNames_update),
     (''interface_regexps'', dec_field (dec_list dec_string []) atr_InterfaceRegexps atr_InterfaceRegexps_update),
     (''ip_addrs'', dec_field (dec_list dec_string []) atr_IPAddrs atr_IPAddrs_update),
     (''ssids'', dec_field (dec_list dec_string []) atr_SSIDs atr_SSIDs_update),
     (''bssids'', dec_field (dec_list dec_string []) atr_BSSIDs atr_BSSIDs_update),
     (''gateway_macs'', dec_field (dec_list dec_string []) atr_GatewayMACs atr_GatewayMACs_update)]"

definition dec_apiTrigger :: "bool \<Rightarrow> apiTrigger decoder" where
  "dec_apiTrigger strict = dec_struct strict (fields_apiTrigger strict)"

definition ok_apiTrigger :: "apiTrigger \<Rightarrow> bool" where
  "ok_apiTrigger x \<longleftrightarrow>
     list_all valid_utf8 (atr_InterfaceTypes x) \<and> list_all valid_utf8 (atr_InterfaceNames x) \<and>
     list_all valid_utf8 (atr_InterfaceRegexps x) \<and> list_all valid_utf8 (atr_IPAddrs x) \<and>
     list_all valid_utf8 (atr_SSIDs x) \<and> list_all valid_utf8 (atr_BSSIDs x) \<and> list_all valid_utf8 (atr_GatewayMACs x)"

interpretation apiTrigger_codec: json_codec enc_apiTrigger "dec_apiTrigger strict" zero_apiTrigger ok_apiTrigger for strict
proof unfold_locales
  fix x :: apiTrigger
  assume "ok_apiTrigger x"
  then show "dec_apiTrigger strict (enc_apiTrigger x) zero_apiTrigger = Inr x"
    by (cases x) (simp add: enc_apiTrigger_def dec_apiTrigger_def fields_apiTrigger_def zero_apiTrigger_def ok_apiTrigger_def codec_simps)
qed

lemma enc_apiTrigger_not_null [simp]: "enc_apiTrigger x \<noteq> JNull"
  by (simp add: enc_apiTrigger_def)

lemmas apiTrigger_codec_rules [codec_simps] = apiTrigger_codec.roundtrip apiTrigger_codec.members_omit_list apiTrigger_codec.members_omit_ptr
  apiTrigger_codec.members_omit_ptr [where ms = "[]", unfolded append_Nil2]

record apiInterface =
  aif_Index :: int
  aif_Name :: string
  aif_Type :: string
  aif_Addrs :: "string list"
  aif_SSID :: string
  aif_BSSID :: string
  aif_GatewayMACs :: "string list"
  aif_Matched :: bool
  aif_Killswitch :: bool

definition zero_apiInterface :: apiInterface where
  "zero_apiInterface = \<lparr>
     aif_Index = 0, aif_Name = [], aif_Type = [], aif_Addrs = [], aif_SSID = [], aif_BSSID = [], aif_GatewayMACs = [],
     aif_Matched = False, aif_Killswitch = False\<rparr>"

definition enc_apiInterface :: "apiInterface \<Rightarrow> json" where
  "enc_apiInterface x = JObj (
     (''index'', JInt (aif_Index x)) #
     (''name'', enc_string (aif_Name x)) #
     (''type'', enc_string (aif_Type x)) #
     omit ''addrs'' (aif_Addrs x = []) (enc_list enc_string (aif_Addrs x)) @
     omit ''ssid'' (aif_SSID x = []) (enc_string (aif_SSID x)) @
     omit ''bssid'' (aif_BSSID x = []) (enc_string (aif_BSSID x)) @
     omit ''gateway_macs'' (aif_GatewayMACs x = []) (enc_list enc_string (aif_GatewayMACs x)) @
     (''matched'', JBool (aif_Matched x)) #
     (''killswitch'', JBool (aif_Killswitch x)) # [])"

definition fields_apiInterface :: "bool \<Rightarrow> (string \<times> apiInterface decoder) list" where
  "fields_apiInterface strict = [
     (''index'', dec_field dec_int64 aif_Index aif_Index_update),
     (''name'', dec_field dec_string aif_Name aif_Name_update),
     (''type'', dec_field dec_string aif_Type aif_Type_update),
     (''addrs'', dec_field (dec_list dec_string []) aif_Addrs aif_Addrs_update),
     (''ssid'', dec_field dec_string aif_SSID aif_SSID_update),
     (''bssid'', dec_field dec_string aif_BSSID aif_BSSID_update),
     (''gateway_macs'', dec_field (dec_list dec_string []) aif_GatewayMACs aif_GatewayMACs_update),
     (''matched'', dec_field dec_bool aif_Matched aif_Matched_update),
     (''killswitch'', dec_field dec_bool aif_Killswitch aif_Killswitch_update)]"

definition dec_apiInterface :: "bool \<Rightarrow> apiInterface decoder" where
  "dec_apiInterface strict = dec_struct strict (fields_apiInterface strict)"

definition ok_apiInterface :: "apiInterface \<Rightarrow> bool" where
  "ok_apiInterface x \<longleftrightarrow>
     - (2 ^ 63) \<le> aif_Index x \<and> aif_Index x < 2 ^ 63 \<and> valid_utf8 (aif_Name x) \<and>
     valid_utf8 (aif_Type x) \<and> list_all valid_utf8 (aif_Addrs x) \<and> valid_utf8 (aif_SSID x) \<and>
     valid_utf8 (aif_BSSID x) \<and> list_all valid_utf8 (aif_GatewayMACs x)"

interpretation apiInterface_codec: json_codec enc_apiInterface "dec_apiInterface strict" zero_apiInterface ok_apiInterface for strict
proof unfold_locales
  fix x :: apiInterface
  assume "ok_apiInterface x"
  then show "dec_apiInterface strict (enc_apiInterface x) zero_apiInterface = Inr x"
    by (cases x) (simp add: enc_apiInterface_def dec_apiInterface_def fields_apiInterface_def zero_apiInterface_def ok_apiInterface_def codec_simps)
qed

lemma enc_apiInterface_not_null [simp]: "enc_apiInterface x \<noteq> JNull"
  by (simp add: enc_apiInterface_def)

lemmas apiInterface_codec_rules [codec_simps] = apiInterface_codec.roundtrip apiInterface_codec.members_omit_list apiInterface_codec.members_omit_ptr
  apiInterface_codec.members_omit_ptr [where ms = "[]", unfolded append_Nil2]

record apiInterfacePolicy =
  aip_Index :: int
  aip_Name :: string
  aip_Type :: string
  aip_SSID :: string
  aip_BSSID :: string
  aip_GatewayMACs :: "string list"
  aip_Matched :: bool
  aip_Attached :: bool
  aip_EffectivePolicy :: apiRules
  aip_ActiveRulesets :: "string list"
  aip_ForcedRulesets :: "string list"
  aip_TemporaryRulesets :: "string list"

definition zero_apiInterfacePolicy :: apiInterfacePolicy where
  "zero_apiInterfacePolicy = \<lparr>
     aip_Index = 0, aip_Name = [], aip_Type = [], aip_SSID = [], aip_BSSID = [], aip_GatewayMACs = [], aip_Matched = False,
     aip_Attached = False, aip_EffectivePolicy = zero_apiRules, aip_ActiveRulesets = [], aip_ForcedRulesets = [],
     aip_TemporaryRulesets = []\<rparr>"

definition enc_apiInterfacePolicy :: "apiInterfacePolicy \<Rightarrow> json" where
  "enc_apiInterfacePolicy x = JObj (
     (''index'', JInt (aip_Index x)) #
     (''name'', enc_string (aip_Name x)) #
     (''type'', enc_string (aip_Type x)) #
     omit ''ssid'' (aip_SSID x = []) (enc_string (aip_SSID x)) @
     omit ''bssid'' (aip_BSSID x = []) (enc_string (aip_BSSID x)) @
     omit ''gateway_macs'' (aip_GatewayMACs x = []) (enc_list enc_string (aip_GatewayMACs x)) @
     (''matched'', JBool (aip_Matched x)) #
     (''attached'', JBool (aip_Attached x)) #
     (''effective_policy'', enc_apiRules (aip_EffectivePolicy x)) #
     omit ''active_rulesets'' (aip_ActiveRulesets x = []) (enc_list enc_string (aip_ActiveRulesets x)) @
     omit ''forced_rulesets'' (aip_ForcedRulesets x = []) (enc_list enc_string (aip_ForcedRulesets x)) @
     omit ''tmp_rulesets'' (aip_TemporaryRulesets x = []) (enc_list enc_string (aip_TemporaryRulesets x)))"

definition fields_apiInterfacePolicy :: "bool \<Rightarrow> (string \<times> apiInterfacePolicy decoder) list" where
  "fields_apiInterfacePolicy strict = [
     (''index'', dec_field dec_int64 aip_Index aip_Index_update),
     (''name'', dec_field dec_string aip_Name aip_Name_update),
     (''type'', dec_field dec_string aip_Type aip_Type_update),
     (''ssid'', dec_field dec_string aip_SSID aip_SSID_update),
     (''bssid'', dec_field dec_string aip_BSSID aip_BSSID_update),
     (''gateway_macs'', dec_field (dec_list dec_string []) aip_GatewayMACs aip_GatewayMACs_update),
     (''matched'', dec_field dec_bool aip_Matched aip_Matched_update),
     (''attached'', dec_field dec_bool aip_Attached aip_Attached_update),
     (''effective_policy'', dec_field (dec_apiRules strict) aip_EffectivePolicy aip_EffectivePolicy_update),
     (''active_rulesets'', dec_field (dec_list dec_string []) aip_ActiveRulesets aip_ActiveRulesets_update),
     (''forced_rulesets'', dec_field (dec_list dec_string []) aip_ForcedRulesets aip_ForcedRulesets_update),
     (''tmp_rulesets'', dec_field (dec_list dec_string []) aip_TemporaryRulesets aip_TemporaryRulesets_update)]"

definition dec_apiInterfacePolicy :: "bool \<Rightarrow> apiInterfacePolicy decoder" where
  "dec_apiInterfacePolicy strict = dec_struct strict (fields_apiInterfacePolicy strict)"

definition ok_apiInterfacePolicy :: "apiInterfacePolicy \<Rightarrow> bool" where
  "ok_apiInterfacePolicy x \<longleftrightarrow>
     - (2 ^ 63) \<le> aip_Index x \<and> aip_Index x < 2 ^ 63 \<and> valid_utf8 (aip_Name x) \<and>
     valid_utf8 (aip_Type x) \<and> valid_utf8 (aip_SSID x) \<and> valid_utf8 (aip_BSSID x) \<and>
     list_all valid_utf8 (aip_GatewayMACs x) \<and> ok_apiRules (aip_EffectivePolicy x) \<and>
     list_all valid_utf8 (aip_ActiveRulesets x) \<and> list_all valid_utf8 (aip_ForcedRulesets x) \<and>
     list_all valid_utf8 (aip_TemporaryRulesets x)"

interpretation apiInterfacePolicy_codec: json_codec enc_apiInterfacePolicy "dec_apiInterfacePolicy strict" zero_apiInterfacePolicy ok_apiInterfacePolicy for strict
proof unfold_locales
  fix x :: apiInterfacePolicy
  assume "ok_apiInterfacePolicy x"
  then show "dec_apiInterfacePolicy strict (enc_apiInterfacePolicy x) zero_apiInterfacePolicy = Inr x"
    by (cases x) (simp add: enc_apiInterfacePolicy_def dec_apiInterfacePolicy_def fields_apiInterfacePolicy_def zero_apiInterfacePolicy_def ok_apiInterfacePolicy_def codec_simps)
qed

lemma enc_apiInterfacePolicy_not_null [simp]: "enc_apiInterfacePolicy x \<noteq> JNull"
  by (simp add: enc_apiInterfacePolicy_def)

lemmas apiInterfacePolicy_codec_rules [codec_simps] = apiInterfacePolicy_codec.roundtrip apiInterfacePolicy_codec.members_omit_list apiInterfacePolicy_codec.members_omit_ptr
  apiInterfacePolicy_codec.members_omit_ptr [where ms = "[]", unfolded append_Nil2]

record clientInfo =
  ci_ID :: u64
  ci_Owner :: string
  ci_PID :: int
  ci_UID :: u32
  ci_GID :: u32
  ci_EventTypes :: "string list"

definition zero_clientInfo :: clientInfo where
  "zero_clientInfo = \<lparr>
     ci_ID = 0, ci_Owner = [], ci_PID = 0, ci_UID = 0, ci_GID = 0, ci_EventTypes = []\<rparr>"

definition enc_clientInfo :: "clientInfo \<Rightarrow> json" where
  "enc_clientInfo x = JObj (
     (''id'', enc_word (ci_ID x)) #
     (''owner'', enc_string (ci_Owner x)) #
     (''pid'', JInt (ci_PID x)) #
     (''uid'', enc_word (ci_UID x)) #
     (''gid'', enc_word (ci_GID x)) #
     omit ''event_types'' (ci_EventTypes x = []) (enc_list enc_string (ci_EventTypes x)))"

definition fields_clientInfo :: "bool \<Rightarrow> (string \<times> clientInfo decoder) list" where
  "fields_clientInfo strict = [
     (''id'', dec_field dec_word ci_ID ci_ID_update),
     (''owner'', dec_field dec_string ci_Owner ci_Owner_update),
     (''pid'', dec_field dec_int32 ci_PID ci_PID_update),
     (''uid'', dec_field dec_word ci_UID ci_UID_update),
     (''gid'', dec_field dec_word ci_GID ci_GID_update),
     (''event_types'', dec_field (dec_list dec_string []) ci_EventTypes ci_EventTypes_update)]"

definition dec_clientInfo :: "bool \<Rightarrow> clientInfo decoder" where
  "dec_clientInfo strict = dec_struct strict (fields_clientInfo strict)"

definition ok_clientInfo :: "clientInfo \<Rightarrow> bool" where
  "ok_clientInfo x \<longleftrightarrow>
     valid_utf8 (ci_Owner x) \<and> - (2 ^ 31) \<le> ci_PID x \<and> ci_PID x < 2 ^ 31 \<and>
     list_all valid_utf8 (ci_EventTypes x)"

interpretation clientInfo_codec: json_codec enc_clientInfo "dec_clientInfo strict" zero_clientInfo ok_clientInfo for strict
proof unfold_locales
  fix x :: clientInfo
  assume "ok_clientInfo x"
  then show "dec_clientInfo strict (enc_clientInfo x) zero_clientInfo = Inr x"
    by (cases x) (simp add: enc_clientInfo_def dec_clientInfo_def fields_clientInfo_def zero_clientInfo_def ok_clientInfo_def codec_simps)
qed

lemma enc_clientInfo_not_null [simp]: "enc_clientInfo x \<noteq> JNull"
  by (simp add: enc_clientInfo_def)

lemmas clientInfo_codec_rules [codec_simps] = clientInfo_codec.roundtrip clientInfo_codec.members_omit_list clientInfo_codec.members_omit_ptr
  clientInfo_codec.members_omit_ptr [where ms = "[]", unfolded append_Nil2]

record adminConfig =
  acfg_SocketPath :: string
  acfg_Debug :: bool

definition zero_adminConfig :: adminConfig where
  "zero_adminConfig = \<lparr>
     acfg_SocketPath = [], acfg_Debug = False\<rparr>"

definition enc_adminConfig :: "adminConfig \<Rightarrow> json" where
  "enc_adminConfig x = JObj (
     (''socket_path'', enc_string (acfg_SocketPath x)) #
     (''debug'', JBool (acfg_Debug x)) # [])"

definition fields_adminConfig :: "bool \<Rightarrow> (string \<times> adminConfig decoder) list" where
  "fields_adminConfig strict = [
     (''socket_path'', dec_field dec_string acfg_SocketPath acfg_SocketPath_update),
     (''debug'', dec_field dec_bool acfg_Debug acfg_Debug_update)]"

definition dec_adminConfig :: "bool \<Rightarrow> adminConfig decoder" where
  "dec_adminConfig strict = dec_struct strict (fields_adminConfig strict)"

definition ok_adminConfig :: "adminConfig \<Rightarrow> bool" where
  "ok_adminConfig x \<longleftrightarrow>
     valid_utf8 (acfg_SocketPath x)"

interpretation adminConfig_codec: json_codec enc_adminConfig "dec_adminConfig strict" zero_adminConfig ok_adminConfig for strict
proof unfold_locales
  fix x :: adminConfig
  assume "ok_adminConfig x"
  then show "dec_adminConfig strict (enc_adminConfig x) zero_adminConfig = Inr x"
    by (cases x) (simp add: enc_adminConfig_def dec_adminConfig_def fields_adminConfig_def zero_adminConfig_def ok_adminConfig_def codec_simps)
qed

lemma enc_adminConfig_not_null [simp]: "enc_adminConfig x \<noteq> JNull"
  by (simp add: enc_adminConfig_def)

lemmas adminConfig_codec_rules [codec_simps] = adminConfig_codec.roundtrip adminConfig_codec.members_omit_list adminConfig_codec.members_omit_ptr
  adminConfig_codec.members_omit_ptr [where ms = "[]", unfolded append_Nil2]

record apiSocksProxyState =
  asp_Enabled :: bool
  asp_Running :: bool
  asp_Host :: string
  asp_Port :: u16
  asp_FWMark :: string
  asp_DNSServer :: string
  asp_LastError :: string

definition zero_apiSocksProxyState :: apiSocksProxyState where
  "zero_apiSocksProxyState = \<lparr>
     asp_Enabled = False, asp_Running = False, asp_Host = [], asp_Port = 0, asp_FWMark = [], asp_DNSServer = [],
     asp_LastError = []\<rparr>"

definition enc_apiSocksProxyState :: "apiSocksProxyState \<Rightarrow> json" where
  "enc_apiSocksProxyState x = JObj (
     (''enabled'', JBool (asp_Enabled x)) #
     (''running'', JBool (asp_Running x)) #
     (''host'', enc_string (asp_Host x)) #
     (''port'', enc_word (asp_Port x)) #
     (''fwmark'', enc_string (asp_FWMark x)) #
     omit ''dns_server'' (asp_DNSServer x = []) (enc_string (asp_DNSServer x)) @
     omit ''last_error'' (asp_LastError x = []) (enc_string (asp_LastError x)))"

definition fields_apiSocksProxyState :: "bool \<Rightarrow> (string \<times> apiSocksProxyState decoder) list" where
  "fields_apiSocksProxyState strict = [
     (''enabled'', dec_field dec_bool asp_Enabled asp_Enabled_update),
     (''running'', dec_field dec_bool asp_Running asp_Running_update),
     (''host'', dec_field dec_string asp_Host asp_Host_update),
     (''port'', dec_field dec_word asp_Port asp_Port_update),
     (''fwmark'', dec_field dec_string asp_FWMark asp_FWMark_update),
     (''dns_server'', dec_field dec_string asp_DNSServer asp_DNSServer_update),
     (''last_error'', dec_field dec_string asp_LastError asp_LastError_update)]"

definition dec_apiSocksProxyState :: "bool \<Rightarrow> apiSocksProxyState decoder" where
  "dec_apiSocksProxyState strict = dec_struct strict (fields_apiSocksProxyState strict)"

definition ok_apiSocksProxyState :: "apiSocksProxyState \<Rightarrow> bool" where
  "ok_apiSocksProxyState x \<longleftrightarrow>
     valid_utf8 (asp_Host x) \<and> valid_utf8 (asp_FWMark x) \<and> valid_utf8 (asp_DNSServer x) \<and>
     valid_utf8 (asp_LastError x)"

interpretation apiSocksProxyState_codec: json_codec enc_apiSocksProxyState "dec_apiSocksProxyState strict" zero_apiSocksProxyState ok_apiSocksProxyState for strict
proof unfold_locales
  fix x :: apiSocksProxyState
  assume "ok_apiSocksProxyState x"
  then show "dec_apiSocksProxyState strict (enc_apiSocksProxyState x) zero_apiSocksProxyState = Inr x"
    by (cases x) (simp add: enc_apiSocksProxyState_def dec_apiSocksProxyState_def fields_apiSocksProxyState_def zero_apiSocksProxyState_def ok_apiSocksProxyState_def codec_simps)
qed

lemma enc_apiSocksProxyState_not_null [simp]: "enc_apiSocksProxyState x \<noteq> JNull"
  by (simp add: enc_apiSocksProxyState_def)

lemmas apiSocksProxyState_codec_rules [codec_simps] = apiSocksProxyState_codec.roundtrip apiSocksProxyState_codec.members_omit_list apiSocksProxyState_codec.members_omit_ptr
  apiSocksProxyState_codec.members_omit_ptr [where ms = "[]", unfolded append_Nil2]

record apiRuleset =
  ars_Name :: string
  ars_Active :: bool
  ars_Disabled :: bool
  ars_MatchAll :: bool
  ars_Trigger :: apiTrigger
  ars_Policy :: apiRules

definition zero_apiRuleset :: apiRuleset where
  "zero_apiRuleset = \<lparr>
     ars_Name = [], ars_Active = False, ars_Disabled = False, ars_MatchAll = False, ars_Trigger = zero_apiTrigger,
     ars_Policy = zero_apiRules\<rparr>"

definition enc_apiRuleset :: "apiRuleset \<Rightarrow> json" where
  "enc_apiRuleset x = JObj (
     (''name'', enc_string (ars_Name x)) #
     (''active'', JBool (ars_Active x)) #
     (''disabled'', JBool (ars_Disabled x)) #
     (''match_all'', JBool (ars_MatchAll x)) #
     (''trigger'', enc_apiTrigger (ars_Trigger x)) #
     (''policy'', enc_apiRules (ars_Policy x)) # [])"

definition fields_apiRuleset :: "bool \<Rightarrow> (string \<times> apiRuleset decoder) list" where
  "fields_apiRuleset strict = [
     (''name'', dec_field dec_string ars_Name ars_Name_update),
     (''active'', dec_field dec_bool ars_Active ars_Active_update),
     (''disabled'', dec_field dec_bool ars_Disabled ars_Disabled_update),
     (''match_all'', dec_field dec_bool ars_MatchAll ars_MatchAll_update),
     (''trigger'', dec_field (dec_apiTrigger strict) ars_Trigger ars_Trigger_update),
     (''policy'', dec_field (dec_apiRules strict) ars_Policy ars_Policy_update)]"

definition dec_apiRuleset :: "bool \<Rightarrow> apiRuleset decoder" where
  "dec_apiRuleset strict = dec_struct strict (fields_apiRuleset strict)"

definition ok_apiRuleset :: "apiRuleset \<Rightarrow> bool" where
  "ok_apiRuleset x \<longleftrightarrow>
     valid_utf8 (ars_Name x) \<and> ok_apiTrigger (ars_Trigger x) \<and> ok_apiRules (ars_Policy x)"

interpretation apiRuleset_codec: json_codec enc_apiRuleset "dec_apiRuleset strict" zero_apiRuleset ok_apiRuleset for strict
proof unfold_locales
  fix x :: apiRuleset
  assume "ok_apiRuleset x"
  then show "dec_apiRuleset strict (enc_apiRuleset x) zero_apiRuleset = Inr x"
    by (cases x) (simp add: enc_apiRuleset_def dec_apiRuleset_def fields_apiRuleset_def zero_apiRuleset_def ok_apiRuleset_def codec_simps)
qed

lemma enc_apiRuleset_not_null [simp]: "enc_apiRuleset x \<noteq> JNull"
  by (simp add: enc_apiRuleset_def)

lemmas apiRuleset_codec_rules [codec_simps] = apiRuleset_codec.roundtrip apiRuleset_codec.members_omit_list apiRuleset_codec.members_omit_ptr
  apiRuleset_codec.members_omit_ptr [where ms = "[]", unfolded append_Nil2]

record apiTmpRuleset =
  atmp_Client :: string
  atmp_Interfaces :: "string list"
  atmp_Policy :: apiRules

definition zero_apiTmpRuleset :: apiTmpRuleset where
  "zero_apiTmpRuleset = \<lparr>
     atmp_Client = [], atmp_Interfaces = [], atmp_Policy = zero_apiRules\<rparr>"

definition enc_apiTmpRuleset :: "apiTmpRuleset \<Rightarrow> json" where
  "enc_apiTmpRuleset x = JObj (
     (''client'', enc_string (atmp_Client x)) #
     omit ''interfaces'' (atmp_Interfaces x = []) (enc_list enc_string (atmp_Interfaces x)) @
     (''policy'', enc_apiRules (atmp_Policy x)) # [])"

definition fields_apiTmpRuleset :: "bool \<Rightarrow> (string \<times> apiTmpRuleset decoder) list" where
  "fields_apiTmpRuleset strict = [
     (''client'', dec_field dec_string atmp_Client atmp_Client_update),
     (''interfaces'', dec_field (dec_list dec_string []) atmp_Interfaces atmp_Interfaces_update),
     (''policy'', dec_field (dec_apiRules strict) atmp_Policy atmp_Policy_update)]"

definition dec_apiTmpRuleset :: "bool \<Rightarrow> apiTmpRuleset decoder" where
  "dec_apiTmpRuleset strict = dec_struct strict (fields_apiTmpRuleset strict)"

definition ok_apiTmpRuleset :: "apiTmpRuleset \<Rightarrow> bool" where
  "ok_apiTmpRuleset x \<longleftrightarrow>
     valid_utf8 (atmp_Client x) \<and> list_all valid_utf8 (atmp_Interfaces x) \<and> ok_apiRules (atmp_Policy x)"

interpretation apiTmpRuleset_codec: json_codec enc_apiTmpRuleset "dec_apiTmpRuleset strict" zero_apiTmpRuleset ok_apiTmpRuleset for strict
proof unfold_locales
  fix x :: apiTmpRuleset
  assume "ok_apiTmpRuleset x"
  then show "dec_apiTmpRuleset strict (enc_apiTmpRuleset x) zero_apiTmpRuleset = Inr x"
    by (cases x) (simp add: enc_apiTmpRuleset_def dec_apiTmpRuleset_def fields_apiTmpRuleset_def zero_apiTmpRuleset_def ok_apiTmpRuleset_def codec_simps)
qed

lemma enc_apiTmpRuleset_not_null [simp]: "enc_apiTmpRuleset x \<noteq> JNull"
  by (simp add: enc_apiTmpRuleset_def)

lemmas apiTmpRuleset_codec_rules [codec_simps] = apiTmpRuleset_codec.roundtrip apiTmpRuleset_codec.members_omit_list apiTmpRuleset_codec.members_omit_ptr
  apiTmpRuleset_codec.members_omit_ptr [where ms = "[]", unfolded append_Nil2]

record apiForceRuleset =
  afr_Name :: string
  afr_Clients :: "string list"
  afr_Interfaces :: "string list"

definition zero_apiForceRuleset :: apiForceRuleset where
  "zero_apiForceRuleset = \<lparr>
     afr_Name = [], afr_Clients = [], afr_Interfaces = []\<rparr>"

definition enc_apiForceRuleset :: "apiForceRuleset \<Rightarrow> json" where
  "enc_apiForceRuleset x = JObj (
     (''name'', enc_string (afr_Name x)) #
     omit ''clients'' (afr_Clients x = []) (enc_list enc_string (afr_Clients x)) @
     omit ''interfaces'' (afr_Interfaces x = []) (enc_list enc_string (afr_Interfaces x)))"

definition fields_apiForceRuleset :: "bool \<Rightarrow> (string \<times> apiForceRuleset decoder) list" where
  "fields_apiForceRuleset strict = [
     (''name'', dec_field dec_string afr_Name afr_Name_update),
     (''clients'', dec_field (dec_list dec_string []) afr_Clients afr_Clients_update),
     (''interfaces'', dec_field (dec_list dec_string []) afr_Interfaces afr_Interfaces_update)]"

definition dec_apiForceRuleset :: "bool \<Rightarrow> apiForceRuleset decoder" where
  "dec_apiForceRuleset strict = dec_struct strict (fields_apiForceRuleset strict)"

definition ok_apiForceRuleset :: "apiForceRuleset \<Rightarrow> bool" where
  "ok_apiForceRuleset x \<longleftrightarrow>
     valid_utf8 (afr_Name x) \<and> list_all valid_utf8 (afr_Clients x) \<and> list_all valid_utf8 (afr_Interfaces x)"

interpretation apiForceRuleset_codec: json_codec enc_apiForceRuleset "dec_apiForceRuleset strict" zero_apiForceRuleset ok_apiForceRuleset for strict
proof unfold_locales
  fix x :: apiForceRuleset
  assume "ok_apiForceRuleset x"
  then show "dec_apiForceRuleset strict (enc_apiForceRuleset x) zero_apiForceRuleset = Inr x"
    by (cases x) (simp add: enc_apiForceRuleset_def dec_apiForceRuleset_def fields_apiForceRuleset_def zero_apiForceRuleset_def ok_apiForceRuleset_def codec_simps)
qed

lemma enc_apiForceRuleset_not_null [simp]: "enc_apiForceRuleset x \<noteq> JNull"
  by (simp add: enc_apiForceRuleset_def)

lemmas apiForceRuleset_codec_rules [codec_simps] = apiForceRuleset_codec.roundtrip apiForceRuleset_codec.members_omit_list apiForceRuleset_codec.members_omit_ptr
  apiForceRuleset_codec.members_omit_ptr [where ms = "[]", unfolded append_Nil2]

record rulesetMutation =
  rm_Disabled :: bool
  rm_MatchAll :: bool
  rm_Trigger :: apiTrigger
  rm_Policy :: apiRules

definition zero_rulesetMutation :: rulesetMutation where
  "zero_rulesetMutation = \<lparr>
     rm_Disabled = False, rm_MatchAll = False, rm_Trigger = zero_apiTrigger, rm_Policy = zero_apiRules\<rparr>"

definition enc_rulesetMutation :: "rulesetMutation \<Rightarrow> json" where
  "enc_rulesetMutation x = JObj (
     (''disabled'', JBool (rm_Disabled x)) #
     (''match_all'', JBool (rm_MatchAll x)) #
     (''trigger'', enc_apiTrigger (rm_Trigger x)) #
     (''policy'', enc_apiRules (rm_Policy x)) # [])"

definition fields_rulesetMutation :: "bool \<Rightarrow> (string \<times> rulesetMutation decoder) list" where
  "fields_rulesetMutation strict = [
     (''disabled'', dec_field dec_bool rm_Disabled rm_Disabled_update),
     (''match_all'', dec_field dec_bool rm_MatchAll rm_MatchAll_update),
     (''trigger'', dec_field (dec_apiTrigger strict) rm_Trigger rm_Trigger_update),
     (''policy'', dec_field (dec_apiRules strict) rm_Policy rm_Policy_update)]"

definition dec_rulesetMutation :: "bool \<Rightarrow> rulesetMutation decoder" where
  "dec_rulesetMutation strict = dec_struct strict (fields_rulesetMutation strict)"

definition ok_rulesetMutation :: "rulesetMutation \<Rightarrow> bool" where
  "ok_rulesetMutation x \<longleftrightarrow>
     ok_apiTrigger (rm_Trigger x) \<and> ok_apiRules (rm_Policy x)"

interpretation rulesetMutation_codec: json_codec enc_rulesetMutation "dec_rulesetMutation strict" zero_rulesetMutation ok_rulesetMutation for strict
proof unfold_locales
  fix x :: rulesetMutation
  assume "ok_rulesetMutation x"
  then show "dec_rulesetMutation strict (enc_rulesetMutation x) zero_rulesetMutation = Inr x"
    by (cases x) (simp add: enc_rulesetMutation_def dec_rulesetMutation_def fields_rulesetMutation_def zero_rulesetMutation_def ok_rulesetMutation_def codec_simps)
qed

lemma enc_rulesetMutation_not_null [simp]: "enc_rulesetMutation x \<noteq> JNull"
  by (simp add: enc_rulesetMutation_def)

lemmas rulesetMutation_codec_rules [codec_simps] = rulesetMutation_codec.roundtrip rulesetMutation_codec.members_omit_list rulesetMutation_codec.members_omit_ptr
  rulesetMutation_codec.members_omit_ptr [where ms = "[]", unfolded append_Nil2]

record currentConfig =
  cc_InterfaceTypes :: "string list"
  cc_InterfaceNames :: "string list"
  cc_InterfaceRegexps :: "string list"
  cc_IgnoredInterfaceTypes :: "string list"
  cc_IgnoredInterfaceNames :: "string list"
  cc_IgnoredInterfaceRegexps :: "string list"
  cc_Interfaces :: "apiInterface list"
  cc_BasePolicy :: apiRules
  cc_EffectivePolicy :: apiRules
  cc_ActiveRuleset :: string
  cc_EffectiveInterfaces :: "apiInterfacePolicy list"
  cc_Rulesets :: "apiRuleset list"
  cc_ForceActiveRulesets :: "apiForceRuleset list"
  cc_TemporaryRulesets :: "apiTmpRuleset list"
  cc_Clients :: "clientInfo list"
  cc_AdminAPI :: adminConfig
  cc_SocksProxy :: apiSocksProxyState

definition zero_currentConfig :: currentConfig where
  "zero_currentConfig = \<lparr>
     cc_InterfaceTypes = [], cc_InterfaceNames = [], cc_InterfaceRegexps = [], cc_IgnoredInterfaceTypes = [],
     cc_IgnoredInterfaceNames = [], cc_IgnoredInterfaceRegexps = [], cc_Interfaces = [], cc_BasePolicy = zero_apiRules,
     cc_EffectivePolicy = zero_apiRules, cc_ActiveRuleset = [], cc_EffectiveInterfaces = [], cc_Rulesets = [],
     cc_ForceActiveRulesets = [], cc_TemporaryRulesets = [], cc_Clients = [], cc_AdminAPI = zero_adminConfig,
     cc_SocksProxy = zero_apiSocksProxyState\<rparr>"

definition enc_currentConfig :: "currentConfig \<Rightarrow> json" where
  "enc_currentConfig x = JObj (
     omit ''interface_types'' (cc_InterfaceTypes x = []) (enc_list enc_string (cc_InterfaceTypes x)) @
     omit ''interface_names'' (cc_InterfaceNames x = []) (enc_list enc_string (cc_InterfaceNames x)) @
     omit ''interface_regexps'' (cc_InterfaceRegexps x = []) (enc_list enc_string (cc_InterfaceRegexps x)) @
     omit ''ignored_interface_types'' (cc_IgnoredInterfaceTypes x = []) (enc_list enc_string (cc_IgnoredInterfaceTypes x)) @
     omit ''ignored_interface_names'' (cc_IgnoredInterfaceNames x = []) (enc_list enc_string (cc_IgnoredInterfaceNames x)) @
     omit ''ignored_interface_regexps'' (cc_IgnoredInterfaceRegexps x = []) (enc_list enc_string (cc_IgnoredInterfaceRegexps x)) @
     omit ''interfaces'' (cc_Interfaces x = []) (enc_list enc_apiInterface (cc_Interfaces x)) @
     (''base_policy'', enc_apiRules (cc_BasePolicy x)) #
     (''effective_policy'', enc_apiRules (cc_EffectivePolicy x)) #
     omit ''active_ruleset'' (cc_ActiveRuleset x = []) (enc_string (cc_ActiveRuleset x)) @
     omit ''effective_interfaces'' (cc_EffectiveInterfaces x = []) (enc_list enc_apiInterfacePolicy (cc_EffectiveInterfaces x)) @
     omit ''rulesets'' (cc_Rulesets x = []) (enc_list enc_apiRuleset (cc_Rulesets x)) @
     omit ''force_active_rulesets'' (cc_ForceActiveRulesets x = []) (enc_list enc_apiForceRuleset (cc_ForceActiveRulesets x)) @
     omit ''tmp_rulesets'' (cc_TemporaryRulesets x = []) (enc_list enc_apiTmpRuleset (cc_TemporaryRulesets x)) @
     omit ''clients'' (cc_Clients x = []) (enc_list enc_clientInfo (cc_Clients x)) @
     (''admin_api'', enc_adminConfig (cc_AdminAPI x)) #
     (''socks_proxy'', enc_apiSocksProxyState (cc_SocksProxy x)) # [])"

definition fields_currentConfig :: "bool \<Rightarrow> (string \<times> currentConfig decoder) list" where
  "fields_currentConfig strict = [
     (''interface_types'', dec_field (dec_list dec_string []) cc_InterfaceTypes cc_InterfaceTypes_update),
     (''interface_names'', dec_field (dec_list dec_string []) cc_InterfaceNames cc_InterfaceNames_update),
     (''interface_regexps'', dec_field (dec_list dec_string []) cc_InterfaceRegexps cc_InterfaceRegexps_update),
     (''ignored_interface_types'', dec_field (dec_list dec_string []) cc_IgnoredInterfaceTypes cc_IgnoredInterfaceTypes_update),
     (''ignored_interface_names'', dec_field (dec_list dec_string []) cc_IgnoredInterfaceNames cc_IgnoredInterfaceNames_update),
     (''ignored_interface_regexps'', dec_field (dec_list dec_string []) cc_IgnoredInterfaceRegexps cc_IgnoredInterfaceRegexps_update),
     (''interfaces'', dec_field (dec_list (dec_apiInterface strict) zero_apiInterface) cc_Interfaces cc_Interfaces_update),
     (''base_policy'', dec_field (dec_apiRules strict) cc_BasePolicy cc_BasePolicy_update),
     (''effective_policy'', dec_field (dec_apiRules strict) cc_EffectivePolicy cc_EffectivePolicy_update),
     (''active_ruleset'', dec_field dec_string cc_ActiveRuleset cc_ActiveRuleset_update),
     (''effective_interfaces'', dec_field (dec_list (dec_apiInterfacePolicy strict) zero_apiInterfacePolicy) cc_EffectiveInterfaces cc_EffectiveInterfaces_update),
     (''rulesets'', dec_field (dec_list (dec_apiRuleset strict) zero_apiRuleset) cc_Rulesets cc_Rulesets_update),
     (''force_active_rulesets'', dec_field (dec_list (dec_apiForceRuleset strict) zero_apiForceRuleset) cc_ForceActiveRulesets cc_ForceActiveRulesets_update),
     (''tmp_rulesets'', dec_field (dec_list (dec_apiTmpRuleset strict) zero_apiTmpRuleset) cc_TemporaryRulesets cc_TemporaryRulesets_update),
     (''clients'', dec_field (dec_list (dec_clientInfo strict) zero_clientInfo) cc_Clients cc_Clients_update),
     (''admin_api'', dec_field (dec_adminConfig strict) cc_AdminAPI cc_AdminAPI_update),
     (''socks_proxy'', dec_field (dec_apiSocksProxyState strict) cc_SocksProxy cc_SocksProxy_update)]"

definition dec_currentConfig :: "bool \<Rightarrow> currentConfig decoder" where
  "dec_currentConfig strict = dec_struct strict (fields_currentConfig strict)"

definition ok_currentConfig :: "currentConfig \<Rightarrow> bool" where
  "ok_currentConfig x \<longleftrightarrow>
     list_all valid_utf8 (cc_InterfaceTypes x) \<and> list_all valid_utf8 (cc_InterfaceNames x) \<and>
     list_all valid_utf8 (cc_InterfaceRegexps x) \<and> list_all valid_utf8 (cc_IgnoredInterfaceTypes x) \<and>
     list_all valid_utf8 (cc_IgnoredInterfaceNames x) \<and> list_all valid_utf8 (cc_IgnoredInterfaceRegexps x) \<and>
     list_all ok_apiInterface (cc_Interfaces x) \<and> ok_apiRules (cc_BasePolicy x) \<and>
     ok_apiRules (cc_EffectivePolicy x) \<and> valid_utf8 (cc_ActiveRuleset x) \<and>
     list_all ok_apiInterfacePolicy (cc_EffectiveInterfaces x) \<and> list_all ok_apiRuleset (cc_Rulesets x) \<and>
     list_all ok_apiForceRuleset (cc_ForceActiveRulesets x) \<and> list_all ok_apiTmpRuleset (cc_TemporaryRulesets x) \<and>
     list_all ok_clientInfo (cc_Clients x) \<and> ok_adminConfig (cc_AdminAPI x) \<and> ok_apiSocksProxyState (cc_SocksProxy x)"

interpretation currentConfig_codec: json_codec enc_currentConfig "dec_currentConfig strict" zero_currentConfig ok_currentConfig for strict
proof unfold_locales
  fix x :: currentConfig
  assume "ok_currentConfig x"
  then show "dec_currentConfig strict (enc_currentConfig x) zero_currentConfig = Inr x"
    by (cases x) (simp add: enc_currentConfig_def dec_currentConfig_def fields_currentConfig_def zero_currentConfig_def ok_currentConfig_def codec_simps)
qed

lemma enc_currentConfig_not_null [simp]: "enc_currentConfig x \<noteq> JNull"
  by (simp add: enc_currentConfig_def)

lemmas currentConfig_codec_rules [codec_simps] = currentConfig_codec.roundtrip currentConfig_codec.members_omit_list currentConfig_codec.members_omit_ptr
  currentConfig_codec.members_omit_ptr [where ms = "[]", unfolded append_Nil2]

record notification =
  nt_Level :: string
  nt_Text :: string
  nt_Header :: string

definition zero_notification :: notification where
  "zero_notification = \<lparr>
     nt_Level = [], nt_Text = [], nt_Header = []\<rparr>"

definition enc_notification :: "notification \<Rightarrow> json" where
  "enc_notification x = JObj (
     (''level'', enc_string (nt_Level x)) #
     (''text'', enc_string (nt_Text x)) #
     omit ''header'' (nt_Header x = []) (enc_string (nt_Header x)))"

definition fields_notification :: "bool \<Rightarrow> (string \<times> notification decoder) list" where
  "fields_notification strict = [
     (''level'', dec_field dec_string nt_Level nt_Level_update),
     (''text'', dec_field dec_string nt_Text nt_Text_update),
     (''header'', dec_field dec_string nt_Header nt_Header_update)]"

definition dec_notification :: "bool \<Rightarrow> notification decoder" where
  "dec_notification strict = dec_struct strict (fields_notification strict)"

definition ok_notification :: "notification \<Rightarrow> bool" where
  "ok_notification x \<longleftrightarrow>
     valid_utf8 (nt_Level x) \<and> valid_utf8 (nt_Text x) \<and> valid_utf8 (nt_Header x)"

interpretation notification_codec: json_codec enc_notification "dec_notification strict" zero_notification ok_notification for strict
proof unfold_locales
  fix x :: notification
  assume "ok_notification x"
  then show "dec_notification strict (enc_notification x) zero_notification = Inr x"
    by (cases x) (simp add: enc_notification_def dec_notification_def fields_notification_def zero_notification_def ok_notification_def codec_simps)
qed

lemma enc_notification_not_null [simp]: "enc_notification x \<noteq> JNull"
  by (simp add: enc_notification_def)

lemmas notification_codec_rules [codec_simps] = notification_codec.roundtrip notification_codec.members_omit_list notification_codec.members_omit_ptr
  notification_codec.members_omit_ptr [where ms = "[]", unfolded append_Nil2]

record eventMessage =
  ev_EventType :: string
  ev_Config :: currentConfig
  ev_Notification :: notification

definition zero_eventMessage :: eventMessage where
  "zero_eventMessage = \<lparr>
     ev_EventType = [], ev_Config = zero_currentConfig, ev_Notification = zero_notification\<rparr>"

definition enc_eventMessage :: "eventMessage \<Rightarrow> json" where
  "enc_eventMessage x = JObj (
     (''event_type'', enc_string (ev_EventType x)) #
     (''config'', enc_currentConfig (ev_Config x)) #
     (''notification'', enc_notification (ev_Notification x)) # [])"

definition fields_eventMessage :: "bool \<Rightarrow> (string \<times> eventMessage decoder) list" where
  "fields_eventMessage strict = [
     (''event_type'', dec_field dec_string ev_EventType ev_EventType_update),
     (''config'', dec_field (dec_currentConfig strict) ev_Config ev_Config_update),
     (''notification'', dec_field (dec_notification strict) ev_Notification ev_Notification_update)]"

definition dec_eventMessage :: "bool \<Rightarrow> eventMessage decoder" where
  "dec_eventMessage strict = dec_struct strict (fields_eventMessage strict)"

definition ok_eventMessage :: "eventMessage \<Rightarrow> bool" where
  "ok_eventMessage x \<longleftrightarrow>
     valid_utf8 (ev_EventType x) \<and> ok_currentConfig (ev_Config x) \<and> ok_notification (ev_Notification x)"

interpretation eventMessage_codec: json_codec enc_eventMessage "dec_eventMessage strict" zero_eventMessage ok_eventMessage for strict
proof unfold_locales
  fix x :: eventMessage
  assume "ok_eventMessage x"
  then show "dec_eventMessage strict (enc_eventMessage x) zero_eventMessage = Inr x"
    by (cases x) (simp add: enc_eventMessage_def dec_eventMessage_def fields_eventMessage_def zero_eventMessage_def ok_eventMessage_def codec_simps)
qed

lemma enc_eventMessage_not_null [simp]: "enc_eventMessage x \<noteq> JNull"
  by (simp add: enc_eventMessage_def)

lemmas eventMessage_codec_rules [codec_simps] = eventMessage_codec.roundtrip eventMessage_codec.members_omit_list eventMessage_codec.members_omit_ptr
  eventMessage_codec.members_omit_ptr [where ms = "[]", unfolded append_Nil2]

record mutationRequest =
  mr_Operation :: string
  mr_Target :: string
  mr_Ruleset :: string
  mr_Interfaces :: "string list"
  mr_Value :: "json option"
  mr_Values :: "string list"
  mr_Policy :: "apiRules option"
  mr_RulesetDef :: "rulesetMutation option"

definition zero_mutationRequest :: mutationRequest where
  "zero_mutationRequest = \<lparr>
     mr_Operation = [], mr_Target = [], mr_Ruleset = [], mr_Interfaces = [], mr_Value = None, mr_Values = [], mr_Policy = None,
     mr_RulesetDef = None\<rparr>"

definition enc_mutationRequest :: "mutationRequest \<Rightarrow> json" where
  "enc_mutationRequest x = JObj (
     (''operation'', enc_string (mr_Operation x)) #
     (''target'', enc_string (mr_Target x)) #
     omit ''ruleset'' (mr_Ruleset x = []) (enc_string (mr_Ruleset x)) @
     omit ''interfaces'' (mr_Interfaces x = []) (enc_list enc_string (mr_Interfaces x)) @
     omit ''value'' (mr_Value x = None) (the (mr_Value x)) @
     omit ''values'' (mr_Values x = []) (enc_list enc_string (mr_Values x)) @
     omit ''policy'' (mr_Policy x = None) (enc_apiRules (the (mr_Policy x))) @
     omit ''ruleset_def'' (mr_RulesetDef x = None) (enc_rulesetMutation (the (mr_RulesetDef x))))"

definition fields_mutationRequest :: "bool \<Rightarrow> (string \<times> mutationRequest decoder) list" where
  "fields_mutationRequest strict = [
     (''operation'', dec_field dec_string mr_Operation mr_Operation_update),
     (''target'', dec_field dec_string mr_Target mr_Target_update),
     (''ruleset'', dec_field dec_string mr_Ruleset mr_Ruleset_update),
     (''interfaces'', dec_field (dec_list dec_string []) mr_Interfaces mr_Interfaces_update),
     (''value'', dec_field dec_raw mr_Value mr_Value_update),
     (''values'', dec_field (dec_list dec_string []) mr_Values mr_Values_update),
     (''policy'', dec_field (dec_ptr (dec_apiRules strict) zero_apiRules) mr_Policy mr_Policy_update),
     (''ruleset_def'', dec_field (dec_ptr (dec_rulesetMutation strict) zero_rulesetMutation) mr_RulesetDef mr_RulesetDef_update)]"

definition dec_mutationRequest :: "bool \<Rightarrow> mutationRequest decoder" where
  "dec_mutationRequest strict = dec_struct strict (fields_mutationRequest strict)"

definition ok_mutationRequest :: "mutationRequest \<Rightarrow> bool" where
  "ok_mutationRequest x \<longleftrightarrow>
     valid_utf8 (mr_Operation x) \<and> valid_utf8 (mr_Target x) \<and> valid_utf8 (mr_Ruleset x) \<and>
     list_all valid_utf8 (mr_Interfaces x) \<and> list_all valid_utf8 (mr_Values x) \<and>
     pred_option ok_apiRules (mr_Policy x) \<and> pred_option ok_rulesetMutation (mr_RulesetDef x)"

interpretation mutationRequest_codec: json_codec enc_mutationRequest "dec_mutationRequest strict" zero_mutationRequest ok_mutationRequest for strict
proof unfold_locales
  fix x :: mutationRequest
  assume "ok_mutationRequest x"
  then show "dec_mutationRequest strict (enc_mutationRequest x) zero_mutationRequest = Inr x"
    by (cases x) (simp add: enc_mutationRequest_def dec_mutationRequest_def fields_mutationRequest_def zero_mutationRequest_def ok_mutationRequest_def codec_simps)
qed

lemma enc_mutationRequest_not_null [simp]: "enc_mutationRequest x \<noteq> JNull"
  by (simp add: enc_mutationRequest_def)

lemmas mutationRequest_codec_rules [codec_simps] = mutationRequest_codec.roundtrip mutationRequest_codec.members_omit_list mutationRequest_codec.members_omit_ptr
  mutationRequest_codec.members_omit_ptr [where ms = "[]", unfolded append_Nil2]

record mutationResult =
  mres_OK :: bool
  mres_Changed :: bool
  mres_Error :: string
  mres_Config :: currentConfig

definition zero_mutationResult :: mutationResult where
  "zero_mutationResult = \<lparr>
     mres_OK = False, mres_Changed = False, mres_Error = [], mres_Config = zero_currentConfig\<rparr>"

definition enc_mutationResult :: "mutationResult \<Rightarrow> json" where
  "enc_mutationResult x = JObj (
     (''ok'', JBool (mres_OK x)) #
     (''changed'', JBool (mres_Changed x)) #
     omit ''error'' (mres_Error x = []) (enc_string (mres_Error x)) @
     (''config'', enc_currentConfig (mres_Config x)) # [])"

definition fields_mutationResult :: "bool \<Rightarrow> (string \<times> mutationResult decoder) list" where
  "fields_mutationResult strict = [
     (''ok'', dec_field dec_bool mres_OK mres_OK_update),
     (''changed'', dec_field dec_bool mres_Changed mres_Changed_update),
     (''error'', dec_field dec_string mres_Error mres_Error_update),
     (''config'', dec_field (dec_currentConfig strict) mres_Config mres_Config_update)]"

definition dec_mutationResult :: "bool \<Rightarrow> mutationResult decoder" where
  "dec_mutationResult strict = dec_struct strict (fields_mutationResult strict)"

definition ok_mutationResult :: "mutationResult \<Rightarrow> bool" where
  "ok_mutationResult x \<longleftrightarrow>
     valid_utf8 (mres_Error x) \<and> ok_currentConfig (mres_Config x)"

interpretation mutationResult_codec: json_codec enc_mutationResult "dec_mutationResult strict" zero_mutationResult ok_mutationResult for strict
proof unfold_locales
  fix x :: mutationResult
  assume "ok_mutationResult x"
  then show "dec_mutationResult strict (enc_mutationResult x) zero_mutationResult = Inr x"
    by (cases x) (simp add: enc_mutationResult_def dec_mutationResult_def fields_mutationResult_def zero_mutationResult_def ok_mutationResult_def codec_simps)
qed

lemma enc_mutationResult_not_null [simp]: "enc_mutationResult x \<noteq> JNull"
  by (simp add: enc_mutationResult_def)

lemmas mutationResult_codec_rules [codec_simps] = mutationResult_codec.roundtrip mutationResult_codec.members_omit_list mutationResult_codec.members_omit_ptr
  mutationResult_codec.members_omit_ptr [where ms = "[]", unfolded append_Nil2]

record debugResult =
  dr_OK :: bool
  dr_Error :: string

definition zero_debugResult :: debugResult where
  "zero_debugResult = \<lparr>
     dr_OK = False, dr_Error = []\<rparr>"

definition enc_debugResult :: "debugResult \<Rightarrow> json" where
  "enc_debugResult x = JObj (
     (''ok'', JBool (dr_OK x)) #
     omit ''error'' (dr_Error x = []) (enc_string (dr_Error x)))"

definition fields_debugResult :: "bool \<Rightarrow> (string \<times> debugResult decoder) list" where
  "fields_debugResult strict = [
     (''ok'', dec_field dec_bool dr_OK dr_OK_update),
     (''error'', dec_field dec_string dr_Error dr_Error_update)]"

definition dec_debugResult :: "bool \<Rightarrow> debugResult decoder" where
  "dec_debugResult strict = dec_struct strict (fields_debugResult strict)"

definition ok_debugResult :: "debugResult \<Rightarrow> bool" where
  "ok_debugResult x \<longleftrightarrow>
     valid_utf8 (dr_Error x)"

interpretation debugResult_codec: json_codec enc_debugResult "dec_debugResult strict" zero_debugResult ok_debugResult for strict
proof unfold_locales
  fix x :: debugResult
  assume "ok_debugResult x"
  then show "dec_debugResult strict (enc_debugResult x) zero_debugResult = Inr x"
    by (cases x) (simp add: enc_debugResult_def dec_debugResult_def fields_debugResult_def zero_debugResult_def ok_debugResult_def codec_simps)
qed

lemma enc_debugResult_not_null [simp]: "enc_debugResult x \<noteq> JNull"
  by (simp add: enc_debugResult_def)

lemmas debugResult_codec_rules [codec_simps] = debugResult_codec.roundtrip debugResult_codec.members_omit_list debugResult_codec.members_omit_ptr
  debugResult_codec.members_omit_ptr [where ms = "[]", unfolded append_Nil2]

section \<open>Messages\<close>

datatype message =
    ConfigRequest
  | ConfigMessage currentConfig
  | SubscribeRequest "string list"
  | EventMessage eventMessage
  | MutationRequest mutationRequest
  | MutationResult mutationResult
  | DebugNotifyRequest notification
  | DebugResult debugResult
  | UnknownMessage string "json option"

record envelope =
  envl_Type :: string
  envl_Payload :: "json option"

definition zero_envelope :: envelope where
  "zero_envelope = \<lparr>envl_Type = [], envl_Payload = None\<rparr>"

definition enc_envelope :: "envelope \<Rightarrow> json" where
  "enc_envelope x = JObj (
     (''type'', enc_string (envl_Type x)) #
     omit ''payload'' (envl_Payload x = None) (the (envl_Payload x)))"

definition dec_envelope :: "envelope decoder" where
  "dec_envelope = dec_struct False [
     (''type'', dec_field dec_string envl_Type envl_Type_update),
     (''payload'', dec_field dec_raw envl_Payload envl_Payload_update)]"

fun messageType :: "message \<Rightarrow> string" where
  "messageType ConfigRequest = ''config_request''"
| "messageType (ConfigMessage c) = ''config''"
| "messageType (SubscribeRequest ts) = ''subscribe''"
| "messageType (EventMessage ev) = ''event''"
| "messageType (MutationRequest r) = ''mutation''"
| "messageType (MutationResult r) = ''mutation_result''"
| "messageType (DebugNotifyRequest n) = ''debug_notify''"
| "messageType (DebugResult r) = ''debug_result''"
| "messageType (UnknownMessage typ payload) = typ"

text \<open>The messages that are structs with one member of their own. \<open>event_types\<close> has no
  \<open>omitempty\<close>: a nil slice is written as \<open>null\<close>.\<close>

definition enc_subscribe :: "string list \<Rightarrow> json" where
  "enc_subscribe ts = JObj [(''event_types'', if ts = [] then JNull else enc_list enc_string ts)]"

definition dec_subscribe :: "string list decoder" where
  "dec_subscribe = dec_struct False [(''event_types'', dec_list dec_string [])]"

definition enc_configMessage :: "currentConfig \<Rightarrow> json" where
  "enc_configMessage c = JObj [(''config'', enc_currentConfig c)]"

definition dec_configMessage :: "currentConfig decoder" where
  "dec_configMessage = dec_struct False [(''config'', dec_currentConfig False)]"

definition enc_debugNotify :: "notification \<Rightarrow> json" where
  "enc_debugNotify n = JObj [(''notification'', enc_notification n)]"

definition dec_debugNotify :: "notification decoder" where
  "dec_debugNotify = dec_struct False [(''notification'', dec_notification False)]"

fun messagePayload :: "message \<Rightarrow> json res" where
  "messagePayload ConfigRequest = Inr (JObj [])"
| "messagePayload (ConfigMessage c) = Inr (enc_configMessage c)"
| "messagePayload (SubscribeRequest ts) = Inr (enc_subscribe ts)"
| "messagePayload (EventMessage ev) = Inr (enc_eventMessage ev)"
| "messagePayload (MutationRequest r) = Inr (enc_mutationRequest r)"
| "messagePayload (MutationResult r) = Inr (enc_mutationResult r)"
| "messagePayload (DebugNotifyRequest n) = Inr (enc_debugNotify n)"
| "messagePayload (DebugResult r) = Inr (enc_debugResult r)"
| "messagePayload (UnknownMessage typ payload) = Inl (Errf ''unsupported admin API message type %T'' [''UnknownMessage''])"

text \<open>What \<open>Encode\<close> writes to the connection.\<close>

definition WriteMessage :: "message \<Rightarrow> json res" where
  "WriteMessage msg = bindR (messagePayload msg) (\<lambda>payload.
     Inr (enc_envelope \<lparr>envl_Type = messageType msg, envl_Payload = Some payload\<rparr>))"

definition decodePayload :: "json option \<Rightarrow> 'a decoder \<Rightarrow> 'a \<Rightarrow> 'a res" where
  "decodePayload payload dec zero =
     wrapR ''decode admin API payload'' [] (dec (case payload of None \<Rightarrow> JObj [] | Some js \<Rightarrow> js) zero)"

definition read_envelope :: "envelope \<Rightarrow> message res" where
  "read_envelope envl =
     (let typ = envl_Type envl; payload = envl_Payload envl in
      if typ = ''config_request'' then bindR (decodePayload payload (dec_struct False []) ()) (\<lambda>_. Inr ConfigRequest)
      else if typ = ''config'' then bindR (decodePayload payload dec_configMessage zero_currentConfig) (\<lambda>m. Inr (ConfigMessage m))
      else if typ = ''subscribe'' then bindR (decodePayload payload dec_subscribe []) (\<lambda>m. Inr (SubscribeRequest m))
      else if typ = ''event'' then bindR (decodePayload payload (dec_eventMessage False) zero_eventMessage) (\<lambda>m. Inr (EventMessage m))
      else if typ = ''mutation''
      then bindR (decodePayload payload (dec_mutationRequest False) zero_mutationRequest) (\<lambda>m. Inr (MutationRequest m))
      else if typ = ''mutation_result''
      then bindR (decodePayload payload (dec_mutationResult False) zero_mutationResult) (\<lambda>m. Inr (MutationResult m))
      else if typ = ''debug_notify'' then bindR (decodePayload payload dec_debugNotify zero_notification) (\<lambda>m. Inr (DebugNotifyRequest m))
      else if typ = ''debug_result''
      then bindR (decodePayload payload (dec_debugResult False) zero_debugResult) (\<lambda>m. Inr (DebugResult m))
      else Inr (UnknownMessage typ payload))"

text \<open>\<open>next\<close> is the next JSON value of the connection, or the error of reading it.\<close>

definition ReadMessage :: "json res \<Rightarrow> message res" where
  "ReadMessage next = bindR next (\<lambda>js. bindR (dec_envelope js zero_envelope) read_envelope)"

section \<open>The client\<close>

definition EOF :: error where
  "EOF = Lib ''EOF''"

definition ErrUnexpectedEOF :: error where
  "ErrUnexpectedEOF = Lib ''unexpected EOF''"

text \<open>\<open>errors.Is\<close> follows the wrapped errors.\<close>

fun errors_Is :: "error \<Rightarrow> error \<Rightarrow> bool" where
  "errors_Is (Wrap fmt args e) target = (Wrap fmt args e = target \<or> errors_Is e target)"
| "errors_Is e target = (e = target)"

definition IsEOF :: "error \<Rightarrow> bool" where
  "IsEOF err \<longleftrightarrow> errors_Is err EOF \<or> errors_Is err ErrUnexpectedEOF"

definition readError :: "string \<Rightarrow> error \<Rightarrow> error" where
  "readError what err =
     (if IsEOF err then Wrap ''connection closed before %s was received'' [what] err
      else Wrap ''read admin API message'' [] err)"

text \<open>
  The loops of the client read until a message of the wanted kind comes or reading fails. The result
  holds what is left of the connection; \<open>None\<close> says that the loop still waits when all values have been
  read.
\<close>

type_synonym connection = "json res list"

fun wait_for :: "string \<Rightarrow> (message \<Rightarrow> 'a option) \<Rightarrow> connection \<Rightarrow> ('a res \<times> connection) option" where
  "wait_for what pick [] = None"
| "wait_for what pick (next # conn) =
     (case ReadMessage next of
        Inl err \<Rightarrow> Some (Inl (readError what err), conn)
      | Inr msg \<Rightarrow> (case pick msg of None \<Rightarrow> wait_for what pick conn | Some x \<Rightarrow> Some (Inr x, conn)))"

definition WaitForConfig :: "connection \<Rightarrow> (currentConfig res \<times> connection) option" where
  "WaitForConfig = wait_for ''config'' (\<lambda>msg. case msg of ConfigMessage c \<Rightarrow> Some c | _ \<Rightarrow> None)"

definition WaitForEvent :: "connection \<Rightarrow> (eventMessage res \<times> connection) option" where
  "WaitForEvent = wait_for ''event'' (\<lambda>msg. case msg of EventMessage ev \<Rightarrow> Some ev | _ \<Rightarrow> None)"

definition WaitForMutationResult :: "connection \<Rightarrow> (mutationResult res \<times> connection) option" where
  "WaitForMutationResult = wait_for ''mutation result'' (\<lambda>msg. case msg of MutationResult r \<Rightarrow> Some r | _ \<Rightarrow> None)"

definition WaitForDebugResult :: "connection \<Rightarrow> (debugResult res \<times> connection) option" where
  "WaitForDebugResult = wait_for ''debug result'' (\<lambda>msg. case msg of DebugResult r \<Rightarrow> Some r | _ \<Rightarrow> None)"

lemma wait_for_shorter: "wait_for what pick conn = Some (r, rest) \<Longrightarrow> length rest < length conn"
  by (induction what pick conn rule: wait_for.induct) (auto split: sum.splits option.splits)

function WaitForNotification :: "connection \<Rightarrow> (notification res \<times> connection) option" where
  "WaitForNotification conn =
     (case WaitForEvent conn of
        None \<Rightarrow> None
      | Some (Inl err, rest) \<Rightarrow> Some (Inl err, rest)
      | Some (Inr event, rest) \<Rightarrow>
          (if ev_EventType event = ''notification'' then Some (Inr (ev_Notification event), rest) else WaitForNotification rest))"
  by pat_completeness auto
termination
  by (relation "measure length") (auto simp: WaitForEvent_def dest: wait_for_shorter)

declare WaitForNotification.simps [simp del]

text \<open>A call writes one message and waits for its answer; \<open>write\<close> is the error of the connection, if any.\<close>

definition client_Send :: "error option \<Rightarrow> message \<Rightarrow> json res" where
  "client_Send write msg = wrapR ''write admin API message'' []
     (bindR (WriteMessage msg) (\<lambda>js. case write of None \<Rightarrow> Inr js | Some err \<Rightarrow> Inl err))"

definition RequestConfig :: "error option \<Rightarrow> json res" where
  "RequestConfig write = client_Send write ConfigRequest"

definition Subscribe :: "error option \<Rightarrow> string list \<Rightarrow> json res" where
  "Subscribe write eventTypes = client_Send write (SubscribeRequest eventTypes)"

definition Mutate :: "error option \<Rightarrow> mutationRequest \<Rightarrow> connection \<Rightarrow> (mutationResult res \<times> connection) option" where
  "Mutate write req conn =
     (case client_Send write (MutationRequest req) of Inl err \<Rightarrow> Some (Inl err, conn) | Inr _ \<Rightarrow> WaitForMutationResult conn)"

definition DebugNotify :: "error option \<Rightarrow> notification \<Rightarrow> connection \<Rightarrow> (debugResult res \<times> connection) option" where
  "DebugNotify write notification conn =
     (case client_Send write (DebugNotifyRequest notification) of Inl err \<Rightarrow> Some (Inl err, conn) | Inr _ \<Rightarrow> WaitForDebugResult conn)"

section \<open>Messages come back as they were sent\<close>

fun ok_message :: "message \<Rightarrow> bool" where
  "ok_message ConfigRequest = True"
| "ok_message (ConfigMessage c) = ok_currentConfig c"
| "ok_message (SubscribeRequest ts) = list_all valid_utf8 ts"
| "ok_message (EventMessage ev) = ok_eventMessage ev"
| "ok_message (MutationRequest r) = ok_mutationRequest r"
| "ok_message (MutationResult r) = ok_mutationResult r"
| "ok_message (DebugNotifyRequest n) = ok_notification n"
| "ok_message (DebugResult r) = ok_debugResult r"
| "ok_message (UnknownMessage typ payload) = False"

lemma messageType_valid: "ok_message msg \<Longrightarrow> valid_utf8 (messageType msg)"
  by (cases msg) (simp_all add: ascii_valid in_range_def)

lemma dec_envelope_enc: "valid_utf8 typ \<Longrightarrow>
    dec_envelope (enc_envelope \<lparr>envl_Type = typ, envl_Payload = Some payload\<rparr>) zero_envelope = Inr \<lparr>envl_Type = typ, envl_Payload = Some payload\<rparr>"
  by (simp add: dec_envelope_def enc_envelope_def zero_envelope_def dec_field_def find_field_def string_codec.roundtrip omit_def dec_raw_def)

lemma subscribe_roundtrip: "list_all valid_utf8 ts \<Longrightarrow> dec_subscribe (enc_subscribe ts) [] = Inr ts"
  by (simp add: dec_subscribe_def enc_subscribe_def find_field_def string_codec.list_roundtrip)

lemma configMessage_roundtrip: "ok_currentConfig c \<Longrightarrow> dec_configMessage (enc_configMessage c) zero_currentConfig = Inr c"
  by (simp add: dec_configMessage_def enc_configMessage_def find_field_def currentConfig_codec.roundtrip)

lemma debugNotify_roundtrip: "ok_notification n \<Longrightarrow> dec_debugNotify (enc_debugNotify n) zero_notification = Inr n"
  by (simp add: dec_debugNotify_def enc_debugNotify_def find_field_def notification_codec.roundtrip)

lemma read_written:
  assumes "ok_message msg"
  shows "bindR (messagePayload msg) (\<lambda>payload. read_envelope \<lparr>envl_Type = messageType msg, envl_Payload = Some payload\<rparr>) = Inr msg"
  using assms
  by (cases msg) (simp_all add: read_envelope_def decodePayload_def subscribe_roundtrip configMessage_roundtrip debugNotify_roundtrip
      eventMessage_codec.roundtrip mutationRequest_codec.roundtrip mutationResult_codec.roundtrip debugResult_codec.roundtrip)

lemma message_roundtrip_aux:
  assumes ok: "ok_message msg"
  shows "\<exists>js. WriteMessage msg = Inr js \<and> ReadMessage (Inr js) = Inr msg"
proof -
  obtain payload where p: "messagePayload msg = Inr payload" using ok by (cases msg) auto
  with read_written [OF ok] show ?thesis
    by (simp add: WriteMessage_def ReadMessage_def dec_envelope_enc messageType_valid [OF ok])
qed

text \<open>The loops pick the first message of the wanted kind and skip the others, until reading fails.\<close>

lemma wait_for_skip:
  "\<forall>next \<in> set skipped. \<exists>msg. ReadMessage next = Inr msg \<and> pick msg = None \<Longrightarrow>
   wait_for what pick (skipped @ conn) = wait_for what pick conn"
  by (induction skipped) auto

section \<open>Properties\<close>

text \<open>C14: a message whose strings are valid UTF-8 and whose integers fit their types is read back by
  the other side exactly as it was sent, for every type of message that is ever sent; a message of an
  unknown type is never written, and one that is received is passed on with its payload.\<close>

theorem message_roundtrip:
  "(ok_message msg \<longrightarrow> (\<exists>js. WriteMessage msg = Inr js \<and> ReadMessage (Inr js) = Inr msg)) \<and>
   (\<exists>e. WriteMessage (UnknownMessage typ payload) = Inl e)"
  using message_roundtrip_aux by (simp add: WriteMessage_def)

lemma message_roundtrip_witness:
  "\<exists>js. WriteMessage (SubscribeRequest [''config'']) = Inr js \<and> ReadMessage (Inr js) = Inr (SubscribeRequest [''config''])"
  using message_roundtrip [of "SubscribeRequest [''config'']"] by (simp add: ascii_valid in_range_def)

text \<open>a client that waits for the result of a mutation gets the first one on the connection,
  whatever events and configurations the server sends before it; a read error that comes first is reported
  instead, as a closed connection exactly for the two end-of-file errors of Go.\<close>

theorem Mutate_gets_first_result:
  assumes "ok_message (MutationResult r)" and "WriteMessage (MutationResult r) = Inr js"
    and "\<forall>next \<in> set skipped. \<exists>msg. ReadMessage next = Inr msg \<and> (\<forall>r. msg \<noteq> MutationResult r)"
  shows "Mutate None req (skipped @ Inr js # conn) = Some (Inr r, conn) \<and>
    Mutate None req (skipped @ Inl err # conn) = Some (Inl (
      if IsEOF err then Wrap ''connection closed before %s was received'' [''mutation result''] err
      else Wrap ''read admin API message'' [] err), conn)"
proof -
  have sent: "client_Send None (MutationRequest req) = Inr (enc_envelope \<lparr>envl_Type = ''mutation'', envl_Payload = Some (enc_mutationRequest req)\<rparr>)"
    by (simp add: client_Send_def WriteMessage_def)
  have read: "ReadMessage (Inr js) = Inr (MutationResult r)"
    using message_roundtrip_aux [OF assms(1)] assms(2) by simp
  have err: "ReadMessage (Inl err) = Inl err" by (simp add: ReadMessage_def)
  have skip: "\<forall>next \<in> set skipped. \<exists>msg. ReadMessage next = Inr msg \<and> (case msg of MutationResult r \<Rightarrow> Some r | _ \<Rightarrow> None) = None"
    using assms(3) by (fastforce split: message.split)
  show ?thesis
    by (simp add: Mutate_def sent WaitForMutationResult_def wait_for_skip [OF skip] read err readError_def)
qed

lemma Mutate_gets_first_result_witness:
  "\<exists>js conn. Mutate None zero_mutationRequest ([] @ Inr js # conn) = Some (Inr zero_mutationResult, conn)"
proof -
  have ok: "ok_message (MutationResult zero_mutationResult)"
    by (simp add: ok_mutationResult_def zero_mutationResult_def ok_currentConfig_def zero_currentConfig_def ok_apiRules_def
        zero_apiRules_def ok_adminConfig_def zero_adminConfig_def ok_apiSocksProxyState_def zero_apiSocksProxyState_def ascii_valid)
  then obtain js where "WriteMessage (MutationResult zero_mutationResult) = Inr js"
    using message_roundtrip_aux by blast
  from Mutate_gets_first_result [OF ok this, of "[]"] show ?thesis by fastforce
qed

end
