(* ===== verification/Snapshot.thy ===== *)
theory Snapshot
  imports PolicyManager Protocol
begin

text \<open>
  What the daemon tells its clients: the \<open>api*\<close> functions of \<open>effective_policy.go\<close> and
  \<open>socks_proxy.go\<close>, and the snapshots of \<open>policy_manager.go\<close>. Go walks a map in an order that is
  chosen anew for every loop; the order of the \<open>n\<close>-th loop of a call is the argument \<open>walks n\<close>.
\<close>

type_synonym walk_order = "nat \<Rightarrow> int list \<Rightarrow> int list"

definition range_ok :: "walk_order \<Rightarrow> bool" where
  "range_ok walks \<longleftrightarrow> (\<forall>n is. mset (walks n is) = mset is)"

definition map_range :: "walk_order \<Rightarrow> nat \<Rightarrow> (int, 'v) fmap \<Rightarrow> int list" where
  "map_range walks n m = walks n (sorted_list_of_fset (fmdom m))"

section \<open>Parts of the snapshot\<close>

definition apiRulesets :: "ruleset list \<Rightarrow> string set \<Rightarrow> apiRuleset list" where
  "apiRulesets rulesets activeNames = map (\<lambda>ruleset.
     \<lparr>ars_Name = rset_Name ruleset, ars_Active = (\<not> rset_Disabled ruleset \<and> rset_Name ruleset \<in> activeNames),
      ars_Disabled = rset_Disabled ruleset, ars_MatchAll = rset_MatchAll ruleset,
      ars_Trigger = \<lparr>atr_InterfaceTypes = cloneStrings (tr_InterfaceTypes (rset_Trigger ruleset)),
        atr_InterfaceNames = cloneStrings (tr_InterfaceNames (rset_Trigger ruleset)),
        atr_InterfaceRegexps = cloneStrings (tr_InterfaceRegexps (rset_Trigger ruleset)),
        atr_IPAddrs = apiAddrs (tr_IPAddrs (rset_Trigger ruleset)),
        atr_SSIDs = cloneStrings (tr_SSIDs (rset_Trigger ruleset)),
        atr_BSSIDs = cloneStrings (tr_BSSIDs (rset_Trigger ruleset)),
        atr_GatewayMACs = cloneStrings (tr_GatewayMACs (rset_Trigger ruleset))\<rparr>,
      ars_Policy = apiAllowRules (rset_Rules ruleset)\<rparr>) rulesets"

definition apiTemporaryRulesets :: "temporaryRuleset list \<Rightarrow> apiTmpRuleset list" where
  "apiTemporaryRulesets rulesets = map (\<lambda>ruleset.
     \<lparr>atmp_Client = tmp_Owner ruleset, atmp_Interfaces = cloneStrings (tmp_Interfaces ruleset),
      atmp_Policy = apiAllowRules (tmp_Rules ruleset)\<rparr>) rulesets"

definition apiForceRulesets :: "forceRuleset list \<Rightarrow> apiForceRuleset list" where
  "apiForceRulesets rulesets = map (\<lambda>ruleset.
     \<lparr>afr_Name = fr_Name ruleset, afr_Clients = cloneStrings (fr_Owners ruleset),
      afr_Interfaces = cloneStrings (fr_Interfaces ruleset)\<rparr>) rulesets"

text \<open>The indexes are sorted by name and index of the policy they stand for.\<close>

definition apiInterfacePolicies :: "int list \<Rightarrow> policies \<Rightarrow> apiInterfacePolicy list" where
  "apiInterfacePolicies walk current =
     (let indexes = sort_slice (\<lambda>i j. policy_less (the (fmlookup current i)) (the (fmlookup current j))) walk
      in map (\<lambda>index. let p = the (fmlookup current index) in
        \<lparr>aip_Index = ii_Index (ip_Info p), aip_Name = ii_Name (ip_Info p), aip_Type = ii_Type (ip_Info p),
         aip_SSID = ii_SSID (ip_Info p), aip_BSSID = ii_BSSID (ip_Info p), aip_GatewayMACs = cloneStrings (ii_GatewayMACs (ip_Info p)),
         aip_Matched = True, aip_Attached = True, aip_EffectivePolicy = apiAllowRules (ip_Rules p),
         aip_ActiveRulesets = cloneStrings (ip_ActiveRulesets p), aip_ForcedRulesets = cloneStrings (ip_ForcedRulesets p),
         aip_TemporaryRulesets = cloneStrings (ip_TemporaryRulesets p)\<rparr>) indexes)"

text \<open>\<open>%08x\<close>: hexadecimal, with zeros up to eight digits.\<close>

definition format_08x :: "u32 \<Rightarrow> string" where
  "format_08x w = (let s = utoa 16 (unat w) in replicate (8 - length s) CHR ''0'' @ s)"

definition apiSocksProxyState_of :: "socksProxyState \<Rightarrow> apiSocksProxyState" where
  "apiSocksProxyState_of state =
     \<lparr>asp_Enabled = ss_Enabled state, asp_Running = ss_Running state, asp_Host = defaultSocksProxyHost,
      asp_Port = ss_Port state, asp_FWMark = ''0x'' @ format_08x (ss_FWMark state), asp_DNSServer = ss_DNSServer state,
      asp_LastError = ss_LastError state\<rparr>"

text \<open>The notifications are the calls of \<open>notifyError\<close>: a header and an error.\<close>

type_synonym error_notice = "string \<times> error"

definition interface_of_info :: "regexps \<Rightarrow> options \<Rightarrow> int fset \<Rightarrow> interfaceInfo \<Rightarrow> apiInterface" where
  "interface_of_info rx opts attached iface =
     \<lparr>aif_Index = ii_Index iface, aif_Name = ii_Name iface, aif_Type = ii_Type iface, aif_Addrs = apiAddrs (elems (ii_Addrs iface)),
      aif_SSID = ii_SSID iface, aif_BSSID = ii_BSSID iface, aif_GatewayMACs = cloneStrings (ii_GatewayMACs iface),
      aif_Matched = (case interfaceMatchesSelectors rx iface opts of Inl err \<Rightarrow> False | Inr matched \<Rightarrow> matched),
      aif_Killswitch = (ii_Index iface |\<in>| attached)\<rparr>"

definition apiInterfaces :: "regexps \<Rightarrow> interfaceInfo list \<Rightarrow> options \<Rightarrow> egressManager \<Rightarrow> apiInterface list \<times> error_notice list" where
  "apiInterfaces rx all opts manager =
     (sort_slice (\<lambda>a b. aif_Name a < aif_Name b) (map (interface_of_info rx opts (attachedIndexSnapshot manager)) all),
      concat (map (\<lambda>iface. case interfaceMatchesSelectors rx iface opts of
        Inl err \<Rightarrow> [(''Admin API snapshot error'', err)] | Inr _ \<Rightarrow> []) all))"

section \<open>The whole snapshot\<close>

definition configSnapshot :: "walk_order \<Rightarrow> policyManager \<Rightarrow> currentConfig" where
  "configSnapshot walks pm =
     (let current = (if pm_set pm then cloneInterfacePolicyMap (pm_current pm) else fmempty);
          opts = cloneOptions (pm_opts pm);
          tmpRulesets = cloneTemporaryRulesets (pm_tmpRulesets pm);
          forceRulesets = cloneForceRulesets (pm_forceRulesets pm)
      in \<lparr>cc_InterfaceTypes = cloneStrings (o_InterfaceTypes opts), cc_InterfaceNames = cloneStrings (o_InterfaceNames opts),
          cc_InterfaceRegexps = cloneStrings (o_InterfaceRegexps opts),
          cc_IgnoredInterfaceTypes = cloneStrings (o_IgnoredInterfaceTypes opts),
          cc_IgnoredInterfaceNames = cloneStrings (o_IgnoredInterfaceNames opts),
          cc_IgnoredInterfaceRegexps = cloneStrings (o_IgnoredInterfaceRegexps opts),
          cc_Interfaces = [],
          cc_BasePolicy = apiAllowRules (o_Rules opts),
          cc_EffectivePolicy = apiAllowRules (firstEffectivePolicy (map_range walks 0 current) current (o_Rules opts)),
          cc_ActiveRuleset = firstActiveRuleset (map_range walks 1 current) current,
          cc_EffectiveInterfaces = apiInterfacePolicies (map_range walks 2 current) current,
          cc_Rulesets = apiRulesets (o_Rulesets opts) (activeRulesetSet (map_range walks 3 current) current),
          cc_ForceActiveRulesets = apiForceRulesets forceRulesets,
          cc_TemporaryRulesets = apiTemporaryRulesets tmpRulesets,
          cc_Clients = [],
          cc_AdminAPI = \<lparr>acfg_SocketPath = ao_SocketPath (o_AdminAPI opts), acfg_Debug = ao_Debug (o_AdminAPI opts)\<rparr>,
          cc_SocksProxy = apiSocksProxyState_of (pm_socksProxy pm)\<rparr>)"

definition currentConfigSnapshot ::
  "walk_order \<Rightarrow> regexps \<Rightarrow> nl_link list res \<Rightarrow> policyManager \<Rightarrow> egressManager \<Rightarrow> clientInfo list \<Rightarrow> currentConfig \<times> error_notice list" where
  "currentConfigSnapshot walks rx links policies manager clients =
     (let cfg = configSnapshot walks policies;
          opts = optionsSnapshot policies
      in case listInterfaces links of
           Inl err \<Rightarrow> (cfg\<lparr>cc_Clients := clients\<rparr>, [(''Admin API snapshot error'', err)])
         | Inr all \<Rightarrow> (let (ifaces, notices) = apiInterfaces rx all opts manager
                       in (cfg\<lparr>cc_Interfaces := ifaces, cc_Clients := clients\<rparr>, notices)))"

section \<open>What a snapshot shows\<close>

lemma map_range_mset: "range_ok walks \<Longrightarrow> mset (map_range walks n m) = mset (sorted_list_of_fset (fmdom m))"
  by (simp add: map_range_def range_ok_def)

lemma map_range_set: "range_ok walks \<Longrightarrow> set (map_range walks n m) = fset (fmdom m)"
  using map_range_mset [of walks n m, THEN mset_eq_setD] by (simp add: sorted_list_of_fset.rep_eq)

lemma map_range_distinct: "range_ok walks \<Longrightarrow> distinct (map_range walks n m)"
  using map_range_mset [of walks n m, THEN mset_eq_imp_distinct_iff] by (simp add: sorted_list_of_fset.rep_eq)

definition shown_policy :: "interfacePolicy \<Rightarrow> apiInterfacePolicy" where
  "shown_policy p =
     \<lparr>aip_Index = ii_Index (ip_Info p), aip_Name = ii_Name (ip_Info p), aip_Type = ii_Type (ip_Info p),
      aip_SSID = ii_SSID (ip_Info p), aip_BSSID = ii_BSSID (ip_Info p), aip_GatewayMACs = ii_GatewayMACs (ip_Info p),
      aip_Matched = True, aip_Attached = True, aip_EffectivePolicy = apiAllowRules (ip_Rules p),
      aip_ActiveRulesets = ip_ActiveRulesets p, aip_ForcedRulesets = ip_ForcedRulesets p,
      aip_TemporaryRulesets = ip_TemporaryRulesets p\<rparr>"

lemma apiInterfacePolicies_eq:
  "apiInterfacePolicies walk current =
     map (\<lambda>i. shown_policy (the (fmlookup current i)))
       (sort_slice (\<lambda>i j. policy_less (the (fmlookup current i)) (the (fmlookup current j))) walk)"
  by (simp add: apiInterfacePolicies_def Let_def shown_policy_def)

lemma policy_less_key: "policy_less a b \<longleftrightarrow> (ii_Name (ip_Info a), ii_Index (ip_Info a)) < (ii_Name (ip_Info b), ii_Index (ip_Info b))"
  by (auto simp: policy_less_def less_prod_def')

lemma apiInterfacePolicies_sorted: "sorted (map aip_Name (apiInterfacePolicies walk current))"
proof -
  let ?key = "\<lambda>i. (ii_Name (ip_Info (the (fmlookup current i))), ii_Index (ip_Info (the (fmlookup current i))))"
  have "map aip_Name (apiInterfacePolicies walk current) = map fst (map ?key (sort_key ?key walk))"
    unfolding apiInterfacePolicies_eq policy_less_key sort_slice_key by (simp add: comp_def shown_policy_def)
  moreover have "sorted (map fst ks)" if "sorted ks" for ks :: "(string \<times> int) list"
    using that by (induction ks) (auto simp: less_eq_prod_def)
  ultimately show ?thesis by (simp only: sorted_sort_key)
qed

lemma apiInterfacePolicies_set:
  "set (apiInterfacePolicies walk current) = (\<lambda>i. shown_policy (the (fmlookup current i))) ` set walk"
  by (simp add: apiInterfacePolicies_eq)

lemma shown_clone [simp]: "shown_policy (cloneInterfacePolicy p) = shown_policy p"
  by (simp add: shown_policy_def cloneInterfacePolicy_def)

section \<open>Properties\<close>

definition in_order :: walk_order where
  "in_order n is = is"

lemma in_order_ok: "range_ok in_order"
  by (simp add: range_ok_def in_order_def)

text \<open>C15: a snapshot lists every interface with a policy in force exactly once, sorted by name, with that
  policy, and it calls a rule set active exactly when it is not disabled and active on some of them.\<close>

theorem snapshot_shows_policies_in_force:
  assumes "range_ok walks" and "pm_set pm"
  shows "set (cc_EffectiveInterfaces (configSnapshot walks pm)) =
      {shown_policy p |p i. fmlookup (pm_current pm) i = Some p} \<and>
    length (cc_EffectiveInterfaces (configSnapshot walks pm)) = fcard (fmdom (pm_current pm)) \<and>
    sorted (map aip_Name (cc_EffectiveInterfaces (configSnapshot walks pm))) \<and>
    {ars_Name rs |rs. rs \<in> set (cc_Rulesets (configSnapshot walks pm)) \<and> ars_Active rs} =
      {rset_Name rs |rs. rs \<in> set (o_Rulesets (pm_opts pm)) \<and> \<not> rset_Disabled rs \<and>
         (\<exists>i p. fmlookup (pm_current pm) i = Some p \<and> rset_Name rs \<in> set (ip_ActiveRulesets p))}"
proof (intro conjI)
  let ?cur = "cloneInterfacePolicyMap (pm_current pm)"
  have ei: "cc_EffectiveInterfaces (configSnapshot walks pm) = apiInterfacePolicies (map_range walks 2 ?cur) ?cur"
    and rs: "cc_Rulesets (configSnapshot walks pm) = apiRulesets (o_Rulesets (pm_opts pm)) (activeRulesetSet (map_range walks 3 ?cur) ?cur)"
    using assms(2) by (simp_all add: configSnapshot_def Let_def)
  have dom: "i \<in> set (map_range walks n ?cur) \<longleftrightarrow> (\<exists>p. fmlookup (pm_current pm) i = Some p)" for i n
    by (simp add: map_range_set [OF assms(1)] fmlookup_dom_iff)
  show "set (cc_EffectiveInterfaces (configSnapshot walks pm)) = {shown_policy p |p i. fmlookup (pm_current pm) i = Some p}"
    by (force simp: ei apiInterfacePolicies_set dom image_iff)
  show "length (cc_EffectiveInterfaces (configSnapshot walks pm)) = fcard (fmdom (pm_current pm))"
    using map_range_mset [OF assms(1), of 2 ?cur, THEN mset_eq_length]
    by (simp add: ei apiInterfacePolicies_eq sorted_list_of_fset.rep_eq fcard.rep_eq)
  show "sorted (map aip_Name (cc_EffectiveInterfaces (configSnapshot walks pm)))"
    unfolding ei by (rule apiInterfacePolicies_sorted)
  have act: "activeRulesetSet (map_range walks 3 ?cur) ?cur = {name. \<exists>i p. fmlookup (pm_current pm) i = Some p \<and> name \<in> set (ip_ActiveRulesets p)}"
    by (force simp: activeRulesetSet_def dom)
  show "{ars_Name rs |rs. rs \<in> set (cc_Rulesets (configSnapshot walks pm)) \<and> ars_Active rs} =
      {rset_Name rs |rs. rs \<in> set (o_Rulesets (pm_opts pm)) \<and> \<not> rset_Disabled rs \<and>
         (\<exists>i p. fmlookup (pm_current pm) i = Some p \<and> rset_Name rs \<in> set (ip_ActiveRulesets p))}"
    unfolding rs act by (force simp: apiRulesets_def)
qed

lemma snapshot_shows_policies_in_force_witness:
  "length (cc_EffectiveInterfaces (configSnapshot in_order leak_manager)) = 2"
  using snapshot_shows_policies_in_force [OF in_order_ok, of leak_manager]
  by (simp add: leak_manager_def leak_policies_def leak_ifaces_def example_iface_def fcard.rep_eq)

text \<open>The field \<open>effective_policy\<close> of a snapshot has no meaning of its own when several
  interfaces have policies: the policy of each of them can be the one shown there, because the first policy
  that a walk over a Go map meets is taken.\<close>

theorem snapshot_effective_policy_is_arbitrary:
  assumes "pm_set pm" and "fmlookup (pm_current pm) i = Some p"
  shows "\<exists>walks. range_ok walks \<and> cc_EffectivePolicy (configSnapshot walks pm) = apiAllowRules (ip_Rules p)"
proof -
  let ?walks = "\<lambda>_ is. if i \<in> set is then i # remove1 i is else is"
  have ok: "range_ok ?walks" by (auto simp: range_ok_def)
  have "i \<in> set (sorted_list_of_fset (fmdom (pm_current pm)))"
    using assms(2) by (simp add: sorted_list_of_fset.rep_eq fmdomI)
  then have "cc_EffectivePolicy (configSnapshot ?walks pm) = apiAllowRules (ip_Rules p)"
    using assms by (simp add: configSnapshot_def Let_def map_range_def firstEffectivePolicy_def)
  with ok show ?thesis by blast
qed

lemma snapshot_effective_policy_is_arbitrary_witness:
  "\<exists>walks. range_ok walks \<and> cc_EffectivePolicy (configSnapshot walks leak_manager) = apiAllowRules no_rules"
  using snapshot_effective_policy_is_arbitrary [of leak_manager 3]
  by (simp add: leak_manager_def leak_policies_def leak_ifaces_def example_iface_def)

end
