(* ===== verification/AdminMutation.thy ===== *)
theory AdminMutation
  imports Snapshot
begin

text \<open>
  \<open>cmd/killswitch/admin_mutation.go\<close>: how a request changes the options, and the handlers that change the
  state of the managers and reconcile. A \<open>RawMessage\<close> that is present holds exactly one JSON value, so
  that the check for a second value after it can never fail and is left out. Each handler runs under the
  mutex \<open>reconcileMu\<close> and is one function on the state of the daemon.
\<close>

section \<open>Values of a request\<close>

definition wrapJson :: "string \<Rightarrow> 'a res \<Rightarrow> 'a res" where
  "wrapJson fmt m = wrapR fmt [] m"

definition mutationStringValues :: "mutationRequest \<Rightarrow> string list res" where
  "mutationStringValues req =
     (if mr_Values req \<noteq> [] then Inr (cloneStrings (mr_Values req))
      else case mr_Value req of
        None \<Rightarrow> Inl (Err ''mutation values are required'')
      | Some js \<Rightarrow>
          (case dec_list dec_string [] js [] of
             Inr values \<Rightarrow> Inr values
           | Inl _ \<Rightarrow> bindR (wrapJson ''decode mutation value as string or string array'' (dec_string js [])) (\<lambda>v. Inr [v])))"

definition mutateStringList :: "mutationRequest \<Rightarrow> string list \<Rightarrow> string list res" where
  "mutateStringList req dst =
     bindR (mutationStringValues req) (\<lambda>values.
     Inr (if mr_Operation req = ''add'' then uniqueStrings (dst @ values)
          else if mr_Operation req = ''remove'' then removeStrings dst values
          else if mr_Operation req = ''set'' then uniqueStrings values
          else dst))"

definition mutateBool :: "mutationRequest \<Rightarrow> bool res" where
  "mutateBool req =
     (if mr_Operation req \<noteq> ''set'' then Inl (Err ''boolean fields only support set'')
      else case mr_Value req of
        None \<Rightarrow> Inl (Err ''boolean mutation value is required'')
      | Some js \<Rightarrow> wrapJson ''decode boolean mutation value'' (dec_bool js False))"

section \<open>Allow rules\<close>

definition allowRulesFromAPI :: "apiRules option \<Rightarrow> json option \<Rightarrow> allowRules res" where
  "allowRulesFromAPI policyPtr raw =
     bindR (case policyPtr of
              Some policy \<Rightarrow> Inr policy
            | None \<Rightarrow> (case raw of
                None \<Rightarrow> Inl (Err ''allow rules value is required'')
              | Some js \<Rightarrow> wrapJson ''decode allow rules'' (dec_apiRules True js zero_apiRules))) (\<lambda>policy.
     allowRulesFromConfig (config_of_api policy))"

definition mutateAPIAllowRulesField :: "string \<Rightarrow> mutationRequest \<Rightarrow> apiRules \<Rightarrow> apiRules res" where
  "mutateAPIAllowRulesField field req rules =
     (if field = ''allowed_marks'' then bindR (mutateStringList req (aar_AllowedMarks rules)) (\<lambda>vs. Inr (rules\<lparr>aar_AllowedMarks := vs\<rparr>))
      else if field = ''allowed_ports'' then bindR (mutateStringList req (aar_AllowedPorts rules)) (\<lambda>vs. Inr (rules\<lparr>aar_AllowedPorts := vs\<rparr>))
      else if field = ''allowed_v4_hosts'' then bindR (mutateStringList req (aar_AllowedV4Hosts rules)) (\<lambda>vs. Inr (rules\<lparr>aar_AllowedV4Hosts := vs\<rparr>))
      else if field = ''allowed_v6_hosts'' then bindR (mutateStringList req (aar_AllowedV6Hosts rules)) (\<lambda>vs. Inr (rules\<lparr>aar_AllowedV6Hosts := vs\<rparr>))
      else if field = ''allowed_v4_hostports'' then bindR (mutateStringList req (aar_AllowedV4Pairs rules)) (\<lambda>vs. Inr (rules\<lparr>aar_AllowedV4Pairs := vs\<rparr>))
      else if field = ''allowed_v6_hostports'' then bindR (mutateStringList req (aar_AllowedV6Pairs rules)) (\<lambda>vs. Inr (rules\<lparr>aar_AllowedV6Pairs := vs\<rparr>))
      else Inl (Errf ''unsupported allow rules field %q'' [field]))"

definition api_list_fields :: "string list" where
  "api_list_fields = [''allowed_marks'', ''allowed_ports'', ''allowed_v4_hosts'', ''allowed_v6_hosts'', ''allowed_v4_hostports'', ''allowed_v6_hostports'']"

definition mutateAllowRulesField :: "string \<Rightarrow> mutationRequest \<Rightarrow> allowRules \<Rightarrow> allowRules res" where
  "mutateAllowRulesField field req rules =
     (if field = ''allow_all'' then bindR (mutateBool req) (\<lambda>b. Inr (rules\<lparr>ar_AllowAll := b\<rparr>))
      else if field = ''enable_v4'' then bindR (mutateBool req) (\<lambda>b. Inr (rules\<lparr>ar_EnableV4 := b\<rparr>))
      else if field = ''enable_v6'' then bindR (mutateBool req) (\<lambda>b. Inr (rules\<lparr>ar_EnableV6 := b\<rparr>))
      else if field \<in> set api_list_fields then
        bindR (mutateAPIAllowRulesField field req (apiAllowRules rules)) (\<lambda>api. allowRulesFromAPI (Some api) None)
      else Inl (Errf ''unsupported allow rules field %q'' [field]))"

section \<open>Rule sets\<close>

definition sortRulesets :: "ruleset list \<Rightarrow> ruleset list" where
  "sortRulesets rulesets = sort_slice (\<lambda>a b. rset_Name a < rset_Name b) rulesets"

definition removeRuleset :: "ruleset list \<Rightarrow> string \<Rightarrow> ruleset list" where
  "removeRuleset rulesets name =
     (let idx = findRuleset rulesets name in
      if idx < 0 then rulesets else take (nat idx) rulesets @ drop (nat idx + 1) rulesets)"

definition upsertRuleset :: "ruleset list \<Rightarrow> ruleset \<Rightarrow> ruleset list" where
  "upsertRuleset rulesets rs =
     (let idx = findRuleset rulesets (rset_Name rs) in
      sortRulesets (if idx < 0 then rulesets @ [rs] else rulesets[nat idx := rs]))"

definition config_of_trigger :: "apiTrigger \<Rightarrow> triggerConfig" where
  "config_of_trigger api =
     \<lparr>tc_InterfaceTypes = atr_InterfaceTypes api, tc_InterfaceNames = atr_InterfaceNames api,
      tc_InterfaceRegexps = atr_InterfaceRegexps api, tc_IPAddrs = atr_IPAddrs api, tc_SSIDs = atr_SSIDs api,
      tc_BSSIDs = atr_BSSIDs api, tc_GatewayMACs = atr_GatewayMACs api\<rparr>"

definition rulesetFromAPI :: "regexps \<Rightarrow> string \<Rightarrow> rulesetMutation option \<Rightarrow> json option \<Rightarrow> ruleset res" where
  "rulesetFromAPI rx name rulesetPtr raw =
     bindR (case rulesetPtr of
              Some api \<Rightarrow> Inr api
            | None \<Rightarrow> (case raw of
                None \<Rightarrow> Inl (Err ''ruleset value is required'')
              | Some js \<Rightarrow> wrapJson ''decode ruleset'' (dec_rulesetMutation True js zero_rulesetMutation))) (\<lambda>api.
     bindR (triggerFromConfig rx (config_of_trigger (rm_Trigger api))) (\<lambda>trigger.
     bindR (allowRulesFromAPI (Some (rm_Policy api)) None) (\<lambda>rules.
     Inr \<lparr>rset_Name = name, rset_Disabled = rm_Disabled api, rset_MatchAll = rm_MatchAll api, rset_Trigger = trigger,
          rset_Rules = rules\<rparr>)))"

definition mutateWholeRuleset :: "regexps \<Rightarrow> mutationRequest \<Rightarrow> ruleset list \<Rightarrow> ruleset list res" where
  "mutateWholeRuleset rx req rulesets =
     (if mr_Ruleset req = [] then Inl (Err ''ruleset name is required'')
      else if mr_Operation req = ''remove'' then Inr (removeRuleset rulesets (mr_Ruleset req))
      else if mr_Operation req = ''add'' \<or> mr_Operation req = ''set'' then
        bindR (rulesetFromAPI rx (mr_Ruleset req) (mr_RulesetDef req) (mr_Value req)) (\<lambda>rulesetDef.
        if mr_Operation req = ''add'' \<and> 0 \<le> findRuleset rulesets (mr_Ruleset req)
        then Inl (Errf ''ruleset %q already exists'' [mr_Ruleset req])
        else Inr (upsertRuleset rulesets rulesetDef))
      else Inl (Errf ''unsupported ruleset operation %q'' [mr_Operation req]))"

definition validateRegexps :: "regexps \<Rightarrow> string \<Rightarrow> string list \<Rightarrow> unit res" where
  "validateRegexps rx field values = compile_all rx (''compile '' @ field @ '' %q'') values"

definition mutatedMACList :: "string \<Rightarrow> string list \<Rightarrow> mutationRequest \<Rightarrow> string list res" where
  "mutatedMACList field current req = bindR (mutateStringList req (cloneStrings current)) (normalizeMACList field)"

text \<open>The switch of \<open>mutateRulesetField\<close> over the fields of a trigger; \<open>None\<close> is another field.\<close>

definition mutate_trigger :: "regexps \<Rightarrow> string \<Rightarrow> mutationRequest \<Rightarrow> rulesetTrigger \<Rightarrow> rulesetTrigger res option" where
  "mutate_trigger rx field req t =
     (if field = ''trigger.interface_types'' then Some (bindR (mutateStringList req (tr_InterfaceTypes t)) (\<lambda>vs. Inr (t\<lparr>tr_InterfaceTypes := vs\<rparr>)))
      else if field = ''trigger.interface_names'' then Some (bindR (mutateStringList req (tr_InterfaceNames t)) (\<lambda>vs. Inr (t\<lparr>tr_InterfaceNames := vs\<rparr>)))
      else if field = ''trigger.interface_regexps'' then
        Some (bindR (mutateStringList req (tr_InterfaceRegexps t)) (\<lambda>vs.
              bindR (validateRegexps rx ''ruleset trigger interface_regexps'' vs) (\<lambda>_. Inr (t\<lparr>tr_InterfaceRegexps := vs\<rparr>))))
      else if field = ''trigger.ip_addrs'' then
        Some (bindR (mutateStringList req (apiAddrs (tr_IPAddrs t))) (\<lambda>vs.
              triggerFromConfig rx
                \<lparr>tc_InterfaceTypes = tr_InterfaceTypes t, tc_InterfaceNames = tr_InterfaceNames t,
                 tc_InterfaceRegexps = tr_InterfaceRegexps t, tc_IPAddrs = vs, tc_SSIDs = tr_SSIDs t,
                 tc_BSSIDs = tr_BSSIDs t, tc_GatewayMACs = tr_GatewayMACs t\<rparr>))
      else if field = ''trigger.ssids'' then Some (bindR (mutateStringList req (tr_SSIDs t)) (\<lambda>vs. Inr (t\<lparr>tr_SSIDs := vs\<rparr>)))
      else if field = ''trigger.bssids'' then
        Some (bindR (mutatedMACList ''ruleset trigger bssids'' (tr_BSSIDs t) req) (\<lambda>vs. Inr (t\<lparr>tr_BSSIDs := vs\<rparr>)))
      else if field = ''trigger.gateway_macs'' then
        Some (bindR (mutatedMACList ''ruleset trigger gateway_macs'' (tr_GatewayMACs t) req) (\<lambda>vs. Inr (t\<lparr>tr_GatewayMACs := vs\<rparr>)))
      else None)"

definition policy_fields :: "string list" where
  "policy_fields = map ((@) ''policy.'') ([''allow_all'', ''enable_v4'', ''enable_v6''] @ api_list_fields)"

definition mutate_ruleset :: "regexps \<Rightarrow> string \<Rightarrow> mutationRequest \<Rightarrow> ruleset \<Rightarrow> ruleset res" where
  "mutate_ruleset rx field req rs =
     (if field = ''disabled'' then bindR (mutateBool req) (\<lambda>b. Inr (rs\<lparr>rset_Disabled := b\<rparr>))
      else if field = ''match_all'' then bindR (mutateBool req) (\<lambda>b. Inr (rs\<lparr>rset_MatchAll := b\<rparr>))
      else case mutate_trigger rx field req (rset_Trigger rs) of
        Some m \<Rightarrow> bindR m (\<lambda>t. Inr (rs\<lparr>rset_Trigger := t\<rparr>))
      | None \<Rightarrow>
          (if field \<in> set policy_fields
           then bindR (mutateAllowRulesField (strings_TrimPrefix field ''policy.'') req (rset_Rules rs)) (\<lambda>r. Inr (rs\<lparr>rset_Rules := r\<rparr>))
           else Inl (Errf ''unsupported ruleset field %q'' [field])))"

definition mutateRulesetField :: "regexps \<Rightarrow> string \<Rightarrow> mutationRequest \<Rightarrow> ruleset list \<Rightarrow> ruleset list res" where
  "mutateRulesetField rx field req rulesets =
     (if mr_Ruleset req = [] then Inl (Err ''ruleset name is required'')
      else let idx = findRuleset rulesets (mr_Ruleset req) in
        (if idx < 0 then Inl (Errf ''ruleset %q does not exist'' [mr_Ruleset req])
         else bindR (mutate_ruleset rx field req (rulesets ! nat idx)) (\<lambda>rs.
              bindR (guardR (\<not> rulesetTriggerHasPredicates (rset_Trigger rs)) triggerRequired) (\<lambda>_.
              Inr (sortRulesets (rulesets[nat idx := rs]))))))"

section \<open>\<open>mutateOptions\<close>\<close>

definition mutate_target :: "regexps \<Rightarrow> mutationRequest \<Rightarrow> options \<Rightarrow> options res" where
  "mutate_target rx req next =
     (let target = mr_Target req in
      if target = ''interface_types'' then bindR (mutateStringList req (o_InterfaceTypes next)) (\<lambda>vs. Inr (next\<lparr>o_InterfaceTypes := vs\<rparr>))
      else if target = ''interface_names'' then bindR (mutateStringList req (o_InterfaceNames next)) (\<lambda>vs. Inr (next\<lparr>o_InterfaceNames := vs\<rparr>))
      else if target = ''interface_regexps'' then
        bindR (mutateStringList req (o_InterfaceRegexps next)) (\<lambda>vs.
        bindR (validateRegexps rx ''interface_regexps'' vs) (\<lambda>_. Inr (next\<lparr>o_InterfaceRegexps := vs\<rparr>)))
      else if target = ''ignored_interface_types'' then
        bindR (mutateStringList req (o_IgnoredInterfaceTypes next)) (\<lambda>vs. Inr (next\<lparr>o_IgnoredInterfaceTypes := vs\<rparr>))
      else if target = ''ignored_interface_names'' then
        bindR (mutateStringList req (o_IgnoredInterfaceNames next)) (\<lambda>vs. Inr (next\<lparr>o_IgnoredInterfaceNames := vs\<rparr>))
      else if target = ''ignored_interface_regexps'' then
        bindR (mutateStringList req (o_IgnoredInterfaceRegexps next)) (\<lambda>vs.
        bindR (validateRegexps rx ''ignored_interface_regexps'' vs) (\<lambda>_. Inr (next\<lparr>o_IgnoredInterfaceRegexps := vs\<rparr>)))
      else if target = ''base_policy'' then
        (if mr_Operation req \<noteq> ''set'' then Inl (Err ''base_policy only supports set'')
         else bindR (allowRulesFromAPI (mr_Policy req) (mr_Value req)) (\<lambda>rules. Inr (next\<lparr>o_Rules := rules\<rparr>)))
      else if target = ''ruleset'' then bindR (mutateWholeRuleset rx req (o_Rulesets next)) (\<lambda>rss. Inr (next\<lparr>o_Rulesets := rss\<rparr>))
      else if strings_HasPrefix target ''base_policy.'' then
        bindR (mutateAllowRulesField (strings_TrimPrefix target ''base_policy.'') req (o_Rules next)) (\<lambda>r. Inr (next\<lparr>o_Rules := r\<rparr>))
      else if strings_HasPrefix target ''ruleset.'' then
        bindR (mutateRulesetField rx (strings_TrimPrefix target ''ruleset.'') req (o_Rulesets next)) (\<lambda>rss. Inr (next\<lparr>o_Rulesets := rss\<rparr>))
      else Inl (Errf ''unsupported mutation target %q'' [target]))"

definition mutateOptions :: "regexps \<Rightarrow> options \<Rightarrow> mutationRequest \<Rightarrow> options res" where
  "mutateOptions rx opts req =
     (let next = cloneOptions opts in
      if strings_HasPrefix (mr_Target req) ''admin_api'' \<or> mr_Target req = ''admin_api''
      then Inl (Err ''admin_api configuration cannot be mutated via admin API'')
      else if mr_Operation req \<notin> {''add'', ''remove'', ''set''} then Inl (Errf ''unsupported mutation operation %q'' [mr_Operation req])
      else if mr_Target req = [] then Inl (Err ''mutation target is required'')
      else bindR (mutate_target rx req next) (\<lambda>next.
        bindR (guardR (o_InterfaceTypes next = [] \<and> o_InterfaceNames next = [] \<and> o_InterfaceRegexps next = []) selectorRequired) (\<lambda>_.
        Inr next)))"

section \<open>The invariant of options is kept\<close>

lemma rules_ok_flags [simp]: "rules_ok (r\<lparr>ar_AllowAll := b\<rparr>) = rules_ok r"
  "rules_ok (r\<lparr>ar_EnableV4 := b\<rparr>) = rules_ok r" "rules_ok (r\<lparr>ar_EnableV6 := b\<rparr>) = rules_ok r"
  by (simp_all add: rules_ok_def)

lemma mutateAllowRulesField_ok:
  assumes "rules_ok r" and "mutateAllowRulesField field req r = Inr r'"
  shows "rules_ok r'"
  using assms by (auto simp: mutateAllowRulesField_def bindR_Inr allowRulesFromAPI_def allowRulesFromConfig_ok
      split: if_splits)

lemma allowRulesFromAPI_ok: "allowRulesFromAPI p raw = Inr r \<Longrightarrow> rules_ok r"
  by (auto simp: allowRulesFromAPI_def bindR_Inr allowRulesFromConfig_ok)

text \<open>What a trigger satisfies apart from having a predicate.\<close>

definition trigger_sound :: "regexps \<Rightarrow> rulesetTrigger \<Rightarrow> bool" where
  "trigger_sound rx t \<longleftrightarrow> patterns_ok rx (tr_InterfaceRegexps t) \<and> list_all (\<lambda>a. \<not> Is4In6 a) (tr_IPAddrs t)"

lemma mutate_trigger_ok:
  "trigger_sound rx t \<Longrightarrow> mutate_trigger rx field req t = Some m \<Longrightarrow> m = Inr t' \<Longrightarrow> trigger_sound rx t'"
  by (auto simp: mutate_trigger_def trigger_sound_def bindR_Inr validateRegexps_def compile_all_Inr trigger_ok_def
      dest!: triggerFromConfig_ok split: if_splits)

lemma mutate_ruleset_ok:
  assumes "ruleset_ok rx rs" and "mutate_ruleset rx field req rs = Inr rs'"
    and "rulesetTriggerHasPredicates (rset_Trigger rs')"
  shows "ruleset_ok rx rs'" and "rset_Name rs' = rset_Name rs"
proof -
  have "rset_Name rs' = rset_Name rs \<and> trigger_sound rx (rset_Trigger rs') \<and> rules_ok (rset_Rules rs')"
    using assms(1,2) mutate_trigger_ok [of rx "rset_Trigger rs" field req] mutateAllowRulesField_ok [of "rset_Rules rs"]
    by (auto simp: mutate_ruleset_def bindR_Inr ruleset_ok_def trigger_ok_def trigger_sound_def split: if_splits option.splits)
  then show "ruleset_ok rx rs'" "rset_Name rs' = rset_Name rs"
    using assms(1,3) by (auto simp: ruleset_ok_def trigger_ok_def trigger_sound_def)
qed

text \<open>The list of rule sets: valid ones under strictly ascending names.\<close>

definition rulesets_ok :: "regexps \<Rightarrow> ruleset list \<Rightarrow> bool" where
  "rulesets_ok rx rss \<longleftrightarrow> list_all (ruleset_ok rx) rss \<and> sorted_wrt (<) (map rset_Name rss)"

lemma rulesets_ok_distinct: "rulesets_ok rx rss \<Longrightarrow> distinct (map rset_Name rss)"
  by (simp add: rulesets_ok_def strict_sorted_iff)

lemma sortRulesets_ok:
  assumes "list_all (ruleset_ok rx) rss" and "distinct (map rset_Name rss)"
  shows "rulesets_ok rx (sortRulesets rss)" and "set (sortRulesets rss) = set rss"
proof -
  have "distinct (map rset_Name (sort_key rset_Name rss))"
    using assms(2) by (simp add: distinct_map)
  then show "rulesets_ok rx (sortRulesets rss)"
    using assms(1) by (simp add: sortRulesets_def sort_slice_key rulesets_ok_def strict_sorted_iff list_all_iff)
qed (simp add: sortRulesets_def)

lemma findRuleset_name:
  assumes "0 \<le> findRuleset rss name"
  shows "nat (findRuleset rss name) < length rss" and "rset_Name (rss ! nat (findRuleset rss name)) = name"
  using findRuleset_nth [OF assms] by (auto dest!: find_Some_in)

lemma removeRuleset_eq:
  assumes "rulesets_ok rx rss"
  shows "removeRuleset rss name = filter (\<lambda>rs. rset_Name rs \<noteq> name) rss"
proof (cases "0 \<le> findRuleset rss name")
  case True
  let ?i = "nat (findRuleset rss name)"
  note i = findRuleset_name [OF True]
  have split: "rss = take ?i rss @ rss ! ?i # drop (Suc ?i) rss"
    using i(1) by (simp add: id_take_nth_drop)
  have "distinct (map rset_Name (take ?i rss @ rss ! ?i # drop (Suc ?i) rss))"
    using rulesets_ok_distinct [OF assms] split by simp
  then have "\<forall>rs \<in> set (take ?i rss) \<union> set (drop (Suc ?i) rss). rset_Name rs \<noteq> name"
    using i(2) by (auto simp: image_iff)
  then have "filter (\<lambda>rs. rset_Name rs \<noteq> name) (take ?i rss @ rss ! ?i # drop (Suc ?i) rss) = take ?i rss @ drop (Suc ?i) rss"
    using i(2) by (simp add: filter_id_conv)
  then have "filter (\<lambda>rs. rset_Name rs \<noteq> name) rss = take ?i rss @ drop (Suc ?i) rss"
    by (simp only: split [symmetric])
  then show ?thesis
    using True by (simp add: removeRuleset_def Let_def)
next
  case False
  then have "\<forall>rs \<in> set rss. rset_Name rs \<noteq> name" using findRuleset_neg [of rss name] by auto
  with False show ?thesis by (simp add: removeRuleset_def filter_id_conv)
qed

lemma removeRuleset_ok: "rulesets_ok rx rss \<Longrightarrow> rulesets_ok rx (removeRuleset rss name)"
  by (auto simp: removeRuleset_eq rulesets_ok_def list_all_iff sorted_wrt_map intro: sorted_wrt_filter)

lemma replace_names:
  "i < length rss \<Longrightarrow> rset_Name rs = rset_Name (rss ! i) \<Longrightarrow> map rset_Name (rss[i := rs]) = map rset_Name rss"
  by (simp add: map_update list_update_same_conv)

lemma list_all_update: "list_all P xs \<Longrightarrow> P x \<Longrightarrow> list_all P (xs[i := x])"
  by (auto simp: list_all_iff dest!: set_update_subset_insert [THEN subsetD])

lemma upsertRuleset_ok:
  assumes "rulesets_ok rx rss" and "ruleset_ok rx rs"
  shows "rulesets_ok rx (upsertRuleset rss rs)"
proof (cases "0 \<le> findRuleset rss (rset_Name rs)")
  case True
  note i = findRuleset_name [OF True]
  have "distinct (map rset_Name (rss[nat (findRuleset rss (rset_Name rs)) := rs]))"
    using replace_names [OF i(1), of rs] i(2) rulesets_ok_distinct [OF assms(1)] by simp
  moreover have "list_all (ruleset_ok rx) (rss[nat (findRuleset rss (rset_Name rs)) := rs])"
    using assms by (intro list_all_update) (simp_all add: rulesets_ok_def)
  ultimately show ?thesis
    using True by (simp add: upsertRuleset_def Let_def sortRulesets_ok(1))
next
  case False
  then have "rset_Name rs \<notin> rset_Name ` set rss" using findRuleset_neg [of rss "rset_Name rs"] by simp
  then have "distinct (map rset_Name (rss @ [rs]))" "list_all (ruleset_ok rx) (rss @ [rs])"
    using assms rulesets_ok_distinct [OF assms(1)] by (simp_all add: rulesets_ok_def)
  with False show ?thesis
    by (simp add: upsertRuleset_def Let_def sortRulesets_ok(1) del: map_append)
qed

lemma rulesetFromAPI_ok: "rulesetFromAPI rx name p raw = Inr rs \<Longrightarrow> name \<noteq> [] \<Longrightarrow> ruleset_ok rx rs \<and> rset_Name rs = name"
  by (auto simp: rulesetFromAPI_def bindR_Inr ruleset_ok_def triggerFromConfig_ok allowRulesFromAPI_ok)

lemma mutateWholeRuleset_ok: "rulesets_ok rx rss \<Longrightarrow> mutateWholeRuleset rx req rss = Inr rss' \<Longrightarrow> rulesets_ok rx rss'"
  by (auto simp: mutateWholeRuleset_def bindR_Inr removeRuleset_ok dest!: rulesetFromAPI_ok split: if_splits intro: upsertRuleset_ok)

lemma mutateRulesetField_ok:
  assumes "rulesets_ok rx rss" and "mutateRulesetField rx field req rss = Inr rss'"
  shows "rulesets_ok rx rss'"
proof -
  let ?i = "nat (findRuleset rss (mr_Ruleset req))"
  from assms(2) obtain rs where ge: "0 \<le> findRuleset rss (mr_Ruleset req)" and rs: "mutate_ruleset rx field req (rss ! ?i) = Inr rs"
    and pred: "rulesetTriggerHasPredicates (rset_Trigger rs)" and res: "rss' = sortRulesets (rss[?i := rs])"
    by (auto simp: mutateRulesetField_def Let_def bindR_Inr guardR_Inr split: if_splits)
  note i = findRuleset_name [OF ge]
  have old: "ruleset_ok rx (rss ! ?i)" using assms(1) i(1) by (auto simp: rulesets_ok_def list_all_length)
  note new = mutate_ruleset_ok [OF old rs pred]
  have "distinct (map rset_Name (rss[?i := rs]))"
    using replace_names [OF i(1), of rs] new(2) rulesets_ok_distinct [OF assms(1)] by simp
  moreover have "list_all (ruleset_ok rx) (rss[?i := rs])"
    using assms(1) new(1) by (intro list_all_update) (simp_all add: rulesets_ok_def)
  ultimately show ?thesis
    unfolding res by (rule sortRulesets_ok(1) [rotated])
qed

lemma opts_ok_parts: "opts_ok rx opts \<longleftrightarrow> has_selector opts \<and> patterns_ok rx (o_InterfaceRegexps opts) \<and>
    patterns_ok rx (o_IgnoredInterfaceRegexps opts) \<and> admin_ok (o_AdminAPI opts) \<and> socks_ok (o_SocksProxy opts) \<and>
    rules_ok (o_Rules opts) \<and> rulesets_ok rx (o_Rulesets opts)"
  by (auto simp: opts_ok_def rulesets_ok_def)

lemma mutate_target_ok:
  assumes "opts_ok rx opts" and "mutate_target rx req opts = Inr next" and "has_selector next"
  shows "opts_ok rx next \<and> o_AdminAPI next = o_AdminAPI opts \<and> o_SocksProxy next = o_SocksProxy opts"
  using assms
  by (auto simp: mutate_target_def Let_def bindR_Inr opts_ok_parts validateRegexps_def compile_all_Inr
      intro: allowRulesFromAPI_ok mutateAllowRulesField_ok mutateWholeRuleset_ok mutateRulesetField_ok split: if_splits)

lemma mutateOptions_Inr:
  "mutateOptions rx opts req = Inr next \<longleftrightarrow>
     \<not> strings_HasPrefix (mr_Target req) ''admin_api'' \<and> mr_Target req \<noteq> ''admin_api'' \<and>
     mr_Operation req \<in> {''add'', ''remove'', ''set''} \<and> mr_Target req \<noteq> [] \<and>
     mutate_target rx req opts = Inr next \<and> has_selector next"
  by (auto simp: mutateOptions_def Let_def bindR_Inr guardR_Inr has_selector_def)

section \<open>What requests do\<close>

text \<open>The lists of selectors of the options, under the targets that name them.\<close>

definition selector_lists :: "(string \<times> (options \<Rightarrow> string list)) list" where
  "selector_lists =
     [(''interface_types'', o_InterfaceTypes), (''interface_names'', o_InterfaceNames), (''interface_regexps'', o_InterfaceRegexps),
      (''ignored_interface_types'', o_IgnoredInterfaceTypes), (''ignored_interface_names'', o_IgnoredInterfaceNames),
      (''ignored_interface_regexps'', o_IgnoredInterfaceRegexps)]"

lemma mutateStringList_set:
  assumes "mutationStringValues req = Inr values" and "mutateStringList req dst = Inr vs"
    and "mr_Operation req \<in> {''add'', ''remove'', ''set''}"
  shows "set vs = (if mr_Operation req = ''add'' then set dst \<union> set values
      else if mr_Operation req = ''remove'' then set dst - set values else set values)"
  using assms by (auto simp: mutateStringList_def bindR_def)

definition ruleset_named :: "ruleset list \<Rightarrow> string \<Rightarrow> ruleset option" where
  "ruleset_named rss name = find (\<lambda>rs. rset_Name rs = name) rss"

lemma ruleset_named_iff:
  assumes "rulesets_ok rx rss"
  shows "ruleset_named rss name = Some rs \<longleftrightarrow> rs \<in> set rss \<and> rset_Name rs = name"
proof
  assume "rs \<in> set rss \<and> rset_Name rs = name"
  then have "find (\<lambda>r. (\<lambda>_. True) r \<and> rset_Name r = rset_Name rs) rss = Some rs"
    using rulesets_ok_distinct [OF assms] by (intro find_distinct_key) auto
  with \<open>rs \<in> set rss \<and> rset_Name rs = name\<close> show "ruleset_named rss name = Some rs" by (simp add: ruleset_named_def)
qed (auto simp: ruleset_named_def dest: find_Some_in)

lemma ruleset_named_eqI:
  assumes "rulesets_ok rx rss" and "rulesets_ok rx rss'"
    and "\<And>rs. rset_Name rs = name \<Longrightarrow> rs \<in> set rss \<longleftrightarrow> rs \<in> set rss'"
  shows "ruleset_named rss name = ruleset_named rss' name"
  by (rule option.expand) (use ruleset_named_iff [OF assms(1)] ruleset_named_iff [OF assms(2)] assms(3) in \<open>(metis option.collapse)+\<close>)

lemma set_upsertRuleset:
  assumes "rulesets_ok rx rss" and "ruleset_ok rx rs"
  shows "set (upsertRuleset rss rs) = {r \<in> set rss. rset_Name r \<noteq> rset_Name rs} \<union> {rs}"
proof (cases "0 \<le> findRuleset rss (rset_Name rs)")
  case True
  let ?i = "nat (findRuleset rss (rset_Name rs))"
  note i = findRuleset_name [OF True]
  have dist: "distinct (map rset_Name rss)" by (rule rulesets_ok_distinct [OF assms(1)])
  have "distinct rss" using dist by (simp add: distinct_map)
  then have "set (rss[?i := rs]) = insert rs (set rss - {rss ! ?i})" by (rule set_update_distinct [OF _ i(1)])
  moreover have "r = rss ! ?i" if "r \<in> set rss" "rset_Name r = rset_Name rs" for r
    using that i dist by (metis distinct_map inj_on_def nth_mem)
  ultimately show ?thesis
    using True i(2) by (auto simp: upsertRuleset_def Let_def sortRulesets_def)
next
  case False
  then have "rset_Name rs \<notin> rset_Name ` set rss" using findRuleset_neg [of rss "rset_Name rs"] by simp
  then have "rset_Name r \<noteq> rset_Name rs" if "r \<in> set rss" for r using that by (metis imageI)
  with False show ?thesis by (auto simp: upsertRuleset_def Let_def sortRulesets_def)
qed

text \<open>A mark is printed in hexadecimal with the prefix \<open>0x\<close>, so that its decimal text is never printed.\<close>

lemma decimal_not_printed: "utoa 10 n \<notin> set (apiAllowedMarks ms)"
proof
  assume "utoa 10 n \<in> set (apiAllowedMarks ms)"
  then have "CHR ''x'' \<in> set (utoa 10 n)" by (auto simp: apiAllowedMarks_def)
  then obtain d where "d < 10" "CHR ''x'' = digit_char d" using utoa_digits_lt [of 10 n] by auto
  moreover have "\<not> is_dec (CHR ''x'')" by (simp add: is_dec_def)
  ultimately show False using is_dec_digit_char [of d] by simp
qed

section \<open>Properties\<close>

text \<open>a request on one of the six lists of interface selectors does what its operation says:
  \<open>add\<close> makes the union, \<open>remove\<close> the difference, \<open>set\<close> replaces the list; nothing else of the options
  changes, and the request is refused when no selector would be left.\<close>

theorem mutate_selector_lists:
  assumes "(mr_Target req, get) \<in> set selector_lists" and "mutationStringValues req = Inr values"
    and "mutateOptions rx opts req = Inr next"
  shows "set (get next) = (if mr_Operation req = ''add'' then set (get opts) \<union> set values
      else if mr_Operation req = ''remove'' then set (get opts) - set values else set values) \<and>
    (\<forall>(t, get') \<in> set selector_lists. t \<noteq> mr_Target req \<longrightarrow> get' next = get' opts) \<and>
    o_Rules next = o_Rules opts \<and> o_Rulesets next = o_Rulesets opts \<and> has_selector next"
proof -
  from assms(3) have op: "mr_Operation req \<in> {''add'', ''remove'', ''set''}" and sel: "has_selector next"
    and run: "mutate_target rx req opts = Inr next"
    by (simp_all add: mutateOptions_Inr)
  have "\<exists>vs. mutateStringList req (get opts) = Inr vs \<and> get next = vs \<and>
      (\<forall>(t, get') \<in> set selector_lists. t \<noteq> mr_Target req \<longrightarrow> get' next = get' opts) \<and>
      o_Rules next = o_Rules opts \<and> o_Rulesets next = o_Rulesets opts"
    using assms(1) run unfolding selector_lists_def
    by (simp; elim disjE conjE; clarsimp simp: mutate_target_def Let_def bindR_Inr)
  with mutateStringList_set [OF assms(2) _ op] sel show ?thesis by blast
qed

lemma mutate_selector_lists_witness:
  "\<exists>next. mutateOptions example_rx example_options (zero_mutationRequest\<lparr>mr_Operation := ''add'', mr_Target := ''interface_names'', mr_Values := [''eth1'']\<rparr>)
     = Inr next \<and> set (o_InterfaceNames next) = {''eth0'', ''eth1''}"
proof -
  let ?req = "zero_mutationRequest\<lparr>mr_Operation := ''add'', mr_Target := ''interface_names'', mr_Values := [''eth1'']\<rparr>"
  obtain nxt where nxt: "mutateOptions example_rx example_options ?req = Inr nxt"
    by (simp add: mutateOptions_def mutate_target_def mutateStringList_def mutationStringValues_def zero_mutationRequest_def
        example_options_def guardR_def uniqueStrings_def Let_def)
  have "(mr_Target ?req, o_InterfaceNames) \<in> set selector_lists" "mutationStringValues ?req = Inr [''eth1'']"
    by (simp_all add: selector_lists_def mutationStringValues_def)
  from mutate_selector_lists [OF this nxt, THEN conjunct1]
  have "set (o_InterfaceNames nxt) = {''eth0'', ''eth1''}"
    by (simp add: example_options_def zero_mutationRequest_def insert_commute)
  with nxt show ?thesis by blast
qed

text \<open>the rule sets behave as a map from names under requests on whole rule sets: \<open>remove\<close> takes the
  name out, \<open>add\<close> and \<open>set\<close> store the rule set of the request under it, \<open>add\<close> only under a new
  name, and the rule sets under other names stay as they are.\<close>

theorem mutate_whole_ruleset:
  assumes "rulesets_ok rx rss" and "mutateWholeRuleset rx req rss = Inr rss'"
  shows "rulesets_ok rx rss' \<and>
    (\<forall>name. name \<noteq> mr_Ruleset req \<longrightarrow> ruleset_named rss' name = ruleset_named rss name) \<and>
    (if mr_Operation req = ''remove'' then ruleset_named rss' (mr_Ruleset req) = None
     else (\<exists>rs. rulesetFromAPI rx (mr_Ruleset req) (mr_RulesetDef req) (mr_Value req) = Inr rs \<and>
       ruleset_named rss' (mr_Ruleset req) = Some rs)) \<and>
    (mr_Operation req = ''add'' \<longrightarrow> ruleset_named rss (mr_Ruleset req) = None)"
proof -
  let ?n = "mr_Ruleset req"
  have ne: "?n \<noteq> []" using assms(2) by (auto simp: mutateWholeRuleset_def split: if_splits)
  have ok': "rulesets_ok rx rss'" by (rule mutateWholeRuleset_ok [OF assms])
  show ?thesis
  proof (cases "mr_Operation req = ''remove''")
    case True
    then have "rss' = filter (\<lambda>rs. rset_Name rs \<noteq> ?n) rss"
      using assms(2) ne by (simp add: mutateWholeRuleset_def removeRuleset_eq [OF assms(1)])
    then have "set rss' = {rs \<in> set rss. rset_Name rs \<noteq> ?n}" by auto
    then have rest: "ruleset_named rss' name = ruleset_named rss name" if "name \<noteq> ?n" for name
      using that by (intro ruleset_named_eqI [OF ok' assms(1)]) auto
    have "ruleset_named rss' ?n = None"
      using \<open>set rss' = _\<close> by (simp add: ruleset_named_def find_None_iff)
    with True ok' rest show ?thesis by simp
  next
    case False
    then obtain rs where rs: "rulesetFromAPI rx ?n (mr_RulesetDef req) (mr_Value req) = Inr rs"
      and res: "rss' = upsertRuleset rss rs" and new: "mr_Operation req = ''add'' \<longrightarrow> findRuleset rss ?n < 0"
      using assms(2) ne by (auto simp: mutateWholeRuleset_def bindR_Inr split: if_splits)
    from rulesetFromAPI_ok [OF rs ne] have rok: "ruleset_ok rx rs" "rset_Name rs = ?n" by simp_all
    have set': "set rss' = {r \<in> set rss. rset_Name r \<noteq> ?n} \<union> {rs}"
      using set_upsertRuleset [OF assms(1) rok(1)] rok(2) res by simp
    have "ruleset_named rss' ?n = Some rs" unfolding ruleset_named_iff [OF ok'] using set' rok(2) by simp
    moreover have "ruleset_named rss' name = ruleset_named rss name" if "name \<noteq> ?n" for name
      using set' rok(2) that by (intro ruleset_named_eqI [OF ok' assms(1)]) auto
    moreover have "mr_Operation req = ''add'' \<longrightarrow> ruleset_named rss ?n = None"
      using new findRuleset_neg [of rss ?n] by (auto simp: ruleset_named_def find_None_iff image_iff)
    ultimately show ?thesis using False rs ok' by auto
  qed
qed

lemma mutate_whole_ruleset_witness:
  "ruleset_named (removeRuleset [] ''r'') ''r'' = None"
  using mutate_whole_ruleset [of example_rx "[]" "zero_mutationRequest\<lparr>mr_Operation := ''remove'', mr_Ruleset := ''r''\<rparr>" "removeRuleset [] ''r''"]
  by (simp add: rulesets_ok_def mutateWholeRuleset_def)

text \<open>a mark is taken away only under the spelling the daemon prints (hexadecimal): removing it under
  another, such as the decimal one that \<open>add\<close> accepts, is answered as a success and changes nothing.\<close>

theorem remove_mark_by_other_spelling:
  assumes "opts_ok rx opts" and "mr_Target req = ''base_policy.allowed_marks''" and "mr_Operation req = ''remove''"
    and "mr_Values req = [utoa 10 (unat (m :: u32))]"
  shows "mutateOptions rx opts req = Inr opts"
proof -
  let ?r = "o_Rules opts"
  have ok: "rules_ok ?r" "has_selector opts" using assms(1) by (simp_all add: opts_ok_parts)
  have "utoa 10 (unat m) \<notin> set (apiAllowedMarks (ar_AllowedMarks ?r))"
    using decimal_not_printed by blast
  then have "mutateStringList req (apiAllowedMarks (ar_AllowedMarks ?r)) = Inr (apiAllowedMarks (ar_AllowedMarks ?r))"
    using assms(3,4) by (auto simp: mutateStringList_def mutationStringValues_def filter_id_conv)
  then have "mutateAPIAllowRulesField ''allowed_marks'' req (apiAllowRules ?r) = Inr (apiAllowRules ?r)"
    by (simp add: mutateAPIAllowRulesField_def apiAllowRules_def)
  moreover have "allowRulesFromAPI (Some (apiAllowRules ?r)) None = Inr ?r"
    using ok(1) allowRulesFromAPI_policy_apiAllowRules [of ?r] by (simp add: allowRulesFromAPI_def allowRulesFromAPI_policy_def)
  ultimately have "mutateAllowRulesField ''allowed_marks'' req ?r = Inr ?r"
    by (simp add: mutateAllowRulesField_def api_list_fields_def)
  with ok(2) assms(2,3) show ?thesis
    by (simp add: mutateOptions_Inr mutate_target_def strings_TrimPrefix_def)
qed

lemma remove_mark_by_other_spelling_witness:
  "\<exists>req. mutateOptions example_rx example_options req = Inr example_options \<and> mr_Values req = [''100'']"
proof -
  let ?req = "zero_mutationRequest\<lparr>mr_Operation := ''remove'', mr_Target := ''base_policy.allowed_marks'', mr_Values := [''100'']\<rparr>"
  have "''100'' = utoa 10 (unat (100 :: 32 word))" by code_simp
  then have "mutateOptions example_rx example_options ?req = Inr example_options"
    by (intro remove_mark_by_other_spelling [where m = 100]) (simp_all add: example_options_ok)
  then show ?thesis by (intro exI [of _ ?req]) simp
qed

end
