(* ===== verification/Daemon.thy ===== *)
theory Daemon
  imports AdminMutation
begin

text \<open>
  The state the daemon's goroutines share under \<open>reconcileMu\<close>, the handlers of \<open>admin_mutation.go\<close> that change it
  and the watcher of \<open>egress.go\<close>. What the outside world answers during one call (netlink, the BPF
  system calls, the order of map walks) is its argument \<open>w\<close>.
\<close>

section \<open>State\<close>

record daemon =
  dm_policies :: policyManager
  dm_manager :: egressManager
  dm_kernel :: kernel

record world =
  w_env :: env
  w_attach :: attach_env
  w_links_egress :: "nl_link list res"
  w_links_policy :: "nl_link list res"
  w_walks :: walk_order

definition start_daemon :: "options \<Rightarrow> daemon" where
  "start_daemon opts = \<lparr>dm_policies = newPolicyManager True opts, dm_manager = newEgressManager, dm_kernel = new_kernel\<rparr>"

definition reconcile_policies :: "regexps \<Rightarrow> world \<Rightarrow> daemon \<Rightarrow> bool res \<times> daemon" where
  "reconcile_policies rx w d =
     (case pm_reconcileAttached (w_env w) rx (w_links_policy w) (Some (dm_manager d)) (dm_policies d) (dm_kernel d) of
        (r, pm, k) \<Rightarrow> (r, d\<lparr>dm_policies := pm, dm_kernel := k\<rparr>))"

definition reconcile_egress :: "regexps \<Rightarrow> world \<Rightarrow> options \<Rightarrow> bool \<Rightarrow> daemon \<Rightarrow> bool \<times> error list \<times> daemon" where
  "reconcile_egress rx w opts strict d =
     (case em_reconcileCurrent (w_attach w) rx (w_links_egress w) opts strict (dm_manager d) of
        (m, changed, errs) \<Rightarrow> (changed, errs, d\<lparr>dm_manager := m\<rparr>))"

text \<open>\<open>errors.Join\<close>: one line for each error.\<close>

fun joined_text :: "error list \<Rightarrow> string" where
  "joined_text [] = []"
| "joined_text [e] = error_text e"
| "joined_text (e # es) = error_text e @ CHR 0x0A # joined_text es"

section \<open>Handlers\<close>

definition answer :: "world \<Rightarrow> bool \<Rightarrow> bool \<Rightarrow> string \<Rightarrow> daemon \<Rightarrow> mutationResult \<times> daemon" where
  "answer w ok changed err d =
     (\<lparr>mres_OK = ok, mres_Changed = changed, mres_Error = err, mres_Config = configSnapshot (w_walks w) (dm_policies d)\<rparr>, d)"

definition finish :: "regexps \<Rightarrow> world \<Rightarrow> daemon \<Rightarrow> mutationResult \<times> daemon" where
  "finish rx w d =
     (case reconcile_policies rx w d of
        (Inl err, d') \<Rightarrow> answer w False False (error_text err) d'
      | (Inr changed, d') \<Rightarrow> answer w True changed [] d')"

definition applyAdminMutation :: "regexps \<Rightarrow> world \<Rightarrow> mutationRequest \<Rightarrow> daemon \<Rightarrow> mutationResult \<times> daemon" where
  "applyAdminMutation rx w req d =
     (case mutateOptions rx (optionsSnapshot (dm_policies d)) req of
        Inl err \<Rightarrow> answer w False False (error_text err) d
      | Inr next \<Rightarrow>
          (let d1 = d\<lparr>dm_policies := replaceOptions next (dm_policies d)\<rparr> in
           case reconcile_egress rx w next False d1 of
             (changed, errs, d2) \<Rightarrow>
               (if errs \<noteq> [] then answer w False False (joined_text errs) d2 else finish rx w d2)))"

definition unsupported :: "mutationRequest \<Rightarrow> string" where
  "unsupported req = error_text (Errf ''unsupported mutation operation %q'' [mr_Operation req])"

definition applyTemporaryRulesetMutation :: "regexps \<Rightarrow> world \<Rightarrow> string \<Rightarrow> mutationRequest \<Rightarrow> daemon \<Rightarrow> mutationResult \<times> daemon" where
  "applyTemporaryRulesetMutation rx w owner req d =
     (if mr_Operation req = ''add'' \<or> mr_Operation req = ''set'' then
        (case allowRulesFromAPI (mr_Policy req) (mr_Value req) of
           Inl err \<Rightarrow> answer w False False (error_text err) d
         | Inr rules \<Rightarrow>
             (if mr_Interfaces req = [] then answer w False False ''tmp_ruleset requires at least one interface name'' d
              else finish rx w (d\<lparr>dm_policies :=
                setTemporaryRuleset owner (uniqueSortedStrings (mr_Interfaces req)) rules (dm_policies d)\<rparr>)))
      else if mr_Operation req = ''remove''
      then finish rx w (d\<lparr>dm_policies := snd (removeTemporaryRuleset owner (dm_policies d))\<rparr>)
      else answer w False False (unsupported req) d)"

definition applyForceRulesetMutation :: "regexps \<Rightarrow> world \<Rightarrow> string \<Rightarrow> mutationRequest \<Rightarrow> daemon \<Rightarrow> mutationResult \<times> daemon" where
  "applyForceRulesetMutation rx w owner req d =
     (if mr_Ruleset req = [] then answer w False False ''ruleset name is required'' d
      else if mr_Operation req = ''add'' \<or> mr_Operation req = ''set'' then
        (if mr_Interfaces req = [] then answer w False False ''force_ruleset requires at least one interface name'' d
         else case forceActivateRuleset owner (mr_Ruleset req) (uniqueSortedStrings (mr_Interfaces req)) (mr_Operation req = ''set'')
                     (dm_policies d) of
           (False, pm) \<Rightarrow> answer w False False (error_text (Errf ''ruleset %q does not exist'' [mr_Ruleset req])) (d\<lparr>dm_policies := pm\<rparr>)
         | (True, pm) \<Rightarrow> finish rx w (d\<lparr>dm_policies := pm\<rparr>))
      else if mr_Operation req = ''remove''
      then finish rx w (d\<lparr>dm_policies := snd (releaseForceRuleset owner (mr_Ruleset req) (uniqueSortedStrings (mr_Interfaces req)) (dm_policies d))\<rparr>)
      else answer w False False (unsupported req) d)"

definition removeTemporaryRuleset_handler :: "regexps \<Rightarrow> world \<Rightarrow> string \<Rightarrow> daemon \<Rightarrow> mutationResult \<times> daemon" where
  "removeTemporaryRuleset_handler rx w owner d =
     (case removeTemporaryRuleset owner (dm_policies d) of
        (False, pm) \<Rightarrow> answer w True False [] (d\<lparr>dm_policies := pm\<rparr>)
      | (True, pm) \<Rightarrow> finish rx w (d\<lparr>dm_policies := pm\<rparr>))"

definition removeForceRulesets_handler :: "regexps \<Rightarrow> world \<Rightarrow> string \<Rightarrow> daemon \<Rightarrow> mutationResult \<times> daemon" where
  "removeForceRulesets_handler rx w owner d =
     (case removeForceRulesets owner (dm_policies d) of
        (False, pm) \<Rightarrow> answer w True False [] (d\<lparr>dm_policies := pm\<rparr>)
      | (True, pm) \<Rightarrow> finish rx w (d\<lparr>dm_policies := pm\<rparr>))"

text \<open>The callback of the SOCKS proxy in \<open>main.go\<close>; its notifications are those of the result.\<close>

definition onStateChanged :: "regexps \<Rightarrow> world \<Rightarrow> socksProxyState \<Rightarrow> daemon \<Rightarrow> error_notice list \<times> daemon" where
  "onStateChanged rx w state d =
     (case reconcile_policies rx w (d\<lparr>dm_policies := setSocksProxyState state (dm_policies d)\<rparr>) of
        (r, d') \<Rightarrow>
          ((case r of Inl err \<Rightarrow> [(''SOCKS proxy policy error'', err)] | Inr _ \<Rightarrow> []) @
           (if ss_LastError state \<noteq> [] then [(''SOCKS proxy error'', Err (ss_LastError state))] else []), d'))"

section \<open>The watcher\<close>

text \<open>The reconcile of the watcher: what it tells the clients, and its error when it is strict.\<close>

definition watch_reconcile :: "regexps \<Rightarrow> world \<Rightarrow> bool \<Rightarrow> bool \<Rightarrow> daemon \<Rightarrow> error list \<times> string list \<times> daemon" where
  "watch_reconcile rx w strict notifyInterfaces d =
     (case reconcile_egress rx w (optionsSnapshot (dm_policies d)) strict d of
        (interfacesChanged, ifaceErr, d1) \<Rightarrow>
     (case reconcile_policies rx w d1 of
        (policyRes, d2) \<Rightarrow>
          (let policyChanged = (case policyRes of Inl _ \<Rightarrow> False | Inr c \<Rightarrow> c);
               policyErr = (case policyRes of Inl err \<Rightarrow> [err] | Inr _ \<Rightarrow> [])
           in (if strict then ifaceErr @ policyErr else [],
               (if notifyInterfaces \<or> interfacesChanged then [''interfaces''] else []) @
               (if interfacesChanged \<or> policyChanged then [''config''] else []), d2))))"

datatype watch_event = SubscribeError int error | LinkUpdate | AddrUpdate | RouteUpdate | NeighUpdate | TimerFired | CtxDone

record watcher =
  wt_generation :: int
  wt_closed :: "int list"
  wt_pending :: bool
  wt_notifyInterfaces :: bool
  wt_timer :: bool

definition new_watcher :: watcher where
  "new_watcher = \<lparr>wt_generation = 1, wt_closed = [], wt_pending = False, wt_notifyInterfaces = False, wt_timer = False\<rparr>"

definition scheduleReconcile :: "bool \<Rightarrow> watcher \<Rightarrow> watcher" where
  "scheduleReconcile interfaces wt = wt\<lparr>wt_pending := True, wt_notifyInterfaces := (wt_notifyInterfaces wt \<or> interfaces), wt_timer := True\<rparr>"

text \<open>
  \<open>defer close(subscriptionDone)\<close> is met once, before the loop, and so holds the channel of the first
  subscription; a channel that is closed twice panics. \<open>wt_closed\<close> lists the generations whose channel is closed.
\<close>

definition watch_return :: "error list \<Rightarrow> watcher \<Rightarrow> error list" where
  "watch_return errs wt = (if 1 \<in> set (wt_closed wt) then [Panic ''close of closed channel''] else errs)"

text \<open>
  One turn of the loop. The loop goes on, or it returns \<open>Some errs\<close>, \<open>[]\<close> for nil. \<open>resub\<close> is the error of
  subscribing again, if there is one. The timer is running or not; it only fires when it runs.
\<close>

definition watch_step ::
  "regexps \<Rightarrow> world \<Rightarrow> error option \<Rightarrow> watch_event \<Rightarrow> watcher \<times> daemon \<Rightarrow> error list option \<times> string list \<times> watcher \<times> daemon" where
  "watch_step rx w resub ev = (\<lambda>(wt, d). case ev of
     CtxDone \<Rightarrow> (Some (watch_return [] wt), [], wt, d)
   | SubscribeError generation err \<Rightarrow>
       (if generation \<noteq> wt_generation wt then (None, [], wt, d)
        else let wt' = wt\<lparr>wt_closed := wt_generation wt # wt_closed wt, wt_generation := wt_generation wt + 1\<rparr> in
          case resub of
            Some e \<Rightarrow> (Some (watch_return [Wrap ''resubscribe to netlink updates'' [] e] wt'), [], wt', d)
          | None \<Rightarrow> (case watch_reconcile rx w False True d of (_, notes, d') \<Rightarrow> (None, notes, wt', d')))
   | LinkUpdate \<Rightarrow> (None, [], scheduleReconcile True wt, d)
   | AddrUpdate \<Rightarrow> (None, [], scheduleReconcile True wt, d)
   | RouteUpdate \<Rightarrow> (None, [], scheduleReconcile False wt, d)
   | NeighUpdate \<Rightarrow> (None, [], scheduleReconcile False wt, d)
   | TimerFired \<Rightarrow>
       (if \<not> wt_timer wt then (None, [], wt, d)
        else if \<not> wt_pending wt then (None, [], wt\<lparr>wt_timer := False\<rparr>, d)
        else case watch_reconcile rx w False (wt_notifyInterfaces wt) d of
          (_, notes, d') \<Rightarrow> (None, notes, wt\<lparr>wt_pending := False, wt_notifyInterfaces := False, wt_timer := False\<rparr>, d')))"

text \<open>Before its loop \<open>watchInterfaces\<close> subscribes and reconciles strictly, and returns when one of them fails.\<close>

definition watch_start :: "regexps \<Rightarrow> world \<Rightarrow> error option \<Rightarrow> daemon \<Rightarrow> error list \<times> string list \<times> daemon" where
  "watch_start rx w sub d = (case sub of Some e \<Rightarrow> ([e], [], d) | None \<Rightarrow> watch_reconcile rx w True True d)"

section \<open>What a reconcile leaves alone\<close>

definition same_requests :: "policyManager \<Rightarrow> policyManager \<Rightarrow> bool" where
  "same_requests pm pm' \<longleftrightarrow> pm_opts pm' = pm_opts pm \<and> pm_tmpRulesets pm' = pm_tmpRulesets pm \<and>
     pm_forceRulesets pm' = pm_forceRulesets pm \<and> pm_socksProxy pm' = pm_socksProxy pm \<and> pm_hasObjs pm' = pm_hasObjs pm"

lemma same_requests_refl [simp]: "same_requests pm pm"
  by (simp add: same_requests_def)

lemma pm_reconcile_frame: "pm_reconcile e rx all pm k = (r, pm', k') \<Longrightarrow> same_requests pm pm'"
  by (auto simp: pm_reconcile_def Let_def same_requests_def split: sum.splits if_splits prod.splits)

lemma pm_reconcileAttached_frame: "pm_reconcileAttached e rx links m pm k = (r, pm', k') \<Longrightarrow> same_requests pm pm'"
  by (auto simp: pm_reconcileAttached_def Let_def dest!: pm_reconcile_frame split: sum.splits if_splits option.splits)

lemma reconcile_policies_frame:
  assumes "reconcile_policies rx w d = (r, d')"
  shows "same_requests (dm_policies d) (dm_policies d')" and "dm_manager d' = dm_manager d"
proof -
  obtain q pm k where run: "pm_reconcileAttached (w_env w) rx (w_links_policy w) (Some (dm_manager d)) (dm_policies d) (dm_kernel d) = (q, pm, k)"
    by (metis prod_cases3)
  with assms have "d' = d\<lparr>dm_policies := pm, dm_kernel := k\<rparr>" by (simp add: reconcile_policies_def)
  with pm_reconcileAttached_frame [OF run] show "same_requests (dm_policies d) (dm_policies d')" "dm_manager d' = dm_manager d"
    by simp_all
qed

lemma same_requests_force: "same_requests pm pm' \<Longrightarrow> force_ok pm' = force_ok pm"
  by (simp add: same_requests_def force_ok_def)

lemma target_rules_cong:
  assumes "same_requests pm pm'"
  shows "target_rules rx pm' = target_rules rx pm"
proof -
  have eqs: "pm_opts pm' = pm_opts pm" "pm_tmpRulesets pm' = pm_tmpRulesets pm" "pm_forceRulesets pm' = pm_forceRulesets pm"
    "pm_socksProxy pm' = pm_socksProxy pm"
    using assms by (simp_all add: same_requests_def)
  show ?thesis
    by (intro ext) (simp only: target_rules_def temporaryRulesetsSnapshot_def forceRulesetsSnapshot_def eqs)
qed

section \<open>The invariant of the daemon\<close>

definition daemon_ok :: "regexps \<Rightarrow> daemon \<Rightarrow> bool" where
  "daemon_ok rx d \<longleftrightarrow> opts_ok rx (pm_opts (dm_policies d)) \<and> force_ok (dm_policies d) \<and> em_ok (dm_manager d)"

definition world_ok :: "world \<Rightarrow> bool" where
  "world_ok w \<longleftrightarrow> env_ok (w_env w) \<and> attach_env_ok (w_attach w)"

lemma answer_eq [simp]: "snd (answer w ok changed err d) = d" "mres_OK (fst (answer w ok changed err d)) = ok"
  by (simp_all add: answer_def)

lemma reconcile_policies_ok: "daemon_ok rx d \<Longrightarrow> daemon_ok rx (snd (reconcile_policies rx w d))"
proof -
  obtain r d' where run: "reconcile_policies rx w d = (r, d')" by fastforce
  note frame = reconcile_policies_frame [OF run]
  from frame(1) have "pm_opts (dm_policies d') = pm_opts (dm_policies d)" by (simp add: same_requests_def)
  then show "daemon_ok rx d \<Longrightarrow> daemon_ok rx (snd (reconcile_policies rx w d))"
    by (simp add: run daemon_ok_def same_requests_force [OF frame(1)] frame(2))
qed

lemma finish_snd: "snd (finish rx w d) = snd (reconcile_policies rx w d)"
  by (auto simp: finish_def split: prod.split sum.split)

lemma finish_ok: "daemon_ok rx d \<Longrightarrow> daemon_ok rx (snd (finish rx w d))"
  by (simp add: finish_snd reconcile_policies_ok)

lemma reconcile_egress_ok:
  assumes "world_ok w" and "daemon_ok rx d" and "reconcile_egress rx w opts strict d = (changed, errs, d')"
  shows "daemon_ok rx d'" and "dm_policies d' = dm_policies d" and "dm_kernel d' = dm_kernel d"
proof -
  obtain m c es where run: "em_reconcileCurrent (w_attach w) rx (w_links_egress w) opts strict (dm_manager d) = (m, c, es)"
    by (metis prod_cases3)
  have "em_ok m"
  proof (cases "selectedInterfaces rx (w_links_egress w) opts")
    case (Inl e)
    then show ?thesis using run assms(2) by (simp add: em_reconcileCurrent_def daemon_ok_def)
  next
    case (Inr sel)
    then have "em_reconcile (w_attach w) sel strict (dm_manager d) = (m, c, es)" using run by (simp add: em_reconcileCurrent_def)
    from em_reconcile_ok [OF _ this] assms(1,2) show ?thesis by (simp add: world_ok_def daemon_ok_def)
  qed
  moreover have "d' = d\<lparr>dm_manager := m\<rparr>" using assms(3) run by (simp add: reconcile_egress_def)
  ultimately show "daemon_ok rx d'" "dm_policies d' = dm_policies d" "dm_kernel d' = dm_kernel d"
    using assms(2) by (simp_all add: daemon_ok_def)
qed

lemma setTemporaryRuleset_sel [simp]:
  "pm_opts (setTemporaryRuleset owner is rules pm) = pm_opts pm" "force_ok (setTemporaryRuleset owner is rules pm) = force_ok pm"
  by (simp_all add: setTemporaryRuleset_def force_ok_def)

lemma removeTemporaryRuleset_sel [simp]:
  "pm_opts (snd (removeTemporaryRuleset owner pm)) = pm_opts pm" "force_ok (snd (removeTemporaryRuleset owner pm)) = force_ok pm"
  by (simp_all add: removeTemporaryRuleset_def force_ok_def)

lemma setSocksProxyState_sel [simp]:
  "pm_opts (setSocksProxyState st pm) = pm_opts pm" "force_ok (setSocksProxyState st pm) = force_ok pm"
  by (simp_all add: setSocksProxyState_def force_ok_def)

lemma daemon_ok_update: "daemon_ok rx d \<Longrightarrow> opts_ok rx (pm_opts pm) \<Longrightarrow> force_ok pm \<Longrightarrow> daemon_ok rx (d\<lparr>dm_policies := pm\<rparr>)"
  by (simp add: daemon_ok_def)

lemma mutateOptions_ok:
  assumes "opts_ok rx opts" and "mutateOptions rx opts req = Inr next"
  shows "opts_ok rx next \<and> o_AdminAPI next = o_AdminAPI opts \<and> o_SocksProxy next = o_SocksProxy opts"
proof -
  from assms(2) have "mutate_target rx req opts = Inr next" "has_selector next"
    by (auto simp: mutateOptions_def Let_def bindR_Inr guardR_Inr has_selector_def split: if_splits)
  with assms(1) show ?thesis by (rule mutate_target_ok)
qed

lemma applyAdminMutation_ok:
  assumes "world_ok w" and "daemon_ok rx d"
  shows "daemon_ok rx (snd (applyAdminMutation rx w req d))"
proof (cases "mutateOptions rx (pm_opts (dm_policies d)) req")
  case (Inl err)
  then show ?thesis using assms by (simp add: applyAdminMutation_def optionsSnapshot_def)
next
  case (Inr nxt)
  let ?d1 = "d\<lparr>dm_policies := replaceOptions nxt (dm_policies d)\<rparr>"
  have "opts_ok rx nxt" using mutateOptions_ok [OF _ Inr] assms(2) by (simp add: daemon_ok_def)
  then have d1: "daemon_ok rx ?d1"
    using assms(2) by (simp add: daemon_ok_def replaceOptions_spec)
  obtain c errs d2 where eg: "reconcile_egress rx w nxt False ?d1 = (c, errs, d2)" by (metis prod_cases3)
  from reconcile_egress_ok(1) [OF assms(1) d1 eg] show ?thesis
    using Inr eg by (simp add: applyAdminMutation_def optionsSnapshot_def Let_def finish_ok)
qed

lemma applyTemporary_ok: "daemon_ok rx d \<Longrightarrow> daemon_ok rx (snd (applyTemporaryRulesetMutation rx w owner req d))"
  by (auto simp: applyTemporaryRulesetMutation_def daemon_ok_def intro!: finish_ok [unfolded daemon_ok_def] split: sum.split)

lemma applyForce_ok:
  assumes "daemon_ok rx d"
  shows "daemon_ok rx (snd (applyForceRulesetMutation rx w owner req d))"
proof -
  have fo: "force_ok (dm_policies d)" and oo: "opts_ok rx (pm_opts (dm_policies d))" using assms by (simp_all add: daemon_ok_def)
  have forced: "daemon_ok rx (d\<lparr>dm_policies := pm\<rparr>)"
    if "forceActivateRuleset owner name is replace (dm_policies d) = (ok, pm)" and "is \<noteq> []" for name "is" replace ok pm
  proof (rule daemon_ok_update [OF assms])
    show "force_ok pm" by (rule forceActivate_spec(4) [OF that(1) fo that(2)])
    show "opts_ok rx (pm_opts pm)" using that(1) oo by (auto simp: forceActivateRuleset_def Let_def split: if_splits)
  qed
  have released: "daemon_ok rx (d\<lparr>dm_policies := snd (releaseForceRuleset owner name is (dm_policies d))\<rparr>)" for name "is"
  proof -
    obtain ok pm where R: "releaseForceRulesetLocked owner name is (dm_policies d) = (ok, pm)" by fastforce
    from daemon_ok_update [OF assms, of pm] oo release_spec(2,3) [OF fo R] show ?thesis
      by (simp add: releaseForceRuleset_def R)
  qed
  show ?thesis
    using assms released
    by (auto simp: applyForceRulesetMutation_def split: prod.split bool.split intro!: finish_ok dest: forced)
qed

lemma removeTemporary_handler_ok: "daemon_ok rx d \<Longrightarrow> daemon_ok rx (snd (removeTemporaryRuleset_handler rx w owner d))"
  by (cases "fmlookup (pm_tmpRulesets (dm_policies d)) owner")
    (auto simp: removeTemporaryRuleset_handler_def removeTemporaryRuleset_def daemon_ok_def force_ok_def
      intro!: finish_ok [unfolded daemon_ok_def force_ok_def])

lemma removeForce_handler_ok:
  assumes "daemon_ok rx d"
  shows "daemon_ok rx (snd (removeForceRulesets_handler rx w owner d))"
proof -
  obtain c pm where R: "removeForceRulesets owner (dm_policies d) = (c, pm)" by fastforce
  have "daemon_ok rx (d\<lparr>dm_policies := pm\<rparr>)"
    using assms removeForceRulesets_spec(2,4) [OF _ R] by (simp add: daemon_ok_def)
  then show ?thesis by (auto simp: removeForceRulesets_handler_def R finish_ok split: bool.split)
qed

lemma onStateChanged_ok: "daemon_ok rx d \<Longrightarrow> daemon_ok rx (snd (onStateChanged rx w st d))"
  using reconcile_policies_ok [of rx "d\<lparr>dm_policies := setSocksProxyState st (dm_policies d)\<rparr>" w]
  by (auto simp: onStateChanged_def daemon_ok_def split: prod.split)

lemma watch_reconcile_ok:
  assumes "world_ok w" and "daemon_ok rx d"
  shows "daemon_ok rx (snd (snd (watch_reconcile rx w strict ni d)))"
proof -
  obtain c errs d1 where eg: "reconcile_egress rx w (pm_opts (dm_policies d)) strict d = (c, errs, d1)" by (metis prod_cases3)
  have "daemon_ok rx d1" by (rule reconcile_egress_ok(1) [OF assms eg])
  from reconcile_policies_ok [OF this, of w] show ?thesis
    by (auto simp: watch_reconcile_def optionsSnapshot_def eg Let_def split: prod.split)
qed

section \<open>Runs of the daemon\<close>

datatype action =
    Admin mutationRequest | Temporary string mutationRequest | Force string mutationRequest
  | DropTemporary string | DropForce string | SocksChanged socksProxyState | Watch bool bool

fun act :: "regexps \<Rightarrow> world \<Rightarrow> action \<Rightarrow> daemon \<Rightarrow> daemon" where
  "act rx w (Admin req) d = snd (applyAdminMutation rx w req d)"
| "act rx w (Temporary owner req) d = snd (applyTemporaryRulesetMutation rx w owner req d)"
| "act rx w (Force owner req) d = snd (applyForceRulesetMutation rx w owner req d)"
| "act rx w (DropTemporary owner) d = snd (removeTemporaryRuleset_handler rx w owner d)"
| "act rx w (DropForce owner) d = snd (removeForceRulesets_handler rx w owner d)"
| "act rx w (SocksChanged st) d = snd (onStateChanged rx w st d)"
| "act rx w (Watch strict ni) d = snd (snd (watch_reconcile rx w strict ni d))"

text \<open>The states a daemon that was started with \<open>opts\<close> can get into.\<close>

inductive reachable :: "regexps \<Rightarrow> options \<Rightarrow> daemon \<Rightarrow> bool" for rx opts where
  start: "reachable rx opts (start_daemon opts)"
| step: "reachable rx opts d \<Longrightarrow> world_ok w \<Longrightarrow> reachable rx opts (act rx w a d)"

lemma start_daemon_ok: "opts_ok rx opts \<Longrightarrow> daemon_ok rx (start_daemon opts)"
  by (simp add: daemon_ok_def start_daemon_def newPolicyManager_def force_ok_def em_ok_def newEgressManager_def)

lemma act_ok: "world_ok w \<Longrightarrow> daemon_ok rx d \<Longrightarrow> daemon_ok rx (act rx w a d)"
  by (cases a) (simp_all add: applyAdminMutation_ok applyTemporary_ok applyForce_ok removeTemporary_handler_ok removeForce_handler_ok
      onStateChanged_ok watch_reconcile_ok)

subsection \<open>The options of a run\<close>

lemma reconcile_policies_opts [simp]: "pm_opts (dm_policies (snd (reconcile_policies rx w d))) = pm_opts (dm_policies d)"
  using reconcile_policies_frame(1) [of rx w d] by (cases "reconcile_policies rx w d") (simp add: same_requests_def)

lemma finish_opts [simp]: "pm_opts (dm_policies (snd (finish rx w d))) = pm_opts (dm_policies d)"
  by (simp add: finish_snd)

lemma reconcile_egress_policies: "reconcile_egress rx w opts strict d = (changed, errs, d') \<Longrightarrow> dm_policies d' = dm_policies d"
  by (auto simp: reconcile_egress_def split: prod.splits)

lemma forceActivate_opts: "forceActivateRuleset owner name is replace pm = (ok, pm') \<Longrightarrow> pm_opts pm' = pm_opts pm"
  by (auto simp: forceActivateRuleset_def Let_def split: if_splits)

lemma releaseForce_opts [simp]: "pm_opts (snd (releaseForceRuleset owner name is pm)) = pm_opts pm"
  by (simp add: releaseForceRuleset_def releaseForceRulesetLocked_def Let_def split: option.split)

lemma applyAdminMutation_opts:
  "pm_opts (dm_policies (snd (applyAdminMutation rx w req d))) =
     (case mutateOptions rx (pm_opts (dm_policies d)) req of Inl err \<Rightarrow> pm_opts (dm_policies d) | Inr next \<Rightarrow> next)"
proof (cases "mutateOptions rx (pm_opts (dm_policies d)) req")
  case (Inr nxt)
  let ?d1 = "d\<lparr>dm_policies := replaceOptions nxt (dm_policies d)\<rparr>"
  obtain c errs d2 where eg: "reconcile_egress rx w nxt False ?d1 = (c, errs, d2)" by (metis prod_cases3)
  with reconcile_egress_policies [OF eg] Inr show ?thesis
    by (simp add: applyAdminMutation_def optionsSnapshot_def Let_def replaceOptions_spec)
qed (simp add: applyAdminMutation_def optionsSnapshot_def)

lemma onStateChanged_snd:
  "snd (onStateChanged rx w st d) = snd (reconcile_policies rx w (d\<lparr>dm_policies := setSocksProxyState st (dm_policies d)\<rparr>))"
  by (simp add: onStateChanged_def split: prod.split)

lemma other_actions_opts:
  assumes "daemon_ok rx d" and "\<And>req. a \<noteq> Admin req"
  shows "pm_opts (dm_policies (act rx w a d)) = pm_opts (dm_policies d)"
proof (cases a)
  case (Temporary owner req)
  then show ?thesis by (simp add: applyTemporaryRulesetMutation_def split: sum.split)
next
  case (Force owner req)
  then show ?thesis by (auto simp: applyForceRulesetMutation_def split: prod.split bool.split dest: forceActivate_opts)
next
  case (DropTemporary owner)
  then show ?thesis
    by (simp add: removeTemporaryRuleset_handler_def removeTemporaryRuleset_def)
next
  case (DropForce owner)
  then show ?thesis
    using assms(1) by (auto simp: removeForceRulesets_handler_def daemon_ok_def split: prod.split bool.split dest: removeForceRulesets_spec(4))
next
  case (SocksChanged st)
  then show ?thesis
    by (simp add: onStateChanged_snd)
next
  case (Watch strict ni)
  obtain c errs d1 where eg: "reconcile_egress rx w (pm_opts (dm_policies d)) strict d = (c, errs, d1)" by (metis prod_cases3)
  then have "snd (snd (watch_reconcile rx w strict ni d)) = snd (reconcile_policies rx w d1)"
    by (simp add: watch_reconcile_def optionsSnapshot_def Let_def split: prod.split)
  then show ?thesis by (simp add: Watch reconcile_egress_policies [OF eg])
qed (use assms(2) in blast)

lemma act_keeps_fixed_options:
  assumes "daemon_ok rx d"
  shows "o_AdminAPI (pm_opts (dm_policies (act rx w a d))) = o_AdminAPI (pm_opts (dm_policies d)) \<and>
    o_SocksProxy (pm_opts (dm_policies (act rx w a d))) = o_SocksProxy (pm_opts (dm_policies d))"
proof (cases "\<exists>req. a = Admin req")
  case True
  then show ?thesis
    using assms mutateOptions_ok by (fastforce simp: applyAdminMutation_opts daemon_ok_def split: sum.split)
next
  case False
  then show ?thesis using other_actions_opts [OF assms, of a w] by simp
qed

section \<open>Reconciling what is attached\<close>

definition attached_now :: "world \<Rightarrow> egressManager \<Rightarrow> interfaceInfo list" where
  "attached_now w m = (if fmdom (em_attached m) = {||} then []
     else case listInterfaces (w_links_policy w) of Inl _ \<Rightarrow> [] | Inr all \<Rightarrow> filter (\<lambda>iface. ii_Index iface |\<in>| fmdom (em_attached m)) all)"

definition links_ok :: "world \<Rightarrow> bool" where
  "links_ok w \<longleftrightarrow> (\<forall>all. listInterfaces (w_links_policy w) = Inr all \<longrightarrow> indexes_ok all)"

definition daemon_synced :: "daemon \<Rightarrow> bool" where
  "daemon_synced d \<longleftrightarrow> pm_synced (dm_policies d) (dm_kernel d)"

definition in_force :: "regexps \<Rightarrow> world \<Rightarrow> daemon \<Rightarrow> bool" where
  "in_force rx w d \<longleftrightarrow> (\<forall>j. kernel_rules (k_maps (dm_kernel d)) j = target_rules rx (dm_policies d) (attached_now w (dm_manager d)) j)"

lemma reconcile_policies_run:
  assumes "world_ok w" and "links_ok w" and "daemon_ok rx d" and "daemon_synced d" and "reconcile_policies rx w d = (Inr c, d')"
  shows "daemon_synced d' \<and> in_force rx w d'"
proof -
  let ?now = "attached_now w (dm_manager d)"
  have idx: "indexes_ok ?now"
    using assms(2) by (auto simp: attached_now_def links_ok_def indexes_ok_def distinct_map_filter split: sum.split)
  obtain r pm k where att: "pm_reconcileAttached (w_env w) rx (w_links_policy w) (Some (dm_manager d)) (dm_policies d) (dm_kernel d) = (r, pm, k)"
    by (metis prod_cases3)
  with assms(5) have r: "r = Inr c" and d': "d' = d\<lparr>dm_policies := pm, dm_kernel := k\<rparr>"
    by (simp_all add: reconcile_policies_def)
  have run: "pm_reconcile (w_env w) rx ?now (dm_policies d) (dm_kernel d) = (Inr c, pm, k)"
    using att by (auto simp: pm_reconcileAttached_def attached_now_def attachedIndexSnapshot_def Let_def r split: if_splits sum.splits)
  have "pm_synced pm k \<and> (\<forall>j. kernel_rules (k_maps k) j = target_rules rx (dm_policies d) ?now j)"
    using pm_reconcile_run(1) [OF _ _ idx _ run] assms(1,3,4) by (simp add: world_ok_def daemon_ok_def daemon_synced_def)
  then show ?thesis
    using target_rules_cong [OF pm_reconcile_frame [OF run], of rx] by (simp add: d' daemon_synced_def in_force_def)
qed

lemma finish_run:
  assumes "world_ok w" and "links_ok w" and "daemon_ok rx d" and "daemon_synced d" and "mres_OK (fst (finish rx w d))"
  shows "daemon_synced (snd (finish rx w d)) \<and> in_force rx w (snd (finish rx w d))"
proof -
  obtain r d' where run: "reconcile_policies rx w d = (r, d')" by fastforce
  with assms(5) obtain c where "r = Inr c" by (cases r) (simp_all add: finish_def)
  with reconcile_policies_run [OF assms(1-4)] run show ?thesis by (simp add: finish_def)
qed

lemma daemon_synced_update: "pm_current pm = pm_current (dm_policies d) \<Longrightarrow> pm_hasObjs pm = pm_hasObjs (dm_policies d) \<Longrightarrow>
    daemon_synced (d\<lparr>dm_policies := pm\<rparr>) = daemon_synced d"
  by (simp add: daemon_synced_def pm_synced_def)

lemma replaceOptions_synced: "daemon_synced (d\<lparr>dm_policies := replaceOptions opts (dm_policies d)\<rparr>) = daemon_synced d"
  by (rule daemon_synced_update) (simp_all add: replaceOptions_spec)

section \<open>The watcher\<close>

text \<open>A run of the loop over events, each with the world it meets.\<close>

fun watch_run ::
  "regexps \<Rightarrow> (world \<times> error option \<times> watch_event) list \<Rightarrow> watcher \<times> daemon \<Rightarrow> error list option \<times> string list \<times> watcher \<times> daemon" where
  "watch_run rx [] s = (None, [], s)"
| "watch_run rx ((w, resub, ev) # evs) s =
     (case watch_step rx w resub ev s of
        (Some errs, notes, s') \<Rightarrow> (Some errs, notes, s')
      | (None, notes, s') \<Rightarrow> (case watch_run rx evs s' of (r, notes', s'') \<Rightarrow> (r, notes @ notes', s'')))"

definition is_update :: "watch_event \<Rightarrow> bool" where
  "is_update ev \<longleftrightarrow> ev \<in> {LinkUpdate, AddrUpdate, RouteUpdate, NeighUpdate}"

definition is_interface_update :: "watch_event \<Rightarrow> bool" where
  "is_interface_update ev \<longleftrightarrow> ev \<in> {LinkUpdate, AddrUpdate}"

lemma watch_updates:
  assumes "\<forall>e \<in> set evs. is_update (snd (snd e))"
  shows "watch_run rx evs (wt, d) = (None, [], wt\<lparr>wt_pending := (wt_pending wt \<or> evs \<noteq> []),
     wt_notifyInterfaces := (wt_notifyInterfaces wt \<or> (\<exists>e \<in> set evs. is_interface_update (snd (snd e)))),
     wt_timer := (wt_timer wt \<or> evs \<noteq> [])\<rparr>, d)"
  using assms
proof (induction evs arbitrary: wt)
  case (Cons e evs)
  obtain w resub ev where e: "e = (w, resub, ev)" by (metis prod_cases3)
  have upd: "is_update ev" using Cons.prems e by simp
  have "watch_step rx w resub ev (wt, d) = (None, [], scheduleReconcile (is_interface_update ev) wt, d)"
    using upd by (auto simp: is_update_def is_interface_update_def watch_step_def)
  with Cons.IH [of "scheduleReconcile (is_interface_update ev) wt"] Cons.prems e show ?case
    by (simp add: scheduleReconcile_def disj_ac)
qed simp

lemma watch_run_append:
  "watch_run rx (xs @ ys) s =
     (case watch_run rx xs s of
        (Some errs, notes, s') \<Rightarrow> (Some errs, notes, s')
      | (None, notes, s') \<Rightarrow> (case watch_run rx ys s' of (r, notes', s'') \<Rightarrow> (r, notes @ notes', s'')))"
  by (induction rx xs s rule: watch_run.induct) (auto split: prod.splits option.splits)

lemma watch_step_closed:
  assumes "watch_step rx w resub ev (wt, d) = (r, notes, wt', d')" and "1 \<in> set (wt_closed wt)"
  shows "1 \<in> set (wt_closed wt')" and "r \<in> {None, Some [Panic ''close of closed channel'']}"
  using assms by (auto simp: watch_step_def watch_return_def scheduleReconcile_def Let_def
      split: watch_event.splits if_splits option.splits prod.splits)

lemma watch_run_closed:
  assumes "1 \<in> set (wt_closed wt)" and "watch_run rx evs (wt, d) = (r, ns, wt', d')"
  shows "r \<in> {None, Some [Panic ''close of closed channel'']}"
  using assms
proof (induction evs arbitrary: wt d ns)
  case (Cons e evs)
  obtain w resub ev where e: "e = (w, resub, ev)" by (metis prod_cases3)
  obtain r1 n1 wt1 d1 where st: "watch_step rx w resub ev (wt, d) = (r1, n1, wt1, d1)" by (metis prod_cases4)
  note one = watch_step_closed [OF st Cons.prems(1)]
  show ?case
  proof (cases r1)
    case None
    obtain r2 n2 wt2 d2 where rest: "watch_run rx evs (wt1, d1) = (r2, n2, wt2, d2)" by (metis prod_cases4)
    from Cons.IH [OF one(1)] rest st e None Cons.prems(2) show ?thesis by auto
  qed (use one(2) st e Cons.prems(2) in auto)
qed simp

section \<open>Properties\<close>

text \<open>whatever requests come, in any order, and whatever system calls fail, the options of a running
  daemon stay valid (so that no pattern can panic and at least one selector is left), the counts of forced
  rule sets stay consistent, every interface that counts as attached has the program, and the admin and
  SOCKS sections never change.\<close>

theorem reachable_daemon_ok:
  assumes "opts_ok rx opts" and "reachable rx opts d"
  shows "daemon_ok rx d \<and> o_AdminAPI (pm_opts (dm_policies d)) = o_AdminAPI opts \<and>
    o_SocksProxy (pm_opts (dm_policies d)) = o_SocksProxy opts"
  using assms(2)
proof (induction rule: reachable.induct)
  case start
  show ?case using start_daemon_ok [OF assms(1)] by (simp add: start_daemon_def newPolicyManager_def)
next
  case (step d w a)
  then show ?case using act_ok [of w rx d a] act_keeps_fixed_options [of rx d w a] by simp
qed

definition calm_world :: world where
  "calm_world = \<lparr>w_env = calm_env, w_attach = calm_attach, w_links_egress = Inr [], w_links_policy = Inr [], w_walks = in_order\<rparr>"

lemma calm_world_ok: "world_ok calm_world" "links_ok calm_world"
  by (simp_all add: world_ok_def links_ok_def calm_world_def calm_env_ok calm_attach_ok indexes_ok_def listInterfaces_def bindR_def)

lemma reachable_daemon_ok_witness:
  "daemon_ok example_rx (act example_rx calm_world (Watch True True) (start_daemon example_options))"
  using reachable_daemon_ok [OF example_options_ok reachable.step [OF reachable.start calm_world_ok(1)]] by blast

text \<open>C16: a mutation that is answered with OK is in force: the options are the ones the request asks
  for, and on every interface the program is attached to the kernel enforces the rules they ask for, and
  nothing elsewhere.\<close>

theorem accepted_mutation_is_in_force:
  assumes "world_ok w" and "links_ok w" and "daemon_ok rx d" and "daemon_synced d"
    and "applyAdminMutation rx w req d = (res, d')" and "mres_OK res"
  shows "mutateOptions rx (pm_opts (dm_policies d)) req = Inr (pm_opts (dm_policies d')) \<and>
    daemon_synced d' \<and> in_force rx w d'"
proof -
  obtain nxt where nxt: "mutateOptions rx (pm_opts (dm_policies d)) req = Inr nxt"
    using assms(5,6) by (cases "mutateOptions rx (pm_opts (dm_policies d)) req")
      (auto simp: applyAdminMutation_def optionsSnapshot_def answer_def)
  let ?d1 = "d\<lparr>dm_policies := replaceOptions nxt (dm_policies d)\<rparr>"
  have "opts_ok rx nxt" using mutateOptions_ok [OF _ nxt] assms(3) by (simp add: daemon_ok_def)
  then have d1: "daemon_ok rx ?d1" using assms(3) by (simp add: daemon_ok_def replaceOptions_spec)
  obtain c errs d2 where eg: "reconcile_egress rx w nxt False ?d1 = (c, errs, d2)" by (metis prod_cases3)
  note e = reconcile_egress_ok [OF assms(1) d1 eg]
  have s2: "daemon_synced d2"
    using replaceOptions_synced [of nxt d] assms(4) e(2,3) by (simp add: daemon_synced_def)
  have fin: "finish rx w d2 = (res, d')"
    using assms(5,6) nxt eg by (auto simp: applyAdminMutation_def optionsSnapshot_def Let_def answer_def split: if_splits)
  have "daemon_synced d' \<and> in_force rx w d'"
    using finish_run [OF assms(1,2) e(1) s2] fin assms(6) by simp
  moreover have "pm_opts (dm_policies d') = nxt"
    using applyAdminMutation_opts [of rx w req d] assms(5) nxt by simp
  ultimately show ?thesis using nxt by simp
qed

definition names_request :: mutationRequest where
  "names_request = zero_mutationRequest\<lparr>mr_Operation := ''set'', mr_Target := ''interface_names'', mr_Values := [''eth0'']\<rparr>"

lemma names_request_ok: "mres_OK (fst (applyAdminMutation example_rx calm_world names_request (start_daemon example_options)))"
proof -
  obtain nxt where nxt: "mutateOptions example_rx example_options names_request = Inr nxt"
    by (simp add: mutateOptions_def mutate_target_def mutateStringList_def mutationStringValues_def names_request_def zero_mutationRequest_def
        example_options_def guardR_def uniqueStrings_def Let_def)
  let ?d = "\<lparr>dm_policies = replaceOptions nxt (newPolicyManager True example_options), dm_manager = newEgressManager, dm_kernel = new_kernel\<rparr>"
  have sel: "selectInterfaces example_rx [] opts = Inr []" for opts
    by (simp add: selectInterfaces_def sort_slice_def)
  have eg: "\<exists>c d. reconcile_egress example_rx calm_world opts False ?d = (c, [], d) \<and> dm_policies d = dm_policies ?d \<and>
      dm_kernel d = new_kernel \<and> em_attached (dm_manager d) = fmempty" for opts
    by (simp add: reconcile_egress_def em_reconcileCurrent_def selectedInterfaces_def calm_world_def listInterfaces_def sel em_reconcile_def
        desired_of_def newEgressManager_def calm_attach_def sorted_list_of_fset.rep_eq split: prod.split) blast
  have wrote: "\<exists>k'. writeEffectivePolicies True calm_env fmempty next k = (Inr (), k')" for "next" k
    using writeEffectivePolicies_calm [OF calm_env_calm] by (metis prod.collapse)
  have fin: "mres_OK (fst (finish example_rx calm_world d))"
    if "dm_policies d = dm_policies ?d" "dm_kernel d = new_kernel" "em_attached (dm_manager d) = fmempty" for d
    using that wrote [of fmempty new_kernel]
    by (auto simp: finish_def reconcile_policies_def pm_reconcileAttached_def attachedIndexSnapshot_def calm_world_def pm_reconcile_def Let_def
        sel effectivePoliciesForInterfaces_def replaceOptions_spec newPolicyManager_def answer_def split: prod.split)
  from eg [of nxt] obtain c d where "reconcile_egress example_rx calm_world nxt False ?d = (c, [], d)"
    "mres_OK (fst (finish example_rx calm_world d))" using fin by blast
  then show ?thesis
    using nxt by (simp add: applyAdminMutation_def optionsSnapshot_def start_daemon_def newPolicyManager_def)
qed

lemma accepted_mutation_is_in_force_witness:
  "\<exists>res d'. applyAdminMutation example_rx calm_world names_request (start_daemon example_options) = (res, d') \<and> in_force example_rx calm_world d'"
proof -
  obtain res d' where run: "applyAdminMutation example_rx calm_world names_request (start_daemon example_options) = (res, d')" by fastforce
  have "daemon_synced (start_daemon example_options)"
    by (simp add: daemon_synced_def pm_synced_def start_daemon_def newPolicyManager_def valid_policies_def synced_new_kernel)
  from accepted_mutation_is_in_force [OF calm_world_ok start_daemon_ok [OF example_options_ok] this run] names_request_ok run
  show ?thesis by simp
qed

text \<open>C17: a refused request leaves no trace when it is the request that is wrong, but a request that is
  valid changes the options for good even when the answer is an error, because the interfaces or the maps
  could not be brought in line: the options are not rolled back.\<close>

theorem mutation_answers_and_options:
  "(case mutateOptions rx (pm_opts (dm_policies d)) req of
      Inl err \<Rightarrow> applyAdminMutation rx w req d =
        (\<lparr>mres_OK = False, mres_Changed = False, mres_Error = error_text err, mres_Config = configSnapshot (w_walks w) (dm_policies d)\<rparr>, d)
    | Inr next \<Rightarrow> pm_opts (dm_policies (snd (applyAdminMutation rx w req d))) = next) \<and>
   (listInterfaces (w_links_egress w) = Inl e \<longrightarrow> \<not> mres_OK (fst (applyAdminMutation rx w req d)))"
proof -
  have "\<not> mres_OK (fst (applyAdminMutation rx w req d))" if "listInterfaces (w_links_egress w) = Inl e"
    using that by (auto simp: applyAdminMutation_def Let_def reconcile_egress_def em_reconcileCurrent_def selectedInterfaces_def
        split: sum.split)
  then show ?thesis
    using applyAdminMutation_opts [of rx w req d]
    by (auto simp: applyAdminMutation_def optionsSnapshot_def answer_def split: sum.split)
qed

lemma mutation_answers_and_options_witness:
  "\<not> mres_OK (fst (applyAdminMutation example_rx (calm_world\<lparr>w_links_egress := Inl (Lib ''netlink'')\<rparr>) zero_mutationRequest (start_daemon example_options)))"
  using mutation_answers_and_options [where w = "calm_world\<lparr>w_links_egress := Inl (Lib ''netlink'')\<rparr>" and e = "Lib ''netlink''"]
  by (simp add: listInterfaces_def)

text \<open>a burst of netlink updates, of any length and kind, changes nothing until the timer fires; then
  one reconcile is made, the clients are told of the interfaces if a link or address changed or something
  was attached or detached, and the watcher waits for the next update.\<close>

theorem watcher_coalesces_updates:
  assumes "\<forall>e \<in> set evs. is_update (snd (snd e))" and "evs \<noteq> []"
  shows "watch_run rx (evs @ [(w, resub, TimerFired)]) (new_watcher, d) =
    (case watch_reconcile rx w False (\<exists>e \<in> set evs. is_interface_update (snd (snd e))) d of
       (_, notes, d') \<Rightarrow> (None, notes, new_watcher, d'))"
  unfolding watch_run_append watch_updates [OF assms(1)] using assms(2)
  by (simp add: watch_step_def new_watcher_def split: prod.split)

lemma watcher_coalesces_updates_witness:
  "\<exists>notes d'. watch_run example_rx [(calm_world, None, RouteUpdate), (calm_world, None, TimerFired)]
     (new_watcher, start_daemon example_options) = (None, notes, new_watcher, d')"
  using watcher_coalesces_updates [of "[(calm_world, None, RouteUpdate)]" example_rx calm_world None "start_daemon example_options"]
  by (simp add: is_update_def split: prod.splits)

text \<open>C18: once the watcher has subscribed again after a netlink error, it can only end in a panic, also when
  the daemon is told to stop: the deferred close meets a channel that is closed already. So the error
  of a failed second subscription is never reported.\<close>

theorem watcher_panics_after_resubscribing:
  assumes "wt_generation wt = 1"
  shows "fst (watch_run rx ((w, resub, SubscribeError 1 e) # evs) (wt, d)) \<in> {None, Some [Panic ''close of closed channel'']} \<and>
    fst (watch_run rx [(w, Some e', SubscribeError 1 e)] (wt, d)) = Some [Panic ''close of closed channel''] \<and>
    fst (watch_run rx [(w, None, SubscribeError 1 e), (w', None, CtxDone)] (wt, d)) = Some [Panic ''close of closed channel'']"
proof -
  obtain r1 n1 wt1 d1 where st: "watch_step rx w resub (SubscribeError 1 e) (wt, d) = (r1, n1, wt1, d1)" by (metis prod_cases4)
  then have closed: "1 \<in> set (wt_closed wt1)" "r1 \<in> {None, Some [Panic ''close of closed channel'']}"
    using assms by (auto simp: watch_step_def watch_return_def Let_def split: option.splits prod.splits)
  obtain r2 n2 wt2 d2 where rest: "watch_run rx evs (wt1, d1) = (r2, n2, wt2, d2)" by (metis prod_cases4)
  have "fst (watch_run rx ((w, resub, SubscribeError 1 e) # evs) (wt, d)) \<in> {None, Some [Panic ''close of closed channel'']}"
    using closed(2) watch_run_closed [OF closed(1) rest] st rest by auto
  then show ?thesis
    using assms by (simp add: watch_step_def watch_return_def split: prod.split)
qed

lemma watcher_panics_after_resubscribing_witness:
  "fst (watch_run example_rx [(calm_world, None, SubscribeError 1 (Lib ''ENOBUFS'')), (calm_world, None, CtxDone)]
     (new_watcher, start_daemon example_options)) = Some [Panic ''close of closed channel'']"
  using watcher_panics_after_resubscribing [of new_watcher example_rx calm_world None "Lib ''ENOBUFS''" "[]"]
  by (simp add: new_watcher_def)

end
