(* ===== verification/SocksProxy.thy ===== *)
theory SocksProxy
  imports Daemon
begin

text \<open>
  \<open>cmd/killswitch/socks_proxy.go\<close>: the manager that starts and stops the SOCKS proxy. Its methods hold the mutex
  \<open>m.mu\<close> only for sections; each section is a definition, the methods are composed of them, once as they run
  alone and once as a step relation in which the methods of several callers and the accept loops
  interleave. Sockets are numbers; \<open>net.Listen\<close> and the listener of the third-party package are parameters.
\<close>

section \<open>State\<close>

record socksProxyManager =
  spm_opts :: socksProxyOptions
  spm_state :: socksProxyState
  spm_listener :: "nat option"
  spm_cancel :: "nat option"

definition newSocksProxyManager :: "socksProxyOptions \<Rightarrow> socksProxyManager" where
  "newSocksProxyManager opts =
     \<lparr>spm_opts = opts, spm_state = socksProxyStateFromOptions opts, spm_listener = None, spm_cancel = None\<rparr>"

definition State :: "socksProxyManager \<Rightarrow> socksProxyState" where
  "State m = spm_state m"

section \<open>The sections under the mutex\<close>

text \<open>\<open>start\<close>: either the proxy runs and its state is emitted, or a listener is to be opened.\<close>

definition start_first :: "socksProxyManager \<Rightarrow> (socksProxyState + socksProxyOptions) \<times> socksProxyManager" where
  "start_first m =
     (let st = spm_state m in
      if ss_Running st then (let st' = st\<lparr>ss_Enabled := True\<rparr> in (Inl st', m\<lparr>spm_state := st'\<rparr>))
      else (Inr (spm_opts m), m\<lparr>spm_state := st\<lparr>ss_Enabled := True, ss_LastError := []\<rparr>\<rparr>))"

definition start_second :: "nat \<Rightarrow> socksProxyManager \<Rightarrow> socksProxyState \<times> socksProxyManager" where
  "start_second listener m =
     (let st' = (spm_state m)\<lparr>ss_Running := True, ss_LastError := []\<rparr> in
      (st', m\<lparr>spm_listener := Some listener, spm_cancel := Some listener, spm_state := st'\<rparr>))"

text \<open>The listener that the caller closes after the section, and the state it emits.\<close>

definition stop_section :: "string \<Rightarrow> socksProxyManager \<Rightarrow> nat option \<times> socksProxyState \<times> socksProxyManager" where
  "stop_section lastError m =
     (let st' = (spm_state m)\<lparr>ss_Enabled := False, ss_Running := False, ss_LastError := lastError\<rparr> in
      (spm_listener m, st', m\<lparr>spm_cancel := None, spm_listener := None, spm_state := st'\<rparr>))"

definition stopWithError_section :: "error \<Rightarrow> socksProxyManager \<Rightarrow> nat option \<times> socksProxyState \<times> socksProxyManager" where
  "stopWithError_section err m =
     (let st' = (spm_state m)\<lparr>ss_Running := False, ss_LastError := error_text err\<rparr> in
      (spm_listener m, st', m\<lparr>spm_cancel := None, spm_listener := None, spm_state := st'\<rparr>))"

definition setStartError_section :: "error \<Rightarrow> socksProxyManager \<Rightarrow> socksProxyState \<times> socksProxyManager" where
  "setStartError_section err m =
     (let st' = (spm_state m)\<lparr>ss_Running := False, ss_LastError := error_text err\<rparr> in (st', m\<lparr>spm_state := st'\<rparr>))"

section \<open>The listener\<close>

text \<open>
  What the calls of one \<open>start\<close> return: \<open>Listen\<close>, and \<open>NewListener\<close> of the package \<open>protected\<close>, which
  gives a listener, or an error with a listener that may be nil.
\<close>

record listen_env =
  le_Listen :: "string \<Rightarrow> nat res"
  le_NewListener :: "nat \<Rightarrow> socksProxyProtectedOptions \<Rightarrow> (nat option \<times> error) + nat"

definition HasRules :: "socksProxyProtectedOptions \<Rightarrow> bool" where
  "HasRules opts \<longleftrightarrow> sp_UIDs opts \<noteq> [] \<or> sp_GIDs opts \<noteq> [] \<or> sp_Usernames opts \<noteq> []"

definition protectedSocksProxyListener :: "listen_env \<Rightarrow> nat \<Rightarrow> socksProxyProtectedOptions \<Rightarrow> (nat option \<times> error) + nat" where
  "protectedSocksProxyListener e listener opts =
     (if \<not> HasRules opts then Inr listener else le_NewListener e listener opts)"

definition socks_address :: "socksProxyOptions \<Rightarrow> string" where
  "socks_address opts = net_JoinHostPort defaultSocksProxyHost (itoa (uint (so_Port opts)))"

text \<open>The listener with which \<open>start\<close> goes on, or the error to keep and the error to return. Closing a
  nil listener panics.\<close>

definition open_listener :: "listen_env \<Rightarrow> socksProxyOptions \<Rightarrow> (error \<times> error) + nat" where
  "open_listener e opts =
     (case le_Listen e (socks_address opts) of
        Inl err \<Rightarrow> Inl (Wrap ''listen socks proxy'' [] err, err)
      | Inr listener \<Rightarrow>
          (case protectedSocksProxyListener e listener (so_Protected opts) of
             Inl (l, err) \<Rightarrow>
               (let err' = (case l of None \<Rightarrow> Panic ''invalid memory address or nil pointer dereference''
                            | Some _ \<Rightarrow> Wrap ''protect socks proxy listener'' [] err) in Inl (err', err'))
           | Inr l \<Rightarrow> Inr l))"

section \<open>The methods, run alone\<close>

text \<open>The error that is returned, the states that are emitted, the listener that is closed.\<close>

record effect =
  ef_err :: "error option"
  ef_emitted :: "socksProxyState list"
  ef_closed :: "nat option"

definition start :: "listen_env \<Rightarrow> socksProxyManager \<Rightarrow> effect \<times> socksProxyManager" where
  "start e m =
     (case start_first m of
        (Inl st, m') \<Rightarrow> (\<lparr>ef_err = None, ef_emitted = [st], ef_closed = None\<rparr>, m')
      | (Inr opts, m') \<Rightarrow>
          (case open_listener e opts of
             Inl (kept, err) \<Rightarrow>
               (case setStartError_section kept m' of (st, m'') \<Rightarrow> (\<lparr>ef_err = Some err, ef_emitted = [st], ef_closed = None\<rparr>, m''))
           | Inr listener \<Rightarrow>
               (case start_second listener m' of (st, m'') \<Rightarrow> (\<lparr>ef_err = None, ef_emitted = [st], ef_closed = None\<rparr>, m''))))"

definition stop :: "string \<Rightarrow> socksProxyManager \<Rightarrow> effect \<times> socksProxyManager" where
  "stop lastError m =
     (case stop_section lastError m of (l, st, m') \<Rightarrow> (\<lparr>ef_err = None, ef_emitted = [st], ef_closed = l\<rparr>, m'))"

definition stopWithError :: "error \<Rightarrow> socksProxyManager \<Rightarrow> effect \<times> socksProxyManager" where
  "stopWithError err m =
     (case stopWithError_section err m of (l, st, m') \<Rightarrow> (\<lparr>ef_err = None, ef_emitted = [st], ef_closed = l\<rparr>, m'))"

definition SetEnabled :: "listen_env \<Rightarrow> bool \<Rightarrow> socksProxyManager \<Rightarrow> effect \<times> socksProxyManager" where
  "SetEnabled e enabled m = (if enabled then start e m else stop [] m)"

definition Close :: "socksProxyManager \<Rightarrow> effect \<times> socksProxyManager" where
  "Close m = stop [] m"

text \<open>The accept loop of \<open>serve\<close> at one error: it ends, and stops the proxy when the error is not the
  one of a listener that was closed on purpose.\<close>

definition serve_error :: "bool \<Rightarrow> error \<Rightarrow> socksProxyManager \<Rightarrow> effect option \<times> socksProxyManager" where
  "serve_error cancelled_or_closed err m =
     (if cancelled_or_closed then (None, m)
      else case stopWithError (Wrap ''socks proxy accept'' [] err) m of (ef, m') \<Rightarrow> (Some ef, m'))"

section \<open>The address of the DNS server\<close>

text \<open>\<open>strings.EqualFold\<close> with an ASCII text: besides the letters of the other case, the long s and the sign for
  Kelvin fold to s and k.\<close>

fun fold_special :: "string \<Rightarrow> string" where
  "fold_special [] = []"
| "fold_special (c # cs) =
     (if ccode c = 0xC5 \<and> cs \<noteq> [] \<and> ccode (hd cs) = 0xBF then CHR ''s'' # fold_special (tl cs)
      else if ccode c = 0xE2 \<and> 2 \<le> length cs \<and> ccode (hd cs) = 0x84 \<and> ccode (cs ! 1) = 0xAA then CHR ''k'' # fold_special (drop 2 cs)
      else c # fold_special cs)"

definition strings_EqualFold :: "string \<Rightarrow> string \<Rightarrow> bool" where
  "strings_EqualFold s t \<longleftrightarrow> strings_ToLower (fold_special s) = strings_ToLower t"

definition dnsServerAddress :: "string \<Rightarrow> string" where
  "dnsServerAddress v =
     (case net_SplitHostPort v of
        Inl _ \<Rightarrow> net_JoinHostPort v ''53''
      | Inr (host, port) \<Rightarrow> if strings_EqualFold port ''dns'' then net_JoinHostPort host ''53'' else v)"

section \<open>The mutation \<open>socks_proxy\<close>\<close>

text \<open>
  \<open>applySocksProxyMutation\<close> in three parts, because the callback of the proxy and so the whole daemon
  is entered in the middle: the value of the request, \<open>SetEnabled\<close> with its callback, and the rest under
  \<open>reconcileMu\<close>.
\<close>

definition socks_value :: "mutationRequest \<Rightarrow> string + bool" where
  "socks_value req =
     (if mr_Operation req \<noteq> ''set'' then Inl ''socks_proxy only supports set''
      else case mr_Value req of
        None \<Rightarrow> Inl ''socks_proxy mutation requires boolean value''
      | Some js \<Rightarrow> (case dec_bool js False of Inl err \<Rightarrow> Inl (''decode socks_proxy value: '' @ error_text err) | Inr enabled \<Rightarrow> Inr enabled))"

definition finish_socks :: "regexps \<Rightarrow> world \<Rightarrow> error option \<Rightarrow> socksProxyState \<Rightarrow> daemon \<Rightarrow> mutationResult \<times> daemon" where
  "finish_socks rx w err state d =
     (case reconcile_policies rx w (d\<lparr>dm_policies := setSocksProxyState state (dm_policies d)\<rparr>) of
        (reconcileRes, d') \<Rightarrow>
          (case err of
             Some e \<Rightarrow> answer w True True (error_text e) d'
           | None \<Rightarrow> (case reconcileRes of
               Inl reconcileErr \<Rightarrow> answer w False False (error_text reconcileErr) d'
             | Inr _ \<Rightarrow> answer w True True [] d')))"

section \<open>Interleaving\<close>

text \<open>
  What a goroutine has left to do between two sections: open the listener, record that starting failed, run the second
  section of \<open>start\<close>, call \<open>onStateChanged\<close> with a state, wait in \<open>Accept\<close>, run \<open>stopWithError\<close>.
\<close>

datatype task = ToListen socksProxyOptions | ToFail error | ToCommit nat | ToEmit socksProxyState | InAccept nat | ToStopWithError error

text \<open>The manager, the tasks, the sockets that are open, the next socket, and the state the policy manager was told.\<close>

record proxies =
  px_m :: socksProxyManager
  px_tasks :: "task multiset"
  px_open :: "nat set"
  px_fresh :: nat
  px_told :: socksProxyState

definition closing :: "nat option \<Rightarrow> nat set \<Rightarrow> nat set" where
  "closing l sockets = (case l of None \<Rightarrow> sockets | Some n \<Rightarrow> sockets - {n})"

text \<open>All sockets have the address of the options, so that \<open>Listen\<close> fails while one is open. The last rule is the
  second part of \<open>applySocksProxyMutation\<close>.\<close>

inductive px_step :: "proxies \<Rightarrow> proxies \<Rightarrow> bool" where
  start_running: "start_first (px_m p) = (Inl st, m) \<Longrightarrow> px_step p (p\<lparr>px_m := m, px_tasks := add_mset (ToEmit st) (px_tasks p)\<rparr>)"
| start_new: "start_first (px_m p) = (Inr opts, m) \<Longrightarrow> px_step p (p\<lparr>px_m := m, px_tasks := add_mset (ToListen opts) (px_tasks p)\<rparr>)"
| listen: "px_tasks p = add_mset (ToListen opts) ts \<Longrightarrow> px_open p = {} \<Longrightarrow>
    px_step p (p\<lparr>px_tasks := add_mset (ToCommit (px_fresh p)) ts, px_open := {px_fresh p}, px_fresh := Suc (px_fresh p)\<rparr>)"
| listen_error: "px_tasks p = add_mset (ToListen opts) ts \<Longrightarrow> px_step p (p\<lparr>px_tasks := add_mset (ToFail err) ts\<rparr>)"
| commit: "px_tasks p = add_mset (ToCommit n) ts \<Longrightarrow> start_second n (px_m p) = (st, m) \<Longrightarrow>
    px_step p (p\<lparr>px_m := m, px_tasks := add_mset (ToEmit st) (add_mset (InAccept n) ts)\<rparr>)"
| fail: "px_tasks p = add_mset (ToFail err) ts \<Longrightarrow> setStartError_section err (px_m p) = (st, m) \<Longrightarrow>
    px_step p (p\<lparr>px_m := m, px_tasks := add_mset (ToEmit st) ts\<rparr>)"
| stop: "stop_section [] (px_m p) = (l, st, m) \<Longrightarrow>
    px_step p (p\<lparr>px_m := m, px_tasks := add_mset (ToEmit st) (px_tasks p), px_open := closing l (px_open p)\<rparr>)"
| accept_error: "px_tasks p = add_mset (InAccept n) ts \<Longrightarrow> n \<in> px_open p \<Longrightarrow>
    px_step p (p\<lparr>px_tasks := add_mset (ToStopWithError err) ts\<rparr>)"
| accept_closed: "px_tasks p = add_mset (InAccept n) ts \<Longrightarrow> n \<notin> px_open p \<Longrightarrow> px_step p (p\<lparr>px_tasks := ts\<rparr>)"
| stop_with_error: "px_tasks p = add_mset (ToStopWithError err) ts \<Longrightarrow> stopWithError_section err (px_m p) = (l, st, m) \<Longrightarrow>
    px_step p (p\<lparr>px_m := m, px_tasks := add_mset (ToEmit st) ts, px_open := closing l (px_open p)\<rparr>)"
| emit: "px_tasks p = add_mset (ToEmit st) ts \<Longrightarrow> px_step p (p\<lparr>px_tasks := ts, px_told := st\<rparr>)"
| resync: "px_step p (p\<lparr>px_told := State (px_m p)\<rparr>)"

definition px_init :: "socksProxyOptions \<Rightarrow> proxies" where
  "px_init opts = \<lparr>px_m = newSocksProxyManager opts, px_tasks = {#}, px_open = {}, px_fresh = 0, px_told = socksProxyStateFromOptions opts\<rparr>"

inductive px_reachable :: "socksProxyOptions \<Rightarrow> proxies \<Rightarrow> bool" for opts where
  init: "px_reachable opts (px_init opts)"
| step: "px_reachable opts p \<Longrightarrow> px_step p p' \<Longrightarrow> px_reachable opts p'"

text \<open>At most one socket is open; it is the one of the manager or of a \<open>start\<close> between its sections.\<close>

definition px_ok :: "proxies \<Rightarrow> bool" where
  "px_ok p \<longleftrightarrow> (ss_Running (spm_state (px_m p)) \<longrightarrow> spm_listener (px_m p) \<noteq> None) \<and>
     (\<forall>n. spm_listener (px_m p) = Some n \<longrightarrow> px_open p = {n} \<and> (\<forall>k. ToCommit k \<notin># px_tasks p)) \<and>
     (\<forall>n. ToCommit n \<in># px_tasks p \<longrightarrow> px_open p = {n} \<and> count (px_tasks p) (ToCommit n) = 1) \<and>
     (px_open p \<noteq> {} \<longrightarrow> spm_listener (px_m p) \<noteq> None \<or> (\<exists>n. ToCommit n \<in># px_tasks p)) \<and> (\<forall>n \<in> px_open p. n < px_fresh p)"

lemma px_init_ok: "px_ok (px_init opts)"
  by (simp add: px_ok_def px_init_def newSocksProxyManager_def socksProxyStateFromOptions_def)

lemmas section_defs = start_first_def start_second_def stop_section_def stopWithError_section_def setStartError_section_def Let_def

lemma px_step_ok: "px_step p p' \<Longrightarrow> px_ok p \<Longrightarrow> px_ok p'"
proof (induction rule: px_step.induct)
  case (commit p n ts st m)
  have only: "px_open p = {j}" "count (px_tasks p) (ToCommit j) = 1" if "ToCommit j \<in># px_tasks p" for j
    using that commit.prems unfolding px_ok_def by blast+
  have no: "ToCommit k \<notin># ts" for k
  proof
    assume k: "ToCommit k \<in># ts"
    with only(1) [of k] only(1) [of n] commit.hyps(1) have "k = n" by simp
    with k only(2) [of n] commit.hyps(1) show False by (simp add: count_eq_zero_iff)
  qed
  show ?case using commit no by (auto simp: px_ok_def section_defs)
next
  case (listen p opts ts)
  have no: "ToCommit k \<notin># ts" for k
    using listen by (auto simp: px_ok_def)
  then show ?case using listen by (auto simp: px_ok_def not_in_iff)
next
  case (stop p l st m)
  then show ?case by (cases l) (auto simp: px_ok_def section_defs closing_def)
next
  case (stop_with_error p err ts l st m)
  then show ?case by (cases l) (auto simp: px_ok_def section_defs closing_def)
qed (auto simp: px_ok_def section_defs split: if_splits)

lemma px_reachable_ok: "px_reachable opts p \<Longrightarrow> px_ok p"
  by (induction rule: px_reachable.induct) (auto intro: px_init_ok px_step_ok)

text \<open>Steps on an explicit state, for the runs below.\<close>

lemma px_runs:
  assumes "px_reachable opts \<lparr>px_m = m, px_tasks = ts, px_open = sockets, px_fresh = k, px_told = t\<rparr>"
  shows "start_first m = (Inr os, m') \<Longrightarrow>
      px_reachable opts \<lparr>px_m = m', px_tasks = add_mset (ToListen os) ts, px_open = sockets, px_fresh = k, px_told = t\<rparr>"
    and "ts = add_mset (ToListen os) us \<Longrightarrow> sockets = {} \<Longrightarrow>
      px_reachable opts \<lparr>px_m = m, px_tasks = add_mset (ToCommit k) us, px_open = {k}, px_fresh = Suc k, px_told = t\<rparr>"
    and "ts = add_mset (ToListen os) us \<Longrightarrow>
      px_reachable opts \<lparr>px_m = m, px_tasks = add_mset (ToFail err) us, px_open = sockets, px_fresh = k, px_told = t\<rparr>"
    and "ts = add_mset (ToCommit n) us \<Longrightarrow> start_second n m = (st, m') \<Longrightarrow>
      px_reachable opts \<lparr>px_m = m', px_tasks = add_mset (ToEmit st) (add_mset (InAccept n) us), px_open = sockets, px_fresh = k, px_told = t\<rparr>"
    and "ts = add_mset (ToFail err) us \<Longrightarrow> setStartError_section err m = (st, m') \<Longrightarrow>
      px_reachable opts \<lparr>px_m = m', px_tasks = add_mset (ToEmit st) us, px_open = sockets, px_fresh = k, px_told = t\<rparr>"
    and "stop_section [] m = (l, st, m') \<Longrightarrow> closing l sockets = left \<Longrightarrow>
      px_reachable opts \<lparr>px_m = m', px_tasks = add_mset (ToEmit st) ts, px_open = left, px_fresh = k, px_told = t\<rparr>"
    and "ts = add_mset (InAccept n) us \<Longrightarrow> n \<in> sockets \<Longrightarrow>
      px_reachable opts \<lparr>px_m = m, px_tasks = add_mset (ToStopWithError err) us, px_open = sockets, px_fresh = k, px_told = t\<rparr>"
    and "ts = add_mset (ToStopWithError err) us \<Longrightarrow> stopWithError_section err m = (l, st, m') \<Longrightarrow> closing l sockets = left \<Longrightarrow>
      px_reachable opts \<lparr>px_m = m', px_tasks = add_mset (ToEmit st) us, px_open = left, px_fresh = k, px_told = t\<rparr>"
    and "ts = add_mset (ToEmit st) us \<Longrightarrow>
      px_reachable opts \<lparr>px_m = m, px_tasks = us, px_open = sockets, px_fresh = k, px_told = st\<rparr>"
  subgoal using px_reachable.step [OF assms] px_step.start_new [where p = "\<lparr>px_m = m, px_tasks = ts, px_open = sockets, px_fresh = k, px_told = t\<rparr>"] by auto
  subgoal using px_reachable.step [OF assms] px_step.listen [where p = "\<lparr>px_m = m, px_tasks = ts, px_open = sockets, px_fresh = k, px_told = t\<rparr>"] by auto
  subgoal using px_reachable.step [OF assms] px_step.listen_error [where p = "\<lparr>px_m = m, px_tasks = ts, px_open = sockets, px_fresh = k, px_told = t\<rparr>"] by auto
  subgoal using px_reachable.step [OF assms] px_step.commit [where p = "\<lparr>px_m = m, px_tasks = ts, px_open = sockets, px_fresh = k, px_told = t\<rparr>"] by auto
  subgoal using px_reachable.step [OF assms] px_step.fail [where p = "\<lparr>px_m = m, px_tasks = ts, px_open = sockets, px_fresh = k, px_told = t\<rparr>"] by auto
  subgoal using px_reachable.step [OF assms] px_step.stop [where p = "\<lparr>px_m = m, px_tasks = ts, px_open = sockets, px_fresh = k, px_told = t\<rparr>"] by auto
  subgoal using px_reachable.step [OF assms] px_step.accept_error [where p = "\<lparr>px_m = m, px_tasks = ts, px_open = sockets, px_fresh = k, px_told = t\<rparr>"] by auto
  subgoal using px_reachable.step [OF assms] px_step.stop_with_error [where p = "\<lparr>px_m = m, px_tasks = ts, px_open = sockets, px_fresh = k, px_told = t\<rparr>"] by auto
  subgoal using px_reachable.step [OF assms] px_step.emit [where p = "\<lparr>px_m = m, px_tasks = ts, px_open = sockets, px_fresh = k, px_told = t\<rparr>"] by auto
  done

text \<open>Managers with the options \<open>opts\<close> in a given state, for the runs below.\<close>

definition px_state :: "socksProxyOptions \<Rightarrow> bool \<Rightarrow> bool \<Rightarrow> string \<Rightarrow> socksProxyState" where
  "px_state opts enabled running err = \<lparr>ss_Enabled = enabled, ss_Running = running, ss_Port = so_Port opts,
     ss_FWMark = so_FWMark opts, ss_DNSServer = so_DNSServer opts, ss_LastError = err\<rparr>"

definition px_manager :: "socksProxyOptions \<Rightarrow> socksProxyState \<Rightarrow> nat option \<Rightarrow> socksProxyManager" where
  "px_manager opts st l = \<lparr>spm_opts = opts, spm_state = st, spm_listener = l, spm_cancel = l\<rparr>"

lemmas px_defs = section_defs px_state_def px_manager_def newSocksProxyManager_def socksProxyStateFromOptions_def closing_def

text \<open>Two clients start the proxy; the second one is told that the port is in use.\<close>

lemma px_two_starts:
  "\<exists>p n. px_reachable opts p \<and> px_tasks p = {#InAccept n#} \<and> px_open p = {n} \<and> \<not> ss_Running (spm_state (px_m p)) \<and> \<not> ss_Running (px_told p)"
proof -
  let ?s = "px_state opts" and ?m = "px_manager opts"
  let ?t0 = "?s (so_Enabled opts) False []"
  have "px_reachable opts \<lparr>px_m = ?m ?t0 None, px_tasks = {#}, px_open = {}, px_fresh = 0, px_told = ?t0\<rparr>"
    using px_reachable.init [of opts] by (simp add: px_init_def px_defs)
  then have "px_reachable opts \<lparr>px_m = ?m (?s True False []) None, px_tasks = {#ToListen opts#}, px_open = {}, px_fresh = 0, px_told = ?t0\<rparr>"
    by (rule px_runs(1)) (simp add: px_defs)
  then have "px_reachable opts \<lparr>px_m = ?m (?s True False []) None, px_tasks = {#ToListen opts, ToListen opts#}, px_open = {}, px_fresh = 0, px_told = ?t0\<rparr>"
    by (rule px_runs(1)) (simp add: px_defs)
  then have "px_reachable opts \<lparr>px_m = ?m (?s True False []) None, px_tasks = {#ToCommit 0, ToListen opts#}, px_open = {0}, px_fresh = Suc 0, px_told = ?t0\<rparr>"
    by (rule px_runs(2)) simp_all
  then have "px_reachable opts \<lparr>px_m = ?m (?s True False []) None, px_tasks = {#ToFail e, ToCommit 0#}, px_open = {0}, px_fresh = Suc 0, px_told = ?t0\<rparr>"
    by (rule px_runs(3)) simp
  then have "px_reachable opts \<lparr>px_m = ?m (?s True True []) (Some 0), px_tasks = {#ToEmit (?s True True []), InAccept 0, ToFail e#}, px_open = {0}, px_fresh = Suc 0, px_told = ?t0\<rparr>"
    by (rule px_runs(4)) (simp_all add: px_defs)
  then have "px_reachable opts \<lparr>px_m = ?m (?s True True []) (Some 0), px_tasks = {#InAccept 0, ToFail e#}, px_open = {0}, px_fresh = Suc 0, px_told = ?s True True []\<rparr>"
    by (rule px_runs(9)) simp
  then have "px_reachable opts \<lparr>px_m = ?m (?s True False (error_text e)) (Some 0), px_tasks = {#ToEmit (?s True False (error_text e)), InAccept 0#}, px_open = {0}, px_fresh = Suc 0, px_told = ?s True True []\<rparr>"
    by (rule px_runs(5)) (simp_all add: px_defs)
  then have "px_reachable opts \<lparr>px_m = ?m (?s True False (error_text e)) (Some 0), px_tasks = {#InAccept 0#}, px_open = {0}, px_fresh = Suc 0, px_told = ?s True False (error_text e)\<rparr>"
    by (rule px_runs(9)) simp
  then show ?thesis
    by (intro exI conjI, assumption) (simp_all add: px_defs)
qed

text \<open>A client stops the proxy between the sections of \<open>start\<close>.\<close>

lemma px_stop_in_start:
  "\<exists>p n. px_reachable opts p \<and> px_tasks p = {#InAccept n#} \<and> px_open p = {n} \<and> ss_Running (spm_state (px_m p)) \<and> \<not> ss_Enabled (spm_state (px_m p))"
proof -
  let ?s = "px_state opts" and ?m = "px_manager opts"
  let ?t0 = "?s (so_Enabled opts) False []"
  have "px_reachable opts \<lparr>px_m = ?m ?t0 None, px_tasks = {#}, px_open = {}, px_fresh = 0, px_told = ?t0\<rparr>"
    using px_reachable.init [of opts] by (simp add: px_init_def px_defs)
  then have "px_reachable opts \<lparr>px_m = ?m (?s True False []) None, px_tasks = {#ToListen opts#}, px_open = {}, px_fresh = 0, px_told = ?t0\<rparr>"
    by (rule px_runs(1)) (simp add: px_defs)
  then have "px_reachable opts \<lparr>px_m = ?m (?s True False []) None, px_tasks = {#ToCommit 0#}, px_open = {0}, px_fresh = Suc 0, px_told = ?t0\<rparr>"
    by (rule px_runs(2)) simp_all
  then have "px_reachable opts \<lparr>px_m = ?m (?s False False []) None, px_tasks = {#ToEmit (?s False False []), ToCommit 0#}, px_open = {0}, px_fresh = Suc 0, px_told = ?t0\<rparr>"
    by (rule px_runs(6) [where l = None]) (simp_all add: px_defs)
  then have "px_reachable opts \<lparr>px_m = ?m (?s False False []) None, px_tasks = {#ToCommit 0#}, px_open = {0}, px_fresh = Suc 0, px_told = ?s False False []\<rparr>"
    by (rule px_runs(9)) simp
  then have "px_reachable opts \<lparr>px_m = ?m (?s False True []) (Some 0), px_tasks = {#ToEmit (?s False True []), InAccept 0#}, px_open = {0}, px_fresh = Suc 0, px_told = ?s False False []\<rparr>"
    by (rule px_runs(4)) (simp_all add: px_defs)
  then have "px_reachable opts \<lparr>px_m = ?m (?s False True []) (Some 0), px_tasks = {#InAccept 0#}, px_open = {0}, px_fresh = Suc 0, px_told = ?s False True []\<rparr>"
    by (rule px_runs(9)) simp
  then show ?thesis
    by (intro exI conjI, assumption) (simp_all add: px_defs)
qed

text \<open>The proxy stops after an accept error and is started again before the state of the stop is emitted.\<close>

lemma px_late_state:
  "\<exists>p n. px_reachable opts p \<and> px_tasks p = {#InAccept n#} \<and> px_open p = {n} \<and> ss_Running (spm_state (px_m p)) \<and> \<not> ss_Running (px_told p)"
proof -
  let ?s = "px_state opts" and ?m = "px_manager opts"
  let ?t0 = "?s (so_Enabled opts) False []"
  have "px_reachable opts \<lparr>px_m = ?m ?t0 None, px_tasks = {#}, px_open = {}, px_fresh = 0, px_told = ?t0\<rparr>"
    using px_reachable.init [of opts] by (simp add: px_init_def px_defs)
  then have "px_reachable opts \<lparr>px_m = ?m (?s True False []) None, px_tasks = {#ToListen opts#}, px_open = {}, px_fresh = 0, px_told = ?t0\<rparr>"
    by (rule px_runs(1)) (simp add: px_defs)
  then have "px_reachable opts \<lparr>px_m = ?m (?s True False []) None, px_tasks = {#ToCommit 0#}, px_open = {0}, px_fresh = Suc 0, px_told = ?t0\<rparr>"
    by (rule px_runs(2)) simp_all
  then have "px_reachable opts \<lparr>px_m = ?m (?s True True []) (Some 0), px_tasks = {#ToEmit (?s True True []), InAccept 0#}, px_open = {0}, px_fresh = Suc 0, px_told = ?t0\<rparr>"
    by (rule px_runs(4)) (simp_all add: px_defs)
  then have "px_reachable opts \<lparr>px_m = ?m (?s True True []) (Some 0), px_tasks = {#InAccept 0#}, px_open = {0}, px_fresh = Suc 0, px_told = ?s True True []\<rparr>"
    by (rule px_runs(9)) simp
  then have "px_reachable opts \<lparr>px_m = ?m (?s True True []) (Some 0), px_tasks = {#ToStopWithError e#}, px_open = {0}, px_fresh = Suc 0, px_told = ?s True True []\<rparr>"
    by (rule px_runs(7)) simp_all
  then have "px_reachable opts \<lparr>px_m = ?m (?s True False (error_text e)) None, px_tasks = {#ToEmit (?s True False (error_text e))#}, px_open = {}, px_fresh = Suc 0, px_told = ?s True True []\<rparr>"
    by (rule px_runs(8) [where l = "Some 0" and err = e]) (simp_all add: px_defs)
  then have "px_reachable opts \<lparr>px_m = ?m (?s True False []) None, px_tasks = {#ToListen opts, ToEmit (?s True False (error_text e))#}, px_open = {}, px_fresh = Suc 0, px_told = ?s True True []\<rparr>"
    by (rule px_runs(1)) (simp add: px_defs)
  then have "px_reachable opts \<lparr>px_m = ?m (?s True False []) None, px_tasks = {#ToCommit (Suc 0), ToEmit (?s True False (error_text e))#}, px_open = {Suc 0}, px_fresh = Suc (Suc 0), px_told = ?s True True []\<rparr>"
    by (rule px_runs(2)) simp_all
  then have "px_reachable opts \<lparr>px_m = ?m (?s True True []) (Some (Suc 0)), px_tasks = {#ToEmit (?s True True []), InAccept (Suc 0), ToEmit (?s True False (error_text e))#}, px_open = {Suc 0}, px_fresh = Suc (Suc 0), px_told = ?s True True []\<rparr>"
    by (rule px_runs(4)) (simp_all add: px_defs)
  then have "px_reachable opts \<lparr>px_m = ?m (?s True True []) (Some (Suc 0)), px_tasks = {#InAccept (Suc 0), ToEmit (?s True False (error_text e))#}, px_open = {Suc 0}, px_fresh = Suc (Suc 0), px_told = ?s True True []\<rparr>"
    by (rule px_runs(9)) simp
  then have "px_reachable opts \<lparr>px_m = ?m (?s True True []) (Some (Suc 0)), px_tasks = {#InAccept (Suc 0)#}, px_open = {Suc 0}, px_fresh = Suc (Suc 0), px_told = ?s True False (error_text e)\<rparr>"
    by (rule px_runs(9)) simp
  then show ?thesis
    by (intro exI conjI, assumption) (simp_all add: px_defs)
qed

definition proxy_ok :: "socksProxyManager \<Rightarrow> bool" where
  "proxy_ok m \<longleftrightarrow> (ss_Running (spm_state m) \<longleftrightarrow> spm_listener m \<noteq> None) \<and> spm_cancel m = spm_listener m"

text \<open>a method of the proxy manager that runs alone keeps the listener in step with the state, emits the
  state it leaves, and does what it says: after \<open>start\<close> the proxy runs, or it keeps the error and does not run; after
  \<open>stop\<close> it is disabled, does not run, and the listener it had is closed; an accept error stops it with that error.\<close>

theorem proxy_methods_alone:
  assumes "proxy_ok m"
  shows "(case start e m of (ef, m') \<Rightarrow> proxy_ok m' \<and> ef_emitted ef = [spm_state m'] \<and> ef_closed ef = None \<and> ss_Enabled (spm_state m') \<and>
      (if ef_err ef = None then ss_Running (spm_state m') else \<not> ss_Running (spm_state m') \<and> \<not> ss_Running (spm_state m) \<and>
         (\<exists>kept err. open_listener e (spm_opts m) = Inl (kept, err) \<and> ss_LastError (spm_state m') = error_text kept))) \<and>
    (case stop msg m of (ef, m') \<Rightarrow> proxy_ok m' \<and> ef_emitted ef = [spm_state m'] \<and> ef_closed ef = spm_listener m \<and>
      \<not> ss_Enabled (spm_state m') \<and> \<not> ss_Running (spm_state m') \<and> ss_LastError (spm_state m') = msg) \<and>
    (case stopWithError err m of (ef, m') \<Rightarrow> proxy_ok m' \<and> ef_emitted ef = [spm_state m'] \<and> ef_closed ef = spm_listener m \<and>
      ss_Enabled (spm_state m') = ss_Enabled (spm_state m) \<and> \<not> ss_Running (spm_state m') \<and>
      ss_LastError (spm_state m') = error_text err)"
proof -
  have "case start e m of (ef, m') \<Rightarrow> proxy_ok m' \<and> ef_emitted ef = [spm_state m'] \<and> ef_closed ef = None \<and> ss_Enabled (spm_state m') \<and>
      (if ef_err ef = None then ss_Running (spm_state m') else \<not> ss_Running (spm_state m') \<and> \<not> ss_Running (spm_state m) \<and>
         (\<exists>kept err. open_listener e (spm_opts m) = Inl (kept, err) \<and> ss_LastError (spm_state m') = error_text kept))"
    using assms by (cases "open_listener e (spm_opts m)") (auto simp: start_def section_defs proxy_ok_def)
  then show ?thesis
    by (simp add: stop_def stopWithError_def section_defs proxy_ok_def)
qed

definition free_port :: listen_env where
  "free_port = \<lparr>le_Listen = (\<lambda>_. Inr 0), le_NewListener = (\<lambda>n _. Inr n)\<rparr>"

lemma proxy_methods_alone_witness:
  "ss_Running (spm_state (snd (start free_port (newSocksProxyManager (o_SocksProxy example_options)))))"
proof -
  let ?m = "newSocksProxyManager (o_SocksProxy example_options)"
  have m: "proxy_ok ?m" by (simp add: proxy_ok_def newSocksProxyManager_def socksProxyStateFromOptions_def)
  have "ef_err (fst (start free_port ?m)) = None"
    by (simp add: start_def section_defs newSocksProxyManager_def socksProxyStateFromOptions_def open_listener_def free_port_def
        protectedSocksProxyListener_def)
  then show ?thesis using proxy_methods_alone [OF m, THEN conjunct1, of free_port] by (auto split: prod.splits)
qed



text \<open>C24: the two sections of \<open>start\<close> race. When two clients start the proxy at once, the one that fails
  to listen marks the running proxy as stopped: it goes on serving while its state and the policies say
  that it does not run. When one client stops the proxy while another starts it, it runs although it is disabled. And
  a state that is emitted late replaces a newer one in the policies for good.\<close>

theorem proxy_start_races:
  "(\<exists>p n. px_reachable opts p \<and> px_tasks p = {#InAccept n#} \<and> px_open p = {n} \<and>
      \<not> ss_Running (spm_state (px_m p)) \<and> \<not> ss_Running (px_told p)) \<and>
   (\<exists>p n. px_reachable opts p \<and> px_tasks p = {#InAccept n#} \<and> px_open p = {n} \<and>
      ss_Running (spm_state (px_m p)) \<and> \<not> ss_Enabled (spm_state (px_m p))) \<and>
   (\<exists>p n. px_reachable opts p \<and> px_tasks p = {#InAccept n#} \<and> px_open p = {n} \<and>
      ss_Running (spm_state (px_m p)) \<and> \<not> ss_Running (px_told p))"
  by (intro conjI px_two_starts px_stop_in_start px_late_state)

end
