(* ===== verification/AdminServer.thy ===== *)
theory AdminServer
  imports AdminAuth SocksProxy
begin

text \<open>
  The server of \<open>cmd/killswitch/admin.go\<close>: clients, subscriptions, notifications and the handling of a
  connection, and the closures with which \<open>main.go\<close> connects it to the daemon. A write to a client can
  succeed, fail or never return; a handler that waits for such a write for ever has the result \<open>None\<close> and the
  state it has reached. \<open>sv_written\<close> records what the clients were sent.
\<close>

section \<open>State\<close>

record adminAPIClient =
  cl_id :: u64
  cl_owner :: string
  cl_peer :: adminAPIPeer
  cl_eventTypes :: "string fset"

record 'b adminAPIServer =
  sv_opts :: adminAPIOptions
  sv_nextConnectionID :: u64
  sv_clients :: "(u64, adminAPIClient) fmap"
  sv_notifications :: "notification list"
  sv_written :: "(u64 \<times> message) list"
  sv_backend :: 'b

text \<open>What a write does, by what was written before, and the order of a walk over the map of clients, if it
  is an order of them.\<close>

datatype outcome = Sent | WriteFailed error | Blocks

record net_env =
  ne_write :: "(u64 \<times> message) list \<Rightarrow> u64 \<Rightarrow> message \<Rightarrow> outcome"
  ne_walk :: "u64 list \<Rightarrow> u64 list"

definition clients_in_order :: "net_env \<Rightarrow> u64 list \<Rightarrow> u64 list" where
  "clients_in_order e ids = (if mset (ne_walk e ids) = mset ids then ne_walk e ids else ids)"

type_synonym ('a, 's) act = "'s \<Rightarrow> 'a option \<times> 's"

definition returnA :: "'a \<Rightarrow> ('a, 's) act" where
  "returnA x s = (Some x, s)"

definition bindA :: "('a, 's) act \<Rightarrow> ('a \<Rightarrow> ('b, 's) act) \<Rightarrow> ('b, 's) act" where
  "bindA m f s = (case m s of (None, s') \<Rightarrow> (None, s') | (Some x, s') \<Rightarrow> f x s')"

text \<open>The closures the server is given; nil until they are set.\<close>

record 'b callbacks =
  cb_configSnapshot :: "clientInfo list \<Rightarrow> 'b \<Rightarrow> (currentConfig \<times> error_notice list) \<times> 'b"
  cb_mutateConfig :: "mutationRequest \<Rightarrow> (mutationResult, 'b adminAPIServer) act"
  cb_mutateTmpRuleset :: "(string \<Rightarrow> mutationRequest \<Rightarrow> 'b \<Rightarrow> mutationResult \<times> 'b) option"
  cb_removeTmpRuleset :: "(string \<Rightarrow> 'b \<Rightarrow> mutationResult \<times> 'b) option"
  cb_mutateForceRuleset :: "(string \<Rightarrow> mutationRequest \<Rightarrow> 'b \<Rightarrow> mutationResult \<times> 'b) option"
  cb_removeForceRulesets :: "(string \<Rightarrow> 'b \<Rightarrow> mutationResult \<times> 'b) option"

type_synonym 'b snapshot = "clientInfo list \<Rightarrow> 'b \<Rightarrow> (currentConfig \<times> error_notice list) \<times> 'b"

definition on_backend :: "('b \<Rightarrow> 'a \<times> 'b) \<Rightarrow> ('a, 'b adminAPIServer) act" where
  "on_backend f s = (case f (sv_backend s) of (x, b) \<Rightarrow> (Some x, s\<lparr>sv_backend := b\<rparr>))"

definition newAdminAPIServer :: "adminAPIOptions \<Rightarrow> 'b \<Rightarrow> 'b adminAPIServer" where
  "newAdminAPIServer opts b = \<lparr>sv_opts = opts, sv_nextConnectionID = 0, sv_clients = fmempty, sv_notifications = [],
     sv_written = [], sv_backend = b\<rparr>"

section \<open>Clients\<close>

definition owner_of :: "adminAPIPeer \<Rightarrow> u64 \<Rightarrow> string" where
  "owner_of peer cid = Sprintf ''pid=%d uid=%d gid=%d conn=%d''
     [itoa (peer_PID peer), utoa 10 (unat (peer_UID peer)), utoa 10 (unat (peer_GID peer)), utoa 10 (unat cid)]"

definition addClient :: "adminAPIPeer \<Rightarrow> 'b adminAPIServer \<Rightarrow> adminAPIClient \<times> 'b adminAPIServer" where
  "addClient peer s =
     (let cid = sv_nextConnectionID s + 1;
          client = \<lparr>cl_id = cid, cl_owner = owner_of peer cid, cl_peer = peer, cl_eventTypes = {||}\<rparr>
      in (client, s\<lparr>sv_nextConnectionID := cid, sv_clients := fmupd cid client (sv_clients s)\<rparr>))"

definition removeClient :: "u64 \<Rightarrow> 'b adminAPIServer \<Rightarrow> 'b adminAPIServer" where
  "removeClient cid s = s\<lparr>sv_clients := fmdrop cid (sv_clients s)\<rparr>"

definition setClientSubscriptions :: "u64 \<Rightarrow> string list \<Rightarrow> 'b adminAPIServer \<Rightarrow> 'b adminAPIServer" where
  "setClientSubscriptions cid eventTypes s =
     (case fmlookup (sv_clients s) cid of
        None \<Rightarrow> s
      | Some client \<Rightarrow> s\<lparr>sv_clients := fmupd cid (client\<lparr>cl_eventTypes := fset_of_list eventTypes\<rparr>) (sv_clients s)\<rparr>)"

definition sortedEventTypes :: "string fset \<Rightarrow> string list" where
  "sortedEventTypes types = sorted_list_of_fset types"

definition clientSnapshot :: "'b adminAPIServer \<Rightarrow> clientInfo list" where
  "clientSnapshot s = map (\<lambda>cid. case fmlookup (sv_clients s) cid of
       None \<Rightarrow> zero_clientInfo
     | Some client \<Rightarrow> \<lparr>ci_ID = cl_id client, ci_Owner = cl_owner client, ci_PID = peer_PID (cl_peer client),
         ci_UID = peer_UID (cl_peer client), ci_GID = peer_GID (cl_peer client),
         ci_EventTypes = sortedEventTypes (cl_eventTypes client)\<rparr>) (sorted_list_of_fset (fmdom (sv_clients s)))"

section \<open>Sending\<close>

definition client_send :: "net_env \<Rightarrow> u64 \<Rightarrow> message \<Rightarrow> (error option, 'b adminAPIServer) act" where
  "client_send e cid msg s =
     (case WriteMessage msg of
        Inl err \<Rightarrow> (Some (Some err), s)
      | Inr _ \<Rightarrow> (case ne_write e (sv_written s) cid msg of
          Sent \<Rightarrow> (Some None, s\<lparr>sv_written := sv_written s @ [(cid, msg)]\<rparr>)
        | WriteFailed err \<Rightarrow> (Some (Some err), s)
        | Blocks \<Rightarrow> (None, s)))"

text \<open>Errors are logged.\<close>

fun send_each :: "net_env \<Rightarrow> message \<Rightarrow> u64 list \<Rightarrow> (unit, 'b adminAPIServer) act" where
  "send_each e msg [] = returnA ()"
| "send_each e msg (cid # ids) = bindA (client_send e cid msg) (\<lambda>_. send_each e msg ids)"

definition subscribers :: "net_env \<Rightarrow> string \<Rightarrow> 'b adminAPIServer \<Rightarrow> u64 list" where
  "subscribers e eventType s = filter (\<lambda>cid. case fmlookup (sv_clients s) cid of None \<Rightarrow> False | Some c \<Rightarrow> eventType |\<in>| cl_eventTypes c)
     (clients_in_order e (sorted_list_of_fset (fmdom (sv_clients s))))"

section \<open>Notifications\<close>

definition validateNotification :: "notification \<Rightarrow> unit res" where
  "validateNotification n =
     (if nt_Level n \<notin> {''normal'', ''warn'', ''error''}
      then Inl (Errf ''notification level must be one of normal, warn, or error, got %q'' [nt_Level n])
      else guardR (nt_Text n = []) (Err ''notification text is required''))"

definition notificationMessage :: "notification \<Rightarrow> message" where
  "notificationMessage n = EventMessage (zero_eventMessage\<lparr>ev_EventType := ''notification'', ev_Notification := n\<rparr>)"

definition bufferNotificationLocked :: "notification \<Rightarrow> 'b adminAPIServer \<Rightarrow> 'b adminAPIServer" where
  "bufferNotificationLocked n s = s\<lparr>sv_notifications := sv_notifications s @ [n]\<rparr>"

definition notifyNotification :: "net_env \<Rightarrow> notification \<Rightarrow> (unit, 'b adminAPIServer) act" where
  "notifyNotification e n s =
     (case validateNotification n of
        Inl _ \<Rightarrow> (Some (), s)
      | Inr _ \<Rightarrow>
          (let clients = subscribers e ''notification'' s in
           if clients = [] then (Some (), bufferNotificationLocked n s) else send_each e (notificationMessage n) clients s))"

definition notifyError :: "net_env \<Rightarrow> error_notice \<Rightarrow> (unit, 'b adminAPIServer) act" where
  "notifyError e notice = notifyNotification e \<lparr>nt_Level = ''error'', nt_Text = error_text (snd notice), nt_Header = fst notice\<rparr>"

fun notifyErrors :: "net_env \<Rightarrow> error_notice list \<Rightarrow> (unit, 'b adminAPIServer) act" where
  "notifyErrors e [] = returnA ()"
| "notifyErrors e (n # ns) = bindA (notifyError e n) (\<lambda>_. notifyErrors e ns)"

fun send_notifications :: "net_env \<Rightarrow> u64 \<Rightarrow> notification list \<Rightarrow> (unit, 'b adminAPIServer) act" where
  "send_notifications e cid [] = returnA ()"
| "send_notifications e cid (n # ns) =
     bindA (client_send e cid (notificationMessage n)) (\<lambda>err. if err \<noteq> None then returnA () else send_notifications e cid ns)"

definition drainNotifications :: "net_env \<Rightarrow> u64 \<Rightarrow> (unit, 'b adminAPIServer) act" where
  "drainNotifications e cid s = send_notifications e cid (sv_notifications s) (s\<lparr>sv_notifications := []\<rparr>)"

section \<open>Snapshots and events\<close>

definition configSnapshot_server :: "net_env \<Rightarrow> 'b snapshot \<Rightarrow> (currentConfig, 'b adminAPIServer) act" where
  "configSnapshot_server e snap s =
     (case snap (clientSnapshot s) (sv_backend s) of
        ((cfg, notices), b) \<Rightarrow> bindA (notifyErrors e notices) (\<lambda>_. returnA cfg) (s\<lparr>sv_backend := b\<rparr>))"

definition server_notify :: "net_env \<Rightarrow> 'b snapshot \<Rightarrow> string \<Rightarrow> (unit, 'b adminAPIServer) act" where
  "server_notify e snap eventType s =
     (let clients = subscribers e eventType s in
      if clients = [] then (Some (), s)
      else bindA (configSnapshot_server e snap)
        (\<lambda>cfg. send_each e (EventMessage (zero_eventMessage\<lparr>ev_EventType := eventType, ev_Config := cfg\<rparr>)) clients) s)"

section \<open>Requests\<close>

definition handleDebugNotify :: "net_env \<Rightarrow> notification \<Rightarrow> (debugResult, 'b adminAPIServer) act" where
  "handleDebugNotify e n s =
     (if \<not> ao_Debug (sv_opts s) then (Some \<lparr>dr_OK = False, dr_Error = ''debug admin API is disabled''\<rparr>, s)
      else case validateNotification n of
        Inl err \<Rightarrow> (Some \<lparr>dr_OK = False, dr_Error = error_text err\<rparr>, s)
      | Inr _ \<Rightarrow> bindA (notifyNotification e n) (\<lambda>_. returnA \<lparr>dr_OK = True, dr_Error = []\<rparr>) s)"

definition not_available :: "net_env \<Rightarrow> 'b snapshot \<Rightarrow> string \<Rightarrow> (mutationResult, 'b adminAPIServer) act" where
  "not_available e snap text = bindA (configSnapshot_server e snap)
     (\<lambda>cfg. returnA \<lparr>mres_OK = False, mres_Changed = False, mres_Error = text, mres_Config = cfg\<rparr>)"

definition handleMutation :: "net_env \<Rightarrow> 'b callbacks \<Rightarrow> string \<Rightarrow> mutationRequest \<Rightarrow> (mutationResult, 'b adminAPIServer) act" where
  "handleMutation e cb owner req =
     (if mr_Target req = ''tmp_ruleset'' then
        (case cb_mutateTmpRuleset cb of
           None \<Rightarrow> not_available e (cb_configSnapshot cb) ''temporary rulesets are not available''
         | Some mutate \<Rightarrow> on_backend (mutate owner req))
      else if mr_Target req = ''force_ruleset'' then
        (case cb_mutateForceRuleset cb of
           None \<Rightarrow> not_available e (cb_configSnapshot cb) ''force-active rulesets are not available''
         | Some mutate \<Rightarrow> on_backend (mutate owner req))
      else cb_mutateConfig cb req)"

text \<open>One turn of the loop of \<open>handleConnection\<close>; it goes on or returns.\<close>

definition handle_message :: "net_env \<Rightarrow> 'b callbacks \<Rightarrow> adminAPIClient \<Rightarrow> message \<Rightarrow> (bool, 'b adminAPIServer) act" where
  "handle_message e cb client msg =
     (case msg of
        ConfigRequest \<Rightarrow>
          bindA (configSnapshot_server e (cb_configSnapshot cb)) (\<lambda>cfg.
          bindA (client_send e (cl_id client) (ConfigMessage cfg)) (\<lambda>err. returnA (err = None)))
      | SubscribeRequest eventTypes \<Rightarrow>
          bindA (\<lambda>s. (Some (), setClientSubscriptions (cl_id client) eventTypes s)) (\<lambda>_.
          bindA (server_notify e (cb_configSnapshot cb) ''clients'') (\<lambda>_.
          bindA (if ''notification'' \<in> set eventTypes then drainNotifications e (cl_id client) else returnA ()) (\<lambda>_.
          returnA True)))
      | MutationRequest req \<Rightarrow>
          bindA (handleMutation e cb (cl_owner client) req) (\<lambda>result.
          bindA (client_send e (cl_id client) (MutationResult result)) (\<lambda>err.
          if err \<noteq> None then returnA False
          else bindA (if mres_OK result \<and> mres_Changed result then server_notify e (cb_configSnapshot cb) ''config'' else returnA ()) (\<lambda>_.
            returnA True)))
      | DebugNotifyRequest n \<Rightarrow>
          bindA (handleDebugNotify e n) (\<lambda>result.
          bindA (client_send e (cl_id client) (DebugResult result)) (\<lambda>err. returnA (err = None)))
      | _ \<Rightarrow> returnA True)"

section \<open>A connection\<close>

text \<open>The loop, over what is read from the connection; \<open>False\<close> says that it still waits for more.\<close>

fun serve_client :: "net_env \<Rightarrow> 'b callbacks \<Rightarrow> adminAPIClient \<Rightarrow> connection \<Rightarrow> (bool, 'b adminAPIServer) act" where
  "serve_client e cb client [] = returnA False"
| "serve_client e cb client (next # conn) =
     (case ReadMessage next of
        Inl err \<Rightarrow> returnA True
      | Inr msg \<Rightarrow> bindA (handle_message e cb client msg) (\<lambda>go. if go then serve_client e cb client conn else returnA True))"

definition connect :: "net_env \<Rightarrow> 'b snapshot \<Rightarrow> user_db \<Rightarrow> adminAPIPeer res \<Rightarrow> (adminAPIClient option, 'b adminAPIServer) act" where
  "connect e snap db cred s =
     (case cred of
        Inl _ \<Rightarrow> (Some None, s)
      | Inr peer \<Rightarrow>
          (case adminAPIClientAllowed db peer (ao_Auth (sv_opts s)) of (allowed, reason, err) \<Rightarrow>
             if \<not> allowed then (Some None, s)
             else case addClient peer s of (client, s') \<Rightarrow>
               bindA (server_notify e snap ''clients'') (\<lambda>_. returnA (Some client)) s'))"

definition release :: "net_env \<Rightarrow> 'b snapshot \<Rightarrow> (string \<Rightarrow> 'b \<Rightarrow> mutationResult \<times> 'b) option \<Rightarrow> string \<Rightarrow> (unit, 'b adminAPIServer) act" where
  "release e snap callback owner =
     (case callback of
        None \<Rightarrow> returnA ()
      | Some remove \<Rightarrow> bindA (on_backend (remove owner)) (\<lambda>result.
          if mres_OK result \<and> mres_Changed result then server_notify e snap ''config'' else returnA ()))"

text \<open>The deferred function.\<close>

definition disconnect :: "net_env \<Rightarrow> 'b callbacks \<Rightarrow> adminAPIClient \<Rightarrow> (unit, 'b adminAPIServer) act" where
  "disconnect e cb client =
     bindA (\<lambda>s. (Some (), removeClient (cl_id client) s)) (\<lambda>_.
     bindA (server_notify e (cb_configSnapshot cb) ''clients'') (\<lambda>_.
     bindA (release e (cb_configSnapshot cb) (cb_removeForceRulesets cb) (cl_owner client)) (\<lambda>_.
     release e (cb_configSnapshot cb) (cb_removeTmpRuleset cb) (cl_owner client))))"

definition handleConnection ::
  "net_env \<Rightarrow> 'b callbacks \<Rightarrow> user_db \<Rightarrow> adminAPIPeer res \<Rightarrow> connection \<Rightarrow> (bool, 'b adminAPIServer) act" where
  "handleConnection e cb db cred conn =
     bindA (connect e (cb_configSnapshot cb) db cred) (\<lambda>client. case client of
       None \<Rightarrow> returnA True
     | Some client \<Rightarrow> bindA (serve_client e cb client conn) (\<lambda>ended.
         if ended then bindA (disconnect e cb client) (\<lambda>_. returnA True) else returnA False))"

section \<open>The closures of \<open>main.go\<close>\<close>

text \<open>What the server's calls reach: the daemon, the proxy, and what the world answers at each call.\<close>

record backend =
  bk_daemon :: daemon
  bk_proxy :: socksProxyManager
  bk_worlds :: "nat \<Rightarrow> world"
  bk_listens :: "nat \<Rightarrow> listen_env"
  bk_calls :: nat

definition on_daemon :: "(world \<Rightarrow> daemon \<Rightarrow> 'a \<times> daemon) \<Rightarrow> backend \<Rightarrow> 'a \<times> backend" where
  "on_daemon f b = (case f (bk_worlds b (bk_calls b)) (bk_daemon b) of (x, d) \<Rightarrow> (x, b\<lparr>bk_daemon := d, bk_calls := Suc (bk_calls b)\<rparr>))"

definition set_proxy :: "bool \<Rightarrow> backend \<Rightarrow> effect \<times> backend" where
  "set_proxy enabled b = (case SetEnabled (bk_listens b (bk_calls b)) enabled (bk_proxy b) of
     (ef, m) \<Rightarrow> (ef, b\<lparr>bk_proxy := m, bk_calls := Suc (bk_calls b)\<rparr>))"

definition daemon_snapshot :: "regexps \<Rightarrow> backend snapshot" where
  "daemon_snapshot rx clients = on_daemon (\<lambda>w d.
     (currentConfigSnapshot (w_walks w) rx (w_links_policy w) (dm_policies d) (dm_manager d) clients, d))"

text \<open>The callback of the proxy with what it tells the clients.\<close>

fun emit_states :: "net_env \<Rightarrow> regexps \<Rightarrow> socksProxyState list \<Rightarrow> (unit, backend adminAPIServer) act" where
  "emit_states e rx [] = returnA ()"
| "emit_states e rx (st # sts) =
     bindA (on_backend (on_daemon (\<lambda>w. onStateChanged rx w st))) (\<lambda>notices.
     bindA (notifyErrors e notices) (\<lambda>_.
     bindA (server_notify e (daemon_snapshot rx) ''config'') (\<lambda>_. emit_states e rx sts)))"

definition applySocksProxyMutation :: "net_env \<Rightarrow> regexps \<Rightarrow> mutationRequest \<Rightarrow> (mutationResult, backend adminAPIServer) act" where
  "applySocksProxyMutation e rx req =
     (case socks_value req of
        Inl text \<Rightarrow> on_backend (on_daemon (\<lambda>w. answer w False False text))
      | Inr enabled \<Rightarrow>
          bindA (on_backend (set_proxy enabled)) (\<lambda>ef.
          bindA (emit_states e rx (ef_emitted ef)) (\<lambda>_.
          on_backend (\<lambda>b. on_daemon (\<lambda>w. finish_socks rx w (ef_err ef) (State (bk_proxy b))) b))))"

definition daemon_callbacks :: "net_env \<Rightarrow> regexps \<Rightarrow> backend callbacks" where
  "daemon_callbacks e rx =
     \<lparr>cb_configSnapshot = daemon_snapshot rx,
      cb_mutateConfig = (\<lambda>req. if mr_Target req = ''socks_proxy'' then applySocksProxyMutation e rx req
        else on_backend (on_daemon (\<lambda>w. applyAdminMutation rx w req))),
      cb_mutateTmpRuleset = Some (\<lambda>owner req. on_daemon (\<lambda>w. applyTemporaryRulesetMutation rx w owner req)),
      cb_removeTmpRuleset = Some (\<lambda>owner. on_daemon (\<lambda>w. removeTemporaryRuleset_handler rx w owner)),
      cb_mutateForceRuleset = Some (\<lambda>owner req. on_daemon (\<lambda>w. applyForceRulesetMutation rx w owner req)),
      cb_removeForceRulesets = Some (\<lambda>owner. on_daemon (\<lambda>w. removeForceRulesets_handler rx w owner))\<rparr>"

definition start_backend :: "(nat \<Rightarrow> world) \<Rightarrow> (nat \<Rightarrow> listen_env) \<Rightarrow> options \<Rightarrow> backend" where
  "start_backend worlds listens opts =
     \<lparr>bk_daemon = start_daemon opts, bk_proxy = newSocksProxyManager (o_SocksProxy opts), bk_worlds = worlds,
      bk_listens = listens, bk_calls = 0\<rparr>"

end
