(* ===== verification/Connections.thy ===== *)
theory Connections
  imports AdminServer
begin

text \<open>
  What holds of the admin server over all runs: who can hold temporary permissions, and which notifications
  are kept. The locale \<open>admin_backend\<close> states what the server relies on of its closures; the closures of
  \<open>main.go\<close> are its interpretation.
\<close>

section \<open>Observing the backend\<close>

text \<open>An invariant of the backend and the owners that hold a forced rule set or a temporary one.\<close>

record 'b observer =
  ob_inv :: "'b \<Rightarrow> bool"
  ob_forced :: "'b \<Rightarrow> string \<Rightarrow> bool"
  ob_tmp :: "'b \<Rightarrow> string \<Rightarrow> bool"

definition has_subscriber :: "string \<Rightarrow> 'b adminAPIServer \<Rightarrow> bool" where
  "has_subscriber ev s \<longleftrightarrow> (\<exists>cid c. fmlookup (sv_clients s) cid = Some c \<and> ev |\<in>| cl_eventTypes c)"

text \<open>Steps that change nothing the invariant is about, except that rule sets can be released and that
  notifications are kept when nobody listens.\<close>

definition quiet :: "'b observer \<Rightarrow> 'b adminAPIServer \<Rightarrow> 'b adminAPIServer \<Rightarrow> bool" where
  "quiet ob s s' \<longleftrightarrow> sv_clients s' = sv_clients s \<and> sv_nextConnectionID s' = sv_nextConnectionID s \<and> sv_opts s' = sv_opts s \<and>
     (has_subscriber ''notification'' s \<longrightarrow> sv_notifications s' = sv_notifications s) \<and>
     (ob_inv ob (sv_backend s) \<longrightarrow> ob_inv ob (sv_backend s') \<and>
       (\<forall>owner. ob_forced ob (sv_backend s') owner \<longrightarrow> ob_forced ob (sv_backend s) owner) \<and>
       (\<forall>owner. ob_tmp ob (sv_backend s') owner \<longrightarrow> ob_tmp ob (sv_backend s) owner))"

definition quietA :: "'b observer \<Rightarrow> ('a, 'b adminAPIServer) act \<Rightarrow> bool" where
  "quietA ob m \<longleftrightarrow> (\<forall>s r s'. m s = (r, s') \<longrightarrow> quiet ob s s')"

lemma quietI: "quietA ob m \<Longrightarrow> m s = (r, s') \<Longrightarrow> quiet ob s s'"
  by (simp add: quietA_def)

lemma quiet_refl [simp]: "quiet ob s s"
  by (simp add: quiet_def)

lemma quiet_trans: "quiet ob s s' \<Longrightarrow> quiet ob s' s'' \<Longrightarrow> quiet ob s s''"
  by (auto simp: quiet_def has_subscriber_def)

lemma bindA_eq: "bindA m f s = (r, s'') \<longleftrightarrow>
    (m s = (None, s'') \<and> r = None) \<or> (\<exists>x s'. m s = (Some x, s') \<and> f x s' = (r, s''))"
  by (auto simp: bindA_def split: prod.splits option.splits)

lemma bindA_Some: "bindA m f s = (Some y, s'') \<longleftrightarrow> (\<exists>x s'. m s = (Some x, s') \<and> f x s' = (Some y, s''))"
  by (auto simp: bindA_eq)

lemma quietA_return [intro]: "quietA ob (returnA x)"
  by (simp add: quietA_def returnA_def)

lemma quietA_bind [intro]: "quietA ob m \<Longrightarrow> (\<And>x. quietA ob (f x)) \<Longrightarrow> quietA ob (bindA m f)"
  unfolding quietA_def bindA_eq by (blast intro: quiet_trans)

lemma quietA_if [intro]: "(b \<Longrightarrow> quietA ob m) \<Longrightarrow> (\<not> b \<Longrightarrow> quietA ob n) \<Longrightarrow> quietA ob (if b then m else n)"
  by simp

lemma set_clients_in_order [simp]: "set (clients_in_order e ids) = set ids"
  by (metis clients_in_order_def set_mset_mset)

lemma subscribers_Nil: "subscribers e ev s = [] \<longleftrightarrow> \<not> has_subscriber ev s"
proof -
  have "set (clients_in_order e (sorted_list_of_fset (fmdom (sv_clients s)))) = fset (fmdom (sv_clients s))"
    by simp
  then show ?thesis
    by (auto simp: subscribers_def has_subscriber_def filter_empty_conv fmdomI split: option.splits)
qed

lemma quiet_send [intro]: "quietA ob (client_send e cid msg)"
  by (auto simp: quietA_def client_send_def quiet_def has_subscriber_def split: sum.splits outcome.splits)

lemma quiet_send_each [intro]: "quietA ob (send_each e msg ids)"
  by (induction ids) auto

lemma quiet_send_notifications [intro]: "quietA ob (send_notifications e cid ns)"
  by (induction ns) auto

lemma quiet_on_backend:
  assumes "\<And>b x b'. f b = (x, b') \<Longrightarrow> ob_inv ob b \<Longrightarrow> ob_inv ob b' \<and> (\<forall>owner. ob_forced ob b' owner \<longrightarrow> ob_forced ob b owner) \<and>
    (\<forall>owner. ob_tmp ob b' owner \<longrightarrow> ob_tmp ob b owner)"
  shows "quietA ob (on_backend f)"
  using assms by (auto simp: quietA_def on_backend_def quiet_def has_subscriber_def split: prod.splits)

section \<open>The invariant\<close>

text \<open>Whoever holds a rule set is connected; a client's owner text is the one of its identifier.\<close>

definition connected_owner :: "'b adminAPIServer \<Rightarrow> string \<Rightarrow> bool" where
  "connected_owner s owner \<longleftrightarrow> (\<exists>cid c. fmlookup (sv_clients s) cid = Some c \<and> cl_owner c = owner)"

definition clients_ok :: "'b adminAPIServer \<Rightarrow> bool" where
  "clients_ok s \<longleftrightarrow> (\<forall>cid c. fmlookup (sv_clients s) cid = Some c \<longrightarrow>
     cl_id c = cid \<and> cl_owner c = owner_of (cl_peer c) cid \<and> cid \<le> sv_nextConnectionID s)"

definition server_ok :: "'b observer \<Rightarrow> 'b adminAPIServer \<Rightarrow> bool" where
  "server_ok ob s \<longleftrightarrow> clients_ok s \<and> ob_inv ob (sv_backend s) \<and>
     (\<forall>owner. ob_forced ob (sv_backend s) owner \<or> ob_tmp ob (sv_backend s) owner \<longrightarrow> connected_owner s owner) \<and>
     (has_subscriber ''notification'' s \<longrightarrow> sv_notifications s = [])"

lemma backend_update [simp]:
  "connected_owner (s\<lparr>sv_backend := b\<rparr>) = connected_owner s" "clients_ok (s\<lparr>sv_backend := b\<rparr>) = clients_ok s"
  "has_subscriber ev (s\<lparr>sv_backend := b\<rparr>) = has_subscriber ev s"
  by (simp_all add: fun_eq_iff connected_owner_def clients_ok_def has_subscriber_def)

lemma connected_fmupd:
  assumes "fmlookup (sv_clients s) k = None \<or> (\<exists>c0. fmlookup (sv_clients s) k = Some c0 \<and> cl_owner c0 = cl_owner c)"
    and "connected_owner s owner" and "sv_clients s' = fmupd k c (sv_clients s)"
  shows "connected_owner s' owner"
proof -
  obtain cid c1 where l: "fmlookup (sv_clients s) cid = Some c1" "cl_owner c1 = owner"
    using assms(2) by (auto simp: connected_owner_def)
  show ?thesis
  proof (cases "cid = k")
    case True
    then have "fmlookup (sv_clients s') k = Some c" "cl_owner c = owner" using l assms(1,3) by auto
    then show ?thesis unfolding connected_owner_def by blast
  next
    case False
    then have "fmlookup (sv_clients s') cid = Some c1" using l assms(3) by simp
    with l(2) show ?thesis unfolding connected_owner_def by blast
  qed
qed

lemma quiet_views:
  "quiet ob s s' \<Longrightarrow> connected_owner s' = connected_owner s" "quiet ob s s' \<Longrightarrow> clients_ok s' = clients_ok s"
  "quiet ob s s' \<Longrightarrow> has_subscriber ev s' = has_subscriber ev s"
  by (simp_all add: quiet_def fun_eq_iff connected_owner_def clients_ok_def has_subscriber_def)

lemma quiet_holders:
  assumes "quiet ob s s'" and "ob_inv ob (sv_backend s)"
    and "\<forall>owner. ob_forced ob (sv_backend s) owner \<or> ob_tmp ob (sv_backend s) owner \<longrightarrow> connected_owner s owner"
  shows "ob_inv ob (sv_backend s')"
    and "\<forall>owner. ob_forced ob (sv_backend s') owner \<or> ob_tmp ob (sv_backend s') owner \<longrightarrow> connected_owner s' owner"
  using assms(2,3) quiet_views(1) [OF assms(1)] assms(1) unfolding quiet_def by simp_all

lemma quiet_server_ok:
  assumes q: "quiet ob s s'" and ok: "server_ok ob s"
  shows "server_ok ob s'"
proof -
  have "has_subscriber ''notification'' s' \<longrightarrow> sv_notifications s' = []"
    using ok q unfolding server_ok_def quiet_views(3) [OF q] by (simp add: quiet_def)
  moreover have "clients_ok s'" using ok quiet_views(2) [OF q] by (simp add: server_ok_def)
  ultimately show ?thesis
    using quiet_holders [OF q] ok unfolding server_ok_def by blast
qed

lemma owner_of_eq: "owner_of peer cid =
    ''pid='' @ itoa (peer_PID peer) @ '' uid='' @ utoa 10 (unat (peer_UID peer)) @ '' gid='' @ utoa 10 (unat (peer_GID peer)) @
      '' conn='' @ utoa 10 (unat cid)"
  by (simp add: owner_of_def)

lemma utoa_inject: "utoa 10 m = utoa 10 n \<Longrightarrow> m = n"
  using ParseUint_decimal [of m "m + n + 1"] ParseUint_decimal [of n "m + n + 1"]
  by (metis Inr_inject add.commute add_lessD1 less_exp less_add_Suc1 Suc_eq_plus1 less_trans)

lemma next_greater:
  assumes "x \<noteq> (- 1 :: u64)"
  shows "x < x + 1"
proof -
  have "unat x \<noteq> unat (- 1 :: u64)" using assms by (metis word_unat_eq_iff)
  moreover have "unat (- 1 :: u64) = 2 ^ 64 - 1" by (simp add: unsigned_minus_1_eq_mask mask_eq_exp_minus_1)
  ultimately have "unat x < 2 ^ 64 - 1" using unsigned_less [where 'a = nat and w = x] by simp
  then show ?thesis by (simp add: word_less_nat_alt unat_word_ariths)
qed

text \<open>The owner text ends in the identifier, after a \<open>=\<close> that no number contains.\<close>

lemma owner_of_inject: "owner_of p cid = owner_of q cid' \<Longrightarrow> cid = cid'"
proof -
  assume eq: "owner_of p cid = owner_of q cid'"
  have tail: "takeWhile (\<lambda>c. c \<noteq> CHR ''='') (rev (owner_of p cid)) = rev (utoa 10 (unat cid))" for p cid
  proof -
    have "CHR ''='' \<notin> set (utoa 10 (unat cid))"
      by (rule utoa_notin) (simp_all add: plain_digit_def is_dec_def)
    then show ?thesis unfolding owner_of_eq by (auto simp: takeWhile_append2 takeWhile_tail)
  qed
  from eq tail [of p cid] tail [of q cid'] have "utoa 10 (unat cid) = utoa 10 (unat cid')" by simp
  then show "cid = cid'" using utoa_inject by (simp add: word_unat_eq_iff)
qed

lemma add_ok:
  assumes "server_ok ob s" and add: "addClient peer s = (client, s1)" and new: "sv_nextConnectionID s < sv_nextConnectionID s + 1"
    and fresh: "fmlookup (sv_clients s) (sv_nextConnectionID s + 1) = None"
  shows "server_ok ob s1"
proof -
  let ?n = "sv_nextConnectionID s + 1"
  have s1: "s1 = s\<lparr>sv_nextConnectionID := ?n, sv_clients := fmupd ?n client (sv_clients s)\<rparr>"
    and c: "cl_id client = ?n" "cl_owner client = owner_of (cl_peer client) ?n" "cl_eventTypes client = {||}"
    using add by (auto simp: addClient_def Let_def)
  have old: "fmlookup (sv_clients s) cid = Some c \<Longrightarrow> cl_id c = cid \<and> cl_owner c = owner_of (cl_peer c) cid \<and> cid \<le> sv_nextConnectionID s"
    for cid c using assms(1) unfolding server_ok_def clients_ok_def by blast
  have "clients_ok s1" unfolding clients_ok_def
  proof (intro allI impI)
    fix cid c
    assume l: "fmlookup (sv_clients s1) cid = Some c"
    show "cl_id c = cid \<and> cl_owner c = owner_of (cl_peer c) cid \<and> cid \<le> sv_nextConnectionID s1"
    proof (cases "cid = ?n")
      case True
      then show ?thesis using l c by (simp add: s1)
    next
      case False
      then have "fmlookup (sv_clients s) cid = Some c" using l by (simp add: s1)
      from old [OF this] new show ?thesis by (auto simp: s1)
    qed
  qed
  moreover have "connected_owner s owner \<Longrightarrow> connected_owner s1 owner" for owner
    using connected_fmupd [of s ?n client owner s1] fresh by (simp add: s1)
  moreover have "has_subscriber ev s1 \<Longrightarrow> has_subscriber ev s" for ev
    unfolding has_subscriber_def s1 using c(3) by (auto split: if_splits)
  ultimately show ?thesis
    using assms(1) unfolding server_ok_def by (simp add: s1)
qed

section \<open>The contract of the closures\<close>

text \<open>What sending events relies on.\<close>

locale snapshot_backend =
  fixes e :: net_env and snap :: "'b snapshot" and ob :: "'b observer"
  assumes snapshot: "snap clients b = (x, b') \<Longrightarrow> ob_inv ob b \<Longrightarrow>
      ob_inv ob b' \<and> ob_forced ob b' = ob_forced ob b \<and> ob_tmp ob b' = ob_tmp ob b"
begin

lemma quiet_notification [intro]: "quietA ob (notifyNotification e n)"
proof -
  have "quiet ob s s'" if "notifyNotification e n s = (r, s')" for s r s'
  proof (cases "subscribers e ''notification'' s = []")
    case True
    then have "\<not> has_subscriber ''notification'' s" by (simp add: subscribers_Nil)
    with that True show ?thesis
      by (auto simp: notifyNotification_def Let_def bufferNotificationLocked_def quiet_def has_subscriber_def split: sum.splits)
  next
    case False
    then show ?thesis
      using that quietI [OF quiet_send_each [of ob e "notificationMessage n" "subscribers e ''notification'' s"]]
      by (auto simp: notifyNotification_def Let_def split: sum.splits)
  qed
  then show ?thesis by (simp add: quietA_def)
qed

lemma quiet_error [intro]: "quietA ob (notifyError e n)"
  by (auto simp: notifyError_def)

lemma quiet_errors [intro]: "quietA ob (notifyErrors e ns)"
  by (induction ns) auto

lemma quiet_snapshot [intro]: "quietA ob (configSnapshot_server e (snap))"
proof -
  have "quiet ob s s'" if "configSnapshot_server e (snap) s = (r, s')" for s r s'
  proof -
    obtain cfg notices b where b: "snap (clientSnapshot s) (sv_backend s) = ((cfg, notices), b)"
      by (metis prod.collapse)
    have "quiet ob s (s\<lparr>sv_backend := b\<rparr>)"
      using snapshot [OF b] by (simp add: quiet_def has_subscriber_def)
    moreover have "quietA ob (bindA (notifyErrors e notices) (\<lambda>_. returnA cfg))" by auto
    then have "quiet ob (s\<lparr>sv_backend := b\<rparr>) s'"
      using that b by (auto simp: configSnapshot_server_def intro: quietI)
    ultimately show ?thesis by (rule quiet_trans)
  qed
  then show ?thesis by (simp add: quietA_def)
qed

lemma quiet_notify [intro]: "quietA ob (server_notify e (snap) ev)"
proof -
  have "quiet ob s s'" if "server_notify e (snap) ev s = (r, s')" for s r s'
  proof -
    have "quietA ob (bindA (configSnapshot_server e (snap))
      (\<lambda>cfg. send_each e (EventMessage (zero_eventMessage\<lparr>ev_EventType := ev, ev_Config := cfg\<rparr>)) (subscribers e ev s)))" by auto
    with that show ?thesis by (auto simp: server_notify_def Let_def intro: quietI split: if_splits)
  qed
  then show ?thesis by (simp add: quietA_def)
qed

lemma quiet_debug [intro]: "quietA ob (handleDebugNotify e n)"
proof -
  have "quietA ob (bindA (notifyNotification e n) (\<lambda>_. returnA \<lparr>dr_OK = True, dr_Error = []\<rparr>))" by auto
  then show ?thesis by (auto simp: quietA_def handleDebugNotify_def split: sum.splits)
qed

end

text \<open>The whole contract.\<close>

locale admin_backend = snapshot_backend e "cb_configSnapshot cb" ob
    for e :: net_env and cb :: "'b callbacks" and ob :: "'b observer" +
  assumes config: "quietA ob (cb_mutateConfig cb req)"
    and mutate_tmp: "cb_mutateTmpRuleset cb = Some f \<Longrightarrow> f owner req b = (res, b') \<Longrightarrow> ob_inv ob b \<Longrightarrow>
      ob_inv ob b' \<and> ob_forced ob b' = ob_forced ob b \<and> (\<forall>o'. o' \<noteq> owner \<longrightarrow> ob_tmp ob b' o' = ob_tmp ob b o')"
    and mutate_force: "cb_mutateForceRuleset cb = Some f \<Longrightarrow> f owner req b = (res, b') \<Longrightarrow> ob_inv ob b \<Longrightarrow>
      ob_inv ob b' \<and> ob_tmp ob b' = ob_tmp ob b \<and> (\<forall>o'. o' \<noteq> owner \<longrightarrow> ob_forced ob b' o' = ob_forced ob b o')"
    and remove_tmp: "\<exists>f. cb_removeTmpRuleset cb = Some f \<and> (\<forall>owner b res b'. f owner b = (res, b') \<longrightarrow> ob_inv ob b \<longrightarrow>
      ob_inv ob b' \<and> ob_forced ob b' = ob_forced ob b \<and> (\<forall>o'. ob_tmp ob b' o' \<longleftrightarrow> o' \<noteq> owner \<and> ob_tmp ob b o'))"
    and remove_force: "\<exists>f. cb_removeForceRulesets cb = Some f \<and> (\<forall>owner b res b'. f owner b = (res, b') \<longrightarrow> ob_inv ob b \<longrightarrow>
      ob_inv ob b' \<and> ob_tmp ob b' = ob_tmp ob b \<and> (\<forall>o'. ob_forced ob b' o' \<longleftrightarrow> o' \<noteq> owner \<and> ob_forced ob b o'))"
begin

lemma on_backend_Some: "on_backend f s = (r, s') \<longleftrightarrow> (\<exists>x b. f (sv_backend s) = (x, b) \<and> r = Some x \<and> s' = s\<lparr>sv_backend := b\<rparr>)"
  by (auto simp: on_backend_def split: prod.splits)

lemma mutation_ok:
  assumes "server_ok ob s" and "connected_owner s owner" and "handleMutation e cb owner req s = (Some res, s')"
  shows "server_ok ob s' \<and> sv_clients s' = sv_clients s"
proof -
  have unavailable: "quietA ob (not_available e (cb_configSnapshot cb) why)" for why by (auto simp: not_available_def)
  consider (q) "quiet ob s s'"
    | (tmp) f where "cb_mutateTmpRuleset cb = Some f" "on_backend (f owner req) s = (Some res, s')"
    | (force) f where "cb_mutateForceRuleset cb = Some f" "on_backend (f owner req) s = (Some res, s')"
    using assms(3) quietI [OF unavailable] quietI [OF config]
    by (auto simp: handleMutation_def split: if_splits option.splits)
  then show ?thesis
  proof cases
    case q
    then show ?thesis using quiet_server_ok assms(1) by (auto simp: quiet_def)
  next
    case tmp
    then obtain b where b: "f owner req (sv_backend s) = (res, b)" "s' = s\<lparr>sv_backend := b\<rparr>" by (auto simp: on_backend_Some)
    from mutate_tmp [OF tmp(1) b(1)] assms(1,2) b(2) show ?thesis unfolding server_ok_def by (simp; metis)
  next
    case force
    then obtain b where b: "f owner req (sv_backend s) = (res, b)" "s' = s\<lparr>sv_backend := b\<rparr>" by (auto simp: on_backend_Some)
    from mutate_force [OF force(1) b(1)] assms(1,2) b(2) show ?thesis unfolding server_ok_def by (simp; metis)
  qed
qed

lemma subscribe_ok:
  assumes "server_ok ob s" and "fmlookup (sv_clients s) (cl_id c) = Some c"
    and "server_notify e (cb_configSnapshot cb) ''clients'' (setClientSubscriptions (cl_id c) evs s) = (Some (), s1)"
    and "(if ''notification'' \<in> set evs then drainNotifications e (cl_id c) else returnA ()) s1 = (Some (), s')"
  shows "server_ok ob s'"
proof -
  let ?s0 = "setClientSubscriptions (cl_id c) evs s"
  have s0: "?s0 = s\<lparr>sv_clients := fmupd (cl_id c) (c\<lparr>cl_eventTypes := fset_of_list evs\<rparr>) (sv_clients s)\<rparr>"
    using assms(2) by (simp add: setClientSubscriptions_def)
  have s0b: "sv_backend ?s0 = sv_backend s" by (simp add: s0)
  have q: "quiet ob ?s0 s1" using assms(3) by (auto intro: quietI)
  have c: "cl_owner c = owner_of (cl_peer c) (cl_id c)" "cl_id c \<le> sv_nextConnectionID s"
    using assms(1,2) unfolding server_ok_def clients_ok_def by blast+
  have entry: "cl_id c' = cid \<and> cl_owner c' = owner_of (cl_peer c') cid \<and> cid \<le> sv_nextConnectionID s"
    if "fmlookup (fmupd (cl_id c) (c\<lparr>cl_eventTypes := fset_of_list evs\<rparr>) (sv_clients s)) cid = Some c'" for cid c'
  proof (cases "cid = cl_id c")
    case True
    then show ?thesis using that c by auto
  next
    case False
    then show ?thesis using that assms(1) unfolding server_ok_def clients_ok_def by simp
  qed
  have "clients_ok ?s0" unfolding clients_ok_def
  proof (intro allI impI)
    fix cid c'
    assume "fmlookup (sv_clients ?s0) cid = Some c'"
    then show "cl_id c' = cid \<and> cl_owner c' = owner_of (cl_peer c') cid \<and> cid \<le> sv_nextConnectionID ?s0"
      using entry [of cid c'] by (simp add: s0)
  qed
  moreover have "connected_owner s owner \<Longrightarrow> connected_owner ?s0 owner" for owner
    using connected_fmupd [of s "cl_id c" "c\<lparr>cl_eventTypes := fset_of_list evs\<rparr>" owner ?s0] assms(2) by (simp add: s0)
  ultimately have base: "clients_ok ?s0 \<and> ob_inv ob (sv_backend ?s0) \<and>
     (\<forall>owner. ob_forced ob (sv_backend ?s0) owner \<or> ob_tmp ob (sv_backend ?s0) owner \<longrightarrow> connected_owner ?s0 owner)"
    using assms(1) unfolding server_ok_def s0b by blast
  with q have one: "clients_ok s1 \<and> ob_inv ob (sv_backend s1) \<and>
     (\<forall>owner. ob_forced ob (sv_backend s1) owner \<or> ob_tmp ob (sv_backend s1) owner \<longrightarrow> connected_owner s1 owner)"
    using quiet_views(2) [OF q] quiet_holders [OF q] by simp
  show ?thesis
  proof (cases "''notification'' \<in> set evs")
    case True
    let ?s2 = "s1\<lparr>sv_notifications := []\<rparr>"
    have "server_ok ob ?s2" using one by (simp add: server_ok_def clients_ok_def connected_owner_def)
    moreover have "quiet ob ?s2 s'"
      using assms(4) True quietI [OF quiet_send_notifications] by (simp add: drainNotifications_def)
    ultimately show ?thesis by (metis quiet_server_ok)
  next
    case False
    have "has_subscriber ''notification'' ?s0 \<longrightarrow> has_subscriber ''notification'' s"
      using False unfolding s0 has_subscriber_def by (auto simp: fset_of_list_elem split: if_splits)
    then have "server_ok ob ?s0" using base assms(1) by (simp add: server_ok_def s0)
    with quiet_server_ok [OF q] False assms(4) show ?thesis by (simp add: returnA_def)
  qed
qed

lemma message_ok:
  assumes "server_ok ob s" and "fmlookup (sv_clients s) cid = Some c" and "handle_message e cb c msg s = (Some go, s')"
  shows "server_ok ob s'"
proof -
  have cid: "cl_id c = cid" "connected_owner s (cl_owner c)"
    using assms(1,2) by (auto simp: server_ok_def clients_ok_def connected_owner_def)
  show ?thesis
  proof (cases msg)
    case (SubscribeRequest evs)
    with assms(3) show ?thesis
      using subscribe_ok [OF assms(1)] assms(2) cid(1)
      by (auto simp: handle_message_def bindA_Some returnA_def)
  next
    case (MutationRequest req)
    let ?rest = "\<lambda>result. bindA (client_send e (cl_id c) (MutationResult result)) (\<lambda>err. if err \<noteq> None then returnA False
          else bindA (if mres_OK result \<and> mres_Changed result then server_notify e (cb_configSnapshot cb) ''config'' else returnA ()) (\<lambda>_.
            returnA True))"
    obtain res s1 where m: "handleMutation e cb (cl_owner c) req s = (Some res, s1)" "?rest res s1 = (Some go, s')"
      using assms(3) MutationRequest by (auto simp: handle_message_def bindA_Some)
    have "quietA ob (?rest res)" by auto
    from quiet_server_ok [OF quietI [OF this m(2)]] mutation_ok [OF assms(1) cid(2) m(1)] show ?thesis by simp
  next
    case ConfigRequest
    have "quietA ob (handle_message e cb c msg)" unfolding ConfigRequest handle_message_def by auto
    then show ?thesis using quiet_server_ok quietI assms(1,3) by blast
  next
    case (DebugNotifyRequest n)
    have "quietA ob (handle_message e cb c msg)" unfolding DebugNotifyRequest handle_message_def by auto
    then show ?thesis using quiet_server_ok quietI assms(1,3) by blast
  qed (use assms in \<open>auto simp: handle_message_def returnA_def\<close>)
qed

lemma connect_ok:
  assumes "server_ok ob s" and "sv_nextConnectionID s \<noteq> - 1" and "connect e (cb_configSnapshot cb) db cred s = (Some r, s')"
  shows "server_ok ob s'"
proof (cases "\<exists>peer. cred = Inr peer \<and> fst (adminAPIClientAllowed db peer (ao_Auth (sv_opts s)))")
  case True
  then obtain peer client s1 where add: "addClient peer s = (client, s1)"
    and run: "bindA (server_notify e (cb_configSnapshot cb) ''clients'') (\<lambda>_. returnA (Some client)) s1 = (Some r, s')"
    using assms(3) by (auto simp: connect_def split: prod.splits)
  have new: "sv_nextConnectionID s < sv_nextConnectionID s + 1"
    using assms(2) by (rule next_greater)
  then have fresh: "fmlookup (sv_clients s) (sv_nextConnectionID s + 1) = None"
    using assms(1) unfolding server_ok_def clients_ok_def by (metis leD option.exhaust)
  have "server_ok ob s1" by (rule add_ok [OF assms(1) add new fresh])
  moreover have quiet: "quietA ob (bindA (server_notify e (cb_configSnapshot cb) ''clients'') (\<lambda>_. returnA (Some client)))" by auto
  ultimately show ?thesis using quiet_server_ok [OF quietI [OF quiet run]] by simp
qed (use assms in \<open>auto simp: connect_def split: sum.splits prod.splits\<close>)

lemma released:
  assumes "release e (cb_configSnapshot cb) (Some f) owner s = (r, s')" and "ob_inv ob (sv_backend s)"
    and law: "\<And>b res b'. f owner b = (res, b') \<Longrightarrow> ob_inv ob b \<Longrightarrow> ob_inv ob b' \<and> \<not> holds b' \<and>
      (\<forall>o'. ob_forced ob b' o' \<longrightarrow> ob_forced ob b o') \<and> (\<forall>o'. ob_tmp ob b' o' \<longrightarrow> ob_tmp ob b o')"
    and holds: "holds = (\<lambda>b. ob_forced ob b owner) \<or> holds = (\<lambda>b. ob_tmp ob b owner)"
  shows "quiet ob s s'" and "\<not> holds (sv_backend s')"
proof -
  obtain res b where b: "f owner (sv_backend s) = (res, b)" by fastforce
  have one: "quiet ob s (s\<lparr>sv_backend := b\<rparr>)"
    using law [OF b] by (simp add: quiet_def)
  have "quietA ob (if mres_OK res \<and> mres_Changed res then server_notify e (cb_configSnapshot cb) ''config'' else returnA ())" by auto
  then have two: "quiet ob (s\<lparr>sv_backend := b\<rparr>) s'"
    using assms(1) b by (auto simp: release_def bindA_def on_backend_def intro: quietI)
  show "quiet ob s s'" by (rule quiet_trans [OF one two])
  have "ob_inv ob b" "\<not> holds b" using law [OF b assms(2)] by simp_all
  with two holds show "\<not> holds (sv_backend s')" by (auto simp: quiet_def)
qed

text \<open>The part of a disconnection after the client is taken from the map.\<close>

lemma disconnect_rest:
  assumes "disconnect e cb c s = (Some (), s')" and "ob_inv ob (sv_backend s)"
  shows "quiet ob (removeClient (cl_id c) s) s'" and "\<not> ob_forced ob (sv_backend s') (cl_owner c)"
    and "\<not> ob_tmp ob (sv_backend s') (cl_owner c)"
proof -
  let ?o = "cl_owner c" and ?s0 = "removeClient (cl_id c) s"
  obtain ff where ff: "cb_removeForceRulesets cb = Some ff"
    "\<forall>owner b res b'. ff owner b = (res, b') \<longrightarrow> ob_inv ob b \<longrightarrow> ob_inv ob b' \<and> ob_tmp ob b' = ob_tmp ob b \<and>
      (\<forall>o'. ob_forced ob b' o' \<longleftrightarrow> o' \<noteq> owner \<and> ob_forced ob b o')"
    using remove_force by blast
  obtain ft where ft: "cb_removeTmpRuleset cb = Some ft"
    "\<forall>owner b res b'. ft owner b = (res, b') \<longrightarrow> ob_inv ob b \<longrightarrow> ob_inv ob b' \<and> ob_forced ob b' = ob_forced ob b \<and>
      (\<forall>o'. ob_tmp ob b' o' \<longleftrightarrow> o' \<noteq> owner \<and> ob_tmp ob b o')"
    using remove_tmp by blast
  obtain s1 s2 where n: "server_notify e (cb_configSnapshot cb) ''clients'' ?s0 = (Some (), s1)"
    and f: "release e (cb_configSnapshot cb) (Some ff) ?o s1 = (Some (), s2)"
    and t: "release e (cb_configSnapshot cb) (Some ft) ?o s2 = (Some (), s')"
    using assms(1) by (auto simp: disconnect_def bindA_Some ff(1) ft(1))
  have q0: "quiet ob ?s0 s1" using n by (auto intro: quietI)
  have i1: "ob_inv ob (sv_backend s1)" using q0 assms(2) by (simp add: quiet_def removeClient_def)
  note force = released [OF f i1, where holds = "\<lambda>b. ob_forced ob b ?o"]
  have f1: "quiet ob s1 s2" "\<not> ob_forced ob (sv_backend s2) ?o" using force ff(2) by simp_all
  have i2: "ob_inv ob (sv_backend s2)" using f1(1) i1 by (simp add: quiet_def)
  note tmp = released [OF t i2, where holds = "\<lambda>b. ob_tmp ob b ?o"]
  have t1: "quiet ob s2 s'" "\<not> ob_tmp ob (sv_backend s') ?o" using tmp ft(2) by simp_all
  show "quiet ob ?s0 s'" by (rule quiet_trans [OF quiet_trans [OF q0 f1(1)] t1(1)])
  show "\<not> ob_forced ob (sv_backend s') ?o" using f1(2) t1(1) i2 by (auto simp: quiet_def)
  show "\<not> ob_tmp ob (sv_backend s') ?o" by (rule t1(2))
qed

lemma disconnect_ok:
  assumes "server_ok ob s" and "fmlookup (sv_clients s) cid = Some c" and "disconnect e cb c s = (Some (), s')"
  shows "server_ok ob s'"
proof -
  let ?s0 = "removeClient (cl_id c) s"
  have inv: "ob_inv ob (sv_backend s)" using assms(1) by (simp add: server_ok_def)
  note rest = disconnect_rest [OF assms(3) inv]
  have cid: "cl_id c = cid" using assms(1,2) unfolding server_ok_def clients_ok_def by blast
  have "clients_ok ?s0"
    using assms(1) unfolding server_ok_def clients_ok_def removeClient_def by simp
  then have "clients_ok s'" using quiet_views(2) [OF rest(1)] by simp
  moreover have "connected_owner s' owner" if own: "connected_owner s owner" and other: "owner \<noteq> cl_owner c" for owner
  proof -
    obtain k c1 where k: "fmlookup (sv_clients s) k = Some c1" "cl_owner c1 = owner"
      using own by (auto simp: connected_owner_def)
    then have "k \<noteq> cid" using other assms(2) by auto
    then have "fmlookup (sv_clients ?s0) k = Some c1" using k(1) cid by (simp add: removeClient_def)
    then have "connected_owner ?s0 owner" using k(2) unfolding connected_owner_def by blast
    then show ?thesis using quiet_views(1) [OF rest(1)] by simp
  qed
  moreover have "has_subscriber ''notification'' s' \<longrightarrow> sv_notifications s' = []"
  proof
    assume "has_subscriber ''notification'' s'"
    then have sub: "has_subscriber ''notification'' ?s0" using quiet_views(3) [OF rest(1)] by simp
    then have "has_subscriber ''notification'' s" unfolding has_subscriber_def removeClient_def by (auto split: if_splits)
    then have "sv_notifications ?s0 = []" using assms(1) by (simp add: server_ok_def removeClient_def)
    with sub rest(1) show "sv_notifications s' = []" by (simp add: quiet_def)
  qed
  moreover have "ob_inv ob (sv_backend s')" "\<And>owner. ob_forced ob (sv_backend s') owner \<Longrightarrow> ob_forced ob (sv_backend s) owner"
      "\<And>owner. ob_tmp ob (sv_backend s') owner \<Longrightarrow> ob_tmp ob (sv_backend s) owner"
    using rest(1) inv by (simp_all add: quiet_def removeClient_def)
  ultimately show ?thesis
    using assms(1) rest(2,3) unfolding server_ok_def by metis
qed

lemma notify_ok: "server_ok ob s \<Longrightarrow> server_notify e (cb_configSnapshot cb) ev s = (r, s') \<Longrightarrow> server_ok ob s'"
  using quiet_server_ok quietI [OF quiet_notify] by blast

lemma error_ok: "server_ok ob s \<Longrightarrow> notifyError e n s = (r, s') \<Longrightarrow> server_ok ob s'"
  using quiet_server_ok quietI [OF quiet_error] by blast

end

section \<open>The closures of \<open>main.go\<close> meet the contract\<close>

definition holds_forced :: "daemon \<Rightarrow> string \<Rightarrow> bool" where
  "holds_forced d owner \<longleftrightarrow> (\<exists>name i. 0 < force_count (dm_policies d) name owner i)"

definition holds_tmp :: "daemon \<Rightarrow> string \<Rightarrow> bool" where
  "holds_tmp d owner \<longleftrightarrow> fmlookup (pm_tmpRulesets (dm_policies d)) owner \<noteq> None"

definition daemon_observer :: "regexps \<Rightarrow> backend observer" where
  "daemon_observer rx = \<lparr>ob_inv = (\<lambda>b. daemon_ok rx (bk_daemon b) \<and> (\<forall>n. world_ok (bk_worlds b n))),
     ob_forced = (\<lambda>b. holds_forced (bk_daemon b)), ob_tmp = (\<lambda>b. holds_tmp (bk_daemon b))\<rparr>"

lemma same_requests_holds:
  assumes "same_requests pm pm'"
  shows "force_count pm' = force_count pm" and "pm_tmpRulesets pm' = pm_tmpRulesets pm"
  using assms by (simp_all add: same_requests_def fun_eq_iff force_count_def)

lemma reconcile_holds [simp]:
  "holds_forced (snd (reconcile_policies rx w d)) = holds_forced d" "holds_tmp (snd (reconcile_policies rx w d)) = holds_tmp d"
proof -
  obtain r d' where run: "reconcile_policies rx w d = (r, d')" by fastforce
  note same = same_requests_holds [OF reconcile_policies_frame(1) [OF run]]
  show "holds_forced (snd (reconcile_policies rx w d)) = holds_forced d" "holds_tmp (snd (reconcile_policies rx w d)) = holds_tmp d"
    using run same by (simp_all add: fun_eq_iff holds_forced_def holds_tmp_def)
qed

lemma finish_holds [simp]: "holds_forced (snd (finish rx w d)) = holds_forced d" "holds_tmp (snd (finish rx w d)) = holds_tmp d"
  by (simp_all add: finish_snd)

lemma releaseForce_tmp [simp]: "pm_tmpRulesets (snd (releaseForceRulesetLocked owner name is pm)) = pm_tmpRulesets pm"
  by (simp add: releaseForceRulesetLocked_def Let_def split: option.split)

lemma removeForce_tmp: "pm_tmpRulesets (snd (removeForceRulesets owner pm)) = pm_tmpRulesets pm"
proof -
  let ?step = "\<lambda>(changed, pm) name. let (released, pm') = releaseAllForceRulesetLocked owner name pm in (if released then True else changed, pm')"
  have "pm_tmpRulesets (snd (foldl ?step (c, pm) names)) = pm_tmpRulesets pm" for c names
  proof (induction names arbitrary: c pm)
    case (Cons n names)
    have "pm_tmpRulesets (snd (?step (c, pm) n)) = pm_tmpRulesets pm"
      by (auto simp: releaseAll_eq Let_def split: prod.split dest: arg_cong [where f = "\<lambda>x. pm_tmpRulesets (snd x)"])
    with Cons [of "fst (?step (c, pm) n)" "snd (?step (c, pm) n)"] show ?case by simp
  qed simp
  then show ?thesis by (simp add: removeForceRulesets_def)
qed

lemma on_daemon_ok:
  assumes "on_daemon f b = (x, b')" and "ob_inv (daemon_observer rx) b"
    and "\<And>w d. world_ok w \<Longrightarrow> daemon_ok rx d \<Longrightarrow> daemon_ok rx (snd (f w d))"
  shows "ob_inv (daemon_observer rx) b'" and "\<exists>w d. world_ok w \<and> daemon_ok rx d \<and> bk_daemon b = d \<and> bk_daemon b' = snd (f w d)"
  using assms by (auto simp: on_daemon_def daemon_observer_def split: prod.splits intro!: exI [of _ "bk_worlds b (bk_calls b)"]) (metis snd_conv)

lemma set_proxy_ok: "set_proxy enabled b = (x, b') \<Longrightarrow> bk_daemon b' = bk_daemon b \<and> bk_worlds b' = bk_worlds b"
  by (auto simp: set_proxy_def split: prod.splits)

subsection \<open>Who holds what after a handler\<close>

lemma onStateChanged_holds: "holds_forced (snd (onStateChanged rx w st d)) = holds_forced d" "holds_tmp (snd (onStateChanged rx w st d)) = holds_tmp d"
  by (simp_all add: onStateChanged_snd fun_eq_iff)
    (simp_all add: holds_forced_def holds_tmp_def setSocksProxyState_def force_count_def)

lemma finish_socks_snd: "snd (finish_socks rx w err st d) =
    snd (reconcile_policies rx w (d\<lparr>dm_policies := setSocksProxyState st (dm_policies d)\<rparr>))"
  by (simp add: finish_socks_def split: prod.split option.split sum.split)

lemma finish_socks_holds: "holds_forced (snd (finish_socks rx w err st d)) = holds_forced d"
    "holds_tmp (snd (finish_socks rx w err st d)) = holds_tmp d" "daemon_ok rx d \<Longrightarrow> daemon_ok rx (snd (finish_socks rx w err st d))"
  using onStateChanged_holds [of rx w st d] onStateChanged_ok [of rx d w st] by (simp_all add: finish_socks_snd onStateChanged_snd)

lemma admin_holds:
  "holds_forced (snd (applyAdminMutation rx w req d)) owner \<Longrightarrow> holds_forced d owner"
  "holds_tmp (snd (applyAdminMutation rx w req d)) = holds_tmp d"
proof -
  have *: "holds_forced (snd (applyAdminMutation rx w req d)) owner \<longrightarrow> holds_forced d owner"
    "holds_tmp (snd (applyAdminMutation rx w req d)) = holds_tmp d" for owner
  proof -
    consider (err) e where "mutateOptions rx (pm_opts (dm_policies d)) req = Inl e"
      | (ok) nxt where "mutateOptions rx (pm_opts (dm_policies d)) req = Inr nxt" by (cases "mutateOptions rx (pm_opts (dm_policies d)) req")
    then have "(holds_forced (snd (applyAdminMutation rx w req d)) owner \<longrightarrow> holds_forced d owner) \<and>
      holds_tmp (snd (applyAdminMutation rx w req d)) = holds_tmp d"
    proof cases
      case ok
      let ?d1 = "d\<lparr>dm_policies := replaceOptions nxt (dm_policies d)\<rparr>"
      obtain c errs d2 where eg: "reconcile_egress rx w nxt False ?d1 = (c, errs, d2)" by (metis prod_cases3)
      have pol: "dm_policies d2 = replaceOptions nxt (dm_policies d)" using reconcile_egress_policies [OF eg] by simp
      have "holds_forced d2 owner \<longrightarrow> holds_forced d owner" "holds_tmp d2 = holds_tmp d"
        by (auto simp: holds_forced_def holds_tmp_def pol replaceOptions_spec fun_eq_iff split: if_splits)
      then show ?thesis using ok eg by (simp add: applyAdminMutation_def optionsSnapshot_def Let_def)
    qed (simp add: applyAdminMutation_def optionsSnapshot_def)
    then show "holds_forced (snd (applyAdminMutation rx w req d)) owner \<longrightarrow> holds_forced d owner"
      "holds_tmp (snd (applyAdminMutation rx w req d)) = holds_tmp d" by simp_all
  qed
  show "holds_forced (snd (applyAdminMutation rx w req d)) owner \<Longrightarrow> holds_forced d owner"
    "holds_tmp (snd (applyAdminMutation rx w req d)) = holds_tmp d" using * by blast+
qed

lemma temporary_holds:
  "holds_forced (snd (applyTemporaryRulesetMutation rx w owner req d)) = holds_forced d"
  "o' \<noteq> owner \<Longrightarrow> holds_tmp (snd (applyTemporaryRulesetMutation rx w owner req d)) o' = holds_tmp d o'"
  by (auto simp: applyTemporaryRulesetMutation_def fun_eq_iff split: sum.split)
    (auto simp: holds_forced_def holds_tmp_def setTemporaryRuleset_def removeTemporaryRuleset_def force_count_def split: if_splits)

lemma force_holds:
  assumes "daemon_ok rx d"
  shows "holds_tmp (snd (applyForceRulesetMutation rx w owner req d)) = holds_tmp d"
    and "o' \<noteq> owner \<Longrightarrow> holds_forced (snd (applyForceRulesetMutation rx w owner req d)) o' = holds_forced d o'"
proof -
  have fo: "force_ok (dm_policies d)" using assms by (simp add: daemon_ok_def)
  have act: "pm_tmpRulesets pm = pm_tmpRulesets (dm_policies d) \<and> (o' \<noteq> owner \<longrightarrow> (\<forall>n i. force_count pm n o' i = force_count (dm_policies d) n o' i))"
    if "forceActivateRuleset owner name is replace (dm_policies d) = (ok, pm)" for name "is" replace ok pm
  proof -
    have "pm_tmpRulesets pm = pm_tmpRulesets (dm_policies d)"
      using that by (auto simp: forceActivateRuleset_def Let_def split: if_splits)
    then show ?thesis using forceActivate_spec(2,3) [OF that] by (cases ok) auto
  qed
  have rel: "pm_tmpRulesets pm = pm_tmpRulesets (dm_policies d) \<and> (o' \<noteq> owner \<longrightarrow> (\<forall>n i. force_count pm n o' i = force_count (dm_policies d) n o' i))"
    if "releaseForceRuleset owner name is (dm_policies d) = (ok, pm)" for name "is" ok pm
    using that release_spec(1) [OF fo, of owner name "is" ok pm] releaseForce_tmp [of owner name "is" "dm_policies d"]
    by (auto simp: releaseForceRuleset_def)
  define Q where "Q pm \<longleftrightarrow> pm_tmpRulesets pm = pm_tmpRulesets (dm_policies d) \<and>
    (o' \<noteq> owner \<longrightarrow> (\<forall>n i. force_count pm n o' i = force_count (dm_policies d) n o' i))" for pm
  have "\<exists>pm. Q pm \<and> holds_tmp (snd (applyForceRulesetMutation rx w owner req d)) = holds_tmp (d\<lparr>dm_policies := pm\<rparr>) \<and>
    holds_forced (snd (applyForceRulesetMutation rx w owner req d)) = holds_forced (d\<lparr>dm_policies := pm\<rparr>)"
  proof -
    let ?is = "uniqueSortedStrings (mr_Interfaces req)"
    obtain ok pa where A: "forceActivateRuleset owner (mr_Ruleset req) ?is (mr_Operation req = ''set'') (dm_policies d) = (ok, pa)" by fastforce
    obtain ok' pr where B: "releaseForceRuleset owner (mr_Ruleset req) ?is (dm_policies d) = (ok', pr)" by fastforce
    have Q: "Q pa" "Q pr" "Q (dm_policies d)" using act [OF A] rel [OF B] by (simp_all add: Q_def)
    consider (none) "snd (applyForceRulesetMutation rx w owner req d) = d"
      | (act) "snd (applyForceRulesetMutation rx w owner req d) = d\<lparr>dm_policies := pa\<rparr> \<or>
          snd (applyForceRulesetMutation rx w owner req d) = snd (finish rx w (d\<lparr>dm_policies := pa\<rparr>))"
      | (rel) "snd (applyForceRulesetMutation rx w owner req d) = snd (finish rx w (d\<lparr>dm_policies := pr\<rparr>))"
      unfolding applyForceRulesetMutation_def A B prod.case snd_conv
      by (cases "mr_Ruleset req = []"; cases "mr_Operation req = ''add'' \<or> mr_Operation req = ''set''"; cases "mr_Interfaces req = []";
          cases "mr_Operation req = ''remove''"; cases ok) simp_all
    then show ?thesis
    proof cases
      case none
      then show ?thesis using Q(3) by (intro exI [of _ "dm_policies d"]) simp
    next
      case act
      then show ?thesis using Q(1) by (intro exI [of _ pa]) auto
    next
      case rel
      then show ?thesis using Q(2) by (intro exI [of _ pr]) simp
    qed
  qed
  then obtain pm where pm: "Q pm" "holds_tmp (snd (applyForceRulesetMutation rx w owner req d)) = holds_tmp (d\<lparr>dm_policies := pm\<rparr>)"
    "holds_forced (snd (applyForceRulesetMutation rx w owner req d)) = holds_forced (d\<lparr>dm_policies := pm\<rparr>)" by blast
  show "holds_tmp (snd (applyForceRulesetMutation rx w owner req d)) = holds_tmp d"
    unfolding pm(2) using pm(1) by (simp add: Q_def holds_tmp_def fun_eq_iff)
  show "o' \<noteq> owner \<Longrightarrow> holds_forced (snd (applyForceRulesetMutation rx w owner req d)) o' = holds_forced d o'"
    unfolding pm(3) using pm(1) by (simp add: Q_def holds_forced_def)
qed

lemma remove_tmp_holds:
  "holds_forced (snd (removeTemporaryRuleset_handler rx w owner d)) = holds_forced d"
  "holds_tmp (snd (removeTemporaryRuleset_handler rx w owner d)) o' \<longleftrightarrow> o' \<noteq> owner \<and> holds_tmp d o'"
  by (auto simp: removeTemporaryRuleset_handler_def removeTemporaryRuleset_def fun_eq_iff)
    (auto simp: holds_forced_def holds_tmp_def force_count_def split: if_splits)

lemma remove_force_holds:
  assumes "daemon_ok rx d"
  shows "holds_tmp (snd (removeForceRulesets_handler rx w owner d)) = holds_tmp d"
    and "holds_forced (snd (removeForceRulesets_handler rx w owner d)) o' \<longleftrightarrow> o' \<noteq> owner \<and> holds_forced d o'"
proof -
  obtain ch pm where R: "removeForceRulesets owner (dm_policies d) = (ch, pm)" by fastforce
  have fo: "force_ok (dm_policies d)" using assms by (simp add: daemon_ok_def)
  have tmp: "pm_tmpRulesets pm = pm_tmpRulesets (dm_policies d)" using removeForce_tmp [of owner "dm_policies d"] R by simp
  have res: "holds_tmp (snd (removeForceRulesets_handler rx w owner d)) = holds_tmp (d\<lparr>dm_policies := pm\<rparr>)"
    "holds_forced (snd (removeForceRulesets_handler rx w owner d)) = holds_forced (d\<lparr>dm_policies := pm\<rparr>)"
    by (simp_all add: removeForceRulesets_handler_def R split: bool.split)
  show "holds_tmp (snd (removeForceRulesets_handler rx w owner d)) = holds_tmp d"
    unfolding res by (simp add: holds_tmp_def tmp fun_eq_iff)
  show "holds_forced (snd (removeForceRulesets_handler rx w owner d)) o' \<longleftrightarrow> o' \<noteq> owner \<and> holds_forced d o'"
    unfolding res by (auto simp: holds_forced_def removeForceRulesets_spec(1) [OF fo R])
qed

section \<open>The interpretation\<close>

lemma obs_sel [simp]:
  "ob_inv (daemon_observer rx) b \<longleftrightarrow> daemon_ok rx (bk_daemon b) \<and> (\<forall>n. world_ok (bk_worlds b n))"
  "ob_forced (daemon_observer rx) b = holds_forced (bk_daemon b)" "ob_tmp (daemon_observer rx) b = holds_tmp (bk_daemon b)"
  by (simp_all add: daemon_observer_def)

lemma on_daemon_eq: "on_daemon f b = (x, b') \<longleftrightarrow> (\<exists>d. f (bk_worlds b (bk_calls b)) (bk_daemon b) = (x, d) \<and>
    b' = b\<lparr>bk_daemon := d, bk_calls := Suc (bk_calls b)\<rparr>)"
  by (auto simp: on_daemon_def split: prod.splits)

lemma quiet_on_daemon:
  assumes "\<And>w d. world_ok w \<Longrightarrow> daemon_ok rx d \<Longrightarrow> daemon_ok rx (snd (f w d)) \<and>
    (\<forall>owner. holds_forced (snd (f w d)) owner \<longrightarrow> holds_forced d owner) \<and> (\<forall>owner. holds_tmp (snd (f w d)) owner \<longrightarrow> holds_tmp d owner)"
  shows "quietA (daemon_observer rx) (on_backend (on_daemon f))"
proof (rule quiet_on_backend)
  fix b x b'
  assume "on_daemon f b = (x, b')" and inv: "ob_inv (daemon_observer rx) b"
  then obtain d where d: "snd (f (bk_worlds b (bk_calls b)) (bk_daemon b)) = d" "b' = b\<lparr>bk_daemon := d, bk_calls := Suc (bk_calls b)\<rparr>"
    by (auto simp: on_daemon_eq)
  with assms [of "bk_worlds b (bk_calls b)" "bk_daemon b"] inv
  show "ob_inv (daemon_observer rx) b' \<and> (\<forall>owner. ob_forced (daemon_observer rx) b' owner \<longrightarrow> ob_forced (daemon_observer rx) b owner) \<and>
    (\<forall>owner. ob_tmp (daemon_observer rx) b' owner \<longrightarrow> ob_tmp (daemon_observer rx) b owner)"
    by simp
qed

lemma quiet_set_proxy: "quietA (daemon_observer rx) (on_backend (set_proxy enabled))"
  by (rule quiet_on_backend) (auto dest: set_proxy_ok)

text \<open>\<open>applySocksProxyMutation\<close> notifies clients while it runs; a contract for its parts without it.\<close>

definition plain_callbacks :: "regexps \<Rightarrow> backend callbacks" where
  "plain_callbacks rx = (daemon_callbacks \<lparr>ne_write = (\<lambda>_ _ _. Sent), ne_walk = (\<lambda>ids. ids)\<rparr> rx)
     \<lparr>cb_mutateConfig := (\<lambda>req. on_backend (on_daemon (\<lambda>w. applyAdminMutation rx w req)))\<rparr>"

lemma quiet_admin: "quietA (daemon_observer rx) (on_backend (on_daemon (\<lambda>w. applyAdminMutation rx w req)))"
  by (rule quiet_on_daemon) (use applyAdminMutation_ok admin_holds in \<open>auto\<close>)

lemma backend_laws:
  assumes "cb_configSnapshot cb = daemon_snapshot rx" and "\<And>req. quietA (daemon_observer rx) (cb_mutateConfig cb req)"
    and "cb_mutateTmpRuleset cb = cb_mutateTmpRuleset (plain_callbacks rx)" and "cb_removeTmpRuleset cb = cb_removeTmpRuleset (plain_callbacks rx)"
    and "cb_mutateForceRuleset cb = cb_mutateForceRuleset (plain_callbacks rx)"
    and "cb_removeForceRulesets cb = cb_removeForceRulesets (plain_callbacks rx)"
  shows "admin_backend cb (daemon_observer rx)"
proof unfold_locales
  show "ob_inv (daemon_observer rx) b' \<and> ob_forced (daemon_observer rx) b' = ob_forced (daemon_observer rx) b \<and>
      ob_tmp (daemon_observer rx) b' = ob_tmp (daemon_observer rx) b"
    if "cb_configSnapshot cb clients b = (x, b')" "ob_inv (daemon_observer rx) b" for clients b x b'
    using that by (auto simp: assms(1) daemon_snapshot_def on_daemon_eq)
  show "quietA (daemon_observer rx) (cb_mutateConfig cb req)" for req by (rule assms(2))
  show "ob_inv (daemon_observer rx) b' \<and> ob_forced (daemon_observer rx) b' = ob_forced (daemon_observer rx) b \<and>
      (\<forall>o'. o' \<noteq> owner \<longrightarrow> ob_tmp (daemon_observer rx) b' o' = ob_tmp (daemon_observer rx) b o')"
    if "cb_mutateTmpRuleset cb = Some f" "f owner req b = (res, b')" "ob_inv (daemon_observer rx) b" for f owner req b res b'
  proof -
    let ?w = "bk_worlds b (bk_calls b)"
    have b': "bk_daemon b' = snd (applyTemporaryRulesetMutation rx ?w owner req (bk_daemon b)) \<and> bk_worlds b' = bk_worlds b"
      using that(1,2) by (auto simp: assms(3) plain_callbacks_def daemon_callbacks_def on_daemon_eq)
    with that(3) temporary_holds [where rx = rx and w = ?w and owner = owner and req = req and d = "bk_daemon b"] applyTemporary_ok [of rx "bk_daemon b" ?w owner req]
    show ?thesis by simp
  qed
  show "ob_inv (daemon_observer rx) b' \<and> ob_tmp (daemon_observer rx) b' = ob_tmp (daemon_observer rx) b \<and>
      (\<forall>o'. o' \<noteq> owner \<longrightarrow> ob_forced (daemon_observer rx) b' o' = ob_forced (daemon_observer rx) b o')"
    if "cb_mutateForceRuleset cb = Some f" "f owner req b = (res, b')" "ob_inv (daemon_observer rx) b" for f owner req b res b'
  proof -
    let ?w = "bk_worlds b (bk_calls b)"
    have b': "bk_daemon b' = snd (applyForceRulesetMutation rx ?w owner req (bk_daemon b)) \<and> bk_worlds b' = bk_worlds b"
      using that(1,2) by (auto simp: assms(5) plain_callbacks_def daemon_callbacks_def on_daemon_eq)
    with that(3) force_holds [where rx = rx and w = ?w and owner = owner and req = req and d = "bk_daemon b"] applyForce_ok [of rx "bk_daemon b" ?w owner req]
    show ?thesis by simp
  qed
  let ?tmp = "\<lambda>owner. on_daemon (\<lambda>w. removeTemporaryRuleset_handler rx w owner)"
  have "ob_inv (daemon_observer rx) b' \<and> ob_forced (daemon_observer rx) b' = ob_forced (daemon_observer rx) b \<and>
      (\<forall>o'. ob_tmp (daemon_observer rx) b' o' \<longleftrightarrow> o' \<noteq> owner \<and> ob_tmp (daemon_observer rx) b o')"
    if "?tmp owner b = (res, b')" "ob_inv (daemon_observer rx) b" for owner b res b'
  proof -
    let ?w = "bk_worlds b (bk_calls b)"
    have b': "bk_daemon b' = snd (removeTemporaryRuleset_handler rx ?w owner (bk_daemon b)) \<and> bk_worlds b' = bk_worlds b"
      using that(1) by (auto simp: on_daemon_eq)
    with that(2) remove_tmp_holds [where rx = rx and w = ?w and owner = owner and d = "bk_daemon b"] removeTemporary_handler_ok [of rx "bk_daemon b" ?w owner]
    show ?thesis by simp
  qed
  then show "\<exists>f. cb_removeTmpRuleset cb = Some f \<and> (\<forall>owner b res b'. f owner b = (res, b') \<longrightarrow> ob_inv (daemon_observer rx) b \<longrightarrow>
      ob_inv (daemon_observer rx) b' \<and> ob_forced (daemon_observer rx) b' = ob_forced (daemon_observer rx) b \<and>
      (\<forall>o'. ob_tmp (daemon_observer rx) b' o' \<longleftrightarrow> o' \<noteq> owner \<and> ob_tmp (daemon_observer rx) b o'))"
    by (intro exI [of _ ?tmp] conjI) (simp add: assms(4) plain_callbacks_def daemon_callbacks_def, blast)
  let ?force = "\<lambda>owner. on_daemon (\<lambda>w. removeForceRulesets_handler rx w owner)"
  have "ob_inv (daemon_observer rx) b' \<and> ob_tmp (daemon_observer rx) b' = ob_tmp (daemon_observer rx) b \<and>
      (\<forall>o'. ob_forced (daemon_observer rx) b' o' \<longleftrightarrow> o' \<noteq> owner \<and> ob_forced (daemon_observer rx) b o')"
    if "?force owner b = (res, b')" "ob_inv (daemon_observer rx) b" for owner b res b'
  proof -
    let ?w = "bk_worlds b (bk_calls b)"
    have b': "bk_daemon b' = snd (removeForceRulesets_handler rx ?w owner (bk_daemon b)) \<and> bk_worlds b' = bk_worlds b"
      using that(1) by (auto simp: on_daemon_eq)
    with that(2) remove_force_holds [where rx = rx and w = ?w and owner = owner and d = "bk_daemon b"] removeForce_handler_ok [of rx "bk_daemon b" ?w owner]
    show ?thesis by simp
  qed
  then show "\<exists>f. cb_removeForceRulesets cb = Some f \<and> (\<forall>owner b res b'. f owner b = (res, b') \<longrightarrow> ob_inv (daemon_observer rx) b \<longrightarrow>
      ob_inv (daemon_observer rx) b' \<and> ob_tmp (daemon_observer rx) b' = ob_tmp (daemon_observer rx) b \<and>
      (\<forall>o'. ob_forced (daemon_observer rx) b' o' \<longleftrightarrow> o' \<noteq> owner \<and> ob_forced (daemon_observer rx) b o'))"
    by (intro exI [of _ ?force] conjI) (simp add: assms(6) plain_callbacks_def daemon_callbacks_def, blast)
qed

text \<open>First without the proxy, which gives that notifying is quiet, then all closures.\<close>

interpretation plain: admin_backend e "plain_callbacks rx" "daemon_observer rx" for e rx
  by (rule backend_laws) (simp_all add: plain_callbacks_def daemon_callbacks_def quiet_admin)

lemma plain_snapshot [simp]: "cb_configSnapshot (plain_callbacks rx) = daemon_snapshot rx"
  by (simp add: plain_callbacks_def daemon_callbacks_def)

lemmas quiet_daemon_notify = plain.quiet_notify [unfolded plain_snapshot]

lemma quiet_emit: "quietA (daemon_observer rx) (emit_states e rx sts)"
proof (induction sts)
  case (Cons st sts)
  have "quietA (daemon_observer rx) (on_backend (on_daemon (\<lambda>w. onStateChanged rx w st)))"
    by (rule quiet_on_daemon) (simp add: onStateChanged_ok onStateChanged_holds)
  with Cons show ?case by (auto intro: plain.quiet_errors quiet_daemon_notify)
qed auto

lemma quiet_socks: "quietA (daemon_observer rx) (applySocksProxyMutation e rx req)"
proof -
  have "quietA (daemon_observer rx) (on_backend (on_daemon (\<lambda>w. answer w False False why)))" for why
    by (rule quiet_on_daemon) simp
  moreover have "quietA (daemon_observer rx) (on_backend (\<lambda>b. on_daemon (\<lambda>w. finish_socks rx w err (State (bk_proxy b))) b))" for err
  proof (rule quiet_on_backend)
    fix b x b'
    assume "on_daemon (\<lambda>w. finish_socks rx w err (State (bk_proxy b))) b = (x, b')" "ob_inv (daemon_observer rx) b"
    then show "ob_inv (daemon_observer rx) b' \<and> (\<forall>owner. ob_forced (daemon_observer rx) b' owner \<longrightarrow> ob_forced (daemon_observer rx) b owner) \<and>
        (\<forall>owner. ob_tmp (daemon_observer rx) b' owner \<longrightarrow> ob_tmp (daemon_observer rx) b owner)"
      using finish_socks_holds [where rx = rx and w = "bk_worlds b (bk_calls b)" and err = err and st = "State (bk_proxy b)" and d = "bk_daemon b"] by (auto simp: on_daemon_eq)
  qed
  ultimately show ?thesis
    unfolding applySocksProxyMutation_def by (cases "socks_value req") (auto intro: quiet_set_proxy quiet_emit)
qed

interpretation daemon_server: admin_backend e "daemon_callbacks e rx" "daemon_observer rx" for e rx
  by (rule backend_laws) (simp_all add: plain_callbacks_def daemon_callbacks_def quiet_admin quiet_socks)

section \<open>Runs of the server\<close>

text \<open>
  One step is a whole handler that ran to its end; handlers of different clients follow each other in any
  order. The network and the order of map walks can differ from step to step. A step of the daemon is one of the
  watcher or of the accept loop of the proxy.
\<close>

inductive server_reachable :: "regexps \<Rightarrow> options \<Rightarrow> user_db \<Rightarrow> backend adminAPIServer \<Rightarrow> bool" for rx opts db where
  start: "(\<And>n. world_ok (worlds n)) \<Longrightarrow>
    server_reachable rx opts db (newAdminAPIServer (o_AdminAPI opts) (start_backend worlds listens opts))"
| connect: "server_reachable rx opts db s \<Longrightarrow> sv_nextConnectionID s \<noteq> - 1 \<Longrightarrow>
    connect e (daemon_snapshot rx) db cred s = (Some r, s') \<Longrightarrow> server_reachable rx opts db s'"
| message: "server_reachable rx opts db s \<Longrightarrow> fmlookup (sv_clients s) cid = Some c \<Longrightarrow>
    handle_message e (daemon_callbacks e rx) c msg s = (Some go, s') \<Longrightarrow> server_reachable rx opts db s'"
| disconnect: "server_reachable rx opts db s \<Longrightarrow> fmlookup (sv_clients s) cid = Some c \<Longrightarrow>
    disconnect e (daemon_callbacks e rx) c s = (Some (), s') \<Longrightarrow> server_reachable rx opts db s'"
| event: "server_reachable rx opts db s \<Longrightarrow> server_notify e (daemon_snapshot rx) ev s = (Some (), s') \<Longrightarrow> server_reachable rx opts db s'"
| error: "server_reachable rx opts db s \<Longrightarrow> notifyError e n s = (Some (), s') \<Longrightarrow> server_reachable rx opts db s'"
| watch: "server_reachable rx opts db s \<Longrightarrow> world_ok w \<Longrightarrow>
    server_reachable rx opts db (s\<lparr>sv_backend := (sv_backend s)\<lparr>bk_daemon := act rx w (Watch strict ni) (bk_daemon (sv_backend s))\<rparr>\<rparr>)"
| proxy: "server_reachable rx opts db s \<Longrightarrow> world_ok w \<Longrightarrow>
    server_reachable rx opts db (s\<lparr>sv_backend := (sv_backend s)\<lparr>bk_proxy := m, bk_daemon := act rx w (SocksChanged st) (bk_daemon (sv_backend s))\<rparr>\<rparr>)"

lemma daemon_callbacks_snapshot [simp]: "cb_configSnapshot (daemon_callbacks e rx) = daemon_snapshot rx"
  by (simp add: daemon_callbacks_def)

lemma watch_holds: "holds_forced (snd (snd (watch_reconcile rx w strict ni d))) = holds_forced d"
  "holds_tmp (snd (snd (watch_reconcile rx w strict ni d))) = holds_tmp d"
proof -
  obtain c errs d1 where eg: "reconcile_egress rx w (pm_opts (dm_policies d)) strict d = (c, errs, d1)" by (metis prod_cases3)
  have "snd (snd (watch_reconcile rx w strict ni d)) = snd (reconcile_policies rx w d1)"
    by (simp add: watch_reconcile_def optionsSnapshot_def eg Let_def split: prod.split)
  then show "holds_forced (snd (snd (watch_reconcile rx w strict ni d))) = holds_forced d"
    "holds_tmp (snd (snd (watch_reconcile rx w strict ni d))) = holds_tmp d"
    by (simp_all add: fun_eq_iff) (simp_all add: holds_forced_def holds_tmp_def reconcile_egress_policies [OF eg])
qed

lemma server_reachable_ok:
  assumes "opts_ok rx opts" and "server_reachable rx opts db s"
  shows "server_ok (daemon_observer rx) s"
  using assms(2)
proof (induction rule: server_reachable.induct)
  case (start worlds listens)
  have "\<not> holds_forced (start_daemon opts) owner" "\<not> holds_tmp (start_daemon opts) owner" for owner
    by (simp_all add: holds_forced_def holds_tmp_def start_daemon_def newPolicyManager_def force_count_def)
  with start start_daemon_ok [OF assms(1)] show ?case
    by (simp add: server_ok_def newAdminAPIServer_def start_backend_def clients_ok_def has_subscriber_def)
next
  case (connect s e cred r s')
  show ?case using daemon_server.connect_ok [OF connect.IH connect.hyps(2)] connect.hyps(3) by simp
next
  case (message s cid c e msg go s')
  show ?case by (rule daemon_server.message_ok [OF message.IH message.hyps(2,3)])
next
  case (disconnect s cid c e s')
  show ?case by (rule daemon_server.disconnect_ok [OF disconnect.IH disconnect.hyps(2,3)])
next
  case (event s e ev s')
  show ?case using daemon_server.notify_ok [OF event.IH] event.hyps(2) by simp
next
  case (error s e n s')
  show ?case by (rule daemon_server.error_ok [OF error.IH error.hyps(2)])
next
  case (watch s w strict ni)
  then show ?case
    using watch_reconcile_ok [of w rx "bk_daemon (sv_backend s)"] by (simp add: server_ok_def watch_holds)
next
  case (proxy s w m st)
  then show ?case
    using onStateChanged_ok [of rx "bk_daemon (sv_backend s)"] by (simp add: server_ok_def onStateChanged_holds)
qed

section \<open>A client that does not read\<close>

text \<open>Sending events leaves the daemon alone.\<close>

interpretation same_daemon: snapshot_backend e "daemon_snapshot rx"
    "\<lparr>ob_inv = (\<lambda>b. bk_daemon b = d), ob_forced = (\<lambda>_ _. False), ob_tmp = (\<lambda>_ _. False)\<rparr>" for e rx d
  by unfold_locales (auto simp: daemon_snapshot_def on_daemon_eq)

lemma notify_same_daemon: "server_notify e (daemon_snapshot rx) ev s = (r, s') \<Longrightarrow>
    bk_daemon (sv_backend s') = bk_daemon (sv_backend s) \<and> sv_clients s' = sv_clients s"
  using quietI [OF same_daemon.quiet_notify [of "bk_daemon (sv_backend s)"]] by (fastforce simp: quiet_def)

lemma send_each_blocks:
  assumes "cid \<in> set ids" and "\<And>log. ne_write e log cid (EventMessage ev) = Blocks"
  shows "fst (send_each e (EventMessage ev) ids s) = None"
  using assms(1)
proof (induction ids arbitrary: s)
  case (Cons k ids)
  have ok: "\<exists>js. WriteMessage (EventMessage ev) = Inr js" by (simp add: WriteMessage_def)
  show ?case
  proof (cases "k = cid")
    case True
    with ok show ?thesis using assms(2) by (auto simp: bindA_def client_send_def)
  next
    case False
    with Cons show ?thesis by (auto simp: bindA_def split: prod.split option.split)
  qed
qed simp

lemma notify_blocks:
  assumes "fmlookup (sv_clients s) cid = Some c" and "ev |\<in>| cl_eventTypes c"
    and "\<And>log em. ne_write e log cid (EventMessage em) = Blocks"
  shows "fst (server_notify e snap ev s) = None"
proof -
  have mem: "cid \<in> set (subscribers e ev s)"
    using assms(1,2) by (auto simp: subscribers_def fmdomI)
  then have "subscribers e ev s \<noteq> []" by auto
  moreover have "fst (send_each e (EventMessage em) (subscribers e ev s) t) = None" for em t
    using mem assms(3) by (rule send_each_blocks)
  ultimately show ?thesis
    by (auto simp: server_notify_def Let_def bindA_def split: prod.split option.split)
qed

section \<open>Buffered notifications\<close>

lemma send_notifications_run:
  assumes "send_notifications e cid ns s = (Some (), s')"
  shows "\<exists>k \<le> length ns. sv_written s' = sv_written s @ map (\<lambda>n. (cid, notificationMessage n)) (take k ns) \<and>
    (k < length ns \<longrightarrow> (\<exists>err. ne_write e (sv_written s') cid (notificationMessage (ns ! k)) = WriteFailed err)) \<and>
    sv_notifications s' = sv_notifications s \<and> sv_clients s' = sv_clients s"
  using assms
proof (induction ns arbitrary: s)
  case (Cons n ns)
  have ok: "\<exists>js. WriteMessage (notificationMessage n) = Inr js" by (simp add: WriteMessage_def notificationMessage_def)
  show ?case
  proof (cases "ne_write e (sv_written s) cid (notificationMessage n)")
    case Sent
    let ?s1 = "s\<lparr>sv_written := sv_written s @ [(cid, notificationMessage n)]\<rparr>"
    have "send_notifications e cid ns ?s1 = (Some (), s')"
      using Cons.prems Sent ok by (auto simp: bindA_def client_send_def)
    from Cons.IH [OF this] obtain k where "k \<le> length ns"
      "sv_written s' = sv_written ?s1 @ map (\<lambda>n. (cid, notificationMessage n)) (take k ns)"
      "k < length ns \<longrightarrow> (\<exists>err. ne_write e (sv_written s') cid (notificationMessage (ns ! k)) = WriteFailed err)"
      "sv_notifications s' = sv_notifications s" "sv_clients s' = sv_clients s" by auto
    then show ?thesis by (intro exI [of _ "Suc k"]) simp
  next
    case (WriteFailed err)
    then have "s' = s" using Cons.prems ok by (auto simp: bindA_def client_send_def returnA_def)
    then show ?thesis using WriteFailed by (intro exI [of _ 0]) simp
  next
    case Blocks
    then show ?thesis using Cons.prems ok by (auto simp: bindA_def client_send_def)
  qed
qed (auto simp: returnA_def)

section \<open>Properties\<close>


definition free_net :: net_env where
  "free_net = \<lparr>ne_write = (\<lambda>_ _ _. Sent), ne_walk = (\<lambda>ids. ids)\<rparr>"

definition nobody_known :: user_db where
  "nobody_known = \<lparr>db_Lookup = (\<lambda>_. Inl (Lib ''unknown user'')), db_LookupId = (\<lambda>_. Inl (Lib ''unknown user'')),
     db_LookupGroup = (\<lambda>_. Inl (Lib ''unknown group''))\<rparr>"

definition example_server :: "backend adminAPIServer" where
  "example_server = newAdminAPIServer (o_AdminAPI example_options) (start_backend (\<lambda>_. calm_world) (\<lambda>_. free_port) example_options)"

lemma example_server_reachable: "server_reachable example_rx example_options nobody_known example_server"
  unfolding example_server_def by (rule server_reachable.start) (rule calm_world_ok)


text \<open>C20: a client that subscribes to the events of clients and does not read what it is sent keeps the
  permissions of every client that disconnects in force: the deferred function tells the clients first and never comes
  to release the rule sets, although their owner is gone from the map of clients.\<close>

theorem blocked_client_keeps_permissions:
  assumes "fmlookup (sv_clients s) cid = Some c'" and "cid \<noteq> cl_id c" and "''clients'' |\<in>| cl_eventTypes c'"
    and "\<And>log em. ne_write e log cid (EventMessage em) = Blocks"
  shows "fst (disconnect e (daemon_callbacks e rx) c s) = None \<and>
    fmlookup (sv_clients (snd (disconnect e (daemon_callbacks e rx) c s))) (cl_id c) = None \<and>
    bk_daemon (sv_backend (snd (disconnect e (daemon_callbacks e rx) c s))) = bk_daemon (sv_backend s)"
proof -
  let ?s0 = "removeClient (cl_id c) s"
  have "fmlookup (sv_clients ?s0) cid = Some c'" using assms(1,2) by (simp add: removeClient_def)
  then have "fst (server_notify e (daemon_snapshot rx) ''clients'' ?s0) = None"
    using notify_blocks assms(3,4) by blast
  then obtain s1 where n: "server_notify e (daemon_snapshot rx) ''clients'' ?s0 = (None, s1)" by (metis prod.collapse)
  then have "disconnect e (daemon_callbacks e rx) c s = (None, s1)"
    by (simp add: disconnect_def bindA_def)
  with notify_same_daemon [OF n] show ?thesis by (simp add: removeClient_def)
qed

definition deaf_net :: net_env where
  "deaf_net = \<lparr>ne_write = (\<lambda>_ _ _. Blocks), ne_walk = (\<lambda>ids. ids)\<rparr>"

lemma blocked_client_keeps_permissions_witness:
  "\<exists>s c. holds_tmp (bk_daemon (sv_backend s)) (cl_owner c) \<and> cl_id c = 1 \<and>
     fmlookup (sv_clients (snd (disconnect deaf_net (daemon_callbacks deaf_net example_rx) c s))) 1 = None \<and>
     holds_tmp (bk_daemon (sv_backend (snd (disconnect deaf_net (daemon_callbacks deaf_net example_rx) c s)))) (cl_owner c)"
proof -
  let ?peer = "\<lparr>peer_UID = 0, peer_GID = 0, peer_PID = 7\<rparr>"
  let ?c = "\<lparr>cl_id = 1, cl_owner = owner_of ?peer 1, cl_peer = ?peer, cl_eventTypes = {||}\<rparr>"
  let ?c2 = "\<lparr>cl_id = 2, cl_owner = owner_of ?peer 2, cl_peer = ?peer, cl_eventTypes = {|''clients''|}\<rparr>"
  let ?d = "start_daemon example_options"
  let ?b = "(start_backend (\<lambda>_. calm_world) (\<lambda>_. free_port) example_options)
      \<lparr>bk_daemon := ?d\<lparr>dm_policies := setTemporaryRuleset (owner_of ?peer 1) [''eth0''] open_rules (dm_policies ?d)\<rparr>\<rparr>"
  let ?s = "example_server\<lparr>sv_clients := fmupd 1 ?c (fmupd 2 ?c2 fmempty), sv_backend := ?b\<rparr>"
  have held: "holds_tmp (bk_daemon (sv_backend ?s)) (cl_owner ?c)" by (simp add: holds_tmp_def setTemporaryRuleset_def)
  have "fmlookup (sv_clients ?s) 2 = Some ?c2" by simp
  from blocked_client_keeps_permissions [OF this, where c = ?c and e = deaf_net and rx = example_rx] held show ?thesis
    by (intro exI [of _ ?s] exI [of _ ?c]) (simp add: deaf_net_def holds_tmp_def)
qed

text \<open>the notifications that were kept are sent to the first subscriber in the order they came, and are then forgotten:
  when a write fails, that notification and all later ones are lost.\<close>

theorem drain_delivers_in_order:
  assumes "drainNotifications e cid s = (Some (), s')"
  shows "sv_notifications s' = [] \<and>
    (\<exists>k \<le> length (sv_notifications s).
       sv_written s' = sv_written s @ map (\<lambda>n. (cid, notificationMessage n)) (take k (sv_notifications s)) \<and>
       (k < length (sv_notifications s) \<longrightarrow>
          (\<exists>err. ne_write e (sv_written s') cid (notificationMessage (sv_notifications s ! k)) = WriteFailed err)))"
  using send_notifications_run [of e cid "sv_notifications s" "s\<lparr>sv_notifications := []\<rparr>" s'] assms
  by (auto simp: drainNotifications_def)

lemma drain_delivers_in_order_witness:
  "sv_notifications (snd (drainNotifications free_net 1 (example_server\<lparr>sv_notifications := [zero_notification]\<rparr>))) = []"
proof -
  let ?s = "example_server\<lparr>sv_notifications := [zero_notification]\<rparr>"
  obtain s' where run: "drainNotifications free_net 1 ?s = (Some (), s')"
    by (simp add: drainNotifications_def bindA_def client_send_def free_net_def notificationMessage_def WriteMessage_def returnA_def split: sum.split)
  with drain_delivers_in_order [OF run] show ?thesis by simp
qed

end
