(* ===== verification/EgressProg.thy ===== *)
theory EgressProg
  imports BpfMaps
begin

text \<open>
  The eBPF program \<open>cmd/killswitch/killswitch.c\<close>, run by the kernel on every packet that leaves a
  protected interface, over the bytes of the packet. Loads of multi-byte fields are in the byte order of the
  host (\<open>be\<close>, as the build has a little-endian and a big-endian object), because the program
  compares the raw fields with the keys that the daemon wrote in that byte order. The specification
  (\<open>classify\<close>, \<open>permits\<close>) reads the packet as numbers in network order.
\<close>

section \<open>Packets\<close>

record skb =
  skb_ifindex :: u32
  skb_mark :: u32
  skb_data :: "u8 list"

definition TC_ACT_OK :: nat where "TC_ACT_OK = 0"
definition TC_ACT_SHOT :: nat where "TC_ACT_SHOT = 2"

definition ETH_P_IP :: u16 where "ETH_P_IP = 0x0800"
definition ETH_P_ARP :: u16 where "ETH_P_ARP = 0x0806"
definition ETH_P_8021Q :: u16 where "ETH_P_8021Q = 0x8100"
definition ETH_P_8021AD :: u16 where "ETH_P_8021AD = 0x88A8"
definition ETH_P_IPV6 :: u16 where "ETH_P_IPV6 = 0x86DD"

definition IPPROTO_ICMPV6 :: u8 where "IPPROTO_ICMPV6 = 58"
definition IPPROTO_TCP :: u8 where "IPPROTO_TCP = 6"
definition IPPROTO_UDP :: u8 where "IPPROTO_UDP = 17"

definition BOOTSTRAP_ARP :: u8 where "BOOTSTRAP_ARP = 1"
definition BOOTSTRAP_DHCPV4 :: u8 where "BOOTSTRAP_DHCPV4 = 2"
definition BOOTSTRAP_DHCPV6 :: u8 where "BOOTSTRAP_DHCPV6 = 3"
definition BOOTSTRAP_ICMPV6_ND :: u8 where "BOOTSTRAP_ICMPV6_ND = 4"

text \<open>Reads at an offset of the packet, all of them behind a \<open>data_available\<close> check.\<close>

definition ld8 :: "u8 list \<Rightarrow> nat \<Rightarrow> u8" where
  "ld8 d i = d ! i"

definition be16 :: "u8 \<Rightarrow> u8 \<Rightarrow> u16" where
  "be16 a b = push_bit 8 (ucast a) OR ucast b"

definition raw16 :: "bool \<Rightarrow> u8 list \<Rightarrow> nat \<Rightarrow> u16" where
  "raw16 be d i = (if be then be16 (d ! i) (d ! (i + 1)) else be16 (d ! (i + 1)) (d ! i))"

definition raw32 :: "bool \<Rightarrow> u8 list \<Rightarrow> nat \<Rightarrow> u32" where
  "raw32 be d i =
     (let os = map unat (take 4 (drop i d)) in word_of_nat (be_nat 256 (if be then os else rev os)))"

definition raw128 :: "u8 list \<Rightarrow> nat \<Rightarrow> bytes16" where
  "raw128 d i = word_of_nat (be_nat 256 (map unat (take 16 (drop i d))))"

definition bpf_ntohs :: "bool \<Rightarrow> u16 \<Rightarrow> u16" where
  "bpf_ntohs be x = (if be then x else ntohs x)"

definition data_available :: "u8 list \<Rightarrow> nat \<Rightarrow> nat \<Rightarrow> bool" where
  "data_available d cursor size' \<longleftrightarrow> cursor + size' \<le> length d"

section \<open>Bootstrap events\<close>

record bootstrapEvent =
  be_TimestampNS :: u64
  be_Ifindex :: u32
  be_EthProto :: u16
  be_Reason :: u8
  be_IPProto :: u8
  be_IPv4Saddr :: u32
  be_IPv4Daddr :: u32
  be_IPv6Saddr :: bytes16
  be_IPv6Daddr :: bytes16
  be_SourcePort :: u16
  be_DestPort :: u16
  be_ICMPv6Type :: u8
  be_VLANDepth :: u8

text \<open>
  The header pointers are offsets, \<open>None\<close> for a null pointer. \<open>slot\<close> is what the helpers
  give: whether the ring buffer has room, and the time.
\<close>

definition emit_bootstrap_event ::
  "bool \<Rightarrow> u64 option \<Rightarrow> skb \<Rightarrow> u16 \<Rightarrow> u8 \<Rightarrow> u8 \<Rightarrow> nat option \<Rightarrow> nat option \<Rightarrow> nat option \<Rightarrow> nat option \<Rightarrow>
   bootstrapEvent option" where
  "emit_bootstrap_event be slot skb eth_proto reason vlan_depth ip ip6 udp icmp6 =
     (let d = skb_data skb in
      case slot of
        None \<Rightarrow> None
      | Some now \<Rightarrow> Some
          \<lparr>be_TimestampNS = now, be_Ifindex = skb_ifindex skb, be_EthProto = eth_proto, be_Reason = reason,
           be_IPProto = (case ip of Some p \<Rightarrow> ld8 d (p + 9) | None \<Rightarrow> (case ip6 of Some p \<Rightarrow> ld8 d (p + 6) | None \<Rightarrow> 0)),
           be_IPv4Saddr = (case ip of Some p \<Rightarrow> raw32 be d (p + 12) | None \<Rightarrow> 0),
           be_IPv4Daddr = (case ip of Some p \<Rightarrow> raw32 be d (p + 16) | None \<Rightarrow> 0),
           be_IPv6Saddr = (case ip6 of Some p \<Rightarrow> raw128 d (p + 8) | None \<Rightarrow> 0),
           be_IPv6Daddr = (case ip6 of Some p \<Rightarrow> raw128 d (p + 24) | None \<Rightarrow> 0),
           be_SourcePort = (case udp of Some p \<Rightarrow> raw16 be d p | None \<Rightarrow> 0),
           be_DestPort = (case udp of Some p \<Rightarrow> raw16 be d (p + 2) | None \<Rightarrow> 0),
           be_ICMPv6Type = (case icmp6 of Some p \<Rightarrow> ld8 d p | None \<Rightarrow> 0),
           be_VLANDepth = vlan_depth\<rparr>)"

definition is_dhcpv4 :: "bool \<Rightarrow> u8 list \<Rightarrow> nat \<Rightarrow> bool" where
  "is_dhcpv4 be d udp =
     (let source = bpf_ntohs be (raw16 be d udp); dest = bpf_ntohs be (raw16 be d (udp + 2))
      in (source = 67 \<or> source = 68) \<and> (dest = 67 \<or> dest = 68))"

definition is_dhcpv6 :: "bool \<Rightarrow> u8 list \<Rightarrow> nat \<Rightarrow> bool" where
  "is_dhcpv6 be d udp =
     (let source = bpf_ntohs be (raw16 be d udp); dest = bpf_ntohs be (raw16 be d (udp + 2))
      in (source = 546 \<or> source = 547) \<and> (dest = 546 \<or> dest = 547))"

definition is_icmpv6_nd :: "u8 list \<Rightarrow> nat \<Rightarrow> bool" where
  "is_icmpv6_nd d icmp6 = (ld8 d icmp6 \<ge> 133 \<and> ld8 d icmp6 \<le> 136)"

section \<open>Lookups\<close>

definition mark_allowed :: "kmaps \<Rightarrow> skb \<Rightarrow> bool" where
  "mark_allowed m skb = (fmlookup (km_marks m) (markPolicyKey (skb_ifindex skb) (skb_mark skb)) \<noteq> None)"

definition port_allowed :: "kmaps \<Rightarrow> skb \<Rightarrow> u8 \<Rightarrow> u16 \<Rightarrow> bool" where
  "port_allowed m skb protocol dport = (fmlookup (km_ports m) (portPolicyKey (skb_ifindex skb) dport protocol) \<noteq> None)"

definition v4_host_allowed :: "kmaps \<Rightarrow> skb \<Rightarrow> u32 \<Rightarrow> bool" where
  "v4_host_allowed m skb daddr = (fmlookup (km_v4hosts m) (v4HostPolicyKey (skb_ifindex skb) daddr) \<noteq> None)"

definition v6_host_allowed :: "kmaps \<Rightarrow> skb \<Rightarrow> bytes16 \<Rightarrow> bool" where
  "v6_host_allowed m skb daddr = (fmlookup (km_v6hosts m) (v6HostPolicyKey (skb_ifindex skb) daddr) \<noteq> None)"

definition v4_hostport_allowed :: "kmaps \<Rightarrow> skb \<Rightarrow> u32 \<Rightarrow> u8 \<Rightarrow> u16 \<Rightarrow> bool" where
  "v4_hostport_allowed m skb daddr protocol dport =
     (fmlookup (km_v4hostports m) (hostport4PolicyKey (skb_ifindex skb) daddr dport protocol) \<noteq> None)"

definition v6_hostport_allowed :: "kmaps \<Rightarrow> skb \<Rightarrow> bytes16 \<Rightarrow> u8 \<Rightarrow> u16 \<Rightarrow> bool" where
  "v6_hostport_allowed m skb daddr protocol dport =
     (fmlookup (km_v6hostports m) (hostport6PolicyKey (skb_ifindex skb) daddr dport protocol) \<noteq> None)"

section \<open>\<open>killswitch_egress\<close>\<close>

type_synonym outcome = "nat \<times> bootstrapEvent option"

text \<open>The gates after the bootstrap exceptions, for the two protocol families.\<close>

definition egress_v4_policy :: "kmaps \<Rightarrow> runtimeConfig option \<Rightarrow> skb \<Rightarrow> u32 \<Rightarrow> u8 \<Rightarrow> bool \<Rightarrow> u16 \<Rightarrow> outcome" where
  "egress_v4_policy m config skb daddr protocol has_ports dport =
     (if (case config of None \<Rightarrow> True | Some c \<Rightarrow> rtc_EnableV4 c = 0) then (TC_ACT_SHOT, None)
      else if mark_allowed m skb then (TC_ACT_OK, None)
      else if has_ports \<and> port_allowed m skb protocol dport then (TC_ACT_OK, None)
      else if v4_host_allowed m skb daddr then (TC_ACT_OK, None)
      else if has_ports \<and> v4_hostport_allowed m skb daddr protocol dport then (TC_ACT_OK, None)
      else (TC_ACT_SHOT, None))"

definition egress_v6_policy :: "kmaps \<Rightarrow> runtimeConfig option \<Rightarrow> skb \<Rightarrow> bytes16 \<Rightarrow> u8 \<Rightarrow> bool \<Rightarrow> u16 \<Rightarrow> outcome" where
  "egress_v6_policy m config skb daddr protocol has_ports dport =
     (if (case config of None \<Rightarrow> True | Some c \<Rightarrow> rtc_EnableV6 c = 0) then (TC_ACT_SHOT, None)
      else if mark_allowed m skb then (TC_ACT_OK, None)
      else if has_ports \<and> port_allowed m skb protocol dport then (TC_ACT_OK, None)
      else if v6_host_allowed m skb daddr then (TC_ACT_OK, None)
      else if has_ports \<and> v6_hostport_allowed m skb daddr protocol dport then (TC_ACT_OK, None)
      else (TC_ACT_SHOT, None))"

definition egress_v4 :: "bool \<Rightarrow> kmaps \<Rightarrow> u64 option \<Rightarrow> runtimeConfig option \<Rightarrow> skb \<Rightarrow> u16 \<Rightarrow> u8 \<Rightarrow> nat \<Rightarrow> outcome" where
  "egress_v4 be m slot config skb eth_proto vlan_depth ip =
     (let d = skb_data skb in
      if \<not> data_available d ip 20 then (TC_ACT_SHOT, None)
      else let ihl_len = unat (ld8 d ip) mod 16 * 4; version = unat (ld8 d ip) div 16 in
      if version \<noteq> 4 \<or> ihl_len < 20 then (TC_ACT_SHOT, None)
      else if \<not> data_available d ip ihl_len then (TC_ACT_SHOT, None)
      else if bpf_ntohs be (raw16 be d (ip + 6)) AND 0x3fff \<noteq> 0 then (TC_ACT_SHOT, None)
      else let protocol = ld8 d (ip + 9); daddr = raw32 be d (ip + 16) in
      if protocol = IPPROTO_UDP then
        (let udp = ip + ihl_len in
         if \<not> data_available d udp 8 then (TC_ACT_SHOT, None)
         else if is_dhcpv4 be d udp
         then (TC_ACT_OK, emit_bootstrap_event be slot skb eth_proto BOOTSTRAP_DHCPV4 vlan_depth (Some ip) None (Some udp) None)
         else egress_v4_policy m config skb daddr protocol True (raw16 be d (udp + 2)))
      else if protocol = IPPROTO_TCP then
        (let tcp = ip + ihl_len in
         if \<not> data_available d tcp 4 then (TC_ACT_SHOT, None)
         else egress_v4_policy m config skb daddr protocol True (raw16 be d (tcp + 2)))
      else egress_v4_policy m config skb daddr protocol False 0)"

definition egress_v6 :: "bool \<Rightarrow> kmaps \<Rightarrow> u64 option \<Rightarrow> runtimeConfig option \<Rightarrow> skb \<Rightarrow> u16 \<Rightarrow> u8 \<Rightarrow> nat \<Rightarrow> outcome" where
  "egress_v6 be m slot config skb eth_proto vlan_depth ip6 =
     (let d = skb_data skb in
      if \<not> data_available d ip6 40 then (TC_ACT_SHOT, None)
      else if unat (ld8 d ip6) div 16 \<noteq> 6 then (TC_ACT_SHOT, None)
      else let nexthdr = ld8 d (ip6 + 6); daddr = raw128 d (ip6 + 24); l4 = ip6 + 40 in
      if nexthdr = IPPROTO_UDP then
        (if \<not> data_available d l4 8 then (TC_ACT_SHOT, None)
         else if is_dhcpv6 be d l4
         then (TC_ACT_OK, emit_bootstrap_event be slot skb eth_proto BOOTSTRAP_DHCPV6 vlan_depth None (Some ip6) (Some l4) None)
         else egress_v6_policy m config skb daddr nexthdr True (raw16 be d (l4 + 2)))
      else if nexthdr = IPPROTO_TCP then
        (if \<not> data_available d l4 4 then (TC_ACT_SHOT, None)
         else egress_v6_policy m config skb daddr nexthdr True (raw16 be d (l4 + 2)))
      else if nexthdr = IPPROTO_ICMPV6 then
        (if \<not> data_available d l4 4 then (TC_ACT_SHOT, None)
         else if is_icmpv6_nd d l4
         then (TC_ACT_OK, emit_bootstrap_event be slot skb eth_proto BOOTSTRAP_ICMPV6_ND vlan_depth None (Some ip6) None (Some l4))
         else egress_v6_policy m config skb daddr nexthdr False 0)
      else (TC_ACT_SHOT, None))"

definition egress_l3 :: "bool \<Rightarrow> kmaps \<Rightarrow> u64 option \<Rightarrow> runtimeConfig option \<Rightarrow> skb \<Rightarrow> u16 \<Rightarrow> u8 \<Rightarrow> nat \<Rightarrow> outcome" where
  "egress_l3 be m slot config skb eth_proto vlan_depth cursor =
     (if eth_proto = ETH_P_ARP
      then (TC_ACT_OK, emit_bootstrap_event be slot skb eth_proto BOOTSTRAP_ARP vlan_depth None None None None)
      else if eth_proto = ETH_P_IP then egress_v4 be m slot config skb eth_proto vlan_depth cursor
      else if eth_proto = ETH_P_IPV6 then egress_v6 be m slot config skb eth_proto vlan_depth cursor
      else (TC_ACT_SHOT, None))"

definition killswitch_egress :: "bool \<Rightarrow> kmaps \<Rightarrow> u64 option \<Rightarrow> skb \<Rightarrow> outcome" where
  "killswitch_egress be m slot skb =
     (let config = fmlookup (km_config m) (skb_ifindex skb); d = skb_data skb in
      if (case config of Some c \<Rightarrow> rtc_AllowAll c \<noteq> 0 | None \<Rightarrow> False) then (TC_ACT_OK, None)
      else if \<not> data_available d 0 14 then (TC_ACT_SHOT, None)
      else let eth_proto = bpf_ntohs be (raw16 be d 12) in
      if eth_proto = ETH_P_8021Q \<or> eth_proto = ETH_P_8021AD then
        (if \<not> data_available d 14 4 then (TC_ACT_SHOT, None)
         else egress_l3 be m slot config skb (bpf_ntohs be (raw16 be d 16)) 1 18)
      else egress_l3 be m slot config skb eth_proto 0 14)"

section \<open>Specification\<close>

text \<open>
  What a packet is, read as numbers in network order: something to drop, a bootstrap packet, or a
  routable packet with its protocol, destination and, for TCP and UDP, destination port.
\<close>

datatype pclass = PDrop | PBootstrap u8 | PV4 u8 u32 "u16 option" | PV6 u8 bytes16 "u16 option"

definition word_at :: "u8 list \<Rightarrow> nat \<Rightarrow> u16" where
  "word_at p i = be16 (p ! i) (p ! (i + 1))"

definition strip_l2 :: "u8 list \<Rightarrow> (u16 \<times> u8 list) option" where
  "strip_l2 d =
     (if length d < 14 then None
      else if word_at d 12 \<in> {ETH_P_8021Q, ETH_P_8021AD} then
        (if length d < 18 then None else Some (word_at d 16, drop 18 d))
      else Some (word_at d 12, drop 14 d))"

definition both_in :: "u16 set \<Rightarrow> u8 list \<Rightarrow> bool" where
  "both_in ports l4 \<longleftrightarrow> word_at l4 0 \<in> ports \<and> word_at l4 2 \<in> ports"

definition dst4 :: "u8 list \<Rightarrow> u32" where
  "dst4 p = word_of_nat (be_nat 256 (map unat (take 4 (drop 16 p))))"

definition dst6 :: "u8 list \<Rightarrow> bytes16" where
  "dst6 p = word_of_nat (be_nat 256 (map unat (take 16 (drop 24 p))))"

definition classify4 :: "u8 list \<Rightarrow> pclass" where
  "classify4 p =
     (let hl = 4 * (unat (p ! 0) mod 16); l4 = drop hl p in
      if length p < 20 \<or> unat (p ! 0) div 16 \<noteq> 4 \<or> hl < 20 \<or> length p < hl \<or> unat (word_at p 6) mod 2 ^ 14 \<noteq> 0 then PDrop
      else if p ! 9 = IPPROTO_UDP then
        (if length l4 < 8 then PDrop
         else if both_in {67, 68} l4 then PBootstrap BOOTSTRAP_DHCPV4
         else PV4 (p ! 9) (dst4 p) (Some (word_at l4 2)))
      else if p ! 9 = IPPROTO_TCP then
        (if length l4 < 4 then PDrop else PV4 (p ! 9) (dst4 p) (Some (word_at l4 2)))
      else PV4 (p ! 9) (dst4 p) None)"

definition classify6 :: "u8 list \<Rightarrow> pclass" where
  "classify6 p =
     (let l4 = drop 40 p in
      if length p < 40 \<or> unat (p ! 0) div 16 \<noteq> 6 then PDrop
      else if p ! 6 = IPPROTO_UDP then
        (if length l4 < 8 then PDrop
         else if both_in {546, 547} l4 then PBootstrap BOOTSTRAP_DHCPV6
         else PV6 (p ! 6) (dst6 p) (Some (word_at l4 2)))
      else if p ! 6 = IPPROTO_TCP then
        (if length l4 < 4 then PDrop else PV6 (p ! 6) (dst6 p) (Some (word_at l4 2)))
      else if p ! 6 = IPPROTO_ICMPV6 then
        (if length l4 < 4 then PDrop
         else if l4 ! 0 \<in> {133..136} then PBootstrap BOOTSTRAP_ICMPV6_ND
         else PV6 (p ! 6) (dst6 p) None)
      else PDrop)"

definition classify :: "u8 list \<Rightarrow> pclass" where
  "classify d =
     (case strip_l2 d of
        None \<Rightarrow> PDrop
      | Some (t, p) \<Rightarrow>
          (if t = ETH_P_ARP then PBootstrap BOOTSTRAP_ARP
           else if t = ETH_P_IP then classify4 p
           else if t = ETH_P_IPV6 then classify6 p
           else PDrop))"

text \<open>
  What the rules permit. Ports and IPv4 addresses of the rules are kept as keys; \<open>port_key\<close> and
  \<open>v4_key\<close> say which key stands for a number of the packet.
\<close>

definition permits :: "(u16 \<Rightarrow> u16) \<Rightarrow> (u32 \<Rightarrow> u32) \<Rightarrow> rule_sets option \<Rightarrow> u32 \<Rightarrow> pclass \<Rightarrow> bool" where
  "permits port_key v4_key rules mark cls \<longleftrightarrow>
     (case rules of Some r \<Rightarrow> rs_all r | None \<Rightarrow> False) \<or>
     (case cls of
        PDrop \<Rightarrow> False
      | PBootstrap _ \<Rightarrow> True
      | PV4 proto dst port \<Rightarrow>
          (case rules of None \<Rightarrow> False
           | Some r \<Rightarrow> rs_v4 r \<and>
               (mark \<in> rs_marks r \<or> v4_key dst \<in> rs_v4hosts r \<or>
                (case port of None \<Rightarrow> False
                 | Some p \<Rightarrow> portKey (port_key p) proto \<in> rs_ports r \<or>
                            hostport4Key (v4_key dst) (port_key p) proto \<in> rs_v4pairs r)))
      | PV6 proto dst port \<Rightarrow>
          (case rules of None \<Rightarrow> False
           | Some r \<Rightarrow> rs_v6 r \<and>
               (mark \<in> rs_marks r \<or> ipv6AddrKey dst \<in> rs_v6hosts r \<or>
                (case port of None \<Rightarrow> False
                 | Some p \<Rightarrow> portKey (port_key p) proto \<in> rs_ports r \<or>
                            hostport6Key dst (port_key p) proto \<in> rs_v6pairs r))))"

text \<open>The key of a packet field as the program loads it, on a host of the given byte order.\<close>

definition raw_port :: "bool \<Rightarrow> u16 \<Rightarrow> u16" where
  "raw_port be p = (if be then p else htons p)"

definition raw_v4 :: "bool \<Rightarrow> u32 \<Rightarrow> u32" where
  "raw_v4 be a = (if be then a else bswap32 a)"

section \<open>The program meets the specification\<close>

lemma ntohs_be16: "ntohs (be16 a b) = be16 b a"
  unfolding ntohs_def be16_def by (rule bit_word_eqI) (auto simp: bit_simps dest: bit_imp_le_length)

lemma bpf_ntohs_raw16: "bpf_ntohs be (raw16 be d i) = word_at d i"
  by (simp add: bpf_ntohs_def raw16_def word_at_def ntohs_be16)

lemma raw16_port: "raw16 be d i = raw_port be (word_at d i)"
  by (simp add: raw16_def raw_port_def word_at_def htons_def ntohs_be16)

lemma bpf_ntohs_raw_port: "bpf_ntohs be (raw_port be w) = w"
  by (simp add: bpf_ntohs_def raw_port_def)

lemma raw32_v4:
  assumes "i + 4 \<le> length d"
  shows "raw32 be d i = raw_v4 be (word_of_nat (be_nat 256 (map unat (take 4 (drop i d)))))"
proof -
  let ?os = "map unat (take 4 (drop i d))"
  have "\<forall>x \<in> set ?os. x < 256"
  proof
    fix x assume "x \<in> set ?os"
    then obtain b :: u8 where "x = unat b" by auto
    moreover have "unat b < 2 ^ LENGTH(8)" by (rule unsigned_less)
    ultimately show "x < 256" by simp
  qed
  then have "octets4 (word_of_nat (be_nat 256 ?os)) = ?os"
    using assms by (intro octets4_of) auto
  then show ?thesis
    by (simp add: raw32_def raw_v4_def bswap32_def LittleEndian_Uint32_def Let_def)
qed

lemma frag_bits: "(w :: u16) AND 0x3fff \<noteq> 0 \<longleftrightarrow> unat w mod 2 ^ 14 \<noteq> 0"
proof -
  have "(0x3fff :: u16) = mask 14" by (simp add: mask_eq_exp_minus_1)
  then have "w AND 0x3fff = take_bit 14 w" by (simp add: take_bit_eq_mask)
  then show ?thesis
    by (simp add: take_bit_eq_mod unat_mod_distrib flip: unat_eq_zero)
qed

lemma dom_iff: "fmlookup m k \<noteq> None \<longleftrightarrow> k |\<in>| fmdom m"
  by (simp add: fmlookup_dom_iff)

lemma lookups:
  "mark_allowed m skb \<longleftrightarrow> skb_mark skb \<in> rs_marks (tables m (skb_ifindex skb))"
  "port_allowed m skb proto p \<longleftrightarrow> portKey p proto \<in> rs_ports (tables m (skb_ifindex skb))"
  "v4_host_allowed m skb a \<longleftrightarrow> a \<in> rs_v4hosts (tables m (skb_ifindex skb))"
  "v6_host_allowed m skb w \<longleftrightarrow> ipv6AddrKey w \<in> rs_v6hosts (tables m (skb_ifindex skb))"
  "v4_hostport_allowed m skb a proto p \<longleftrightarrow> hostport4Key a p proto \<in> rs_v4pairs (tables m (skb_ifindex skb))"
  "v6_hostport_allowed m skb w proto p \<longleftrightarrow> hostport6Key w p proto \<in> rs_v6pairs (tables m (skb_ifindex skb))"
  by (simp_all only: mark_allowed_def port_allowed_def v4_host_allowed_def v6_host_allowed_def
      v4_hostport_allowed_def v6_hostport_allowed_def dom_iff) (simp_all add: tables_def)

definition verdict :: "bool \<Rightarrow> nat" where
  "verdict ok = (if ok then TC_ACT_OK else TC_ACT_SHOT)"

lemma verdict_inject [simp]: "verdict a = verdict b \<longleftrightarrow> a = b"
  by (auto simp: verdict_def TC_ACT_OK_def TC_ACT_SHOT_def)

lemma egress_v4_policy_spec:
  assumes "config = fmlookup (km_config m) (skb_ifindex skb)"
    and "\<not> (case config of Some c \<Rightarrow> rtc_AllowAll c \<noteq> 0 | None \<Rightarrow> False)"
  shows "fst (egress_v4_policy m config skb (raw_v4 be dst) proto True (raw_port be p)) =
      verdict (permits (raw_port be) (raw_v4 be) (kernel_rules m (skb_ifindex skb)) (skb_mark skb) (PV4 proto dst (Some p)))"
    "fst (egress_v4_policy m config skb (raw_v4 be dst) proto False q) =
      verdict (permits (raw_port be) (raw_v4 be) (kernel_rules m (skb_ifindex skb)) (skb_mark skb) (PV4 proto dst None))"
  using assms by (auto simp: egress_v4_policy_def lookups permits_def kernel_rules_def with_flags_def verdict_def
      split: option.splits)

lemma egress_v6_policy_spec:
  assumes "config = fmlookup (km_config m) (skb_ifindex skb)"
    and "\<not> (case config of Some c \<Rightarrow> rtc_AllowAll c \<noteq> 0 | None \<Rightarrow> False)"
  shows "fst (egress_v6_policy m config skb dst proto True (raw_port be p)) =
      verdict (permits (raw_port be) (raw_v4 be) (kernel_rules m (skb_ifindex skb)) (skb_mark skb) (PV6 proto dst (Some p)))"
    "fst (egress_v6_policy m config skb dst proto False q) =
      verdict (permits (raw_port be) (raw_v4 be) (kernel_rules m (skb_ifindex skb)) (skb_mark skb) (PV6 proto dst None))"
  using assms by (auto simp: egress_v6_policy_def lookups permits_def kernel_rules_def with_flags_def verdict_def
      split: option.splits)

lemma permits_drop:
  assumes "\<not> (case fmlookup (km_config m) i of Some c \<Rightarrow> rtc_AllowAll c \<noteq> 0 | None \<Rightarrow> False)"
  shows "permits pk vk (kernel_rules m i) mark PDrop = False"
    "permits pk vk (kernel_rules m i) mark (PBootstrap r) = True"
  using assms by (auto simp: permits_def kernel_rules_def with_flags_def split: option.splits)

lemma word_at_drop: "c \<le> length d \<Longrightarrow> word_at (drop c d) i = word_at d (c + i)"
  by (simp add: word_at_def add.assoc)

lemma egress_v4_spec:
  assumes config: "config = fmlookup (km_config m) (skb_ifindex skb)"
    and closed: "\<not> (case config of Some c \<Rightarrow> rtc_AllowAll c \<noteq> 0 | None \<Rightarrow> False)"
    and ip: "ip \<le> length (skb_data skb)"
  shows "fst (egress_v4 be m slot config skb t v ip) =
    verdict (permits (raw_port be) (raw_v4 be) (kernel_rules m (skb_ifindex skb)) (skb_mark skb) (classify4 (drop ip (skb_data skb))))"
proof -
  let ?d = "skb_data skb" and ?p = "drop ip (skb_data skb)"
  let ?hl = "4 * (unat (?d ! ip) mod 16)"
  note drop = permits_drop [OF closed [unfolded config]]
  have v: "verdict False = TC_ACT_SHOT" "verdict True = TC_ACT_OK" by (simp_all add: verdict_def)
  show ?thesis
  proof (cases "length ?d < ip + 20 \<or> unat (?d ! ip) div 16 \<noteq> 4 \<or> ?hl < 20 \<or> length ?d < ip + ?hl \<or> unat (word_at ?d (ip + 6)) mod 2 ^ 14 \<noteq> 0")
    case True
    then have "classify4 ?p = PDrop"
      using ip by (auto simp: classify4_def Let_def word_at_drop)
    moreover have "fst (egress_v4 be m slot config skb t v ip) = TC_ACT_SHOT"
      using True by (auto simp: egress_v4_def Let_def data_available_def ld8_def bpf_ntohs_raw16 frag_bits mult.commute)
    ultimately show ?thesis by (simp add: drop v)
  next
    case False
    then have dst: "raw32 be ?d (ip + 16) = raw_v4 be (dst4 ?p)"
      by (subst raw32_v4) (auto simp: dst4_def add.commute)
    have l4: "word_at (drop ?hl ?p) k = word_at ?d (ip + ?hl + k)" for k
      using False by (simp add: word_at_drop add.commute add.left_commute)
    have c4: "classify4 ?p =
       (if ?d ! (ip + 9) = IPPROTO_UDP then
          (if length ?d < ip + ?hl + 8 then PDrop
           else if both_in {67, 68} (drop ?hl ?p) then PBootstrap BOOTSTRAP_DHCPV4
           else PV4 (?d ! (ip + 9)) (dst4 ?p) (Some (word_at ?d (ip + ?hl + 2))))
        else if ?d ! (ip + 9) = IPPROTO_TCP then
          (if length ?d < ip + ?hl + 4 then PDrop else PV4 (?d ! (ip + 9)) (dst4 ?p) (Some (word_at ?d (ip + ?hl + 2))))
        else PV4 (?d ! (ip + 9)) (dst4 ?p) None)"
      using False ip l4 [of 2] by (auto simp: classify4_def Let_def word_at_drop)
    have dhcp: "is_dhcpv4 be ?d (ip + ?hl) \<longleftrightarrow> both_in {67, 68} (drop ?hl ?p)"
      using l4 [of 0] l4 [of 2] by (simp add: is_dhcpv4_def both_in_def bpf_ntohs_raw16 Let_def add.commute)
    have e4: "fst (egress_v4 be m slot config skb t v ip) =
       (if ?d ! (ip + 9) = IPPROTO_UDP then
          (if length ?d < ip + ?hl + 8 then TC_ACT_SHOT
           else if both_in {67, 68} (drop ?hl ?p) then TC_ACT_OK
           else fst (egress_v4_policy m config skb (raw_v4 be (dst4 ?p)) (?d ! (ip + 9)) True (raw_port be (word_at ?d (ip + ?hl + 2)))))
        else if ?d ! (ip + 9) = IPPROTO_TCP then
          (if length ?d < ip + ?hl + 4 then TC_ACT_SHOT
           else fst (egress_v4_policy m config skb (raw_v4 be (dst4 ?p)) (?d ! (ip + 9)) True (raw_port be (word_at ?d (ip + ?hl + 2)))))
        else fst (egress_v4_policy m config skb (raw_v4 be (dst4 ?p)) (?d ! (ip + 9)) False 0))"
      using False dhcp dst
      by (simp add: egress_v4_def Let_def data_available_def ld8_def raw16_port bpf_ntohs_raw_port frag_bits mult.commute)
    show ?thesis
      unfolding c4 e4 egress_v4_policy_spec [OF config closed] by (simp add: drop v)
  qed
qed

lemma egress_v6_spec:
  assumes config: "config = fmlookup (km_config m) (skb_ifindex skb)"
    and closed: "\<not> (case config of Some c \<Rightarrow> rtc_AllowAll c \<noteq> 0 | None \<Rightarrow> False)"
    and ip: "ip \<le> length (skb_data skb)"
  shows "fst (egress_v6 be m slot config skb t v ip) =
    verdict (permits (raw_port be) (raw_v4 be) (kernel_rules m (skb_ifindex skb)) (skb_mark skb) (classify6 (drop ip (skb_data skb))))"
proof -
  let ?d = "skb_data skb" and ?p = "drop ip (skb_data skb)"
  note drop = permits_drop [OF closed [unfolded config]]
  have v: "verdict False = TC_ACT_SHOT" "verdict True = TC_ACT_OK" by (simp_all add: verdict_def)
  show ?thesis
  proof (cases "length ?d < ip + 40 \<or> unat (?d ! ip) div 16 \<noteq> 6")
    case True
    then have "classify6 ?p = PDrop" "fst (egress_v6 be m slot config skb t v ip) = TC_ACT_SHOT"
      using ip by (auto simp: classify6_def egress_v6_def Let_def data_available_def ld8_def)
    then show ?thesis by (simp add: drop v)
  next
    case False
    have l4: "word_at (drop 40 ?p) k = word_at ?d (ip + 40 + k)" for k
      using False by (simp add: word_at_drop add.commute add.left_commute)
    have dst: "raw128 ?d (ip + 24) = dst6 ?p"
      by (simp add: raw128_def dst6_def add.commute)
    have nd: "is_icmpv6_nd ?d (ip + 40) \<longleftrightarrow> drop 40 ?p ! 0 \<in> {133..136}" if "ip + 40 \<le> length ?d"
      using that by (simp add: is_icmpv6_nd_def ld8_def add.commute)
    have dhcp: "is_dhcpv6 be ?d (ip + 40) \<longleftrightarrow> both_in {546, 547} (drop 40 ?p)"
      using l4 [of 0] l4 [of 2] by (simp add: is_dhcpv6_def both_in_def bpf_ntohs_raw16 Let_def)
    have c6: "classify6 ?p =
       (if ?d ! (ip + 6) = IPPROTO_UDP then
          (if length ?d < ip + 48 then PDrop
           else if both_in {546, 547} (drop 40 ?p) then PBootstrap BOOTSTRAP_DHCPV6
           else PV6 (?d ! (ip + 6)) (dst6 ?p) (Some (word_at ?d (ip + 40 + 2))))
        else if ?d ! (ip + 6) = IPPROTO_TCP then
          (if length ?d < ip + 44 then PDrop else PV6 (?d ! (ip + 6)) (dst6 ?p) (Some (word_at ?d (ip + 40 + 2))))
        else if ?d ! (ip + 6) = IPPROTO_ICMPV6 then
          (if length ?d < ip + 44 then PDrop
           else if drop 40 ?p ! 0 \<in> {133..136} then PBootstrap BOOTSTRAP_ICMPV6_ND
           else PV6 (?d ! (ip + 6)) (dst6 ?p) None)
        else PDrop)"
      using False ip l4 [of 2] by (auto simp: classify6_def Let_def)
    have e6: "fst (egress_v6 be m slot config skb t v ip) =
       (if ?d ! (ip + 6) = IPPROTO_UDP then
          (if length ?d < ip + 48 then TC_ACT_SHOT
           else if both_in {546, 547} (drop 40 ?p) then TC_ACT_OK
           else fst (egress_v6_policy m config skb (dst6 ?p) (?d ! (ip + 6)) True (raw_port be (word_at ?d (ip + 40 + 2)))))
        else if ?d ! (ip + 6) = IPPROTO_TCP then
          (if length ?d < ip + 44 then TC_ACT_SHOT
           else fst (egress_v6_policy m config skb (dst6 ?p) (?d ! (ip + 6)) True (raw_port be (word_at ?d (ip + 40 + 2)))))
        else if ?d ! (ip + 6) = IPPROTO_ICMPV6 then
          (if length ?d < ip + 44 then TC_ACT_SHOT
           else if drop 40 ?p ! 0 \<in> {133..136} then TC_ACT_OK
           else fst (egress_v6_policy m config skb (dst6 ?p) (?d ! (ip + 6)) False 0))
        else TC_ACT_SHOT)"
      using False dhcp dst nd
      by (auto simp: egress_v6_def Let_def data_available_def ld8_def raw16_port)
    show ?thesis
      unfolding c6 e6 egress_v6_policy_spec [OF config closed, where be = be] by (simp add: drop v)
  qed
qed

lemma egress_l3_spec:
  assumes "config = fmlookup (km_config m) (skb_ifindex skb)"
    and "\<not> (case config of Some c \<Rightarrow> rtc_AllowAll c \<noteq> 0 | None \<Rightarrow> False)"
    and "c \<le> length (skb_data skb)"
  shows "fst (egress_l3 be m slot config skb t v c) =
    verdict (permits (raw_port be) (raw_v4 be) (kernel_rules m (skb_ifindex skb)) (skb_mark skb)
      (if t = ETH_P_ARP then PBootstrap BOOTSTRAP_ARP
       else if t = ETH_P_IP then classify4 (drop c (skb_data skb))
       else if t = ETH_P_IPV6 then classify6 (drop c (skb_data skb)) else PDrop))"
  using egress_v4_spec [OF assms] egress_v6_spec [OF assms] permits_drop [OF assms(2) [unfolded assms(1)]]
  by (simp add: egress_l3_def) (auto simp: verdict_def)

lemma killswitch_egress_spec:
  "fst (killswitch_egress be m slot skb) =
    verdict (permits (raw_port be) (raw_v4 be) (kernel_rules m (skb_ifindex skb)) (skb_mark skb) (classify (skb_data skb)))"
proof (cases "case fmlookup (km_config m) (skb_ifindex skb) of Some c \<Rightarrow> rtc_AllowAll c \<noteq> 0 | None \<Rightarrow> False")
  case True
  then show ?thesis
    by (auto simp: killswitch_egress_def Let_def verdict_def permits_def kernel_rules_def with_flags_def split: option.splits)
next
  case False
  note l3 = egress_l3_spec [OF refl False]
  have "killswitch_egress be m slot skb =
    (let config = fmlookup (km_config m) (skb_ifindex skb); d = skb_data skb in
      if length d < 14 then (TC_ACT_SHOT, None)
      else if word_at d 12 \<in> {ETH_P_8021Q, ETH_P_8021AD} then
        (if length d < 18 then (TC_ACT_SHOT, None)
         else egress_l3 be m slot config skb (word_at d 16) 1 18)
      else egress_l3 be m slot config skb (word_at d 12) 0 14)"
    using False by (auto simp: killswitch_egress_def Let_def data_available_def bpf_ntohs_raw16)
  then show ?thesis
    using l3 permits_drop(1) [OF False]
    by (simp add: classify_def strip_l2_def Let_def verdict_def)
qed

lemma verdict_iff [simp]: "verdict b = TC_ACT_OK \<longleftrightarrow> b" "verdict b = TC_ACT_SHOT \<longleftrightarrow> \<not> b"
  by (simp_all add: verdict_def TC_ACT_OK_def TC_ACT_SHOT_def)

lemma raw_keys: "raw_port False = htons" "raw_v4 False = bswap32" "raw_port True = (\<lambda>p. p)" "raw_v4 True = (\<lambda>a. a)"
  by (auto simp: raw_port_def raw_v4_def fun_eq_iff)

section \<open>A packet\<close>

definition example_ip_packet :: "u8 list" where
  "example_ip_packet = [0x45, 0, 0, 40, 0, 0, 0, 0, 64, 6, 0, 0, 10, 0, 0, 1, 192, 0, 2, 1, 0x30, 0x39, 0x01, 0xBB]"

definition example_tcp_packet :: "u8 list" where
  "example_tcp_packet = [0, 0, 0, 0, 0, 0, 0, 0, 0, 0, 0, 0, 8, 0] @ example_ip_packet"

definition port_443_maps :: kmaps where
  "port_443_maps = no_maps\<lparr>km_config := fmupd 2 \<lparr>rtc_AllowAll = 0, rtc_EnableV4 = 1, rtc_EnableV6 = 0\<rparr> fmempty,
     km_ports := fmupd (portPolicyKey 2 (htons 443) IPPROTO_TCP) 1 fmempty\<rparr>"

lemma be16_eval: "be16 a b = word_of_nat (256 * unat a + unat b)"
proof -
  have "(push_bit 8 (ucast a) :: u16) AND ucast b = 0"
    by (rule bit_word_eqI) (auto simp: bit_simps dest: bit_imp_le_length)
  then have "be16 a b = push_bit 8 (ucast a) + ucast b"
    by (simp add: be16_def disjunctive_add_eq_or)
  then show ?thesis by (simp add: push_bit_eq_mult mult.commute)
qed

lemma example_ip_packet_class: "classify4 example_ip_packet = PV4 IPPROTO_TCP 0xC0000201 (Some 443)"
  by (simp add: classify4_def example_ip_packet_def Let_def word_at_def be16_eval dst4_def be_nat_def IPPROTO_TCP_def IPPROTO_UDP_def)

lemma example_tcp_packet_class: "classify example_tcp_packet = PV4 IPPROTO_TCP 0xC0000201 (Some 443)"
proof -
  have "strip_l2 example_tcp_packet = Some (ETH_P_IP, example_ip_packet)"
    by (simp add: strip_l2_def example_tcp_packet_def word_at_def be16_eval ETH_P_8021Q_def ETH_P_8021AD_def ETH_P_IP_def)
  then show ?thesis
    by (simp add: classify_def example_ip_packet_class ETH_P_IP_def ETH_P_ARP_def)
qed

lemma port_443_rules: "kernel_rules port_443_maps 2 =
    Some (abs_rules (no_rules\<lparr>ar_EnableV4 := True, ar_AllowedPorts := [portKey (htons 443) IPPROTO_TCP]\<rparr>))"
  by (auto simp: kernel_rules_def port_443_maps_def no_maps_def with_flags_def tables_def no_rules_def key_eq_iff intro!: rules_eqI)

definition example_skb :: skb where
  "example_skb = \<lparr>skb_ifindex = 2, skb_mark = 7, skb_data = example_tcp_packet\<rparr>"

section \<open>Properties\<close>

text \<open>C1: the daemon and the eBPF program together implement the policy. On a little-endian host,
  after an update that returned without error, a packet passes exactly when the rules of its interface permit
  it: all traffic under \<open>allow_all\<close>, bootstrap packets (ARP, DHCP, neighbour discovery) always, and
  otherwise only well-formed unfragmented IPv4 or IPv6 packets of an enabled family that an allowed mark,
  port, host or host and port covers. An interface without a policy passes bootstrap packets only.\<close>

theorem policy_end_to_end:
  assumes "env_ok e" and "valid_policies current" and "valid_policies next" and "synced current (k_maps k)"
    and "fst (writeEffectivePolicies True e current next k) = Inr ()"
  shows "fst (killswitch_egress False (k_maps (snd (writeEffectivePolicies True e current next k))) slot skb) = TC_ACT_OK \<longleftrightarrow>
    permits htons bswap32 (wanted next (skb_ifindex skb)) (skb_mark skb) (classify (skb_data skb))"
proof -
  have "synced next (k_maps (snd (writeEffectivePolicies True e current next k)))"
    using writeEffectivePolicies_run [OF assms(1-4), where u = "()"] assms(5) by blast
  then show ?thesis
    by (simp add: killswitch_egress_spec synced_def raw_keys)
qed

lemma policy_end_to_end_witness:
  "fst (killswitch_egress False (k_maps (snd (writeEffectivePolicies True calm_env fmempty example_policies new_kernel)))
      None example_skb) = TC_ACT_OK"
proof -
  have "wanted example_policies (skb_ifindex example_skb) = Some (abs_rules (no_rules\<lparr>ar_EnableV4 := True, ar_AllowedMarks := [7]\<rparr>))"
    by (simp add: wanted_def example_policies_def example_skb_def)
  moreover have "classify (skb_data example_skb) = PV4 IPPROTO_TCP 0xC0000201 (Some 443)"
    by (simp add: example_skb_def example_tcp_packet_class)
  ultimately show ?thesis
    by (subst policy_end_to_end [OF calm_env_ok example_policies_valid synced_new_kernel writeEffectivePolicies_calm [OF calm_env_calm]])
      (simp add: permits_def example_skb_def)
qed

text \<open>C3: the program's verdict is a function of the rules that the maps hold for the packet's own
  interface, on hosts of either byte order; what the maps say about other interfaces never matters.\<close>

theorem killswitch_egress_meets_spec:
  "fst (killswitch_egress be m slot skb) =
    verdict (permits (raw_port be) (raw_v4 be) (kernel_rules m (skb_ifindex skb)) (skb_mark skb) (classify (skb_data skb)))"
  by (rule killswitch_egress_spec)

text \<open>C4: without a configuration entry for its interface a packet is dropped unless it is one of
  the bootstrap packets, whatever the allow maps still hold: a half-written or failed update is closed.\<close>

theorem killswitch_egress_fails_closed:
  assumes "fmlookup (km_config m) (skb_ifindex skb) = None"
  shows "fst (killswitch_egress be m slot skb) = TC_ACT_OK \<longleftrightarrow> (\<exists>r. classify (skb_data skb) = PBootstrap r)"
  using assms by (simp add: killswitch_egress_spec permits_def kernel_rules_def split: pclass.split)

lemma killswitch_egress_fails_closed_witness: "fst (killswitch_egress False no_maps None example_skb) \<noteq> TC_ACT_OK"
proof -
  have "fmlookup (km_config no_maps) (skb_ifindex example_skb) = None" by (simp add: no_maps_def)
  then show ?thesis
    by (subst killswitch_egress_fails_closed) (simp_all add: example_skb_def example_tcp_packet_class)
qed

text \<open>the byte order of the host decides what an allowed port means. The daemon always swaps
  the bytes of a port (\<open>htons\<close>), but the program on a big-endian host loads the field of the packet
  without swapping: there the rule for port \<open>p\<close> passes packets to the port with swapped bytes instead,
  while on a little-endian host it passes port \<open>p\<close>.\<close>

theorem allowed_port_by_byte_order:
  assumes "kernel_rules m (skb_ifindex skb) =
      Some (abs_rules (no_rules\<lparr>ar_EnableV4 := True, ar_AllowedPorts := [portKey (htons p) IPPROTO_TCP]\<rparr>))"
    and "classify (skb_data skb) = PV4 IPPROTO_TCP dst (Some q)"
  shows "fst (killswitch_egress be m slot skb) = TC_ACT_OK \<longleftrightarrow> q = (if be then htons p else p)"
  using assms by (auto simp: killswitch_egress_spec permits_def no_rules_def raw_port_def)

lemma allowed_port_by_byte_order_witness:
  "fst (killswitch_egress True port_443_maps None \<lparr>skb_ifindex = 2, skb_mark = 0, skb_data = example_tcp_packet\<rparr>) \<noteq> TC_ACT_OK \<and>
   fst (killswitch_egress False port_443_maps None \<lparr>skb_ifindex = 2, skb_mark = 0, skb_data = example_tcp_packet\<rparr>) = TC_ACT_OK"
proof -
  have "htons 443 \<noteq> (443 :: u16)" by (simp add: htons_def ntohs_def)
  then show ?thesis
    using allowed_port_by_byte_order [of port_443_maps "\<lparr>skb_ifindex = 2, skb_mark = 0, skb_data = example_tcp_packet\<rparr>" 443 _ 443]
      example_tcp_packet_class port_443_rules by simp
qed

end
