(* ===== verification/Bootstrap.thy ===== *)
theory Bootstrap
  imports EgressProg
begin

text \<open>
  \<open>cmd/killswitch/bootstrap_events.go\<close>: the daemon's side of the ring buffer. The eBPF program writes a
  \<open>struct bootstrap_event\<close> in the byte order of the host (\<open>event_bytes\<close>), the daemon reads the bytes as
  little-endian fields and logs a line for each event.
\<close>

section \<open>The bytes of an event\<close>

primrec le_bytes :: "nat \<Rightarrow> nat \<Rightarrow> u8 list" where
  "le_bytes 0 n = []"
| "le_bytes (Suc k) n = word_of_nat (n mod 256) # le_bytes k (n div 256)"

fun le_value :: "u8 list \<Rightarrow> nat" where
  "le_value [] = 0"
| "le_value (b # bs) = unat b + 256 * le_value bs"

lemma length_le_bytes [simp]: "length (le_bytes k n) = k"
  by (induction k arbitrary: n) simp_all

lemma le_value_le_bytes: "le_value (le_bytes k n) = n mod 256 ^ k"
proof (induction k arbitrary: n)
  case (Suc k)
  have "unat (word_of_nat (n mod 256) :: u8) = n mod 256" by (simp add: unat_of_nat)
  with Suc show ?case by (simp add: mod_mult2_eq)
qed simp

text \<open>A field of the structure, which has no padding, and an array of bytes.\<close>

definition fld :: "bool \<Rightarrow> nat \<Rightarrow> nat \<Rightarrow> u8 list" where
  "fld be k n = (if be then rev (le_bytes k n) else le_bytes k n)"

definition event_bytes :: "bool \<Rightarrow> bootstrapEvent \<Rightarrow> u8 list" where
  "event_bytes be ev =
     fld be 8 (unat (be_TimestampNS ev)) @ fld be 4 (unat (be_Ifindex ev)) @ fld be 2 (unat (be_EthProto ev)) @
     [be_Reason ev] @ [be_IPProto ev] @ fld be 4 (unat (be_IPv4Saddr ev)) @ fld be 4 (unat (be_IPv4Daddr ev)) @
     rev (le_bytes 16 (unat (be_IPv6Saddr ev))) @ rev (le_bytes 16 (unat (be_IPv6Daddr ev))) @
     fld be 2 (unat (be_SourcePort ev)) @ fld be 2 (unat (be_DestPort ev)) @
     [be_ICMPv6Type ev] @ [be_VLANDepth ev] @ [0, 0]"

section \<open>Parsing\<close>

text \<open>\<open>binary.Read\<close> with \<open>LittleEndian\<close>: the sum of the sizes of the fields is 64.\<close>

definition le_at :: "u8 list \<Rightarrow> nat \<Rightarrow> nat \<Rightarrow> nat" where
  "le_at raw i k = le_value (take k (drop i raw))"

definition array16_at :: "u8 list \<Rightarrow> nat \<Rightarrow> bytes16" where
  "array16_at raw i = word_of_nat (le_value (rev (take 16 (drop i raw))))"

definition parseBootstrapEvent :: "u8 list \<Rightarrow> bootstrapEvent res" where
  "parseBootstrapEvent raw =
     (if raw = [] then Inl (Lib ''EOF'')
      else if length raw < 64 then Inl (Lib ''unexpected EOF'')
      else Inr
        \<lparr>be_TimestampNS = word_of_nat (le_at raw 0 8), be_Ifindex = word_of_nat (le_at raw 8 4),
         be_EthProto = word_of_nat (le_at raw 12 2), be_Reason = raw ! 14, be_IPProto = raw ! 15,
         be_IPv4Saddr = word_of_nat (le_at raw 16 4), be_IPv4Daddr = word_of_nat (le_at raw 20 4),
         be_IPv6Saddr = array16_at raw 24, be_IPv6Daddr = array16_at raw 40,
         be_SourcePort = word_of_nat (le_at raw 56 2), be_DestPort = word_of_nat (le_at raw 58 2),
         be_ICMPv6Type = raw ! 60, be_VLANDepth = raw ! 61\<rparr>)"

section \<open>The line in the log\<close>

text \<open>\<open>net.IP.String\<close> of 16 bytes prints an IPv4-mapped address as an IPv4 address.\<close>

definition IP_String16 :: "bytes16 \<Rightarrow> string" where
  "IP_String16 w = (if mapped4 w then string4 (ucast w) else addr_String (Addr6 w []))"

definition format_04x :: "u16 \<Rightarrow> string" where
  "format_04x w = (let s = utoa 16 (unat w) in replicate (4 - length s) CHR ''0'' @ s)"

definition reason_text :: "u8 \<Rightarrow> string" where
  "reason_text r =
     (if r = 1 then ''arp'' else if r = 2 then ''dhcpv4'' else if r = 3 then ''dhcpv6'' else if r = 4 then ''icmpv6_nd''
      else ''unknown'')"

definition formatBootstrapEvent :: "bootstrapEvent \<Rightarrow> string" where
  "formatBootstrapEvent ev =
     (let reason = reason_text (be_Reason ev); ifindex = utoa 10 (unat (be_Ifindex ev));
          sport = utoa 10 (unat (ntohs (be_SourcePort ev))); dport = utoa 10 (unat (ntohs (be_DestPort ev)));
          depth = utoa 10 (unat (be_VLANDepth ev)) in
      if be_Reason ev = 2 then
        Sprintf ''bootstrap pass: reason=%s ifindex=%d src=%s:%d dst=%s:%d''
          [reason, ifindex, IP_String (ipv4FromNetworkOrder (be_IPv4Saddr ev)), sport,
           IP_String (ipv4FromNetworkOrder (be_IPv4Daddr ev)), dport]
      else if be_Reason ev = 3 then
        Sprintf ''bootstrap pass: reason=%s ifindex=%d src=[%s]:%d dst=[%s]:%d vlan_depth=%d''
          [reason, ifindex, IP_String16 (be_IPv6Saddr ev), sport, IP_String16 (be_IPv6Daddr ev), dport, depth]
      else if be_Reason ev = 4 then
        Sprintf ''bootstrap pass: reason=%s ifindex=%d src=%s dst=%s type=%d vlan_depth=%d''
          [reason, ifindex, IP_String16 (be_IPv6Saddr ev), IP_String16 (be_IPv6Daddr ev), utoa 10 (unat (be_ICMPv6Type ev)), depth]
      else
        Sprintf ''bootstrap pass: reason=%s ifindex=%d eth_proto=0x%s vlan_depth=%d''
          [reason, ifindex, format_04x (be_EthProto ev), depth])"

text \<open>The loop over what the ring buffer returns: its error, if it has one, what the clients are told and what is logged.\<close>

fun readBootstrapEvents :: "u8 list res list \<Rightarrow> error option \<times> (string \<times> error) list \<times> string list" where
  "readBootstrapEvents [] = (None, [], [])"
| "readBootstrapEvents (Inl err # rs) = (Some err, [], [])"
| "readBootstrapEvents (Inr raw # rs) =
     (case readBootstrapEvents rs of (r, notices, logged) \<Rightarrow>
        (case parseBootstrapEvent raw of
           Inl err \<Rightarrow> (r, (''Bootstrap event parse error'', err) # notices, logged)
         | Inr event \<Rightarrow> (r, notices, formatBootstrapEvent event # logged)))"

section \<open>What is written is read\<close>

lemma word_le_bytes:
  fixes x :: "'a :: len word"
  assumes "LENGTH('a) \<le> 8 * k"
  shows "word_of_nat (le_value (le_bytes k (unat x))) = x"
proof -
  have "unat x < 2 ^ LENGTH('a)" by (rule unsigned_less)
  also have "\<dots> \<le> (2 :: nat) ^ (8 * k)" using assms by (intro power_increasing) simp_all
  also have "\<dots> = 256 ^ k" by (simp add: power_mult)
  finally show ?thesis by (simp add: le_value_le_bytes)
qed

lemma event_fields:
  fixes ev :: bootstrapEvent
  defines "b \<equiv> event_bytes False ev"
  shows "length b = 64" and "take 8 (drop 0 b) = le_bytes 8 (unat (be_TimestampNS ev))"
    and "take 4 (drop 8 b) = le_bytes 4 (unat (be_Ifindex ev))" and "take 2 (drop 12 b) = le_bytes 2 (unat (be_EthProto ev))"
    and "b ! 14 = be_Reason ev" and "b ! 15 = be_IPProto ev"
    and "take 4 (drop 16 b) = le_bytes 4 (unat (be_IPv4Saddr ev))" and "take 4 (drop 20 b) = le_bytes 4 (unat (be_IPv4Daddr ev))"
    and "take 16 (drop 24 b) = rev (le_bytes 16 (unat (be_IPv6Saddr ev)))" and "take 16 (drop 40 b) = rev (le_bytes 16 (unat (be_IPv6Daddr ev)))"
    and "take 2 (drop 56 b) = le_bytes 2 (unat (be_SourcePort ev))" and "take 2 (drop 58 b) = le_bytes 2 (unat (be_DestPort ev))"
    and "b ! 60 = be_ICMPv6Type ev" and "b ! 61 = be_VLANDepth ev"
  by (simp_all add: b_def event_bytes_def fld_def nth_append)

lemma parse_event_bytes: "parseBootstrapEvent (event_bytes False ev) = Inr ev"
proof -
  note f = event_fields [of ev]
  have "event_bytes False ev \<noteq> []" using f(1) by auto
  then show ?thesis
    by (simp only: parseBootstrapEvent_def le_at_def array16_at_def f rev_rev_ident if_False) (simp add: word_le_bytes)
qed

lemma emitted: "emit_bootstrap_event be slot skb ep r vd ip ip6 udp icmp6 = Some ev \<Longrightarrow> be_Ifindex ev = skb_ifindex skb \<and> be_Reason ev = r"
  by (auto simp: emit_bootstrap_event_def Let_def split: option.splits)

lemma policy_no_event: "snd (egress_v4_policy m c skb da p hp dp) = None" "snd (egress_v6_policy m c skb da6 p hp dp) = None"
  by (simp_all add: egress_v4_policy_def egress_v6_policy_def split: option.split)

text \<open>An event stands for a packet that passes, with a reason from 1 to 4.\<close>

definition event_good :: "skb \<Rightarrow> outcome \<Rightarrow> bool" where
  "event_good skb res \<longleftrightarrow> (\<forall>ev. snd res = Some ev \<longrightarrow> fst res = TC_ACT_OK \<and> be_Ifindex ev = skb_ifindex skb \<and> be_Reason ev \<in> {1, 2, 3, 4})"

lemma event_good_simps [simp]: "event_good skb (v, None)"
  "r \<in> {1, 2, 3, 4} \<Longrightarrow> event_good skb (TC_ACT_OK, emit_bootstrap_event be slot skb ep r vd ip ip6 udp icmp6)"
  "event_good skb (egress_v4_policy m c skb da p hp dp)" "event_good skb (egress_v6_policy m c skb da6 p hp dp)"
  using emitted policy_no_event by (fastforce simp: event_good_def)+

lemma egress_event_good: "event_good skb (killswitch_egress be m slot skb)"
proof -
  have v4: "event_good skb (egress_v4 be m slot c skb ep vd ip)" for c ep vd ip
    by (simp add: egress_v4_def Let_def BOOTSTRAP_DHCPV4_def)
  have v6: "event_good skb (egress_v6 be m slot c skb ep vd ip)" for c ep vd ip
    by (simp add: egress_v6_def Let_def BOOTSTRAP_DHCPV6_def BOOTSTRAP_ICMPV6_ND_def)
  have l3: "event_good skb (egress_l3 be m slot c skb ep vd cur)" for c ep vd cur
    by (simp add: egress_l3_def BOOTSTRAP_ARP_def v4 v6)
  show ?thesis by (simp add: killswitch_egress_def Let_def l3)
qed

section \<open>Properties\<close>

text \<open>C30: an event that the eBPF program emits on a little-endian host belongs to a packet that it lets pass for a reason
  the daemon knows, and the daemon reads the bytes of the ring buffer as exactly that event; a sample that is
  too short is reported and never taken for an event.\<close>

theorem bootstrap_event_roundtrip:
  assumes "killswitch_egress False m slot skb = (v, Some ev)"
  shows "parseBootstrapEvent (event_bytes False ev) = Inr ev \<and> v = TC_ACT_OK \<and> be_Ifindex ev = skb_ifindex skb \<and>
    reason_text (be_Reason ev) \<noteq> ''unknown'' \<and>
    (\<forall>raw. (\<exists>ev'. parseBootstrapEvent raw = Inr ev') \<longleftrightarrow> 64 \<le> length raw)"
proof -
  have "v = TC_ACT_OK \<and> be_Ifindex ev = skb_ifindex skb \<and> reason_text (be_Reason ev) \<noteq> ''unknown''"
    using egress_event_good [of skb False m slot] assms by (auto simp: event_good_def reason_text_def)
  moreover have "(\<exists>ev'. parseBootstrapEvent raw = Inr ev') \<longleftrightarrow> 64 \<le> length raw" for raw
    by (auto simp: parseBootstrapEvent_def)
  ultimately show ?thesis using parse_event_bytes by simp
qed

lemma bootstrap_event_roundtrip_witness:
  "\<exists>ev. killswitch_egress False (k_maps new_kernel) (Some 5) \<lparr>skb_ifindex = 3, skb_mark = 0, skb_data = replicate 12 0 @ [8, 6]\<rparr> = (TC_ACT_OK, Some ev) \<and>
     parseBootstrapEvent (event_bytes False ev) = Inr ev \<and>
     formatBootstrapEvent ev = ''bootstrap pass: reason=arp ifindex=3 eth_proto=0x0806 vlan_depth=0''"
proof -
  let ?skb = "\<lparr>skb_ifindex = 3, skb_mark = 0, skb_data = replicate 12 0 @ [8, 6]\<rparr>"
  let ?ev = "\<lparr>be_TimestampNS = 5, be_Ifindex = 3, be_EthProto = 0x806, be_Reason = 1, be_IPProto = 0, be_IPv4Saddr = 0, be_IPv4Daddr = 0,
     be_IPv6Saddr = 0, be_IPv6Daddr = 0, be_SourcePort = 0, be_DestPort = 0, be_ICMPv6Type = 0, be_VLANDepth = 0\<rparr>"
  have run: "killswitch_egress False (k_maps new_kernel) (Some 5) ?skb = (TC_ACT_OK, Some ?ev)" by code_simp
  have "formatBootstrapEvent ?ev = ''bootstrap pass: reason=arp ifindex=3 eth_proto=0x0806 vlan_depth=0''" by code_simp
  with run bootstrap_event_roundtrip [OF run] show ?thesis by blast
qed

end
