(* ===== verification/DaemonMain.thy ===== *)
theory DaemonMain
  imports Connections Bootstrap
begin

text \<open>
  \<open>run\<close> of \<open>cmd/killswitch/main.go\<close>: what it acquires and releases, the callbacks it wires, the goroutines it starts (the reader of
  bootstrap events, the watcher, the server of the admin API) and how it ends. A goroutine that waits for a write to a client for ever is
  \<open>Blocked\<close>; the shared state is that of \<open>AdminServer\<close>.
\<close>

section \<open>Setting up\<close>

text \<open>What the first calls return.\<close>

record run_env =
  re_RemoveMemlock :: "error option"
  re_loadKillswitchObjects :: "error option"
  re_NewReader :: "error option"

datatype deferred = CloseObjs | CloseManager | StopSignals | CancelCtx | CloseReader | CloseProxy

text \<open>An error with the deferred calls that run then, or the deferred calls of \<open>run\<close>; the one deferred last is run first.\<close>

definition run_setup :: "run_env \<Rightarrow> (error \<times> deferred list) + deferred list" where
  "run_setup v = (case re_RemoveMemlock v of
      Some err \<Rightarrow> Inl (Wrap ''remove memlock rlimit'' [] err, [])
    | None \<Rightarrow> (case re_loadKillswitchObjects v of
      Some err \<Rightarrow> Inl (Wrap ''load eBPF objects'' [] err, [])
    | None \<Rightarrow> (let ds = [CancelCtx, StopSignals, CloseManager, CloseObjs] in case re_NewReader v of
      Some err \<Rightarrow> Inl (Wrap ''open bootstrap event ring buffer'' [] err, ds)
    | None \<Rightarrow> Inr (CloseProxy # CloseReader # ds))))"

section \<open>Callbacks\<close>

definition newAdminAPIServer_callbacks ::
  "net_env \<Rightarrow> 'b snapshot option \<Rightarrow> (mutationRequest \<Rightarrow> (mutationResult, 'b adminAPIServer) act) option \<Rightarrow> 'b callbacks" where
  "newAdminAPIServer_callbacks e snap mutate =
     (let configSnapshot = (case snap of None \<Rightarrow> (\<lambda>clients b. ((zero_currentConfig, []), b)) | Some f \<Rightarrow> f) in
      \<lparr>cb_configSnapshot = configSnapshot,
       cb_mutateConfig = (case mutate of None \<Rightarrow> (\<lambda>req. not_available e configSnapshot ''mutations are not available'') | Some f \<Rightarrow> f),
       cb_mutateTmpRuleset = None, cb_removeTmpRuleset = None, cb_mutateForceRuleset = None, cb_removeForceRulesets = None\<rparr>)"

definition setTemporaryRulesetCallbacks ::
  "(string \<Rightarrow> mutationRequest \<Rightarrow> 'b \<Rightarrow> mutationResult \<times> 'b) \<Rightarrow> (string \<Rightarrow> 'b \<Rightarrow> mutationResult \<times> 'b) \<Rightarrow> 'b callbacks \<Rightarrow> 'b callbacks" where
  "setTemporaryRulesetCallbacks mutate remove cb = cb\<lparr>cb_mutateTmpRuleset := Some mutate, cb_removeTmpRuleset := Some remove\<rparr>"

definition setForceRulesetCallbacks ::
  "(string \<Rightarrow> mutationRequest \<Rightarrow> 'b \<Rightarrow> mutationResult \<times> 'b) \<Rightarrow> (string \<Rightarrow> 'b \<Rightarrow> mutationResult \<times> 'b) \<Rightarrow> 'b callbacks \<Rightarrow> 'b callbacks" where
  "setForceRulesetCallbacks mutate remove cb = cb\<lparr>cb_mutateForceRuleset := Some mutate, cb_removeForceRulesets := Some remove\<rparr>"

definition run_callbacks :: "net_env \<Rightarrow> regexps \<Rightarrow> backend callbacks" where
  "run_callbacks e rx =
     setForceRulesetCallbacks (\<lambda>owner req. on_daemon (\<lambda>w. applyForceRulesetMutation rx w owner req))
       (\<lambda>owner. on_daemon (\<lambda>w. removeForceRulesets_handler rx w owner))
    (setTemporaryRulesetCallbacks (\<lambda>owner req. on_daemon (\<lambda>w. applyTemporaryRulesetMutation rx w owner req))
       (\<lambda>owner. on_daemon (\<lambda>w. removeTemporaryRuleset_handler rx w owner))
    (newAdminAPIServer_callbacks e (Some (daemon_snapshot rx)) (Some (\<lambda>req.
       if mr_Target req = ''socks_proxy'' then applySocksProxyMutation e rx req else on_backend (on_daemon (\<lambda>w. applyAdminMutation rx w req))))))"

lemma run_callbacks_eq: "run_callbacks e rx = daemon_callbacks e rx"
  by (simp add: run_callbacks_def setForceRulesetCallbacks_def setTemporaryRulesetCallbacks_def newAdminAPIServer_callbacks_def daemon_callbacks_def Let_def)

text \<open>The proxy of the configuration is started before the first client can connect.\<close>

definition start_socks :: "net_env \<Rightarrow> regexps \<Rightarrow> options \<Rightarrow> (unit, backend adminAPIServer) act" where
  "start_socks e rx opts =
     (if \<not> so_Enabled (o_SocksProxy opts) then returnA ()
      else bindA (on_backend (set_proxy True)) (\<lambda>ef.
           bindA (emit_states e rx (ef_emitted ef)) (\<lambda>_.
           case ef_err ef of None \<Rightarrow> returnA () | Some err \<Rightarrow> notifyError e (''SOCKS proxy start error'', err))))"

section \<open>The process\<close>

datatype 'a goroutine = NotStarted | Running 'a | Blocked | Ended

datatype main_state = Selecting | Returning "deferred list" "error list" | MainBlocked | Returned "error list"

text \<open>
  An error is the list of what \<open>errors.Join\<close> joined, \<open>[]\<close> nil; \<open>errCh\<close> holds up to 3. \<open>pr_signals\<close>: a signal cancels the context, and does
  not end the process. \<open>pr_reader\<close>, \<open>pr_objs\<close>, \<open>pr_listening\<close>: the reader of the ring buffer, the objects of the eBPF program and the
  listener of the admin API are open.
\<close>

record process =
  pr_server :: "backend adminAPIServer"
  pr_main :: main_state
  pr_done :: bool
  pr_signals :: bool
  pr_errCh :: "error list list"
  pr_reader :: bool
  pr_objs :: bool
  pr_bootstrap :: "unit goroutine"
  pr_watch :: "watcher goroutine"
  pr_api :: "unit goroutine"
  pr_listening :: bool
  pr_crashed :: bool

definition start_process :: "net_env \<Rightarrow> regexps \<Rightarrow> options \<Rightarrow> backend adminAPIServer \<Rightarrow> process" where
  "start_process e rx opts s =
     \<lparr>pr_server = snd (start_socks e rx opts s), pr_main = Selecting, pr_done = False, pr_signals = True, pr_errCh = [], pr_reader = True,
      pr_objs = True, pr_bootstrap = Running (), pr_watch = NotStarted, pr_api = NotStarted, pr_listening = False, pr_crashed = False\<rparr>"

definition on_server :: "('a, backend adminAPIServer) act \<Rightarrow> ('a, process) act" where
  "on_server m p = (case m (pr_server p) of (r, s) \<Rightarrow> (r, p\<lparr>pr_server := s\<rparr>))"

definition send_err :: "error list \<Rightarrow> process \<Rightarrow> process" where
  "send_err errs p = p\<lparr>pr_errCh := pr_errCh p @ [errs]\<rparr>"

subsection \<open>Goroutines\<close>

text \<open>One \<open>Read\<close> of the ring buffer; \<open>closed\<close> says that its error is \<open>ringbuf.ErrClosed\<close>.\<close>

definition bootstrap_turn :: "net_env \<Rightarrow> bool \<Rightarrow> u8 list res \<Rightarrow> process \<Rightarrow> process" where
  "bootstrap_turn e closed r p =
     (case readBootstrapEvents [r] of (ret, notices, logged) \<Rightarrow>
        case on_server (notifyErrors e notices) p of
          (None, p') \<Rightarrow> p'\<lparr>pr_bootstrap := Blocked\<rparr>
        | (Some _, p') \<Rightarrow> (case ret of
            None \<Rightarrow> p'
          | Some err \<Rightarrow> (if closed then p' else send_err [err] p')\<lparr>pr_bootstrap := Ended\<rparr>))"

fun notify_all :: "net_env \<Rightarrow> regexps \<Rightarrow> string list \<Rightarrow> (unit, backend adminAPIServer) act" where
  "notify_all e rx [] = returnA ()"
| "notify_all e rx (ev # evs) = bindA (server_notify e (daemon_snapshot rx) ev) (\<lambda>_. notify_all e rx evs)"

text \<open>What netlink answers to the four subscriptions of \<open>subscribe\<close>, and its error.\<close>

record netlink_env =
  ne_LinkSubscribe :: "error option"
  ne_AddrSubscribe :: "error option"
  ne_RouteSubscribe :: "error option"
  ne_NeighSubscribe :: "error option"

definition subscribe :: "netlink_env \<Rightarrow> error option" where
  "subscribe v = (case ne_LinkSubscribe v of
      Some err \<Rightarrow> Some (Wrap ''subscribe to netlink link updates'' [] err)
    | None \<Rightarrow> (case ne_AddrSubscribe v of
      Some err \<Rightarrow> Some (Wrap ''subscribe to netlink addr updates'' [] err)
    | None \<Rightarrow> (case ne_RouteSubscribe v of
      Some err \<Rightarrow> Some (Wrap ''subscribe to netlink route updates'' [] err)
    | None \<Rightarrow> map_option (Wrap ''subscribe to netlink neighbor updates'' []) (ne_NeighSubscribe v))))"

text \<open>An error of a subscription goes into the channel \<open>subscribeErrs\<close>, which holds one; when it is full the error is only logged.\<close>

definition errCallback :: "int \<Rightarrow> error \<Rightarrow> (int \<times> error) list \<Rightarrow> (int \<times> error) list" where
  "errCallback generation err queue = (if length queue < 1 then queue @ [(generation, err)] else queue)"

text \<open>\<open>watchInterfaces\<close>: subscribing (its error is \<open>sub\<close>) with the first reconcile, and a turn of its loop.\<close>

definition watch_begin_act :: "net_env \<Rightarrow> regexps \<Rightarrow> error option \<Rightarrow> (error list, backend adminAPIServer) act" where
  "watch_begin_act e rx sub =
     bindA (on_backend (on_daemon (\<lambda>w d. case watch_start rx w sub d of (errs, notes, d') \<Rightarrow> ((errs, notes), d'))))
       (\<lambda>r. bindA (notify_all e rx (snd r)) (\<lambda>_. returnA (fst r)))"

definition watch_begin :: "net_env \<Rightarrow> regexps \<Rightarrow> error option \<Rightarrow> process \<Rightarrow> process" where
  "watch_begin e rx sub p =
     (case on_server (watch_begin_act e rx sub) p of
        (None, p') \<Rightarrow> p'\<lparr>pr_watch := Blocked\<rparr>
      | (Some errs, p') \<Rightarrow> (if errs = [] then p'\<lparr>pr_watch := Running new_watcher\<rparr> else (send_err errs p')\<lparr>pr_watch := Ended\<rparr>))"

definition watch_turn_act ::
  "net_env \<Rightarrow> regexps \<Rightarrow> error option \<Rightarrow> watch_event \<Rightarrow> watcher \<Rightarrow> (error list option \<times> watcher, backend adminAPIServer) act" where
  "watch_turn_act e rx resub ev wt =
     bindA (on_backend (on_daemon (\<lambda>w d. case watch_step rx w resub ev (wt, d) of (r, notes, wt', d') \<Rightarrow> ((r, notes, wt'), d'))))
       (\<lambda>(r, notes, wt'). bindA (notify_all e rx notes) (\<lambda>_. returnA (r, wt')))"

definition panics :: "error list \<Rightarrow> bool" where
  "panics errs = list_ex (\<lambda>err. case err of Panic _ \<Rightarrow> True | _ \<Rightarrow> False) errs"

definition watch_turn :: "net_env \<Rightarrow> regexps \<Rightarrow> error option \<Rightarrow> watch_event \<Rightarrow> watcher \<Rightarrow> process \<Rightarrow> process" where
  "watch_turn e rx resub ev wt p =
     (case on_server (watch_turn_act e rx resub ev wt) p of
        (None, p') \<Rightarrow> p'\<lparr>pr_watch := Blocked\<rparr>
      | (Some (None, wt'), p') \<Rightarrow> p'\<lparr>pr_watch := Running wt'\<rparr>
      | (Some (Some errs, wt'), p') \<Rightarrow>
          (if panics errs then p'\<lparr>pr_crashed := True\<rparr>
           else (if errs = [] then p' else send_err errs p')\<lparr>pr_watch := Ended\<rparr>))"

text \<open>\<open>listenAndServe\<close>: opening the socket, and the error of \<open>AcceptUnix\<close> that ends it.\<close>

definition api_begin :: "file_system \<Rightarrow> process \<Rightarrow> process" where
  "api_begin fs p =
     (case fst (listenAdminAPIUnix fs (ao_SocketPath (sv_opts (pr_server p)))) of
        Inl err \<Rightarrow> (send_err [err] p)\<lparr>pr_api := Ended\<rparr>
      | Inr _ \<Rightarrow> p\<lparr>pr_api := Running (), pr_listening := True\<rparr>)"

definition accept_error :: "bool \<Rightarrow> bool \<Rightarrow> error \<Rightarrow> error list" where
  "accept_error ctxErr closed err = (if ctxErr \<or> closed then [] else [Wrap ''accept admin API connection'' [] err])"

definition api_error :: "bool \<Rightarrow> error \<Rightarrow> process \<Rightarrow> process" where
  "api_error closed err p =
     (let errs = accept_error (pr_done p) closed err in (if errs = [] then p else send_err errs p)\<lparr>pr_api := Ended, pr_listening := False\<rparr>)"

subsection \<open>The main goroutine\<close>

text \<open>What the \<open>select\<close> can take: the value that \<open>run\<close> returns, and the process.\<close>

definition main_select :: "process \<Rightarrow> (error list \<times> process) list" where
  "main_select p =
     (if pr_done p then [([], p)] else []) @
     (case pr_errCh p of [] \<Rightarrow> [] | errs # rest \<Rightarrow> [(errs, p\<lparr>pr_errCh := rest, pr_done := True\<rparr>)])"

definition close_proxy :: "backend \<Rightarrow> effect \<times> backend" where
  "close_proxy b = (case Close (bk_proxy b) of (ef, m) \<Rightarrow> (ef, b\<lparr>bk_proxy := m\<rparr>))"

definition proxy_Close :: "net_env \<Rightarrow> regexps \<Rightarrow> (unit, backend adminAPIServer) act" where
  "proxy_Close e rx = bindA (on_backend close_proxy) (\<lambda>ef. emit_states e rx (ef_emitted ef))"

definition close_manager :: "backend \<Rightarrow> unit \<times> backend" where
  "close_manager = on_daemon (\<lambda>w d. ((), d\<lparr>dm_manager := em_close (w_attach w) (dm_manager d)\<rparr>))"

fun do_deferred :: "net_env \<Rightarrow> regexps \<Rightarrow> deferred \<Rightarrow> (unit, process) act" where
  "do_deferred e rx CloseProxy p = on_server (proxy_Close e rx) p"
| "do_deferred e rx CloseReader p = (Some (), p\<lparr>pr_reader := False\<rparr>)"
| "do_deferred e rx CancelCtx p = (Some (), p\<lparr>pr_done := True\<rparr>)"
| "do_deferred e rx StopSignals p = (Some (), p\<lparr>pr_signals := False, pr_done := True\<rparr>)"
| "do_deferred e rx CloseManager p = on_server (on_backend close_manager) p"
| "do_deferred e rx CloseObjs p = (Some (), p\<lparr>pr_objs := False\<rparr>)"

fun run_deferred :: "net_env \<Rightarrow> regexps \<Rightarrow> deferred list \<Rightarrow> (unit, process) act" where
  "run_deferred e rx [] = returnA ()"
| "run_deferred e rx (x # xs) = bindA (do_deferred e rx x) (\<lambda>_. run_deferred e rx xs)"

definition all_deferred :: "deferred list" where
  "all_deferred = [CloseProxy, CloseReader, CancelCtx, StopSignals, CloseManager, CloseObjs]"

lemma run_setup_deferred:
  "run_setup v = Inr ds \<longleftrightarrow> re_RemoveMemlock v = None \<and> re_loadKillswitchObjects v = None \<and> re_NewReader v = None \<and> ds = all_deferred"
  by (auto simp: run_setup_def all_deferred_def Let_def split: option.splits)

section \<open>Runs\<close>

text \<open>What the system answers about the process at the other end of a connection; the credentials can be nil.\<close>

record cred_env =
  ce_SyscallConn :: "error option"
  ce_Control :: "error option"
  ce_GetsockoptUcred :: "(u32 \<times> u32 \<times> int) option res"

definition adminAPIPeerCred :: "cred_env \<Rightarrow> adminAPIPeer res" where
  "adminAPIPeerCred v = (case ce_SyscallConn v of
      Some err \<Rightarrow> Inl err
    | None \<Rightarrow> (case ce_Control v of
      Some err \<Rightarrow> Inl err
    | None \<Rightarrow> (case ce_GetsockoptUcred v of
      Inl err \<Rightarrow> Inl err
    | Inr None \<Rightarrow> Inl (Err ''SO_PEERCRED returned nil credentials'')
    | Inr (Some (uid, gid, pid)) \<Rightarrow> Inr \<lparr>peer_UID = uid, peer_GID = gid, peer_PID = pid\<rparr>)))"

text \<open>A handler of a connection that ran to its end, as in \<open>server_reachable\<close>; its argument after the user data base says whether the socket accepts connections.\<close>

inductive handler_step :: "regexps \<Rightarrow> user_db \<Rightarrow> bool \<Rightarrow> backend adminAPIServer \<Rightarrow> backend adminAPIServer \<Rightarrow> bool" for rx db where
  connect: "sv_nextConnectionID s \<noteq> - 1 \<Longrightarrow> connect e (cb_configSnapshot (run_callbacks e rx)) db (adminAPIPeerCred v) s = (Some r, s') \<Longrightarrow>
    handler_step rx db True s s'"
| message: "fmlookup (sv_clients s) cid = Some c \<Longrightarrow> handle_message e (run_callbacks e rx) c msg s = (Some go, s') \<Longrightarrow>
    handler_step rx db accepting s s'"
| disconnect: "fmlookup (sv_clients s) cid = Some c \<Longrightarrow> disconnect e (run_callbacks e rx) c s = (Some (), s') \<Longrightarrow>
    handler_step rx db accepting s s'"

text \<open>The accept loop of the proxy ends with an error.\<close>

definition proxy_fails :: "net_env \<Rightarrow> regexps \<Rightarrow> error \<Rightarrow> (unit, backend adminAPIServer) act" where
  "proxy_fails e rx err =
     bindA (on_backend (\<lambda>b. case serve_error False err (bk_proxy b) of (ef, m) \<Rightarrow> (ef, b\<lparr>bk_proxy := m\<rparr>)))
       (\<lambda>ef. case ef of None \<Rightarrow> returnA () | Some ef \<Rightarrow> emit_states e rx (ef_emitted ef))"

inductive process_step :: "regexps \<Rightarrow> user_db \<Rightarrow> process \<Rightarrow> process \<Rightarrow> bool" for rx db where
  signal: "pr_signals p \<Longrightarrow> process_step rx db p (p\<lparr>pr_done := True\<rparr>)"
| reader_closed: "pr_done p \<Longrightarrow> process_step rx db p (p\<lparr>pr_reader := False\<rparr>)"
| listener_closed: "pr_done p \<Longrightarrow> process_step rx db p (p\<lparr>pr_listening := False\<rparr>)"
| selects: "pr_main p = Selecting \<Longrightarrow> (ret, p') \<in> set (main_select p) \<Longrightarrow> process_step rx db p (p'\<lparr>pr_main := Returning all_deferred ret\<rparr>)"
| deferred: "pr_main p = Returning (x # xs) ret \<Longrightarrow> do_deferred e rx x p = (Some (), p') \<Longrightarrow>
    process_step rx db p (p'\<lparr>pr_main := Returning xs ret\<rparr>)"
| deferred_blocks: "pr_main p = Returning (x # xs) ret \<Longrightarrow> do_deferred e rx x p = (None, p') \<Longrightarrow> process_step rx db p (p'\<lparr>pr_main := MainBlocked\<rparr>)"
| returns: "pr_main p = Returning [] ret \<Longrightarrow> process_step rx db p (p\<lparr>pr_main := Returned ret\<rparr>)"
| bootstrap: "pr_bootstrap p = Running () \<Longrightarrow> (closed \<Longrightarrow> \<not> pr_reader p) \<Longrightarrow> process_step rx db p (bootstrap_turn e closed r p)"
| watch_begins: "pr_watch p = NotStarted \<Longrightarrow> process_step rx db p (watch_begin e rx (subscribe v) p)"
| watch_turns: "pr_watch p = Running wt \<Longrightarrow> (ev = CtxDone \<Longrightarrow> pr_done p) \<Longrightarrow> process_step rx db p (watch_turn e rx (subscribe v) ev wt p)"
| api_begins: "pr_api p = NotStarted \<Longrightarrow> process_step rx db p (api_begin fs p)"
| api_ends: "pr_api p = Running () \<Longrightarrow> (closed \<Longrightarrow> \<not> pr_listening p) \<Longrightarrow> process_step rx db p (api_error closed err p)"
| handles: "handler_step rx db (pr_api p = Running () \<and> pr_listening p) (pr_server p) s' \<Longrightarrow> process_step rx db p (p\<lparr>pr_server := s'\<rparr>)"
| proxy_ends: "proxy_fails e rx err (pr_server p) = (r, s') \<Longrightarrow> process_step rx db p (p\<lparr>pr_server := s'\<rparr>)"

definition alive :: "process \<Rightarrow> bool" where
  "alive p \<longleftrightarrow> \<not> pr_crashed p \<and> (\<forall>ret. pr_main p \<noteq> Returned ret)"

inductive process_reachable :: "regexps \<Rightarrow> options \<Rightarrow> user_db \<Rightarrow> process \<Rightarrow> bool" for rx opts db where
  start: "(\<And>n. world_ok (worlds n)) \<Longrightarrow>
    process_reachable rx opts db (start_process e rx opts (newAdminAPIServer (o_AdminAPI opts) (start_backend worlds listens opts)))"
| step: "process_reachable rx opts db p \<Longrightarrow> alive p \<Longrightarrow> process_step rx db p p' \<Longrightarrow> process_reachable rx opts db p'"

section \<open>Closing the links\<close>

lemma close_links:
  "em_attached (foldl (\<lambda>m i. close_link ae i m) m is) = fmfilter (\<lambda>i. i \<notin> set is) (em_attached m)"
  "fset (em_links (foldl (\<lambda>m i. close_link ae i m) m is)) = fset (em_links m) - {i \<in> set is. \<not> ae_close_fails ae i}"
  by (induction "is" arbitrary: m) (auto simp: close_link_def intro!: fmap_ext)

lemma em_close_spec:
  assumes "attach_env_ok ae"
  shows "em_attached (em_close ae m) = fmempty"
    and "fset (em_links (em_close ae m)) = fset (em_links m) - {i. i |\<in>| fmdom (em_attached m) \<and> \<not> ae_close_fails ae i}"
proof -
  have s: "set (ae_range ae (sorted_list_of_fset (fmdom (em_attached m)))) = fset (fmdom (em_attached m))"
    using assms by (simp add: attach_env_ok_def sorted_list_of_fset.rep_eq)
  show "em_attached (em_close ae m) = fmempty"
    by (rule fmap_ext) (auto simp: em_close_def close_links s fmdom_notD)
  show "fset (em_links (em_close ae m)) = fset (em_links m) - {i. i |\<in>| fmdom (em_attached m) \<and> \<not> ae_close_fails ae i}"
    by (simp add: em_close_def close_links s)
qed

lemma em_close_ok: "em_ok m \<Longrightarrow> em_ok (em_close ae m)"
proof -
  have "em_ok (foldl (\<lambda>m i. close_link ae i m) m is)" if "em_ok m" for m "is"
    using that
  proof (induction "is" arbitrary: m)
    case (Cons i "is")
    have "em_ok (close_link ae i m)" using Cons.prems by (auto simp: em_ok_def close_link_def)
    then show ?case using Cons.IH by simp
  qed simp
  then show "em_ok m \<Longrightarrow> em_ok (em_close ae m)" by (simp add: em_close_def)
qed

section \<open>What the goroutines keep\<close>

lemma close_proxy_daemon: "close_proxy b = (ef, b') \<Longrightarrow> bk_daemon b' = bk_daemon b \<and> bk_worlds b' = bk_worlds b"
  by (auto simp: close_proxy_def split: prod.splits)

lemma watch_step_daemon:
  assumes "watch_step rx w resub ev (wt, d) = (r, notes, wt', d')"
  shows "d' = d \<or> (\<exists>ni. d' = snd (snd (watch_reconcile rx w False ni d)))"
  using assms by (cases ev) (auto simp: watch_step_def Let_def split: if_splits option.splits prod.splits, (metis snd_conv)+)

lemma watch_start_daemon:
  assumes "watch_start rx w sub d = (errs, notes, d')"
  shows "d' = d \<or> d' = snd (snd (watch_reconcile rx w True True d))"
  using assms by (auto simp: watch_start_def split: option.splits)

lemma quiet_notify_all [intro]: "quietA (daemon_observer rx) (notify_all e rx evs)"
  by (induction evs) (auto intro: quiet_daemon_notify)

lemma quiet_watch_begin: "quietA (daemon_observer rx) (watch_begin_act e rx sub)"
proof -
  have "quietA (daemon_observer rx) (on_backend (on_daemon (\<lambda>w d. case watch_start rx w sub d of (errs, notes, d') \<Rightarrow> ((errs, notes), d'))))"
  proof (rule quiet_on_daemon)
    fix w d
    assume ok: "world_ok w" "daemon_ok rx d"
    obtain errs evs d' where st: "watch_start rx w sub d = (errs, evs, d')" by (metis prod_cases3)
    from watch_start_daemon [OF st] watch_reconcile_ok [OF ok] ok st show
      "daemon_ok rx (snd (case watch_start rx w sub d of (errs, notes, d') \<Rightarrow> ((errs, notes), d'))) \<and>
       (\<forall>owner. holds_forced (snd (case watch_start rx w sub d of (errs, notes, d') \<Rightarrow> ((errs, notes), d'))) owner \<longrightarrow> holds_forced d owner) \<and>
       (\<forall>owner. holds_tmp (snd (case watch_start rx w sub d of (errs, notes, d') \<Rightarrow> ((errs, notes), d'))) owner \<longrightarrow> holds_tmp d owner)"
      by (auto simp: watch_holds)
  qed
  then show ?thesis unfolding watch_begin_act_def by auto
qed

lemma quiet_watch_turn: "quietA (daemon_observer rx) (watch_turn_act e rx resub ev wt)"
proof -
  have "quietA (daemon_observer rx) (on_backend (on_daemon (\<lambda>w d. case watch_step rx w resub ev (wt, d) of (r, notes, wt', d') \<Rightarrow> ((r, notes, wt'), d'))))"
  proof (rule quiet_on_daemon)
    fix w d
    assume ok: "world_ok w" "daemon_ok rx d"
    obtain r evs wt' d' where st: "watch_step rx w resub ev (wt, d) = (r, evs, wt', d')" by (metis prod_cases4)
    from watch_step_daemon [OF st] watch_reconcile_ok [OF ok] ok st show
      "daemon_ok rx (snd (case watch_step rx w resub ev (wt, d) of (r, notes, wt', d') \<Rightarrow> ((r, notes, wt'), d'))) \<and>
       (\<forall>owner. holds_forced (snd (case watch_step rx w resub ev (wt, d) of (r, notes, wt', d') \<Rightarrow> ((r, notes, wt'), d'))) owner \<longrightarrow> holds_forced d owner) \<and>
       (\<forall>owner. holds_tmp (snd (case watch_step rx w resub ev (wt, d) of (r, notes, wt', d') \<Rightarrow> ((r, notes, wt'), d'))) owner \<longrightarrow> holds_tmp d owner)"
      by (auto simp: watch_holds)
  qed
  then show ?thesis unfolding watch_turn_act_def by (rule quietA_bind) (auto split: prod.split)
qed

lemma quiet_start_socks: "quietA (daemon_observer rx) (start_socks e rx opts)"
proof -
  have "quietA (daemon_observer rx) (case err of None \<Rightarrow> returnA () | Some err \<Rightarrow> notifyError e (header, err))" for err header
    by (cases err) (auto intro: plain.quiet_error)
  then show ?thesis unfolding start_socks_def by (auto intro!: quietA_bind quiet_set_proxy quiet_emit)
qed

lemma quiet_proxy_Close: "quietA (daemon_observer rx) (proxy_Close e rx)"
proof -
  have "quietA (daemon_observer rx) (on_backend close_proxy)"
    by (rule quiet_on_backend) (auto dest: close_proxy_daemon)
  then show ?thesis unfolding proxy_Close_def by (auto intro: quiet_emit)
qed

lemma quiet_proxy_fails: "quietA (daemon_observer rx) (proxy_fails e rx err)"
proof -
  have "quietA (daemon_observer rx) (on_backend (\<lambda>b. case serve_error False err (bk_proxy b) of (ef, m) \<Rightarrow> (ef, b\<lparr>bk_proxy := m\<rparr>)))"
    by (rule quiet_on_backend) (auto split: prod.splits)
  moreover have "quietA (daemon_observer rx) (case ef of None \<Rightarrow> returnA () | Some ef \<Rightarrow> emit_states e rx (ef_emitted ef))" for ef
    by (cases ef) (auto intro: quiet_emit)
  ultimately show ?thesis unfolding proxy_fails_def by (auto intro!: quietA_bind)
qed

lemma quiet_close_manager: "quietA (daemon_observer rx) (on_backend close_manager)"
  unfolding close_manager_def by (rule quiet_on_daemon) (auto simp: daemon_ok_def em_close_ok holds_forced_def holds_tmp_def)

text \<open>All of them in a run of the process; a goroutine that still runs can send one error.\<close>

definition may_send :: "'a goroutine \<Rightarrow> nat" where
  "may_send g = (case g of Ended \<Rightarrow> 0 | Blocked \<Rightarrow> 0 | _ \<Rightarrow> 1)"

fun released_by :: "process \<Rightarrow> deferred \<Rightarrow> bool" where
  "released_by p CloseReader \<longleftrightarrow> \<not> pr_reader p"
| "released_by p CancelCtx \<longleftrightarrow> pr_done p"
| "released_by p StopSignals \<longleftrightarrow> \<not> pr_signals p"
| "released_by p CloseObjs \<longleftrightarrow> \<not> pr_objs p"
| "released_by p _ \<longleftrightarrow> True"

definition process_ok :: "regexps \<Rightarrow> process \<Rightarrow> bool" where
  "process_ok rx p \<longleftrightarrow> server_ok (daemon_observer rx) (pr_server p) \<and>
     length (pr_errCh p) + may_send (pr_bootstrap p) + may_send (pr_watch p) + may_send (pr_api p) \<le> 3 \<and>
     (\<forall>xs ret. pr_main p = Returning xs ret \<longrightarrow> (\<forall>x. x \<in> set xs \<or> released_by p x)) \<and>
     (\<forall>ret. pr_main p = Returned ret \<longrightarrow> (\<forall>x. released_by p x))"

lemma on_server_ok:
  assumes "quietA (daemon_observer rx) m" and "on_server m p = (r, p')" and "server_ok (daemon_observer rx) (pr_server p)"
  shows "server_ok (daemon_observer rx) (pr_server p')" and "\<exists>s. p' = p\<lparr>pr_server := s\<rparr>"
proof -
  obtain s where s: "m (pr_server p) = (r, s)" "p' = p\<lparr>pr_server := s\<rparr>" using assms(2) by (auto simp: on_server_def split: prod.splits)
  show "server_ok (daemon_observer rx) (pr_server p')"
    using quiet_server_ok [OF quietI [OF assms(1) s(1)] assms(3)] s(2) by simp
  show "\<exists>s. p' = p\<lparr>pr_server := s\<rparr>" using s(2) by blast
qed

lemma released_simps [simp]: "released_by (p\<lparr>pr_server := s\<rparr>) x = released_by p x" "released_by (p\<lparr>pr_main := m\<rparr>) x = released_by p x"
  "released_by (p\<lparr>pr_errCh := errs\<rparr>) x = released_by p x" "released_by (p\<lparr>pr_bootstrap := g\<rparr>) x = released_by p x"
  "released_by (p\<lparr>pr_watch := wg\<rparr>) x = released_by p x" "released_by (p\<lparr>pr_api := g\<rparr>) x = released_by p x"
  "released_by (p\<lparr>pr_crashed := b\<rparr>) x = released_by p x" "released_by (p\<lparr>pr_listening := b\<rparr>) x = released_by p x" "released_by p x \<Longrightarrow> released_by (p\<lparr>pr_done := True\<rparr>) x"
  "released_by p x \<Longrightarrow> released_by (p\<lparr>pr_reader := False\<rparr>) x"
  by (cases x; simp)+

lemma do_deferred_ok:
  assumes "do_deferred e rx x p = (r, p')" and "server_ok (daemon_observer rx) (pr_server p)"
  shows "server_ok (daemon_observer rx) (pr_server p')" and "released_by p' x \<and> (\<forall>y. released_by p y \<longrightarrow> released_by p' y)"
    and "pr_errCh p' = pr_errCh p \<and> pr_bootstrap p' = pr_bootstrap p \<and> pr_watch p' = pr_watch p \<and> pr_api p' = pr_api p \<and> pr_main p' = pr_main p"
proof -
  have "server_ok (daemon_observer rx) (pr_server p') \<and> (released_by p' x \<and> (\<forall>y. released_by p y \<longrightarrow> released_by p' y)) \<and>
    pr_errCh p' = pr_errCh p \<and> pr_bootstrap p' = pr_bootstrap p \<and> pr_watch p' = pr_watch p \<and> pr_api p' = pr_api p \<and> pr_main p' = pr_main p"
  proof (cases x)
    case CloseProxy
    with assms(1) have run: "on_server (proxy_Close e rx) p = (r, p')" by simp
    from on_server_ok [OF quiet_proxy_Close run assms(2)] CloseProxy show ?thesis by auto
  next
    case CloseManager
    with assms(1) have run: "on_server (on_backend close_manager) p = (r, p')" by simp
    from on_server_ok [OF quiet_close_manager run assms(2)] CloseManager show ?thesis by auto
  next
    case StopSignals
    have "released_by (p\<lparr>pr_signals := False, pr_done := True\<rparr>) y" if "released_by p y" for y using that by (cases y) auto
    with StopSignals assms show ?thesis by auto
  next
    case CloseObjs
    have "released_by (p\<lparr>pr_objs := False\<rparr>) y" if "released_by p y" for y using that by (cases y) auto
    with CloseObjs assms show ?thesis by auto
  qed (use assms in auto)
  then show "server_ok (daemon_observer rx) (pr_server p')" "released_by p' x \<and> (\<forall>y. released_by p y \<longrightarrow> released_by p' y)"
    "pr_errCh p' = pr_errCh p \<and> pr_bootstrap p' = pr_bootstrap p \<and> pr_watch p' = pr_watch p \<and> pr_api p' = pr_api p \<and> pr_main p' = pr_main p"
    by blast+
qed

lemma handler_step_ok: "handler_step rx db acc s s' \<Longrightarrow> server_ok (daemon_observer rx) s \<Longrightarrow> server_ok (daemon_observer rx) s'"
proof (induction rule: handler_step.induct)
  case (connect s e v r s')
  then show ?case using daemon_server.connect_ok [OF connect.prems connect.hyps(1)] connect.hyps(2) by (simp add: run_callbacks_eq)
next
  case (message s cid c e msg go s' acc)
  then show ?case using daemon_server.message_ok [OF message.prems message.hyps(1)] by (simp add: run_callbacks_eq)
next
  case (disconnect s cid c e s' acc)
  then show ?case using daemon_server.disconnect_ok [OF disconnect.prems disconnect.hyps(1)] by (simp add: run_callbacks_eq)
qed

lemma process_okI:
  assumes "process_ok rx p" and "server_ok (daemon_observer rx) (pr_server p')" and "pr_main p' = pr_main p"
    and "\<And>x. released_by p x \<Longrightarrow> released_by p' x"
    and "length (pr_errCh p') + may_send (pr_bootstrap p') + may_send (pr_watch p') + may_send (pr_api p') \<le>
      length (pr_errCh p) + may_send (pr_bootstrap p) + may_send (pr_watch p) + may_send (pr_api p)"
  shows "process_ok rx p'"
proof -
  have "length (pr_errCh p) + may_send (pr_bootstrap p) + may_send (pr_watch p) + may_send (pr_api p) \<le> 3"
    using assms(1) by (simp add: process_ok_def)
  then have "length (pr_errCh p') + may_send (pr_bootstrap p') + may_send (pr_watch p') + may_send (pr_api p') \<le> 3"
    using assms(5) by linarith
  moreover have "x \<in> set xs \<or> released_by p' x" if "pr_main p' = Returning xs ret" for x xs ret
    using that assms(1,3,4) unfolding process_ok_def by metis
  moreover have "released_by p' x" if "pr_main p' = Returned ret" for x ret
    using that assms(1,3,4) unfolding process_ok_def by metis
  ultimately show ?thesis using assms(2) unfolding process_ok_def by blast
qed

lemma may_send_simps [simp]: "may_send NotStarted = 1" "may_send (Running x) = 1" "may_send Ended = 0" "may_send Blocked = 0"
  by (simp_all add: may_send_def)

lemma bootstrap_turn_ok:
  assumes "process_ok rx p" and "pr_bootstrap p = Running ()"
  shows "process_ok rx (bootstrap_turn e closed r p)"
proof -
  obtain ret notices logged where rd: "readBootstrapEvents [r] = (ret, notices, logged)" by (metis prod_cases3)
  obtain res p1 where run: "on_server (notifyErrors e notices) p = (res, p1)" by fastforce
  have ok: "server_ok (daemon_observer rx) (pr_server p)" using assms(1) by (simp add: process_ok_def)
  obtain s where s: "p1 = p\<lparr>pr_server := s\<rparr>" "server_ok (daemon_observer rx) s"
    using on_server_ok [OF plain.quiet_errors run ok] by auto
  show ?thesis
    by (rule process_okI [OF assms(1)]) (use s assms(2) in \<open>auto simp: bootstrap_turn_def rd run send_err_def split: option.split\<close>)
qed

lemma watch_begin_ok:
  assumes "process_ok rx p" and "pr_watch p = NotStarted"
  shows "process_ok rx (watch_begin e rx sub p)"
proof -
  obtain res p1 where run: "on_server (watch_begin_act e rx sub) p = (res, p1)" by fastforce
  have ok: "server_ok (daemon_observer rx) (pr_server p)" using assms(1) by (simp add: process_ok_def)
  obtain s where s: "p1 = p\<lparr>pr_server := s\<rparr>" "server_ok (daemon_observer rx) s"
    using on_server_ok [OF quiet_watch_begin run ok] by auto
  show ?thesis
    by (rule process_okI [OF assms(1)]) (use s assms(2) in \<open>auto simp: watch_begin_def run send_err_def split: option.split\<close>)
qed

lemma watch_turn_ok:
  assumes "process_ok rx p" and "pr_watch p = Running wt"
  shows "process_ok rx (watch_turn e rx resub ev wt p)"
proof -
  obtain res p1 where run: "on_server (watch_turn_act e rx resub ev wt) p = (res, p1)" by fastforce
  have ok: "server_ok (daemon_observer rx) (pr_server p)" using assms(1) by (simp add: process_ok_def)
  obtain s where s: "p1 = p\<lparr>pr_server := s\<rparr>" "server_ok (daemon_observer rx) s"
    using on_server_ok [OF quiet_watch_turn run ok] by auto
  show ?thesis
    by (rule process_okI [OF assms(1)]) (use s assms(2) in \<open>auto simp: watch_turn_def run send_err_def split: option.split prod.split\<close>)
qed

lemma process_step_ok:
  assumes "process_step rx db p p'" and "process_ok rx p" and "alive p"
  shows "process_ok rx p'"
  using assms
proof (induction rule: process_step.induct)
  case (signal p)
  show ?case by (rule process_okI [OF signal.prems(1)]) (use signal.prems in \<open>auto simp: process_ok_def\<close>)
next
  case (reader_closed p)
  show ?case by (rule process_okI [OF reader_closed.prems(1)]) (use reader_closed.prems in \<open>auto simp: process_ok_def\<close>)
next
  case (listener_closed p)
  show ?case by (rule process_okI [OF listener_closed.prems(1)]) (use listener_closed.prems in \<open>auto simp: process_ok_def\<close>)
next
  case (selects p ret p')
  have all: "x \<in> set all_deferred \<or> released_by q x" for x q by (cases x) (simp_all add: all_deferred_def)
  have "p' = p \<or> (\<exists>errs rest. pr_errCh p = errs # rest \<and> p' = p\<lparr>pr_errCh := rest, pr_done := True\<rparr>)"
    using selects.hyps(2) by (cases "pr_errCh p") (auto simp: main_select_def split: if_splits)
  then show ?case using selects.prems(1) all by (auto simp: process_ok_def)
next
  case (deferred p x xs ret e p')
  have ok: "server_ok (daemon_observer rx) (pr_server p)" using deferred.prems by (simp add: process_ok_def)
  note step = do_deferred_ok [OF deferred.hyps(2) ok]
  have all: "y \<in> set (x # xs) \<or> released_by p y" for y using deferred.prems(1) deferred.hyps(1) by (auto simp: process_ok_def)
  have "y \<in> set xs \<or> released_by p' y" for y using all [of y] step(2) by auto
  then show ?case using step deferred.prems(1) by (simp add: process_ok_def)
next
  case (deferred_blocks p x xs ret e p')
  have ok: "server_ok (daemon_observer rx) (pr_server p)" using deferred_blocks.prems by (simp add: process_ok_def)
  show ?case using do_deferred_ok [OF deferred_blocks.hyps(2) ok] deferred_blocks.prems(1) by (simp add: process_ok_def)
next
  case (returns p ret)
  then show ?case by (simp add: process_ok_def)
next
  case (bootstrap p closed e r)
  then show ?case by (simp add: bootstrap_turn_ok)
next
  case (watch_begins p e v)
  then show ?case by (simp add: watch_begin_ok)
next
  case (watch_turns p wt ev e v)
  then show ?case by (simp add: watch_turn_ok)
next
  case (api_begins p fs)
  show ?case by (rule process_okI [OF api_begins.prems(1)])
      (use api_begins in \<open>auto simp: api_begin_def send_err_def process_ok_def split: sum.split\<close>)
next
  case (api_ends p closed err)
  show ?case by (rule process_okI [OF api_ends.prems(1)])
      (use api_ends in \<open>auto simp: api_error_def send_err_def process_ok_def Let_def\<close>)
next
  case (handles p s')
  have "server_ok (daemon_observer rx) s'"
    by (rule handler_step_ok [OF handles.hyps]) (use handles.prems in \<open>simp add: process_ok_def\<close>)
  then show ?case using handles.prems by (simp add: process_ok_def)
next
  case (proxy_ends e err p r s')
  have "server_ok (daemon_observer rx) s'"
    by (rule quiet_server_ok [OF quietI [OF quiet_proxy_fails proxy_ends.hyps]]) (use proxy_ends.prems in \<open>simp add: process_ok_def\<close>)
  then show ?case using proxy_ends.prems by (simp add: process_ok_def)
qed

lemma start_process_ok:
  assumes "opts_ok rx opts" and "\<And>n. world_ok (worlds n)"
  shows "process_ok rx (start_process e rx opts (newAdminAPIServer (o_AdminAPI opts) (start_backend worlds listens opts)))"
proof -
  let ?s = "newAdminAPIServer (o_AdminAPI opts) (start_backend worlds listens opts)"
  have "server_reachable rx opts nobody_known ?s" by (rule server_reachable.start [OF assms(2)])
  then have "server_ok (daemon_observer rx) ?s" by (rule server_reachable_ok [OF assms(1)])
  then have "server_ok (daemon_observer rx) (snd (start_socks e rx opts ?s))"
    using quiet_server_ok [OF quietI [OF quiet_start_socks]] by (metis prod.collapse)
  then show ?thesis by (simp add: process_ok_def start_process_def)
qed

lemma process_reachable_ok:
  assumes "opts_ok rx opts" and "process_reachable rx opts db p"
  shows "process_ok rx p"
  using assms(2)
proof (induction rule: process_reachable.induct)
  case (start worlds e listens)
  then show ?case by (rule start_process_ok [OF assms(1)])
next
  case (step p p')
  show ?case by (rule process_step_ok [OF step.hyps(3) step.IH step.hyps(2)])
qed

section \<open>Sending ends when no client blocks\<close>

definition never_blocks :: "net_env \<Rightarrow> bool" where
  "never_blocks e \<longleftrightarrow> (\<forall>log cid msg. ne_write e log cid msg \<noteq> Blocks)"

definition endsA :: "('a, 's) act \<Rightarrow> bool" where
  "endsA m \<longleftrightarrow> (\<forall>s. \<exists>x s'. m s = (Some x, s'))"

lemma endsA_return [intro]: "endsA (returnA x)"
  by (simp add: endsA_def returnA_def)

lemma endsA_bind [intro]: "endsA m \<Longrightarrow> (\<And>x. endsA (f x)) \<Longrightarrow> endsA (bindA m f)"
  unfolding endsA_def bindA_def by (metis (mono_tags, lifting) old.prod.case option.simps(5))

lemma endsA_on_backend [intro]: "endsA (on_backend f)"
  by (simp add: endsA_def on_backend_def split: prod.split)

lemma ends_send: "never_blocks e \<Longrightarrow> endsA (client_send e cid msg)"
  by (auto simp: endsA_def client_send_def never_blocks_def split: sum.split outcome.split)

lemma ends_send_each: "never_blocks e \<Longrightarrow> endsA (send_each e msg ids)"
  by (induction ids) (auto intro: ends_send)

lemma ends_error: "never_blocks e \<Longrightarrow> endsA (notifyError e n)"
  using ends_send_each [of e] by (auto simp: endsA_def notifyError_def notifyNotification_def Let_def split: sum.split)

lemma ends_errors: "never_blocks e \<Longrightarrow> endsA (notifyErrors e ns)"
  by (induction ns) (auto intro: ends_error)

lemma ends_snapshot: "never_blocks e \<Longrightarrow> endsA (configSnapshot_server e snap)"
proof -
  assume nb: "never_blocks e"
  show ?thesis unfolding endsA_def
  proof
    fix s
    obtain cfg ns b where snap: "snap (clientSnapshot s) (sv_backend s) = ((cfg, ns), b)" by (metis prod.collapse)
    have "\<exists>x s'. bindA (notifyErrors e ns) (\<lambda>_. returnA cfg) (s\<lparr>sv_backend := b\<rparr>) = (Some x, s')"
      using endsA_bind [of "notifyErrors e ns" "\<lambda>_. returnA cfg", OF ends_errors [OF nb] endsA_return] unfolding endsA_def by blast
    then show "\<exists>x s'. configSnapshot_server e snap s = (Some x, s')" by (simp add: configSnapshot_server_def snap)
  qed
qed

lemma ends_notify: "never_blocks e \<Longrightarrow> endsA (server_notify e snap ev)"
proof -
  assume nb: "never_blocks e"
  have "endsA (bindA (configSnapshot_server e snap) (\<lambda>cfg. send_each e (msg cfg) ids))" for msg ids
    using ends_snapshot [OF nb] ends_send_each [OF nb] by blast
  then show ?thesis by (simp add: endsA_def server_notify_def Let_def)
qed

lemma ends_notify_all: "never_blocks e \<Longrightarrow> endsA (notify_all e rx evs)"
  by (induction evs) (auto intro: ends_notify)

lemma ends_emit: "never_blocks e \<Longrightarrow> endsA (emit_states e rx sts)"
  by (induction sts) (auto intro!: endsA_bind ends_notify ends_errors)

section \<open>The manager while events are sent\<close>

definition manager_observer :: "egressManager \<Rightarrow> (nat \<Rightarrow> world) \<Rightarrow> socksProxyManager \<Rightarrow> backend observer" where
  "manager_observer m ws pm = \<lparr>ob_inv = (\<lambda>b. dm_manager (bk_daemon b) = m \<and> bk_worlds b = ws \<and> bk_proxy b = pm),
     ob_forced = (\<lambda>_ _. False), ob_tmp = (\<lambda>_ _. False)\<rparr>"

lemma manager_observer_sel [simp]:
  "ob_inv (manager_observer m ws pm) b \<longleftrightarrow> dm_manager (bk_daemon b) = m \<and> bk_worlds b = ws \<and> bk_proxy b = pm"
  "ob_forced (manager_observer m ws pm) = (\<lambda>_ _. False)" "ob_tmp (manager_observer m ws pm) = (\<lambda>_ _. False)"
  by (simp_all add: manager_observer_def)

interpretation same_manager: snapshot_backend e "daemon_snapshot rx" "manager_observer m ws pm" for e rx m ws pm
  by unfold_locales (auto simp: daemon_snapshot_def on_daemon_eq)

lemma onStateChanged_manager: "dm_manager (snd (onStateChanged rx w st d)) = dm_manager d"
  by (auto simp: onStateChanged_def reconcile_policies_def split: prod.split)

lemma emit_manager: "quietA (manager_observer m ws pm) (emit_states e rx sts)"
proof (induction sts)
  case (Cons st sts)
  have "quietA (manager_observer m ws pm) (on_backend (on_daemon (\<lambda>w. onStateChanged rx w st)))"
    by (rule quiet_on_backend) (auto simp: on_daemon_eq dest!: arg_cong [where f = snd] simp: onStateChanged_manager)
  with Cons show ?case by (auto intro: same_manager.quiet_errors same_manager.quiet_notify)
qed auto

lemma notify_all_manager: "quietA (manager_observer m ws pm) (notify_all e rx evs)"
  by (induction evs) (auto intro: same_manager.quiet_notify)

section \<open>How the main goroutine ends\<close>

definition pr_backend :: "process \<Rightarrow> backend" where
  "pr_backend p = sv_backend (pr_server p)"

definition pr_manager :: "process \<Rightarrow> egressManager" where
  "pr_manager p = dm_manager (bk_daemon (pr_backend p))"

lemma quiet_manager:
  assumes "quietA (manager_observer (dm_manager (bk_daemon (sv_backend s))) (bk_worlds (sv_backend s)) (bk_proxy (sv_backend s))) m"
    and "m s = (r, s')"
  shows "dm_manager (bk_daemon (sv_backend s')) = dm_manager (bk_daemon (sv_backend s))" "bk_worlds (sv_backend s') = bk_worlds (sv_backend s)"
    "bk_proxy (sv_backend s') = bk_proxy (sv_backend s)" "sv_clients s' = sv_clients s"
  using quietI [OF assms] by (auto simp: quiet_def)

lemma proxy_Close_manager:
  assumes "proxy_Close e rx s = (r, s')"
  shows "dm_manager (bk_daemon (sv_backend s')) = dm_manager (bk_daemon (sv_backend s))" "bk_worlds (sv_backend s') = bk_worlds (sv_backend s)"
    "bk_proxy (sv_backend s') = snd (Close (bk_proxy (sv_backend s)))"
proof -
  obtain ef m where c: "Close (bk_proxy (sv_backend s)) = (ef, m)" by fastforce
  let ?s1 = "s\<lparr>sv_backend := (sv_backend s)\<lparr>bk_proxy := m\<rparr>\<rparr>"
  have run: "emit_states e rx (ef_emitted ef) ?s1 = (r, s')"
    using assms by (simp add: proxy_Close_def bindA_def on_backend_def close_proxy_def c)
  note q = quiet_manager [OF emit_manager run]
  show "dm_manager (bk_daemon (sv_backend s')) = dm_manager (bk_daemon (sv_backend s))" "bk_worlds (sv_backend s') = bk_worlds (sv_backend s)"
    "bk_proxy (sv_backend s') = snd (Close (bk_proxy (sv_backend s)))"
    using q by (simp_all add: c)
qed

lemma ends_proxy_Close: "never_blocks e \<Longrightarrow> endsA (proxy_Close e rx)"
  unfolding proxy_Close_def by (intro endsA_bind endsA_on_backend ends_emit)

lemma run_deferred_all:
  assumes "never_blocks e" and "\<And>n. world_ok (bk_worlds (pr_backend p) n)"
    and "\<And>n i. \<not> ae_close_fails (w_attach (bk_worlds (pr_backend p) n)) i"
  shows "\<exists>p'. run_deferred e rx all_deferred p = (Some (), p') \<and> (\<forall>x. released_by p' x) \<and>
    em_attached (pr_manager p') = fmempty \<and> em_links (pr_manager p') = em_links (pr_manager p) |-| fmdom (em_attached (pr_manager p)) \<and>
    spm_listener (bk_proxy (pr_backend p')) = None \<and> \<not> ss_Running (State (bk_proxy (pr_backend p')))"
proof -
  obtain s1 where s1: "proxy_Close e rx (pr_server p) = (Some (), s1)"
    using ends_proxy_Close [OF assms(1), of rx] unfolding endsA_def by (metis (full_types) old.unit.exhaust)
  note q = proxy_Close_manager [OF s1]
  let ?b = "sv_backend s1"
  let ?ae = "w_attach (bk_worlds ?b (bk_calls ?b))"
  let ?d = "(bk_daemon ?b)\<lparr>dm_manager := em_close ?ae (dm_manager (bk_daemon ?b))\<rparr>"
  let ?s2 = "s1\<lparr>sv_backend := ?b\<lparr>bk_daemon := ?d, bk_calls := Suc (bk_calls ?b)\<rparr>\<rparr>"
  let ?p' = "p\<lparr>pr_server := ?s2, pr_reader := False, pr_done := True, pr_signals := False, pr_objs := False\<rparr>"
  have ae: "attach_env_ok ?ae" "\<And>i. \<not> ae_close_fails ?ae i" using assms(2,3) q(2) by (simp_all add: pr_backend_def world_ok_def)
  have run: "run_deferred e rx all_deferred p = (Some (), ?p')"
    by (simp add: all_deferred_def bindA_def on_server_def s1 close_manager_def on_backend_def on_daemon_def returnA_def)
  have "released_by ?p' x" for x by (cases x) simp_all
  moreover have m: "pr_manager ?p' = em_close ?ae (pr_manager p)" by (simp add: pr_manager_def pr_backend_def q)
  moreover have "em_links (em_close ?ae (pr_manager p)) = em_links (pr_manager p) |-| fmdom (em_attached (pr_manager p))"
    by (rule fset_inject [THEN iffD1]) (auto simp: em_close_spec(2) [OF ae(1)] ae(2))
  ultimately show ?thesis
    using run em_close_spec(1) [OF ae(1)]
    by (intro exI [of _ ?p']) (simp add: pr_backend_def q(3) Close_def stop_def stop_section_def State_def Let_def)
qed

text \<open>Each emission tells the subscribers of \<open>config\<close>.\<close>

lemma emit_blocks:
  assumes "fmlookup (sv_clients s) cid = Some c" and "''config'' |\<in>| cl_eventTypes c" and "\<And>log em. ne_write e log cid (EventMessage em) = Blocks"
  shows "fst (emit_states e rx (st # sts) s) = None"
proof -
  obtain ns b where b: "on_daemon (\<lambda>w. onStateChanged rx w st) (sv_backend s) = (ns, b)" by fastforce
  let ?s1 = "s\<lparr>sv_backend := b\<rparr>"
  obtain r s2 where n: "notifyErrors e ns ?s1 = (r, s2)" by fastforce
  show ?thesis
  proof (cases r)
    case None
    then show ?thesis by (simp add: bindA_def on_backend_def b n)
  next
    case (Some u)
    have "sv_clients s2 = sv_clients s" using quiet_manager(4) [OF same_manager.quiet_errors n] by simp
    then have "fst (server_notify e (daemon_snapshot rx) ''config'' s2) = None"
      using notify_blocks assms by metis
    then obtain s3 where "server_notify e (daemon_snapshot rx) ''config'' s2 = (None, s3)" by (metis prod.collapse)
    then show ?thesis using Some by (simp add: bindA_def on_backend_def b n)
  qed
qed

lemma run_deferred_blocked:
  assumes "fmlookup (sv_clients (pr_server p)) cid = Some c" and "''config'' |\<in>| cl_eventTypes c"
    and "\<And>log em. ne_write e log cid (EventMessage em) = Blocks"
  shows "\<exists>s. run_deferred e rx all_deferred p = (None, p\<lparr>pr_server := s\<rparr>) \<and> pr_manager (p\<lparr>pr_server := s\<rparr>) = pr_manager p"
proof -
  obtain r s where run: "proxy_Close e rx (pr_server p) = (r, s)" by fastforce
  obtain ef m where c: "Close (bk_proxy (sv_backend (pr_server p))) = (ef, m)" by fastforce
  then obtain st where st: "ef_emitted ef = [st]" by (auto simp: Close_def stop_def split: prod.splits)
  have "fst (proxy_Close e rx (pr_server p)) = None"
    using emit_blocks [of "(pr_server p)\<lparr>sv_backend := (sv_backend (pr_server p))\<lparr>bk_proxy := m\<rparr>\<rparr>" cid c e rx st "[]"] assms
    by (simp add: proxy_Close_def bindA_def on_backend_def close_proxy_def c st del: emit_states.simps)
  then have "r = None" using run by simp
  then have "run_deferred e rx all_deferred p = (None, p\<lparr>pr_server := s\<rparr>)"
    by (simp add: all_deferred_def bindA_def on_server_def run)
  then show ?thesis using proxy_Close_manager(1) [OF run] by (auto simp: pr_manager_def pr_backend_def)
qed

text \<open>A step of another goroutine does not wake the main goroutine.\<close>

lemma turn_main [simp]:
  "pr_main (bootstrap_turn e closed r p) = pr_main p" "pr_signals (bootstrap_turn e closed r p) = pr_signals p"
  "pr_main (watch_begin e rx sub p) = pr_main p" "pr_signals (watch_begin e rx sub p) = pr_signals p"
  "pr_main (watch_turn e rx resub ev wt p) = pr_main p" "pr_signals (watch_turn e rx resub ev wt p) = pr_signals p"
  "pr_main (api_begin fs p) = pr_main p" "pr_signals (api_begin fs p) = pr_signals p"
  "pr_main (api_error closed err p) = pr_main p" "pr_signals (api_error closed err p) = pr_signals p"
  by (simp_all add: bootstrap_turn_def watch_begin_def watch_turn_def api_begin_def api_error_def on_server_def send_err_def Let_def
      split: prod.split option.split sum.split)

lemma main_stays_blocked:
  assumes "(process_step rx db)\<^sup>*\<^sup>* p p'" and "pr_main p = MainBlocked"
  shows "pr_main p' = MainBlocked \<and> pr_signals p' = pr_signals p"
  using assms
proof (induction rule: rtranclp_induct)
  case (step y z)
  then show ?case by (auto elim!: process_step.cases)
qed simp

lemma startup_attach:
  assumes "world_ok w" and "selectedInterfaces rx (w_links_egress w) (pm_opts (dm_policies d)) = Inr sel" and "dm_manager d = newEgressManager"
    and "iface \<in> set sel" and "ae_attach_fails (w_attach w) (ii_Index iface)" and "watch_reconcile rx w True ni d = (errs, evs, d')"
  shows "errs \<noteq> []" and "em_links (dm_manager d') = fmdom (em_attached (dm_manager d'))"
    and "fset (fmdom (em_attached (dm_manager d'))) = {i \<in> ii_Index ` set sel. \<not> ae_attach_fails (w_attach w) i}"
proof -
  obtain m c es where run: "em_reconcile (w_attach w) sel True newEgressManager = (m, c, es)" by (metis prod_cases3)
  have ae: "attach_env_ok (w_attach w)" using assms(1) by (simp add: world_ok_def)
  note spec = em_reconcile_spec [OF ae run]
  have dom: "fset (fmdom (em_attached m)) = {i \<in> ii_Index ` set sel. \<not> ae_attach_fails (w_attach w) i}"
    using spec(1) by (simp add: newEgressManager_def)
  have links: "fset (em_links m) = fset (fmdom (em_attached m))" using spec(3) dom by (auto simp: newEgressManager_def)
  then have links: "em_links m = fmdom (em_attached m)" by (rule fset_inject [THEN iffD1])
  have es: "es \<noteq> []" using spec(4) dom assms(4,5) by auto
  have eg: "reconcile_egress rx w (pm_opts (dm_policies d)) True d = (c, es, d\<lparr>dm_manager := m\<rparr>)"
    by (simp add: reconcile_egress_def em_reconcileCurrent_def assms(2,3) run)
  obtain pr d2 where pol: "reconcile_policies rx w (d\<lparr>dm_manager := m\<rparr>) = (pr, d2)" by fastforce
  have d': "d' = d2" "\<exists>rest. errs = es @ rest"
    using assms(6) by (auto simp: watch_reconcile_def optionsSnapshot_def eg pol Let_def)
  have "dm_manager d2 = m" using pol by (auto simp: reconcile_policies_def split: prod.splits)
  then show "em_links (dm_manager d') = fmdom (em_attached (dm_manager d'))"
    "fset (fmdom (em_attached (dm_manager d'))) = {i \<in> ii_Index ` set sel. \<not> ae_attach_fails (w_attach w) i}"
    using d'(1) links dom by simp_all
  show "errs \<noteq> []" using d'(2) es by auto
qed

section \<open>Properties\<close>


definition example_process :: process where
  "example_process = start_process free_net example_rx example_options example_server"

lemma example_process_reachable: "process_reachable example_rx example_options nobody_known (example_process\<lparr>pr_done := True\<rparr>)"
proof (rule process_reachable.step)
  show "process_reachable example_rx example_options nobody_known example_process"
    unfolding example_process_def example_server_def by (rule process_reachable.start) (rule calm_world_ok)
  show "alive example_process" by (simp add: alive_def example_process_def start_process_def)
  show "process_step example_rx nobody_known example_process (example_process\<lparr>pr_done := True\<rparr>)"
    by (rule process_step.signal) (simp add: example_process_def start_process_def)
qed

lemma example_process_worlds: "bk_worlds (pr_backend (example_process\<lparr>pr_done := True\<rparr>)) n = calm_world"
  by (simp add: example_process_def start_process_def start_socks_def example_options_def returnA_def pr_backend_def example_server_def
      newAdminAPIServer_def start_backend_def)




text \<open>C28: a client that subscribes to configuration events and does not read them stops the shutdown: closing the proxy, the first of the deferred
  calls, tells the clients of its state and never returns. The program stays attached to every interface, the objects stay open, and signals are
  still caught, so that another \<open>SIGTERM\<close> does not end the process.\<close>

theorem blocked_client_stops_shutdown:
  assumes "fmlookup (sv_clients (pr_server p)) cid = Some c" and "''config'' |\<in>| cl_eventTypes c"
    and "\<And>log em. ne_write e log cid (EventMessage em) = Blocks" and "run_deferred e rx all_deferred p = (r, p')"
  shows "r = None \<and> pr_manager p' = pr_manager p \<and> pr_objs p' = pr_objs p \<and>
    ((process_step rx db)\<^sup>*\<^sup>* (p'\<lparr>pr_main := MainBlocked\<rparr>) q \<longrightarrow> pr_main q = MainBlocked \<and> pr_signals q = pr_signals p)"
proof -
  obtain s where s: "run_deferred e rx all_deferred p = (None, p\<lparr>pr_server := s\<rparr>)" "pr_manager (p\<lparr>pr_server := s\<rparr>) = pr_manager p"
    using run_deferred_blocked [OF assms(1-3)] by blast
  then have "r = None" "p' = p\<lparr>pr_server := s\<rparr>" using assms(4) by simp_all
  then show ?thesis using s(2) main_stays_blocked [of rx db "p'\<lparr>pr_main := MainBlocked\<rparr>" q] by auto
qed

lemma blocked_client_stops_shutdown_witness:
  "\<exists>p. pr_main p = Selecting \<and> pr_done p \<and> fst (run_deferred deaf_net example_rx all_deferred p) = None"
proof -
  let ?c = "\<lparr>cl_id = 1, cl_owner = [], cl_peer = \<lparr>peer_UID = 0, peer_GID = 0, peer_PID = 7\<rparr>, cl_eventTypes = {|''config''|}\<rparr>"
  let ?p = "example_process\<lparr>pr_done := True, pr_server := example_server\<lparr>sv_clients := fmupd 1 ?c fmempty\<rparr>\<rparr>"
  have "fmlookup (sv_clients (pr_server ?p)) 1 = Some ?c" by simp
  from blocked_client_stops_shutdown [OF this, of deaf_net example_rx] have "fst (run_deferred deaf_net example_rx all_deferred ?p) = None"
    by (simp add: deaf_net_def del: run_deferred.simps) (metis prod.collapse)
  then show ?thesis by (intro exI [of _ ?p]) (simp add: example_process_def start_process_def)
qed

text \<open>C29: when one of the selected interfaces cannot be attached at startup, the others are attached first, but then the watcher fails, \<open>run\<close> returns
  its error, and no interface is protected any more.\<close>

theorem failed_startup_protects_nothing:
  assumes "never_blocks e" and "\<And>n. world_ok (bk_worlds (pr_backend p) n)"
    and "\<And>n i. \<not> ae_close_fails (w_attach (bk_worlds (pr_backend p) n)) i"
    and "w = bk_worlds (pr_backend p) (bk_calls (pr_backend p))" and "pr_manager p = newEgressManager" and "\<not> pr_done p" and "pr_errCh p = []"
    and "selectedInterfaces rx (w_links_egress w) (pm_opts (dm_policies (bk_daemon (pr_backend p)))) = Inr sel"
    and "iface \<in> set sel" and "ae_attach_fails (w_attach w) (ii_Index iface)"
  shows "fset (em_links (pr_manager (watch_begin e rx None p))) = {i \<in> ii_Index ` set sel. \<not> ae_attach_fails (w_attach w) i} \<and>
    (\<exists>errs p1 p'. main_select (watch_begin e rx None p) = [(errs, p1)] \<and> errs \<noteq> [] \<and>
      run_deferred e rx all_deferred p1 = (Some (), p') \<and> em_links (pr_manager p') = {||})"
proof -
  let ?b = "sv_backend (pr_server p)"
  obtain errs evs d' where wr: "watch_reconcile rx w True True (bk_daemon ?b) = (errs, evs, d')" by (metis prod_cases3)
  have w: "world_ok w" using assms(2,4) by simp
  note att = startup_attach [OF w assms(8) [unfolded pr_backend_def] assms(5) [unfolded pr_manager_def pr_backend_def] assms(9,10) wr]
  let ?s1 = "(pr_server p)\<lparr>sv_backend := ?b\<lparr>bk_daemon := d', bk_calls := Suc (bk_calls ?b)\<rparr>\<rparr>"
  obtain s2 where s2: "notify_all e rx evs ?s1 = (Some (), s2)"
    using ends_notify_all [OF assms(1), of rx evs] unfolding endsA_def by (metis (full_types) old.unit.exhaust)
  note q = quiet_manager [OF notify_all_manager s2]
  have begin': "watch_begin e rx None p = (send_err errs (p\<lparr>pr_server := s2\<rparr>))\<lparr>pr_watch := Ended\<rparr>"
    using att(1) by (simp add: watch_begin_def watch_begin_act_def on_server_def bindA_def on_backend_def on_daemon_def watch_start_def wr s2
        returnA_def assms(4) [unfolded pr_backend_def, symmetric])
  let ?p1 = "p\<lparr>pr_server := s2, pr_errCh := [], pr_watch := Ended, pr_done := True\<rparr>"
  have sel: "main_select (watch_begin e rx None p) = [(errs, ?p1)]"
    by (simp add: begin' main_select_def send_err_def assms(6,7))
  have b: "bk_worlds (pr_backend ?p1) = bk_worlds (pr_backend p)" "pr_manager ?p1 = dm_manager d'"
    using q by (simp_all add: pr_backend_def pr_manager_def)
  obtain p' where p': "run_deferred e rx all_deferred ?p1 = (Some (), p')"
    "em_links (pr_manager p') = em_links (pr_manager ?p1) |-| fmdom (em_attached (pr_manager ?p1))"
    using run_deferred_all [OF assms(1), of ?p1 rx] assms(2,3) unfolding b(1) by blast
  moreover have "em_links (pr_manager (watch_begin e rx None p)) = em_links (dm_manager d')"
    using b(2) by (simp add: begin' pr_manager_def pr_backend_def send_err_def)
  ultimately show ?thesis using sel att b(2) by auto
qed


definition one_fails :: world where
  "one_fails = calm_world\<lparr>w_attach := calm_attach\<lparr>ae_attach_fails := (\<lambda>i. i = 2)\<rparr>,
     w_links_egress := Inr (map (\<lambda>a. \<lparr>nl_Attrs = Some a, nl_Type = ''device'', nl_Addrs = Inr [], nl_Routes = Inr [], nl_Neighs = Inr [],
       nl_IWOutput = None\<rparr>) [(1, ''eth0''), (2, ''wlan0'')])\<rparr>"

lemma one_fails_selected: "\<exists>iface sel. selectedInterfaces example_rx (w_links_egress one_fails) example_options = Inr sel \<and> iface \<in> set sel \<and> ii_Index iface = 2"
proof -
  have "selectedInterfaces example_rx (w_links_egress one_fails) example_options =
      Inr [example_iface 1 ''eth0'' ''device'', example_iface 2 ''wlan0'' ''device'']"
    by code_simp
  then show ?thesis by (intro exI [of _ "example_iface 2 ''wlan0'' ''device''"]) (simp add: example_iface_def)
qed

lemma failed_startup_protects_nothing_witness:
  "\<exists>p p1 p' errs. main_select (watch_begin free_net example_rx None p) = [(errs, p1)] \<and> errs \<noteq> [] \<and>
     run_deferred free_net example_rx all_deferred p1 = (Some (), p') \<and> em_links (pr_manager p') = {||}"
proof -
  let ?s = "newAdminAPIServer (o_AdminAPI example_options) (start_backend (\<lambda>_. one_fails) (\<lambda>_. free_port) example_options)"
  let ?p = "start_process free_net example_rx example_options ?s"
  have s: "pr_server ?p = ?s" by (simp add: start_process_def start_socks_def example_options_def returnA_def)
  have w: "bk_worlds (pr_backend ?p) n = one_fails" for n
    unfolding pr_backend_def s by (simp add: newAdminAPIServer_def start_backend_def)
  have opts: "pr_manager ?p = newEgressManager" "pm_opts (dm_policies (bk_daemon (pr_backend ?p))) = example_options"
    unfolding pr_manager_def pr_backend_def s by (simp_all add: newAdminAPIServer_def start_backend_def start_daemon_def newPolicyManager_def)
  obtain iface sel where sel: "selectedInterfaces example_rx (w_links_egress one_fails) example_options = Inr sel" "iface \<in> set sel" "ii_Index iface = 2"
    using one_fails_selected by blast
  have nb: "never_blocks free_net" by (simp add: never_blocks_def free_net_def)
  have ok: "world_ok (bk_worlds (pr_backend ?p) n)" "\<not> ae_close_fails (w_attach (bk_worlds (pr_backend ?p) n)) i" for n i
    unfolding w using calm_world_ok by (simp_all add: one_fails_def world_ok_def attach_env_ok_def calm_world_def calm_attach_def)
  have idle: "\<not> pr_done ?p" "pr_errCh ?p = []" by (simp_all add: start_process_def)
  show ?thesis
    using failed_startup_protects_nothing [OF nb ok refl opts(1) idle] sel unfolding w opts(2) by (fastforce simp: one_fails_def)
qed

text \<open>an error of the present subscription that comes while the channel still holds an error of an older one is lost: the loop takes the old
  error and goes on without subscribing again, although closing the old subscription is itself what makes its sockets fail.\<close>

theorem netlink_error_lost:
  assumes "wt_generation wt = g + 1" and "queue = errCallback g stale []"
  shows "errCallback (g + 1) err queue = queue \<and> queue = [(g, stale)] \<and> watch_step rx w resub (SubscribeError g stale) (wt, d) = (None, [], wt, d)"
  using assms by (simp add: errCallback_def watch_step_def)

lemma netlink_error_lost_witness:
  "watch_step example_rx calm_world None (SubscribeError 0 (Lib ''closed'')) (new_watcher, start_daemon example_options) =
     (None, [], new_watcher, start_daemon example_options)"
  using netlink_error_lost [of new_watcher 0 "[(0, Lib ''closed'')]" "Lib ''closed''"] by (simp add: new_watcher_def errCallback_def)

end
