(* ===== verification/SocksDial.thy ===== *)
theory SocksDial
  imports SocksProxy EgressProg
begin

text \<open>
  The sockets of the SOCKS proxy (\<open>protectedSocksServer\<close> and what it uses in \<open>cmd/killswitch/socks_proxy.go\<close>): dialling, listening and the
  resolver, each with the control function that sets the mark. The dialer of the package \<open>net\<close> is modelled as far as the code relies on it: it
  resolves a name with the resolver it is given, which dials the name server, and it runs the control function on a socket before it is used.
\<close>

section \<open>Sockets\<close>

record socket =
  sk_network :: string
  sk_address :: string
  sk_mark :: "u32 option"

text \<open>
  What the system answers: the control of a raw connection, \<open>SO_MARK\<close>, the hosts file, the name servers of the system, the answer of a server
  to a name, and connecting or listening, which says whether the connection is one of packets.
\<close>

record dial_world =
  dw_Control :: "error option"
  dw_SetsockoptInt :: "int \<Rightarrow> error option"
  dw_hosts :: "string \<Rightarrow> string option"
  dw_nameserver :: string
  dw_answer :: "string \<Rightarrow> string \<Rightarrow> string res"
  dw_open :: "string \<Rightarrow> string \<Rightarrow> bool res"

text \<open>The mark the socket has then.\<close>

definition socketMarkControl :: "u32 \<Rightarrow> dial_world \<Rightarrow> u32 res" where
  "socketMarkControl mark w = (case dw_Control w of
      Some err \<Rightarrow> Inl err
    | None \<Rightarrow> (case dw_SetsockoptInt w (uint mark) of Some err \<Rightarrow> Inl err | None \<Rightarrow> Inr (word_of_int (uint mark))))"

text \<open>The address the resolver dials, from the one of the system's name server.\<close>

record resolver =
  rs_mark :: u32
  rs_address :: "string \<Rightarrow> string"

record netDialer =
  nd_Control :: "dial_world \<Rightarrow> u32 res"
  nd_Resolver :: "resolver option"

definition protectedNetDialer :: "u32 \<Rightarrow> netDialer" where
  "protectedNetDialer mark = \<lparr>nd_Control = socketMarkControl mark, nd_Resolver = None\<rparr>"

definition open_socket :: "dial_world \<Rightarrow> (dial_world \<Rightarrow> u32 res) \<Rightarrow> string \<Rightarrow> string \<Rightarrow> bool res \<times> socket list" where
  "open_socket w control network address = (case control w of
      Inl err \<Rightarrow> (Inl err, [])
    | Inr mark \<Rightarrow> (dw_open w network address, [\<lparr>sk_network = network, sk_address = address, sk_mark = Some mark\<rparr>]))"

definition needs_lookup :: "string \<Rightarrow> bool" where
  "needs_lookup host \<longleftrightarrow> host \<noteq> [] \<and> (case ParseAddr host of Inl _ \<Rightarrow> True | Inr _ \<Rightarrow> False)"

text \<open>
  \<open>DialContext\<close>: what it returns and the sockets that were used, in their order. \<open>None\<close> is a lookup that waits for itself. The dialer of the
  resolver is the one that was given the resolver.
\<close>

fun DialContext :: "dial_world \<Rightarrow> nat \<Rightarrow> netDialer \<Rightarrow> string \<Rightarrow> string \<Rightarrow> (bool res \<times> socket list) option" where
  "DialContext w 0 d network address = None"
| "DialContext w (Suc n) d network address =
     (case net_SplitHostPort address of
        Inl err \<Rightarrow> Some (Inl err, [])
      | Inr (host, port) \<Rightarrow>
          if \<not> needs_lookup host then Some (open_socket w (nd_Control d) network address)
          else case dw_hosts w host of
            Some ip \<Rightarrow> Some (open_socket w (nd_Control d) network (net_JoinHostPort ip port))
          | None \<Rightarrow> (case nd_Resolver d of
              None \<Rightarrow> Some (Inl (Lib ''no such host''), [])
            | Some r \<Rightarrow>
                (let server = rs_address r (dw_nameserver w) in
                 case DialContext w n ((protectedNetDialer (rs_mark r))\<lparr>nd_Resolver := Some r\<rparr>) ''udp'' server of
                   None \<Rightarrow> None
                 | Some (Inl err, sks) \<Rightarrow> Some (Inl (Wrap ''lookup %s'' [host] err), sks)
                 | Some (Inr _, sks) \<Rightarrow> (case dw_answer w server host of
                     Inl err \<Rightarrow> Some (Inl err, sks)
                   | Inr ip \<Rightarrow> (case open_socket w (nd_Control d) network (net_JoinHostPort ip port) of
                       (res, sks') \<Rightarrow> Some (res, sks @ sks'))))))"

section \<open>The server\<close>

definition dns_address :: "socksProxyOptions \<Rightarrow> string \<Rightarrow> string" where
  "dns_address opts address = (if so_DNSServer opts \<noteq> [] then dnsServerAddress (so_DNSServer opts) else address)"

text \<open>The result of a packet function: the connection must be one of packets.\<close>

definition packet_result :: "string \<Rightarrow> string \<Rightarrow> bool res \<times> socket list \<Rightarrow> bool res \<times> socket list" where
  "packet_result what network r = (case r of
      (Inl err, sks) \<Rightarrow> (Inl err, sks)
    | (Inr True, sks) \<Rightarrow> (Inr True, sks)
    | (Inr False, sks) \<Rightarrow> (Inl (Errf (''%s '' @ what @ '' did not return packet connection'') [network]), sks))"

definition protectedPacketDialer :: "u32 \<Rightarrow> resolver \<Rightarrow> dial_world \<Rightarrow> nat \<Rightarrow> string \<Rightarrow> string \<Rightarrow> (bool res \<times> socket list) option" where
  "protectedPacketDialer mark r w n network address =
     map_option (packet_result ''dial'' network) (DialContext w n ((protectedNetDialer mark)\<lparr>nd_Resolver := Some r\<rparr>) network address)"

definition protectedListener :: "u32 \<Rightarrow> dial_world \<Rightarrow> string \<Rightarrow> string \<Rightarrow> bool res \<times> socket list" where
  "protectedListener mark w network address = open_socket w (socketMarkControl mark) network address"

definition protectedPacketListener :: "u32 \<Rightarrow> dial_world \<Rightarrow> string \<Rightarrow> string \<Rightarrow> bool res \<times> socket list" where
  "protectedPacketListener mark w network address = packet_result ''listen'' network (open_socket w (socketMarkControl mark) network address)"

record socksServer =
  srv_Dialer :: netDialer
  srv_PacketDialer :: "dial_world \<Rightarrow> nat \<Rightarrow> string \<Rightarrow> string \<Rightarrow> (bool res \<times> socket list) option"
  srv_Listener :: "dial_world \<Rightarrow> string \<Rightarrow> string \<Rightarrow> bool res \<times> socket list"
  srv_PacketListener :: "dial_world \<Rightarrow> string \<Rightarrow> string \<Rightarrow> bool res \<times> socket list"

definition protectedSocksServer :: "socksProxyOptions \<Rightarrow> socksServer" where
  "protectedSocksServer opts =
     (let resolver = \<lparr>rs_mark = so_FWMark opts, rs_address = dns_address opts\<rparr> in
      \<lparr>srv_Dialer = (protectedNetDialer (so_FWMark opts))\<lparr>nd_Resolver := Some resolver\<rparr>,
       srv_PacketDialer = protectedPacketDialer (so_FWMark opts) resolver,
       srv_Listener = protectedListener (so_FWMark opts), srv_PacketListener = protectedPacketListener (so_FWMark opts)\<rparr>)"

text \<open>What the commands of the SOCKS protocol ask of the server.\<close>

datatype socks_call = DialCall string string | PacketDialCall string string | ListenCall string string | PacketListenCall string string

fun serve_call :: "dial_world \<Rightarrow> nat \<Rightarrow> socksServer \<Rightarrow> socks_call \<Rightarrow> (bool res \<times> socket list) option" where
  "serve_call w n srv (DialCall network address) = DialContext w n (srv_Dialer srv) network address"
| "serve_call w n srv (PacketDialCall network address) = srv_PacketDialer srv w n network address"
| "serve_call w n srv (ListenCall network address) = Some (srv_Listener srv w network address)"
| "serve_call w n srv (PacketListenCall network address) = Some (srv_PacketListener srv w network address)"

section \<open>Marks\<close>

lemma mark_control: "socketMarkControl mark w = Inr m \<Longrightarrow> m = mark"
  by (auto simp: socketMarkControl_def split: option.splits)

lemma open_socket_marks: "open_socket w (socketMarkControl mark) network address = (res, sks) \<Longrightarrow> sk \<in> set sks \<Longrightarrow> sk_mark sk = Some mark"
  by (auto simp: open_socket_def dest: mark_control split: sum.splits)

definition marked_dialer :: "u32 \<Rightarrow> netDialer \<Rightarrow> bool" where
  "marked_dialer mark d \<longleftrightarrow> nd_Control d = socketMarkControl mark \<and> (\<forall>r. nd_Resolver d = Some r \<longrightarrow> rs_mark r = mark)"

lemma dial_marks:
  assumes "marked_dialer mark d" and "DialContext w n d network address = Some (res, sks)" and "sk \<in> set sks"
  shows "sk_mark sk = Some mark"
  using assms
proof (induction n arbitrary: d network address res sks sk)
  case (Suc n)
  have ctl: "nd_Control d = socketMarkControl mark" and rs: "\<And>r. nd_Resolver d = Some r \<Longrightarrow> rs_mark r = mark"
    using Suc.prems(1) by (auto simp: marked_dialer_def)
  have sub: "marked_dialer mark ((protectedNetDialer mark)\<lparr>nd_Resolver := Some r\<rparr>)" if "rs_mark r = mark" for r
    using that by (simp add: marked_dialer_def protectedNetDialer_def)
  note leaf = open_socket_marks [of w mark network]
  obtain host port where hp: "net_SplitHostPort address = Inr (host, port)"
    using Suc.prems(2,3) by (cases "net_SplitHostPort address") auto
  show ?case
  proof (cases "\<not> needs_lookup host \<or> dw_hosts w host \<noteq> None \<or> nd_Resolver d = None")
    case True
    then show ?thesis using Suc.prems(2,3) hp ctl leaf by (auto split: if_splits option.splits)
  next
    case False
    then obtain r where r: "needs_lookup host" "dw_hosts w host = None" "nd_Resolver d = Some r" by auto
    let ?server = "rs_address r (dw_nameserver w)"
    let ?d = "(protectedNetDialer (rs_mark r))\<lparr>nd_Resolver := Some r\<rparr>"
    obtain res1 sks1 where run: "DialContext w n ?d ''udp'' ?server = Some (res1, sks1)"
      using Suc.prems(2) hp r by (cases "DialContext w n ?d ''udp'' ?server") (auto simp: Let_def)
    have "marked_dialer mark ?d" using sub rs [OF r(3)] by simp
    then have IH: "sk_mark s = Some mark" if "s \<in> set sks1" for s by (rule Suc.IH [OF _ run that])
    show ?thesis
      using Suc.prems(2,3) hp r run IH leaf ctl by (auto simp: Let_def split: sum.splits prod.splits)
  qed
qed simp

lemma serve_marks:
  assumes "serve_call w n (protectedSocksServer opts) call = Some (res, sks)" and "sk \<in> set sks"
  shows "sk_mark sk = Some (so_FWMark opts)"
proof -
  let ?r = "\<lparr>rs_mark = so_FWMark opts, rs_address = dns_address opts\<rparr>"
  let ?d = "(protectedNetDialer (so_FWMark opts))\<lparr>nd_Resolver := Some ?r\<rparr>"
  have d: "marked_dialer (so_FWMark opts) ?d" by (simp add: marked_dialer_def protectedNetDialer_def)
  have res: "sks = snd x" if "packet_result what network x = (res, sks)" for what network x
    using that by (auto simp: packet_result_def split: prod.splits sum.splits bool.splits)
  show ?thesis
  proof (cases call)
    case (DialCall network address)
    then show ?thesis using dial_marks [OF d] assms by (simp add: protectedSocksServer_def Let_def)
  next
    case (PacketDialCall network address)
    then obtain x where x: "DialContext w n ?d network address = Some x" "packet_result ''dial'' network x = (res, sks)"
      using assms(1) by (auto simp: protectedSocksServer_def protectedPacketDialer_def Let_def)
    then show ?thesis using dial_marks [OF d, of w n network address "fst x" "snd x"] res [OF x(2)] assms(2) by simp
  next
    case (ListenCall network address)
    then show ?thesis using open_socket_marks [of w "so_FWMark opts" network address res sks sk] assms
      by (simp add: protectedSocksServer_def protectedListener_def Let_def)
  next
    case (PacketListenCall network address)
    then have x: "packet_result ''listen'' network (open_socket w (socketMarkControl (so_FWMark opts)) network address) = (res, sks)"
      using assms(1) by (simp add: protectedSocksServer_def protectedPacketListener_def Let_def)
    show ?thesis using open_socket_marks [of w "so_FWMark opts" network address] res [OF x] assms(2) by (metis prod.collapse)
  qed
qed

section \<open>Properties\<close>

lemma running_mark:
  assumes "ss_Running st"
  shows "ss_FWMark st \<in> rs_marks (abs_rules (effectiveAllowRules base active forced tmp [st]))"
  using effectiveAllowRules_le [of base active forced tmp "[st]" "abs_rules (effectiveAllowRules base active forced tmp [st])"] assms
  by (simp add: socks_of_def)

definition one_link :: world where
  "one_link = calm_world\<lparr>w_links_policy := Inr [\<lparr>nl_Attrs = Some (7, ''eth0''), nl_Type = ''device'', nl_Addrs = Inr [], nl_Routes = Inr [],
     nl_Neighs = Inr [], nl_IWOutput = None\<rparr>]\<rparr>"

definition attached_daemon :: daemon where
  "attached_daemon = (start_daemon (example_options\<lparr>o_Rules := no_rules\<lparr>ar_EnableV4 := True\<rparr>\<rparr>))
     \<lparr>dm_manager := \<lparr>em_attached = fmupd 7 (example_iface 7 ''eth0'' ''device'') fmempty, em_links = {|7|}\<rparr>\<rparr>"

definition running_state :: socksProxyState where
  "running_state = no_socksProxyState\<lparr>ss_Running := True, ss_FWMark := 7\<rparr>"

lemma running_reconciles:
  "fst (onStateChanged example_rx one_link running_state attached_daemon) = []"
  "map_option rtc_EnableV4 (fmlookup (km_config (k_maps (dm_kernel (snd (onStateChanged example_rx one_link running_state attached_daemon))))) 7) = Some 1"
  by code_simp+

definition socks_options :: socksProxyOptions where
  "socks_options = (o_SocksProxy example_options)\<lparr>so_FWMark := 7, so_DNSServer := ''dns.example''\<rparr>"

definition example_dial :: dial_world where
  "example_dial = \<lparr>dw_Control = None, dw_SetsockoptInt = (\<lambda>_. None), dw_hosts = (\<lambda>host. if host = ''dns.example'' then Some ''192.0.2.53'' else None),
     dw_nameserver = ''127.0.0.53:53'', dw_answer = (\<lambda>server host. Inr ''192.0.2.1''), dw_open = (\<lambda>network address. Inr True)\<rparr>"

lemma example_dial_run:
  "serve_call example_dial 2 (protectedSocksServer socks_options) (DialCall ''tcp'' ''host.example:443'') =
     Some (Inr True, [\<lparr>sk_network = ''udp'', sk_address = ''192.0.2.53:53'', sk_mark = Some 7\<rparr>,
       \<lparr>sk_network = ''tcp'', sk_address = ''192.0.2.1:443'', sk_mark = Some 7\<rparr>])"
  by code_simp



lemma attached_daemon_ok: "daemon_ok example_rx attached_daemon" "daemon_synced attached_daemon"
proof -
  have "opts_ok example_rx (example_options\<lparr>o_Rules := no_rules\<lparr>ar_EnableV4 := True\<rparr>\<rparr>)"
    using example_options_ok by (simp add: opts_ok_parts rules_ok_def no_rules_def has_selector_def)
  from start_daemon_ok [OF this] show "daemon_ok example_rx attached_daemon"
    by (simp add: attached_daemon_def daemon_ok_def em_ok_def)
  show "daemon_synced attached_daemon"
    using synced_new_kernel by (simp add: attached_daemon_def daemon_synced_def pm_synced_def start_daemon_def newPolicyManager_def valid_policies_def)
qed

lemma one_link_ok: "world_ok one_link" "links_ok one_link"
proof -
  show "world_ok one_link" using calm_world_ok(1) by (simp add: one_link_def world_ok_def)
  have "listInterfaces (w_links_policy one_link) = Inr [example_iface 7 ''eth0'' ''device'']" by code_simp
  then show "links_ok one_link" by (simp add: links_ok_def indexes_ok_def example_iface_def valid_index_def)
qed


text \<open>a DNS server that is configured by name passes the validation, and then no name can be looked up through the proxy, unless the hosts file
  has the name of the server: the lookup dials the server, which looks up the server's name in the same way.\<close>

theorem dns_server_by_name_never_resolves:
  assumes "net_SplitHostPort (dns_address opts (dw_nameserver w)) = Inr (server, p)" and "needs_lookup server" and "dw_hosts w server = None"
    and "net_SplitHostPort address = Inr (host, port)" and "needs_lookup host" and "dw_hosts w host = None"
  shows "serve_call w n (protectedSocksServer opts) (DialCall network address) = None"
proof -
  let ?r = "\<lparr>rs_mark = so_FWMark opts, rs_address = dns_address opts\<rparr>"
  let ?d = "(protectedNetDialer (so_FWMark opts))\<lparr>nd_Resolver := Some ?r\<rparr>"
  have srv: "DialContext w n ?d nw (dns_address opts (dw_nameserver w)) = None" for n nw
    by (induction n arbitrary: nw) (simp_all add: assms(1-3) Let_def)
  have "DialContext w n ?d network address = None"
    by (cases n) (simp_all add: assms(4-6) Let_def srv)
  then show ?thesis by (simp add: protectedSocksServer_def Let_def)
qed

lemma dns_server_by_name_never_resolves_witness:
  "validateSocksProxyOptions socks_options = Inr () \<and>
   (\<forall>n. serve_call (example_dial\<lparr>dw_hosts := (\<lambda>_. None)\<rparr>) n (protectedSocksServer socks_options) (DialCall ''tcp'' ''host.example:443'') = None)"
proof
  show "validateSocksProxyOptions socks_options = Inr ()" by code_simp
  let ?w = "example_dial\<lparr>dw_hosts := (\<lambda>_. None)\<rparr>"
  have "net_SplitHostPort (dns_address socks_options (dw_nameserver ?w)) = Inr (''dns.example'', ''53'')" "needs_lookup ''dns.example''"
    "net_SplitHostPort ''host.example:443'' = Inr (''host.example'', ''443'')" "needs_lookup ''host.example''"
    by code_simp+
  from dns_server_by_name_never_resolves [OF this(1,2) _ this(3,4)]
  show "\<forall>n. serve_call ?w n (protectedSocksServer socks_options) (DialCall ''tcp'' ''host.example:443'') = None" by simp
qed

end
