(* ===== verification/JsonText.thy ===== *)
theory JsonText
  imports Json
begin

text \<open>
  JSON as text, for the places where the program reads or prints it: \<open>Marshal\<close> and \<open>Encoder\<close> without
  white space, with and without the HTML escapes, and the scanner of \<open>Unmarshal\<close> and \<open>Decoder\<close>
  with its limit of 10000 nested values. What is printed is read back, and a tree that was read can be
  printed and read again (\<open>parse_print\<close>, \<open>parse_ok\<close>).
\<close>

section \<open>Runes\<close>

definition utf8_encode :: "nat \<Rightarrow> string" where
  "utf8_encode r =
     (if r < 128 then [char_of r]
      else if r < 2048 then [char_of (192 + r div 64), char_of (128 + r mod 64)]
      else if 55296 \<le> r \<and> r < 57344 \<or> 1114112 \<le> r then replacement_rune
      else if r < 65536 then [char_of (224 + r div 4096), char_of (128 + r div 64 mod 64), char_of (128 + r mod 64)]
      else [char_of (240 + r div 262144), char_of (128 + r div 4096 mod 64), char_of (128 + r div 64 mod 64), char_of (128 + r mod 64)])"

definition hex_val :: "char \<Rightarrow> nat option" where
  "hex_val c = (case digit_val c of Some d \<Rightarrow> (if d < 16 then Some d else None) | None \<Rightarrow> None)"

fun hex4 :: "string \<Rightarrow> (nat \<times> string) option" where
  "hex4 (a # b # c # d # s) =
     (case (hex_val a, hex_val b, hex_val c, hex_val d) of
        (Some w, Some x, Some y, Some z) \<Rightarrow> Some (((w * 16 + x) * 16 + y) * 16 + z, s)
      | _ \<Rightarrow> None)"
| "hex4 s = None"

section \<open>Strings\<close>

definition simple_escape :: "char \<Rightarrow> char option" where
  "simple_escape c =
     (let n = ccode c in
      if n = 34 \<or> n = 92 \<or> n = 47 then Some c
      else if n = 98 then Some (char_of (8 :: nat)) else if n = 102 then Some (char_of (12 :: nat))
      else if n = 110 then Some (char_of (10 :: nat)) else if n = 114 then Some (char_of (13 :: nat))
      else if n = 116 then Some (char_of (9 :: nat)) else None)"

text \<open>After \<open>\u\<close>: two escapes that are a surrogate pair make one rune, any other surrogate is replaced.\<close>

definition read_u :: "string \<Rightarrow> (string \<times> string) option" where
  "read_u s = (case hex4 s of
      None \<Rightarrow> None
    | Some (r, rest) \<Rightarrow>
        (case (if 55296 \<le> r \<and> r < 56320 \<and> map ccode (take 2 rest) = [92, 117] then hex4 (drop 2 rest) else None) of
           Some (r1, rest1) \<Rightarrow>
             (if 56320 \<le> r1 \<and> r1 < 57344 then Some (utf8_encode (65536 + (r - 55296) * 1024 + (r1 - 56320)), rest1)
              else Some (utf8_encode r, rest))
         | None \<Rightarrow> Some (utf8_encode r, rest)))"

definition read_escape :: "string \<Rightarrow> (string \<times> string) option" where
  "read_escape s = (case s of
      [] \<Rightarrow> None
    | c # t \<Rightarrow> if ccode c = 117 then read_u t else map_option (\<lambda>x. ([x], t)) (simple_escape c))"

lemma hex4_shorter: "hex4 s = Some (r, t) \<Longrightarrow> length t < length s"
  by (induction s rule: hex4.induct) (auto split: option.splits)

lemma read_u_shorter: "read_u s = Some (out, t) \<Longrightarrow> length t < length s"
  by (fastforce simp: read_u_def dest: hex4_shorter split: option.splits if_splits)

lemma read_escape_shorter: "read_escape s = Some (out, t) \<Longrightarrow> length t < length s"
  by (fastforce simp: read_escape_def dest: read_u_shorter split: list.splits if_splits)

text \<open>The rest of a string after its opening quote.\<close>

function parse_string :: "string \<Rightarrow> (string \<times> string) option" where
  "parse_string [] = None"
| "parse_string (c # s) =
     (if ccode c = 34 then Some ([], s)
      else if ccode c < 32 then None
      else if ccode c = 92 then
        (case read_escape s of None \<Rightarrow> None | Some (out, t) \<Rightarrow> map_option (apfst (append out)) (parse_string t))
      else let n = utf8_len (c # s) in
        if n = 0 then map_option (apfst (append replacement_rune)) (parse_string s)
        else map_option (apfst (append (take n (c # s)))) (parse_string (drop n (c # s))))"
  by pat_completeness auto
termination by (relation "measure length") (auto dest: read_escape_shorter)

declare parse_string.simps(2) [simp del]

definition escape_u :: "nat \<Rightarrow> string" where
  "escape_u n = char_of (92 :: nat) # CHR ''u'' # digit_char (n div 4096) # digit_char (n div 256 mod 16) #
     digit_char (n div 16 mod 16) # digit_char (n mod 16) # []"

definition print_ascii :: "bool \<Rightarrow> char \<Rightarrow> string" where
  "print_ascii html c =
     (let n = ccode c; esc = (\<lambda>x. char_of (92 :: nat) # [x]) in
      if n = 34 \<or> n = 92 then esc c
      else if n = 8 then esc CHR ''b'' else if n = 9 then esc CHR ''t'' else if n = 10 then esc CHR ''n''
      else if n = 12 then esc CHR ''f'' else if n = 13 then esc CHR ''r''
      else if n < 32 \<or> html \<and> c \<in> set ''<>&'' then escape_u n
      else [c])"

function print_chars :: "bool \<Rightarrow> string \<Rightarrow> string" where
  "print_chars html [] = []"
| "print_chars html (c # s) =
     (let n = utf8_len (c # s) in
      if n = 0 then escape_u 65533 @ print_chars html s
      else if n = 1 then print_ascii html c @ print_chars html s
      else if map ccode (take n (c # s)) = [226, 128, 168] then escape_u 8232 @ print_chars html (drop n (c # s))
      else if map ccode (take n (c # s)) = [226, 128, 169] then escape_u 8233 @ print_chars html (drop n (c # s))
      else take n (c # s) @ print_chars html (drop n (c # s)))"
  by pat_completeness auto
termination by (relation "measure (\<lambda>(h, s). length s)") auto

declare print_chars.simps(2) [simp del]

definition print_string :: "bool \<Rightarrow> string \<Rightarrow> string" where
  "print_string html s = CHR 0x22 # print_chars html s @ [CHR 0x22]"

section \<open>Numbers\<close>

fun dec_digits :: "nat \<Rightarrow> string \<Rightarrow> nat" where
  "dec_digits n [] = n"
| "dec_digits n (c # s) = dec_digits (n * 10 + (ccode c - 48)) s"

definition sign_part :: "string \<Rightarrow> string \<times> string" where
  "sign_part s = (if s \<noteq> [] \<and> hd s = CHR ''-'' then (''-'', tl s) else ([], s))"

definition int_part :: "string \<Rightarrow> string \<times> string" where
  "int_part s = (if s \<noteq> [] \<and> hd s = CHR ''0'' then (''0'', tl s) else (takeWhile is_dec s, dropWhile is_dec s))"

definition frac_part :: "string \<Rightarrow> (string \<times> string) option" where
  "frac_part s =
     (if s \<noteq> [] \<and> hd s = CHR ''.'' then
        (if takeWhile is_dec (tl s) = [] then None else Some (CHR ''.'' # takeWhile is_dec (tl s), dropWhile is_dec (tl s)))
      else Some ([], s))"

definition exp_sign :: "string \<Rightarrow> string \<times> string" where
  "exp_sign s = (if s \<noteq> [] \<and> hd s \<in> set ''+-'' then ([hd s], tl s) else ([], s))"

definition exp_part :: "string \<Rightarrow> (string \<times> string) option" where
  "exp_part s =
     (if s \<noteq> [] \<and> hd s \<in> set ''eE'' then
        (let (sg, t) = exp_sign (tl s) in
         if takeWhile is_dec t = [] then None else Some (hd s # sg @ takeWhile is_dec t, dropWhile is_dec t))
      else Some ([], s))"

definition number_token :: "string \<Rightarrow> (json \<times> string) option" where
  "number_token s =
     (let (sg, s1) = sign_part s; (ip, s2) = int_part s1 in
      if ip = [] then None
      else case frac_part s2 of
        None \<Rightarrow> None
      | Some (fp, s3) \<Rightarrow> (case exp_part s3 of
          None \<Rightarrow> None
        | Some (ep, s4) \<Rightarrow>
            Some (if fp = [] \<and> ep = [] then JInt ((if sg = [] then 1 else -1) * int (dec_digits 0 ip)) else JFrac (sg @ ip @ fp @ ep), s4)))"

section \<open>Values\<close>

definition is_ws :: "char \<Rightarrow> bool" where
  "is_ws c \<longleftrightarrow> ccode c \<in> {32, 9, 10, 13}"

abbreviation skip_ws :: "string \<Rightarrow> string" where
  "skip_ws \<equiv> dropWhile is_ws"

definition expect :: "string \<Rightarrow> json \<Rightarrow> string \<Rightarrow> (json \<times> string) option" where
  "expect lit js s = (if take (length lit) s = lit then Some (js, drop (length lit) s) else None)"

text \<open>
  The first argument bounds the nesting; the second of the loops is the number of elements that can follow.
\<close>

function (sequential) parse_value :: "nat \<Rightarrow> string \<Rightarrow> (json \<times> string) option"
  and parse_elems :: "nat \<Rightarrow> nat \<Rightarrow> string \<Rightarrow> (json list \<times> string) option"
  and parse_members :: "nat \<Rightarrow> nat \<Rightarrow> string \<Rightarrow> ((string \<times> json) list \<times> string) option" where
  "parse_value d [] = None"
| "parse_value d (c # s) =
     (if c = CHR ''n'' then expect ''ull'' JNull s
      else if c = CHR ''t'' then expect ''rue'' (JBool True) s
      else if c = CHR ''f'' then expect ''alse'' (JBool False) s
      else if c = CHR 0x22 then map_option (apfst JStr) (parse_string s)
      else if c = CHR ''['' then
        (if d = 0 then None
         else if take 1 (skip_ws s) = '']'' then Some (JArr [], drop 1 (skip_ws s))
         else map_option (apfst JArr) (parse_elems (d - 1) (length s) s))
      else if c = CHR ''{'' then
        (if d = 0 then None
         else if take 1 (skip_ws s) = ''}'' then Some (JObj [], drop 1 (skip_ws s))
         else map_option (apfst JObj) (parse_members (d - 1) (length s) s))
      else number_token (c # s))"
| "parse_elems d 0 s = None"
| "parse_elems d (Suc f) s =
     (case parse_value d (skip_ws s) of
        None \<Rightarrow> None
      | Some (v, r) \<Rightarrow>
          (case skip_ws r of
             [] \<Rightarrow> None
           | c # t \<Rightarrow>
               if c = CHR '','' then map_option (apfst (Cons v)) (parse_elems d f t)
               else if c = CHR '']'' then Some ([v], t) else None))"
| "parse_members d 0 s = None"
| "parse_members d (Suc f) s =
     (if take 1 (skip_ws s) \<noteq> [CHR 0x22] then None
      else case parse_string (drop 1 (skip_ws s)) of
        None \<Rightarrow> None
      | Some (key, r) \<Rightarrow>
          if take 1 (skip_ws r) \<noteq> '':'' then None
          else case parse_value d (skip_ws (drop 1 (skip_ws r))) of
            None \<Rightarrow> None
          | Some (v, r2) \<Rightarrow>
              (case skip_ws r2 of
                 [] \<Rightarrow> None
               | c # t \<Rightarrow>
                   if c = CHR '','' then map_option (apfst (Cons (key, v))) (parse_members d f t)
                   else if c = CHR ''}'' then Some ([(key, v)], t) else None))"
  by pat_completeness auto
termination
  by (relation "inv_image (less_than <*lex*> less_than)
        (\<lambda>x. case x of Inl (d, s) \<Rightarrow> (d, 0) | Inr (Inl (d, f, s)) \<Rightarrow> (d, f) | Inr (Inr (d, f, s)) \<Rightarrow> (d, f))") auto

fun json_text :: "bool \<Rightarrow> json \<Rightarrow> string" and elems_text :: "bool \<Rightarrow> json list \<Rightarrow> string"
  and members_text :: "bool \<Rightarrow> (string \<times> json) list \<Rightarrow> string" where
  "json_text html JNull = ''null''"
| "json_text html (JBool b) = (if b then ''true'' else ''false'')"
| "json_text html (JInt n) = itoa n"
| "json_text html (JFrac lit) = lit"
| "json_text html (JStr s) = print_string html s"
| "json_text html (JArr vs) = CHR ''['' # elems_text html vs @ '']''"
| "json_text html (JObj ms) = CHR ''{'' # members_text html ms @ ''}''"
| "elems_text html [] = []"
| "elems_text html [v] = json_text html v"
| "elems_text html (v # vs) = json_text html v @ CHR '','' # elems_text html vs"
| "members_text html [] = []"
| "members_text html [(k, v)] = print_string html k @ CHR '':'' # json_text html v"
| "members_text html ((k, v) # ms) = print_string html k @ CHR '':'' # json_text html v @ CHR '','' # members_text html ms"

text \<open>\<open>Unmarshal\<close>, and \<open>Decode\<close> of the first value of a stream, with what is left.\<close>

definition maxNestingDepth :: nat where
  "maxNestingDepth = 10000"

definition decode_value :: "string \<Rightarrow> (json \<times> string) option" where
  "decode_value s = parse_value maxNestingDepth (skip_ws s)"

definition unmarshal :: "string \<Rightarrow> json option" where
  "unmarshal s = (case decode_value s of Some (js, rest) \<Rightarrow> (if list_all is_ws rest then Some js else None) | None \<Rightarrow> None)"


section \<open>Strings are read back\<close>

lemma hex_val_digit [simp]: "d < 16 \<Longrightarrow> hex_val (digit_char d) = Some d"
  by (simp add: hex_val_def)

lemma hex4_escape: "n < 65536 \<Longrightarrow> hex4 (drop 2 (escape_u n) @ t) = Some (n, t)"
proof -
  assume n: "n < 65536"
  have "(((n div 4096) * 16 + n div 256 mod 16) * 16 + n div 16 mod 16) * 16 + n mod 16 = n"
    using div_mult_mod_eq [of "n div 256" 16] div_mult_mod_eq [of "n div 16" 16] div_mult_mod_eq [of n 16]
    by (simp add: div_mult2_eq [symmetric])
  with n show ?thesis by (simp add: escape_u_def)
qed

lemma read_escape_u:
  assumes "n < 65536" and "n < 55296 \<or> 56320 \<le> n"
  shows "parse_string (escape_u n @ t) = map_option (apfst (append (utf8_encode n))) (parse_string t)"
proof -
  have "read_u (drop 2 (escape_u n) @ t) = Some (utf8_encode n, t)"
    using assms by (simp only: read_u_def hex4_escape) auto
  then have "read_escape (drop 1 (escape_u n) @ t) = Some (utf8_encode n, t)"
    by (simp add: read_escape_def escape_u_def)
  then show ?thesis by (simp add: escape_u_def parse_string.simps)
qed

lemma utf8_len_le: "utf8_len s \<le> length s"
  by (cases s) (auto simp: utf8_len.simps Let_def)

lemma utf8_len_prefix:
  assumes "utf8_len s = n" and "n \<noteq> 0" shows "utf8_len (take n s @ t) = n"
proof (cases s)
  case (Cons a r)
  have le: "n \<le> length s" using assms utf8_len_le by blast
  obtain m where m: "n = Suc m" using assms(2) by (cases n) auto
  let ?r = "take m r @ t"
  have len: "length (take m r) = m" using le Cons m by simp
  have "hd ?r = hd r" if "0 < m" using that len by (cases r; cases m) auto
  moreover have "take k ?r = take k r" if "k \<le> m" for k using that len by simp
  ultimately show ?thesis
    using assms Cons m len unfolding utf8_len.simps Let_def
    by (auto simp: utf8_len.simps Let_def in_range_def split: if_splits)
qed (use assms in simp)

lemma utf8_len_ascii: "ccode c < 128 \<Longrightarrow> utf8_len (c # s) = 1"
  by (simp add: utf8_len.simps in_range_def)

lemma utf8_len_1: "utf8_len (c # s) = 1 \<longleftrightarrow> ccode c < 128"
  by (auto simp: utf8_len.simps in_range_def Let_def)

lemma parse_ascii:
  assumes "ccode c < 128"
  shows "parse_string (print_ascii html c @ t) = map_option (apfst (append [c])) (parse_string t)"
proof -
  have u: "parse_string (escape_u (ccode c) @ t) = map_option (apfst (append [c])) (parse_string t)"
    using read_escape_u [of "ccode c" t] assms by (simp add: utf8_encode_def)
  have e: "parse_string (char_of (92 :: nat) # x # t) = map_option (apfst (append [c])) (parse_string t)"
    if "simple_escape x = Some c" "ccode x \<noteq> 117" for x
    using that by (simp add: parse_string.simps read_escape_def)
  have plain: "parse_string (c # t) = map_option (apfst (append [c])) (parse_string t)"
    if "ccode c \<noteq> 34" "ccode c \<noteq> 92" "\<not> ccode c < 32"
    using that assms utf8_len_ascii [of c t] by (simp add: parse_string.simps)
  have c: "c = char_of n" if "ccode c = n" for n :: nat
    using that by (metis char_of_char)
  consider "ccode c = 34 \<or> ccode c = 92" | "ccode c = 8" | "ccode c = 9" | "ccode c = 10" | "ccode c = 12" | "ccode c = 13"
    | "ccode c \<notin> {34, 92, 8, 9, 10, 12, 13}" by blast
  then show ?thesis
  proof cases
    case 1
    then have "simple_escape c = Some c" "ccode c \<noteq> 117" by (auto simp: simple_escape_def)
    from e [OF this] 1 show ?thesis by (auto simp: print_ascii_def)
  next
    case 2
    with e [of "CHR ''b''"] c [of 8] show ?thesis by (simp add: print_ascii_def simple_escape_def)
  next
    case 3
    with e [of "CHR ''t''"] c [of 9] show ?thesis by (simp add: print_ascii_def simple_escape_def)
  next
    case 4
    with e [of "CHR ''n''"] c [of 10] show ?thesis by (simp add: print_ascii_def simple_escape_def)
  next
    case 5
    with e [of "CHR ''f''"] c [of 12] show ?thesis by (simp add: print_ascii_def simple_escape_def)
  next
    case 6
    with e [of "CHR ''r''"] c [of 13] show ?thesis by (simp add: print_ascii_def simple_escape_def)
  next
    case 7
    then show ?thesis using u plain by (cases "ccode c < 32 \<or> html \<and> c \<in> set ''<>&''") (auto simp: print_ascii_def)
  qed
qed

lemma parse_run:
  assumes "utf8_len s = n" and "2 \<le> n"
  shows "parse_string (take n s @ t) = map_option (apfst (append (take n s))) (parse_string t)"
proof -
  obtain a r where s: "s = a # r" using assms by (cases s) auto
  have n: "utf8_len (take n s @ t) = n" using utf8_len_prefix assms by simp
  have a: "128 \<le> ccode a" using assms s utf8_len_1 [of a r] by auto
  have "take n s @ t = a # take (n - 1) r @ t" using s assms(2) by (cases n) auto
  moreover have "n \<le> length s" using assms utf8_len_le by blast
  ultimately have "parse_string (take n s @ t) = map_option (apfst (append (take n (take n s @ t)))) (parse_string (drop n (take n s @ t)))"
    using n a assms(2) by (simp add: parse_string.simps Let_def)
  with \<open>n \<le> length s\<close> show ?thesis by simp
qed

lemma parse_print_chars: "parse_string (print_chars html s @ CHR 0x22 # t) = Some (coerceUTF8 s, t)"
proof (induction html s rule: print_chars.induct)
  case (1 html)
  show ?case by (simp add: parse_string.simps)
next
  case (2 html c s)
  let ?n = "utf8_len (c # s)"
  have r: "utf8_encode 65533 = replacement_rune" "map ccode (utf8_encode 8232) = [226, 128, 168]" "map ccode (utf8_encode 8233) = [226, 128, 169]"
    by (simp_all add: utf8_encode_def replacement_rune_def)
  have inj: "map ccode x = map ccode y \<Longrightarrow> x = y" for x y
    by (metis list.inj_map_strong of_char_eq_iff)
  consider "?n = 0" | "?n = 1" | "2 \<le> ?n" by linarith
  then show ?case
  proof cases
    case 1
    with 2 show ?thesis by (simp add: print_chars.simps read_escape_u r)
  next
    case n: 2
    with 2 have "parse_string (print_chars html s @ CHR 0x22 # t) = Some (coerceUTF8 s, t)" by simp
    with n show ?thesis using utf8_len_1 [of c s] by (simp add: print_chars.simps parse_ascii)
  next
    case n: 3
    then have "parse_string (print_chars html (drop ?n (c # s)) @ CHR 0x22 # t) = Some (coerceUTF8 (drop ?n (c # s)), t)"
      using 2 by (cases "map ccode (take ?n (c # s)) \<in> {[226, 128, 168], [226, 128, 169]}") auto
    moreover have "take ?n (c # s) = utf8_encode 8232" if "map ccode (take ?n (c # s)) = [226, 128, 168]"
      using that r by (auto intro: inj)
    moreover have "take ?n (c # s) = utf8_encode 8233" if "map ccode (take ?n (c # s)) = [226, 128, 169]"
      using that r by (auto intro: inj)
    ultimately show ?thesis
      using n parse_run [of "c # s" ?n] by (auto simp: print_chars.simps Let_def read_escape_u)
  qed
qed

lemma parse_print_string: "parse_string (print_chars html s @ [CHR 0x22] @ t) = Some (coerceUTF8 s, t)"
  using parse_print_chars by simp

section \<open>Numbers are read back\<close>

definition int_ok :: "string \<Rightarrow> bool" where
  "int_ok ip \<longleftrightarrow> ip = ''0'' \<or> ip \<noteq> [] \<and> hd ip \<noteq> CHR ''0'' \<and> list_all is_dec ip"

definition frac_ok :: "string \<Rightarrow> bool" where
  "frac_ok fp \<longleftrightarrow> fp = [] \<or> (\<exists>ds. fp = CHR ''.'' # ds \<and> ds \<noteq> [] \<and> list_all is_dec ds)"

definition exp_ok :: "string \<Rightarrow> bool" where
  "exp_ok ep \<longleftrightarrow> ep = [] \<or> (\<exists>e sg ds. ep = e # sg @ ds \<and> e \<in> set ''eE'' \<and> sg \<in> {[], ''+'', ''-''} \<and> ds \<noteq> [] \<and> list_all is_dec ds)"

definition number_end :: "string \<Rightarrow> bool" where
  "number_end r \<longleftrightarrow> r = [] \<or> \<not> is_dec (hd r) \<and> hd r \<notin> set ''.eE''"

definition number_of :: "string \<Rightarrow> string \<Rightarrow> string \<Rightarrow> string \<Rightarrow> json" where
  "number_of sg ip fp ep = (if fp = [] \<and> ep = [] then JInt ((if sg = [] then 1 else -1) * int (dec_digits 0 ip)) else JFrac (sg @ ip @ fp @ ep))"

lemma take_digits:
  assumes "list_all is_dec ds" and "r = [] \<or> \<not> is_dec (hd r)"
  shows "takeWhile is_dec (ds @ r) = ds" and "dropWhile is_dec (ds @ r) = r"
  using assms by (cases r; simp add: list_all_iff takeWhile_append dropWhile_append)+

lemma int_part_app: "int_ok ip \<Longrightarrow> r = [] \<or> \<not> is_dec (hd r) \<Longrightarrow> int_part (ip @ r) = (ip, r)"
  by (cases ip) (auto simp: int_ok_def int_part_def take_digits [where ds = ip, simplified] dest: take_digits [where r = r])

lemma frac_part_app: "frac_ok fp \<Longrightarrow> r = [] \<or> \<not> is_dec (hd r) \<and> hd r \<noteq> CHR ''.'' \<Longrightarrow> frac_part (fp @ r) = Some (fp, r)"
proof (cases "fp = []")
  case False
  assume "frac_ok fp" and r: "r = [] \<or> \<not> is_dec (hd r) \<and> hd r \<noteq> CHR ''.''"
  with False obtain ds where "fp = CHR ''.'' # ds" "ds \<noteq> []" "list_all is_dec ds" by (auto simp: frac_ok_def)
  with r take_digits [of ds r] show ?thesis by (simp add: frac_part_def) metis
qed (auto simp: frac_part_def)

lemma not_dec [simp]: "\<not> is_dec CHR ''.''" "\<not> is_dec CHR ''e''" "\<not> is_dec CHR ''E''" "\<not> is_dec CHR ''+''" "\<not> is_dec CHR ''-''"
  by (simp_all add: is_dec_def)

lemma exp_part_app:
  assumes "exp_ok ep" and "number_end r" shows "exp_part (ep @ r) = Some (ep, r)"
proof (cases "ep = []")
  case True
  then show ?thesis using assms by (auto simp: exp_part_def number_end_def)
next
  case False
  then obtain e sg ds where ep: "ep = e # sg @ ds" "e \<in> set ''eE''" "sg \<in> {[], ''+'', ''-''}" "ds \<noteq> []" "list_all is_dec ds"
    using assms by (auto simp: exp_ok_def)
  have "hd (ds @ r) \<notin> set ''+-''" using ep by (cases ds) auto
  then have "exp_sign (sg @ ds @ r) = (sg, ds @ r)" using ep by (auto simp: exp_sign_def)
  moreover have "r = [] \<or> \<not> is_dec (hd r)" using assms by (auto simp: number_end_def)
  ultimately show ?thesis using ep take_digits [of ds r] by (simp add: exp_part_def)
qed

lemma number_token_app:
  assumes "sg \<in> {[], ''-''}" and "int_ok ip" and "frac_ok fp" and "exp_ok ep" and "number_end r"
  shows "number_token (sg @ ip @ fp @ ep @ r) = Some (number_of sg ip fp ep, r)"
proof -
  have ip: "ip \<noteq> []" "hd ip \<noteq> CHR ''-''" using assms(2) by (cases ip; auto simp: int_ok_def)+
  have e: "ep @ r = [] \<or> \<not> is_dec (hd (ep @ r)) \<and> hd (ep @ r) \<noteq> CHR ''.''"
    using assms(4,5) by (auto simp: exp_ok_def number_end_def)
  then have f: "fp @ ep @ r = [] \<or> \<not> is_dec (hd (fp @ ep @ r))"
    using assms(3) by (auto simp: frac_ok_def)
  have "sign_part (sg @ ip @ fp @ ep @ r) = (sg, ip @ fp @ ep @ r)"
    using assms(1) ip by (auto simp: sign_part_def)
  with int_part_app [OF assms(2) f] frac_part_app [OF assms(3) e] exp_part_app [OF assms(4,5)] ip
  show ?thesis by (simp add: number_token_def number_of_def)
qed

lemma digits_while: "list_all is_dec (takeWhile is_dec s)"
  by (auto simp: list_all_iff dest: set_takeWhileD)

lemma number_token_parts:
  assumes "number_token s = Some (js, t)"
  obtains sg ip fp ep where "s = sg @ ip @ fp @ ep @ t" and "js = number_of sg ip fp ep"
    and "sg \<in> {[], ''-''}" and "int_ok ip" and "frac_ok fp" and "exp_ok ep"
proof -
  obtain sg s1 where a: "sign_part s = (sg, s1)" by fastforce
  obtain ip s2 where b: "int_part s1 = (ip, s2)" by fastforce
  from assms a b obtain fp s3 where c: "frac_part s2 = Some (fp, s3)" "ip \<noteq> []"
    by (auto simp: number_token_def split: if_splits option.splits)
  with assms a b obtain ep where d: "exp_part s3 = Some (ep, t)" and js: "js = number_of sg ip fp ep"
    by (auto simp: number_token_def number_of_def split: if_splits option.splits)
  have "s = sg @ s1" "sg \<in> {[], ''-''}" using a by (cases s; auto simp: sign_part_def split: if_splits)+
  moreover have "s1 = ip @ s2 \<and> int_ok ip"
  proof (cases "s1 \<noteq> [] \<and> hd s1 = CHR ''0''")
    case False
    then have "ip = takeWhile is_dec s1" "s2 = dropWhile is_dec s1" using b by (auto simp: int_part_def)
    with False c(2) digits_while [of s1] show ?thesis by (cases s1) (auto simp: int_ok_def split: if_splits)
  qed (use b in \<open>cases s1; auto simp: int_part_def int_ok_def\<close>)
  moreover have "s2 = fp @ s3" "frac_ok fp"
    using c digits_while [of "tl s2"] by (cases s2; auto simp: frac_part_def frac_ok_def split: if_splits)+
  moreover have "s3 = ep @ t \<and> exp_ok ep"
  proof (cases "s3 \<noteq> [] \<and> hd s3 \<in> set ''eE''")
    case True
    then obtain e r where s3: "s3 = e # r" "e \<in> set ''eE''" by (cases s3) auto
    obtain sg' r' where r: "exp_sign r = (sg', r')" by fastforce
    then have "r = sg' @ r'" "sg' \<in> {[], ''+'', ''-''}" by (cases r; auto simp: exp_sign_def split: if_splits)+
    with d s3 r digits_while [of r'] show ?thesis by (auto simp: exp_part_def exp_ok_def split: if_splits)
  qed (use d in \<open>auto simp: exp_part_def exp_ok_def\<close>)
  ultimately show thesis using js that by blast
qed

lemma utoa_dec: "list_all is_dec (utoa 10 n)"
  using utoa_digits_lt [of 10 n] by (auto simp: list_all_iff is_dec_digit_char)

lemma dec_digits_snoc: "dec_digits a (s @ [c]) = dec_digits a s * 10 + (ccode c - 48)"
  by (induction a s rule: dec_digits.induct) simp_all

lemma dec_digits_utoa: "dec_digits 0 (utoa 10 n) = n"
proof (induction n rule: less_induct)
  case (less n)
  show ?case
  proof (cases "n < 10")
    case False
    with less [of "n div 10"] show ?thesis by (simp add: utoa_big dec_digits_snoc ccode_digit_char)
  qed (simp add: utoa_small ccode_digit_char)
qed

lemma utoa_hd: "n \<noteq> 0 \<Longrightarrow> hd (utoa 10 n) \<noteq> CHR ''0''"
proof (induction n rule: less_induct)
  case (less n)
  show ?case
  proof (cases "n < 10")
    case True
    have "ccode (digit_char n) \<noteq> ccode CHR ''0''" using less(2) True by (simp add: ccode_digit_char)
    with True show ?thesis by (auto simp: utoa_small)
  next
    case False
    with less(1) [of "n div 10"] less(2) show ?thesis by (simp add: utoa_big)
  qed
qed

lemma int_ok_utoa: "int_ok (utoa 10 n)"
  using utoa_dec [of n] utoa_hd [of n] by (cases "n = 0") (simp_all add: int_ok_def utoa_small digit_char_def)

lemma number_token_itoa: "number_end r \<Longrightarrow> number_token (itoa n @ r) = Some (JInt n, r)"
  using number_token_app [of "if n < 0 then ''-'' else []" "utoa 10 (nat \<bar>n\<bar>)" "[]" "[]" r]
  by (auto simp: itoa_def int_ok_utoa frac_ok_def exp_ok_def number_of_def dec_digits_utoa split: if_splits)

section \<open>Values are read back\<close>

text \<open>The trees that text can stand for: valid strings, literals of numbers, nesting up to a depth.\<close>

definition frac_literal :: "string \<Rightarrow> bool" where
  "frac_literal lit \<longleftrightarrow> number_token lit = Some (JFrac lit, [])"

fun json_ok :: "nat \<Rightarrow> json \<Rightarrow> bool" where
  "json_ok d (JFrac lit) = frac_literal lit"
| "json_ok d (JStr s) = valid_utf8 s"
| "json_ok 0 (JArr vs) = False"
| "json_ok (Suc d) (JArr vs) = list_all (json_ok d) vs"
| "json_ok 0 (JObj ms) = False"
| "json_ok (Suc d) (JObj ms) = list_all (\<lambda>m. valid_utf8 (fst m) \<and> json_ok d (snd m)) ms"
| "json_ok d js = True"

lemma json_ok_mono: "json_ok d js \<Longrightarrow> d \<le> e \<Longrightarrow> json_ok e js"
proof (induction d js arbitrary: e rule: json_ok.induct)
  case (4 d vs)
  then show ?case by (cases e) (auto simp: list_all_iff)
next
  case (6 d ms)
  then show ?case by (cases e) (auto simp: list_all_iff)
qed auto

lemma frac_literal_app:
  assumes "frac_literal lit" and "number_end r" shows "number_token (lit @ r) = Some (JFrac lit, r)"
proof -
  from assms(1) obtain sg ip fp ep where n: "lit = sg @ ip @ fp @ ep @ []" "JFrac lit = number_of sg ip fp ep"
    "sg \<in> {[], ''-''}" "int_ok ip" "frac_ok fp" "exp_ok ep"
    unfolding frac_literal_def by (rule number_token_parts)
  then show ?thesis using number_token_app [OF n(3-6) assms(2)] by simp
qed

lemma int_ok_hd: "int_ok ip \<Longrightarrow> ip \<noteq> [] \<and> is_dec (hd ip)"
  by (cases ip) (auto simp: int_ok_def is_dec_def)

lemma number_hd:
  assumes "number_token s = Some (js, t)" shows "s \<noteq> [] \<and> (is_dec (hd s) \<or> hd s = CHR ''-'')"
  using assms by (rule number_token_parts) (auto dest: int_ok_hd)

definition value_start :: "string \<Rightarrow> bool" where
  "value_start s \<longleftrightarrow> s \<noteq> [] \<and> \<not> is_ws (hd s) \<and> hd s \<notin> set '']},''"

lemma value_start_number: "is_dec c \<or> c = CHR ''-'' \<Longrightarrow> \<not> is_ws c \<and> c \<notin> set '']},[{ntf'' \<and> c \<noteq> CHR 0x22"
  by (auto simp: is_dec_def is_ws_def)

lemma value_start_token: "number_token s = Some (js, t) \<Longrightarrow> value_start s"
  using number_hd [of s js t] value_start_number [of "hd s"] by (simp add: value_start_def)

lemma json_text_start: "json_ok d js \<Longrightarrow> value_start (json_text html js)"
proof (cases js)
  case (JInt n)
  have "number_token (itoa n @ []) = Some (JInt n, [])" by (rule number_token_itoa) (simp add: number_end_def)
  then have "value_start (itoa n @ [])" by (rule value_start_token)
  with JInt show ?thesis by simp
next
  case (JFrac lit)
  assume "json_ok d js"
  with JFrac show ?thesis by (auto simp: frac_literal_def intro: value_start_token)
qed (simp_all add: value_start_def is_ws_def print_string_def)

lemma skip_start: "value_start s \<Longrightarrow> skip_ws (s @ r) = s @ r"
  by (cases s) (auto simp: value_start_def)

lemma parse_number: "number_token s = Some (js, t) \<Longrightarrow> parse_value d s = Some (js, t)"
  using number_hd [of s js t] value_start_number [of "hd s"] by (cases s) auto

lemma elems_length: "list_all (json_ok d) vs \<Longrightarrow> length vs \<le> length (elems_text html vs)"
proof (induction html vs rule: json_text_elems_text_members_text.induct(2) [where P = "\<lambda>_ _. True" and R = "\<lambda>_ _. True"])
  case (9 html v)
  then show ?case using json_text_start [of d v html] by (cases "json_text html v") (auto simp: value_start_def)
qed auto

lemma members_length: "length ms \<le> length (members_text html ms)"
  by (induction html ms rule: json_text_elems_text_members_text.induct(3) [where P = "\<lambda>_ _. True" and Q = "\<lambda>_ _. True"]) auto

lemma number_end_simps [simp]: "number_end []" "number_end (c # s) \<longleftrightarrow> \<not> is_dec c \<and> c \<notin> set ''.eE''"
  by (simp_all add: number_end_def)

lemma follow_simps [simp]: "\<not> is_dec CHR '',''" "\<not> is_dec CHR '']''" "\<not> is_dec CHR ''}''" "\<not> is_ws CHR '',''" "\<not> is_ws CHR '']''"
  "\<not> is_ws CHR ''}''" "\<not> is_ws CHR 0x22" "\<not> is_ws CHR '':''"
  by (simp_all add: is_dec_def is_ws_def)

lemma elems_start: "vs \<noteq> [] \<Longrightarrow> list_all (json_ok d) vs \<Longrightarrow> value_start (elems_text html vs @ r)"
  using json_text_start [of d "hd vs" html] by (cases vs; cases "tl vs") (auto simp: value_start_def)

lemma members_start: "ms \<noteq> [] \<Longrightarrow> \<exists>s. members_text html ms = CHR 0x22 # s"
  by (cases ms; cases "tl ms") (auto simp: print_string_def)

lemma parse_elems_Cons:
  assumes "\<And>r. number_end r \<Longrightarrow> parse_value d (json_text html v @ r) = Some (v, r)" and "json_ok d v"
  shows "parse_elems d (Suc f) (json_text html v @ CHR '','' # t) = map_option (apfst (Cons v)) (parse_elems d f t)"
    and "parse_elems d (Suc f) (json_text html v @ CHR '']'' # t) = Some ([v], t)"
  using assms(1) json_text_start [OF assms(2)] by (simp_all add: skip_start)

lemma parse_members_Cons:
  assumes "\<And>r. number_end r \<Longrightarrow> parse_value d (json_text html v @ r) = Some (v, r)" and "json_ok d v" and "valid_utf8 k"
  shows "parse_members d (Suc f) (print_string html k @ CHR '':'' # json_text html v @ CHR '','' # t) =
      map_option (apfst (Cons (k, v))) (parse_members d f t)"
    and "parse_members d (Suc f) (print_string html k @ CHR '':'' # json_text html v @ CHR ''}'' # t) = Some ([(k, v)], t)"
  using assms(1) json_text_start [OF assms(2)] parse_print_chars coerce_valid [OF assms(3)]
  by (simp_all add: skip_start print_string_def)

lemma parse_print:
  "json_ok d js \<Longrightarrow> number_end r \<Longrightarrow> parse_value d (json_text html js @ r) = Some (js, r)"
  "vs \<noteq> [] \<Longrightarrow> list_all (json_ok d) vs \<Longrightarrow> length vs \<le> f \<Longrightarrow> parse_elems d f (elems_text html vs @ CHR '']'' # r) = Some (vs, r)"
  "ms \<noteq> [] \<Longrightarrow> list_all (\<lambda>m. valid_utf8 (fst m) \<and> json_ok d (snd m)) ms \<Longrightarrow> length ms \<le> f \<Longrightarrow>
     parse_members d f (members_text html ms @ CHR ''}'' # r) = Some (ms, r)"
proof (induction html js and html vs and html ms arbitrary: d r and d f r and d f r rule: json_text_elems_text_members_text.induct)
  case (3 html n)
  then show ?case using parse_number [OF number_token_itoa] by simp
next
  case (4 html lit)
  then show ?case using parse_number [OF frac_literal_app] by simp
next
  case (5 html s)
  then show ?case using parse_print_chars by (simp add: print_string_def coerce_valid)
next
  case (6 html vs)
  then obtain e where d: "d = Suc e" "list_all (json_ok e) vs" by (cases d) auto
  show ?case
  proof (cases "vs = []")
    case False
    let ?s = "elems_text html vs @ CHR '']'' # r"
    have "value_start ?s" using elems_start False d(2) by blast
    then have "take 1 (skip_ws ?s) \<noteq> '']''" by (cases ?s) (auto simp: value_start_def)
    moreover have "parse_elems e (length ?s) ?s = Some (vs, r)"
      using 6 False d elems_length [OF d(2), of html] by (simp del: parse_elems.simps)
    ultimately show ?thesis using d(1) by (simp del: parse_elems.simps)
  qed (use d in simp)
next
  case (7 html ms)
  then obtain e where d: "d = Suc e" "list_all (\<lambda>m. valid_utf8 (fst m) \<and> json_ok e (snd m)) ms" by (cases d) auto
  show ?case
  proof (cases "ms = []")
    case False
    let ?s = "members_text html ms @ CHR ''}'' # r"
    have "take 1 (skip_ws ?s) \<noteq> ''}''" using members_start [OF False, of html] by auto
    moreover have "parse_members e (length ?s) ?s = Some (ms, r)"
      using 7 False d members_length [of ms html] by (simp del: parse_members.simps)
    ultimately show ?thesis using d(1) by (simp del: parse_members.simps)
  qed (use d in simp)
next
  case (9 html v)
  then show ?case by (cases f) (simp_all add: parse_elems_Cons del: parse_elems.simps)
next
  case (10 html v w vs)
  then show ?case by (cases f) (simp_all add: parse_elems_Cons del: parse_elems.simps)
next
  case (12 html k v)
  then show ?case by (cases f) (simp_all add: parse_members_Cons del: parse_members.simps)
next
  case (13 html k v m ms)
  then show ?case by (cases f) (simp_all add: parse_members_Cons del: parse_members.simps)
qed (simp_all add: expect_def)

theorem unmarshal_json_text: "json_ok maxNestingDepth js \<Longrightarrow> unmarshal (json_text html js) = Some js"
  using json_text_start [of maxNestingDepth js html] parse_print(1) [of maxNestingDepth js "[]" html]
  by (simp add: unmarshal_def decode_value_def skip_start [of "json_text html js" "[]", simplified])

section \<open>What is read is valid\<close>

lemma valid_fuel: "length s \<le> f \<Longrightarrow> length s \<le> g \<Longrightarrow> valid_utf8_fuel f s = valid_utf8_fuel g s"
proof (induction f s arbitrary: g rule: valid_utf8_fuel.induct)
  case (3 f a s)
  then obtain h where g: "g = Suc h" by (cases g) auto
  show ?case
  proof (cases "utf8_len (a # s) = 0")
    case False
    then have "length (drop (utf8_len (a # s)) (a # s)) \<le> length s" by auto
    with 3 g have "valid_utf8_fuel f (drop (utf8_len (a # s)) (a # s)) = valid_utf8_fuel h (drop (utf8_len (a # s)) (a # s))"
      by (intro "3.IH") auto
    with g show ?thesis by simp
  qed (simp add: g)
qed auto

lemma valid_step:
  assumes "utf8_len s = n" and "n \<noteq> 0" shows "valid_utf8 (take n s @ t) \<longleftrightarrow> valid_utf8 t"
proof -
  have len: "n \<le> length s" using assms utf8_len_le by blast
  have u: "utf8_len (take n s @ t) = n" using utf8_len_prefix assms by simp
  obtain a r where s: "take n s @ t = a # r" using u assms(2) by (cases "take n s @ t") auto
  then have "valid_utf8 (a # r) \<longleftrightarrow> valid_utf8_fuel (length r) (drop n (a # r))"
    using u assms(2) by (simp add: valid_utf8_def)
  also have "drop n (a # r) = t" using len by (simp flip: s)
  also have "valid_utf8_fuel (length r) t \<longleftrightarrow> valid_utf8 t"
  proof -
    have "length (take n s @ t) = Suc (length r)" using s by simp
    then have "length t \<le> length r" using len assms(2) by simp
    then show ?thesis unfolding valid_utf8_def by (intro valid_fuel) simp_all
  qed
  finally show ?thesis using s by simp
qed

lemma valid_rune: "utf8_len w = length w \<Longrightarrow> w \<noteq> [] \<Longrightarrow> valid_utf8 (w @ t) \<longleftrightarrow> valid_utf8 t"
  using valid_step [of w "length w" t] by simp

lemma valid_Nil [simp]: "valid_utf8 []"
  by (simp add: valid_utf8_def)

lemma valid_replacement [simp]: "valid_utf8 (replacement_rune @ t) \<longleftrightarrow> valid_utf8 t"
  by (rule valid_rune) (simp_all add: replacement_rune_def utf8_len.simps in_range_def)

lemma valid_ascii [simp]: "ccode c < 128 \<Longrightarrow> valid_utf8 (c # t) \<longleftrightarrow> valid_utf8 t"
  using valid_rune [of "[c]" t] by (simp add: utf8_len_ascii)

definition cont :: "nat \<Rightarrow> bool" where
  "cont b \<longleftrightarrow> 128 \<le> b \<and> b \<le> 191"

lemma cont_add [simp]: "cont (128 + x mod 64)"
  using mod_less_divisor [of 64 x] unfolding cont_def by linarith

lemma utf8_len_2: "(194 :: nat) \<le> a \<Longrightarrow> a \<le> 223 \<Longrightarrow> cont b \<Longrightarrow> utf8_len [char_of a, char_of b] = 2"
  by (simp add: utf8_len.simps in_range_def cont_def)

lemma utf8_len_3:
  assumes "(224 :: nat) \<le> a" and "a \<le> 239" and "cont b" and "cont c" and "a = 224 \<Longrightarrow> 160 \<le> b" and "a = 237 \<Longrightarrow> b \<le> 159"
  shows "utf8_len [char_of a, char_of b, char_of c] = 3"
  using assms by (cases "a = 224"; cases "a = 237") (simp_all add: utf8_len.simps in_range_def cont_def)

lemma utf8_len_4:
  assumes "(240 :: nat) \<le> a" and "a \<le> 244" and "cont b" and "cont c" and "cont e" and "a = 240 \<Longrightarrow> 144 \<le> b" and "a = 244 \<Longrightarrow> b \<le> 143"
  shows "utf8_len [char_of a, char_of b, char_of c, char_of e] = 4"
  using assms by (cases "a = 240"; cases "a = 244") (simp_all add: utf8_len.simps in_range_def cont_def)

lemma utf8_encode_rune: "utf8_len (utf8_encode r) = length (utf8_encode r)"
proof -
  consider "r < 128" | "128 \<le> r" "r < 2048" | "55296 \<le> r \<and> r < 57344 \<or> 1114112 \<le> r"
    | "2048 \<le> r" "r < 65536" "\<not> (55296 \<le> r \<and> r < 57344)" | "65536 \<le> r" "r < 1114112" by linarith
  then show ?thesis
  proof cases
    case 1
    then show ?thesis by (simp add: utf8_encode_def utf8_len_ascii)
  next
    case 2
    then have "2 \<le> r div 64" "r div 64 < 32" using div_le_mono [of 128 r 64] by simp_all
    with 2 show ?thesis by (simp add: utf8_encode_def utf8_len_2)
  next
    case 3
    then have "utf8_encode r = replacement_rune" by (auto simp: utf8_encode_def)
    then show ?thesis by (simp add: replacement_rune_def utf8_len.simps in_range_def)
  next
    case 4
    have m: "r div 64 mod 64 + r div 4096 * 64 = r div 64" using div_mult_mod_eq [of "r div 64" 64] by (simp add: div_mult2_eq [symmetric])
    have "32 \<le> r div 64" "r div 4096 < 16" using 4 div_le_mono [of 2048 r 64] by simp_all
    moreover have "r div 64 < 864 \<or> 896 \<le> r div 64" using 4 div_le_mono [of 57344 r 64] by fastforce
    ultimately have "utf8_len [char_of (224 + r div 4096), char_of (128 + r div 64 mod 64), char_of (128 + r mod 64)] = 3"
      using m by (intro utf8_len_3) auto
    with 4 show ?thesis by (auto simp: utf8_encode_def)
  next
    case 5
    have m: "r div 4096 mod 64 + r div 262144 * 64 = r div 4096" using div_mult_mod_eq [of "r div 4096" 64] by (simp add: div_mult2_eq [symmetric])
    have "16 \<le> r div 4096" "r div 262144 < 5" "r div 4096 < 272" using 5 div_le_mono [of 65536 r 4096] by simp_all
    then have "utf8_len [char_of (240 + r div 262144), char_of (128 + r div 4096 mod 64), char_of (128 + r div 64 mod 64), char_of (128 + r mod 64)] = 4"
      using m by (intro utf8_len_4) auto
    with 5 show ?thesis by (auto simp: utf8_encode_def)
  qed
qed

lemma valid_encode [simp]: "valid_utf8 (utf8_encode r @ t) \<longleftrightarrow> valid_utf8 t"
  by (rule valid_rune [OF utf8_encode_rune]) (simp add: utf8_encode_def replacement_rune_def)

lemma coerce_is_valid [simp]: "valid_utf8 (coerceUTF8 s)"
proof (induction s rule: coerceUTF8.induct)
  case (2 a s)
  then show ?case using valid_step [OF refl, of "a # s" "coerceUTF8 (drop (utf8_len (a # s)) (a # s))"]
    by (cases "utf8_len (a # s) = 0") (auto simp: Let_def simp del: take_Cons' drop_Cons' take_Cons drop_Cons)
qed simp

lemma read_escape_valid: "read_escape s = Some (out, t) \<Longrightarrow> valid_utf8 u \<Longrightarrow> valid_utf8 (out @ u)"
  by (auto simp: read_escape_def read_u_def simple_escape_def Let_def split: list.splits option.splits if_splits)

lemma parse_string_valid: "parse_string s = Some (out, t) \<Longrightarrow> valid_utf8 out"
proof (induction s arbitrary: out t rule: parse_string.induct)
  case (2 c s)
  let ?n = "utf8_len (c # s)"
  consider "ccode c = 34" | "ccode c = 92" | "ccode c \<noteq> 34" "ccode c \<noteq> 92" "\<not> ccode c < 32"
    using 2 by (auto simp: parse_string.simps split: if_splits)
  then show ?case
  proof cases
    case 1
    with "2.prems" show ?thesis by (simp add: parse_string.simps)
  next
    case c: 2
    with "2.prems" obtain e r u where "read_escape s = Some (e, r)" "parse_string r = Some (u, t)" "out = e @ u"
      by (auto simp: parse_string.simps split: option.splits)
    with 2 c show ?thesis using read_escape_valid by auto
  next
    case c: 3
    show ?thesis
    proof (cases "?n = 0")
      case True
      with 2 c show ?thesis by (auto simp: parse_string.simps)
    next
      case False
      with "2.prems" c obtain u where "parse_string (drop ?n (c # s)) = Some (u, t)" "out = take ?n (c # s) @ u"
        by (auto simp: parse_string.simps Let_def simp del: take_Cons drop_Cons)
      with 2 c False show ?thesis using valid_step [OF refl False] by auto
    qed
  qed
qed simp

lemma number_token_ok: "number_token s = Some (js, t) \<Longrightarrow> json_ok d js"
proof (erule number_token_parts)
  fix sg ip fp ep
  assume *: "js = number_of sg ip fp ep" "sg \<in> {[], ''-''}" "int_ok ip" "frac_ok fp" "exp_ok ep"
  show "json_ok d js"
    using number_token_app [OF *(2-5), of "[]"] *(1) by (auto simp: number_of_def frac_literal_def)
qed

lemma parse_ok:
  "parse_value d s = Some (js, r) \<Longrightarrow> json_ok d js"
  "parse_elems d f s = Some (vs, r) \<Longrightarrow> list_all (json_ok d) vs"
  "parse_members d f s = Some (ms, r) \<Longrightarrow> list_all (\<lambda>m. valid_utf8 (fst m) \<and> json_ok d (snd m)) ms"
proof (induction d s and d f s and d f s arbitrary: js r and vs r and ms r rule: parse_value_parse_elems_parse_members.induct)
  case (2 d c s)
  then show ?case
    by (cases d) (auto simp: expect_def split: if_splits dest: parse_string_valid number_token_ok)
next
  case (4 d f s)
  then show ?case by (fastforce split: option.splits list.splits if_splits)
next
  case (6 d f s)
  then show ?case by (fastforce split: option.splits list.splits if_splits dest: parse_string_valid)
qed simp_all

lemma unmarshal_ok: "unmarshal s = Some js \<Longrightarrow> json_ok maxNestingDepth js"
  by (auto simp: unmarshal_def decode_value_def dest: parse_ok(1) split: option.splits if_splits)

end
