(* ===== verification/ConfigFile.thy ===== *)
theory ConfigFile
  imports JsonText Config
begin

text \<open>
  The configuration file of the daemon, from its text: the decoders of the structs of \<open>types.go\<close>, \<open>admin.go\<close> and
  \<open>socks_proxy.go\<close> by their JSON tags, \<open>loadOptions\<close> of \<open>config.go\<close>, and \<open>parseArgs\<close> and \<open>main\<close> of \<open>main.go\<close>
  up to \<open>run\<close>. What is loaded satisfies the invariant of options (\<open>loadOptions_ok\<close>).
\<close>

section \<open>Decoders\<close>

text \<open>A map: every element is decoded into a fresh value; a repeated key is overwritten.\<close>

fun dec_map_members :: "'a decoder \<Rightarrow> 'a \<Rightarrow> (string \<times> json) list \<Rightarrow> (string, 'a) fmap \<Rightarrow> (string, 'a) fmap res" where
  "dec_map_members dec zero [] m = Inr m"
| "dec_map_members dec zero ((key, js) # ms) m = bindR (dec js zero) (\<lambda>x. dec_map_members dec zero ms (fmupd key x m))"

fun dec_map :: "'a decoder \<Rightarrow> 'a \<Rightarrow> (string, 'a) fmap decoder" where
  "dec_map dec zero (JObj ms) old = dec_map_members dec zero ms old"
| "dec_map dec zero JNull old = Inr fmempty"
| "dec_map dec zero _ old = Inl typeError"

abbreviation str_field where "str_field \<equiv> dec_field dec_string"
abbreviation strs_field where "strs_field \<equiv> dec_field (dec_list dec_string [])"
abbreviation bool_field where "bool_field \<equiv> dec_field dec_bool"

definition zero_authRules :: adminAPIAuthRules where
  "zero_authRules = \<lparr>aa_UIDs = [], aa_GIDs = [], aa_Usernames = [], aa_Groupnames = []\<rparr>"

definition dec_adminAPIAuthConfig :: "adminAPIAuthRules decoder" where
  "dec_adminAPIAuthConfig = dec_struct True [
     (''uids'', dec_field (dec_list dec_word 0) aa_UIDs aa_UIDs_update), (''gids'', dec_field (dec_list dec_word 0) aa_GIDs aa_GIDs_update),
     (''usernames'', strs_field aa_Usernames aa_Usernames_update), (''groupnames'', strs_field aa_Groupnames aa_Groupnames_update)]"

definition zero_adminAPIConfig :: adminAPIConfig where
  "zero_adminAPIConfig = \<lparr>acf_SocketPath = [], acf_Auth = zero_authRules, acf_Debug = False\<rparr>"

definition dec_adminAPIConfig :: "adminAPIConfig decoder" where
  "dec_adminAPIConfig = dec_struct True [
     (''socket_path'', str_field acf_SocketPath acf_SocketPath_update), (''auth'', dec_field dec_adminAPIAuthConfig acf_Auth acf_Auth_update),
     (''debug'', bool_field acf_Debug acf_Debug_update)]"

definition zero_socksProxyConfig :: socksProxyConfig where
  "zero_socksProxyConfig = \<lparr>sc_Enabled = False, sc_Port = 0, sc_FWMark = [], sc_DNSServer = [],
     sc_Protected = \<lparr>sp_UIDs = [], sp_GIDs = [], sp_Usernames = []\<rparr>\<rparr>"

definition dec_socksProxyProtectedConfig :: "socksProxyProtectedOptions decoder" where
  "dec_socksProxyProtectedConfig = dec_struct True [
     (''uids'', dec_field (dec_list dec_word 0) sp_UIDs sp_UIDs_update), (''gids'', dec_field (dec_list dec_word 0) sp_GIDs sp_GIDs_update),
     (''usernames'', strs_field sp_Usernames sp_Usernames_update)]"

definition dec_socksProxyConfig :: "socksProxyConfig decoder" where
  "dec_socksProxyConfig = dec_struct True [
     (''enabled'', bool_field sc_Enabled sc_Enabled_update), (''port'', dec_field dec_word sc_Port sc_Port_update),
     (''fwmark'', str_field sc_FWMark sc_FWMark_update), (''dns_server'', str_field sc_DNSServer sc_DNSServer_update),
     (''protected'', dec_field dec_socksProxyProtectedConfig sc_Protected sc_Protected_update)]"

definition dec_triggerConfig :: "triggerConfig decoder" where
  "dec_triggerConfig = dec_struct True [
     (''interface_types'', strs_field tc_InterfaceTypes tc_InterfaceTypes_update), (''interface_names'', strs_field tc_InterfaceNames tc_InterfaceNames_update),
     (''interface_regexps'', strs_field tc_InterfaceRegexps tc_InterfaceRegexps_update), (''ip_addrs'', strs_field tc_IPAddrs tc_IPAddrs_update),
     (''ssids'', strs_field tc_SSIDs tc_SSIDs_update), (''bssids'', strs_field tc_BSSIDs tc_BSSIDs_update),
     (''gateway_macs'', strs_field tc_GatewayMACs tc_GatewayMACs_update)]"

definition zero_rulesetConfig :: rulesetConfig where
  "zero_rulesetConfig = \<lparr>rc_Disabled = False, rc_Match = [], rc_MatchAll = False, rc_Trigger = no_trigger, rc_AllowAll = False,
     rc_EnableV4 = False, rc_EnableV6 = False, rc_AllowedMarks = [], rc_AllowedPorts = [], rc_AllowedV4Hosts = [], rc_AllowedV6Hosts = [],
     rc_AllowedV4Pairs = [], rc_AllowedV6Pairs = []\<rparr>"

definition dec_rulesetConfig :: "rulesetConfig decoder" where
  "dec_rulesetConfig = dec_struct True [
     (''disabled'', bool_field rc_Disabled rc_Disabled_update), (''match'', str_field rc_Match rc_Match_update),
     (''match_all'', bool_field rc_MatchAll rc_MatchAll_update), (''trigger'', dec_field dec_triggerConfig rc_Trigger rc_Trigger_update),
     (''allow_all'', bool_field rc_AllowAll rc_AllowAll_update), (''enable_v4'', bool_field rc_EnableV4 rc_EnableV4_update),
     (''enable_v6'', bool_field rc_EnableV6 rc_EnableV6_update), (''allowed_marks'', strs_field rc_AllowedMarks rc_AllowedMarks_update),
     (''allowed_ports'', strs_field rc_AllowedPorts rc_AllowedPorts_update), (''allowed_v4_hosts'', strs_field rc_AllowedV4Hosts rc_AllowedV4Hosts_update),
     (''allowed_v6_hosts'', strs_field rc_AllowedV6Hosts rc_AllowedV6Hosts_update),
     (''allowed_v4_hostports'', strs_field rc_AllowedV4Pairs rc_AllowedV4Pairs_update),
     (''allowed_v6_hostports'', strs_field rc_AllowedV6Pairs rc_AllowedV6Pairs_update)]"

definition zero_configFile :: configFile where
  "zero_configFile = \<lparr>cf_InterfaceTypes = [], cf_InterfaceNames = [], cf_InterfaceRegexps = [], cf_IgnoredInterfaceTypes = [],
     cf_IgnoredInterfaceNames = [], cf_IgnoredInterfaceRegexps = [], cf_AdminAPI = zero_adminAPIConfig, cf_SocksProxy = zero_socksProxyConfig,
     cf_AllowAll = False, cf_EnableV4 = False, cf_EnableV6 = False, cf_AllowedMarks = [], cf_AllowedPorts = [], cf_AllowedV4Hosts = [],
     cf_AllowedV6Hosts = [], cf_AllowedV4Pairs = [], cf_AllowedV6Pairs = [], cf_Rulesets = fmempty\<rparr>"

definition fields_configFile :: "(string \<times> configFile decoder) list" where
  "fields_configFile = [
     (''interface_types'', strs_field cf_InterfaceTypes cf_InterfaceTypes_update), (''interface_names'', strs_field cf_InterfaceNames cf_InterfaceNames_update),
     (''interface_regexps'', strs_field cf_InterfaceRegexps cf_InterfaceRegexps_update),
     (''ignored_interface_types'', strs_field cf_IgnoredInterfaceTypes cf_IgnoredInterfaceTypes_update),
     (''ignored_interface_names'', strs_field cf_IgnoredInterfaceNames cf_IgnoredInterfaceNames_update),
     (''ignored_interface_regexps'', strs_field cf_IgnoredInterfaceRegexps cf_IgnoredInterfaceRegexps_update),
     (''admin_api'', dec_field dec_adminAPIConfig cf_AdminAPI cf_AdminAPI_update), (''socks_proxy'', dec_field dec_socksProxyConfig cf_SocksProxy cf_SocksProxy_update),
     (''allow_all'', bool_field cf_AllowAll cf_AllowAll_update), (''enable_v4'', bool_field cf_EnableV4 cf_EnableV4_update),
     (''enable_v6'', bool_field cf_EnableV6 cf_EnableV6_update), (''allowed_marks'', strs_field cf_AllowedMarks cf_AllowedMarks_update),
     (''allowed_ports'', strs_field cf_AllowedPorts cf_AllowedPorts_update), (''allowed_v4_hosts'', strs_field cf_AllowedV4Hosts cf_AllowedV4Hosts_update),
     (''allowed_v6_hosts'', strs_field cf_AllowedV6Hosts cf_AllowedV6Hosts_update),
     (''allowed_v4_hostports'', strs_field cf_AllowedV4Pairs cf_AllowedV4Pairs_update),
     (''allowed_v6_hostports'', strs_field cf_AllowedV6Pairs cf_AllowedV6Pairs_update),
     (''rulesets'', dec_field (dec_map dec_rulesetConfig zero_rulesetConfig) cf_Rulesets cf_Rulesets_update)]"

definition dec_configFile :: "configFile decoder" where
  "dec_configFile = dec_struct True fields_configFile"

section \<open>\<open>loadOptions\<close>\<close>

definition parseArgs :: "string list \<Rightarrow> string res" where
  "parseArgs args = (case args of
      [] \<Rightarrow> Inr ''/etc/killswitch/killswitch.json''
    | [path] \<Rightarrow> Inr path
    | _ \<Rightarrow> Inl (Errf ''expected at most one config path argument, got: %s'' [strings_Join args '' '']))"

text \<open>The first \<open>Decode\<close> of a reader: its value and what is left, or an error.\<close>

definition Decode :: "string \<Rightarrow> (json \<times> string) res" where
  "Decode text = (case decode_value text of
      Some r \<Rightarrow> Inr r
    | None \<Rightarrow> Inl (Lib (if list_all is_ws text then ''EOF'' else ''invalid JSON'')))"

text \<open>\<open>openFile\<close> stands for \<open>os.Open\<close> and reading the file; the second decoder must meet the end of the input.\<close>

definition loadOptions :: "regexps \<Rightarrow> (string \<Rightarrow> string res) \<Rightarrow> string \<Rightarrow> string \<Rightarrow> options res" where
  "loadOptions rx openFile stdin configPath =
     bindR (if configPath = ''-'' then Inr stdin else wrapR ''open config %q'' [configPath] (openFile configPath)) (\<lambda>text.
     bindR (wrapR ''decode config'' [] (bindR (Decode text) (\<lambda>(js, rest).
       bindR (dec_configFile js zero_configFile) (\<lambda>cfg. Inr (cfg, rest))))) (\<lambda>(cfg, rest).
     bindR (guardR (Decode rest \<noteq> Inl (Lib ''EOF'')) (Err ''decode config: multiple JSON values'')) (\<lambda>_.
     configToOptions rx cfg)))"

text \<open>\<open>main\<close>: the options that are given to \<open>run\<close>, or the error that ends the program.\<close>

definition main_options :: "regexps \<Rightarrow> (string \<Rightarrow> string res) \<Rightarrow> string \<Rightarrow> string list \<Rightarrow> options res" where
  "main_options rx openFile stdin args = bindR (parseArgs args) (loadOptions rx openFile stdin)"

section \<open>What is accepted\<close>

lemma Decode_EOF: "Decode text = Inl (Lib ''EOF'') \<longleftrightarrow> list_all is_ws text"
proof -
  have "decode_value text = None" if "list_all is_ws text"
    using that by (simp add: decode_value_def list_all_iff dropWhile_eq_Nil_conv [THEN iffD2])
  then show ?thesis by (auto simp: Decode_def split: option.split)
qed

lemma Decode_text:
  assumes "json_ok maxNestingDepth js" and "number_end rest"
  shows "Decode (json_text html js @ rest) = Inr (js, rest)"
  using parse_print(1) [OF assms] skip_start [OF json_text_start [OF assms(1)]] by (simp add: Decode_def decode_value_def)

lemma unknown_member:
  assumes "key \<in> fst ` set ms" and "find_field fs key = None"
  shows "\<exists>e. decode_members True fs ms r = Inl e"
  using assms
proof (induction ms arbitrary: r)
  case (Cons m ms)
  then show ?case by (cases m) (auto simp: bindR_def split: option.split sum.split)
qed simp

text \<open>C31: the daemon starts only with options that satisfy the invariant. A configuration that is one JSON value, with white space
  after it, is accepted exactly when it decodes into the struct and the struct is accepted; an unknown member at the top level and a
  second JSON value are refused, as is more than one argument.\<close>

theorem loadOptions_ok:
  assumes "json_ok maxNestingDepth js" and "json_ok maxNestingDepth js'" and "list_all is_ws ws"
  shows "(\<forall>opts. main_options rx openFile stdin args = Inr opts \<longrightarrow> length args \<le> 1 \<and> opts_ok rx opts) \<and>
    (\<forall>opts. loadOptions rx openFile (json_text html js @ ws) ''-'' = Inr opts \<longleftrightarrow>
      (\<exists>cfg. dec_configFile js zero_configFile = Inr cfg \<and> configToOptions rx cfg = Inr opts)) \<and>
    (\<forall>ms key. js = JObj ms \<and> key \<in> fst ` set ms \<and> find_field fields_configFile key = None \<longrightarrow>
      (\<exists>e. loadOptions rx openFile (json_text html js @ ws) ''-'' = Inl e)) \<and>
    (\<exists>e. loadOptions rx openFile (json_text html js @ CHR 0x0A # json_text html js') ''-'' = Inl e)"
proof -
  have ne: "number_end ws" using assms(3) by (cases ws) (auto simp: is_ws_def is_dec_def)
  have "json_text html js' \<noteq> [] \<and> \<not> is_ws (hd (json_text html js'))"
    using json_text_start [OF assms(2)] by (simp add: value_start_def)
  then have "\<not> list_all is_ws (json_text html js')" by (cases "json_text html js'") auto
  then have two: "\<exists>e. loadOptions rx openFile (json_text html js @ CHR 0x0A # json_text html js') ''-'' = Inl e"
    using Decode_text [OF assms(1), of "CHR 0x0A # json_text html js'" html]
    by (cases "dec_configFile js zero_configFile") (auto simp: loadOptions_def is_dec_def Decode_EOF)
  have one: "loadOptions rx openFile (json_text html js @ ws) ''-'' = bindR (wrapR ''decode config'' [] (dec_configFile js zero_configFile)) (configToOptions rx)"
    using Decode_text [OF assms(1) ne, of html] assms(3) Decode_EOF [of ws]
    by (cases "dec_configFile js zero_configFile") (simp_all add: loadOptions_def)
  have ok: "length args \<le> 1 \<and> opts_ok rx opts" if "main_options rx openFile stdin args = Inr opts" for opts
    using that by (auto simp: main_options_def parseArgs_def loadOptions_def bindR_Inr split: list.splits if_splits intro: configToOptions_opts_ok)
  have unknown: "\<exists>e. loadOptions rx openFile (json_text html js @ ws) ''-'' = Inl e"
    if "js = JObj ms" "key \<in> fst ` set ms" "find_field fields_configFile key = None" for ms key
  proof -
    have "\<exists>e. dec_configFile js zero_configFile = Inl e"
      using unknown_member [OF that(2,3), of zero_configFile] that(1) by (simp add: dec_configFile_def)
    then show ?thesis by (auto simp: one)
  qed
  have "loadOptions rx openFile (json_text html js @ ws) ''-'' = Inr opts \<longleftrightarrow>
      (\<exists>cfg. dec_configFile js zero_configFile = Inr cfg \<and> configToOptions rx cfg = Inr opts)" for opts
    by (simp add: one bindR_Inr wrapR_Inr)
  with ok two unknown show ?thesis by blast
qed

definition example_config :: json where
  "example_config = JObj [(''interface_names'', JArr [JStr ''eth0'']),
     (''admin_api'', JObj [(''auth'', JObj [(''uids'', JArr [JInt 1000])])]), (''socks_proxy'', JObj [(''fwmark'', JStr ''0x1'')])]"

lemma example_config_ok: "json_ok maxNestingDepth example_config"
  by (rule json_ok_mono [of "Suc (Suc (Suc (Suc 0)))"])
    (simp_all add: example_config_def ascii_valid in_range_def maxNestingDepth_def)

lemma example_mark: "ParseAllowedMarks [''0x1''] = Inr [1]" "ParseAllowedMarks [] = Inr []"
proof -
  have "utoa 16 1 = ''1''" by code_simp
  then show "ParseAllowedMarks [''0x1''] = Inr [1]" using ParseUint_hex [of 1 32] by (simp add: ParseAllowedMarks_def)
qed (simp add: ParseAllowedMarks_def)

lemma no_names: "sorted_list_of_fset {||} = ([] :: string list)"
  by (simp add: sorted_list_of_fset.rep_eq)

lemma loadOptions_ok_witness:
  "(\<exists>opts. loadOptions (\<lambda>_. None) (\<lambda>_. Inl (Lib ''ENOENT'')) (json_text False example_config) ''-'' = Inr opts) \<and>
   (\<exists>e. loadOptions (\<lambda>_. None) (\<lambda>_. Inl (Lib ''ENOENT'')) (json_text False example_config @ CHR 0x0A # json_text False JNull) ''-'' = Inl e)"
proof -
  let ?cfg = "zero_configFile\<lparr>cf_InterfaceNames := [''eth0''], cf_AdminAPI := zero_adminAPIConfig\<lparr>acf_Auth := zero_authRules\<lparr>aa_UIDs := [1000]\<rparr>\<rparr>,
    cf_SocksProxy := zero_socksProxyConfig\<lparr>sc_FWMark := ''0x1''\<rparr>\<rparr>"
  have cfg: "dec_configFile example_config zero_configFile = Inr ?cfg"
    by (simp add: dec_configFile_def example_config_def find_field_exact fields_configFile_def dec_field_def zero_configFile_def
        dec_adminAPIConfig_def dec_adminAPIAuthConfig_def zero_adminAPIConfig_def zero_authRules_def dec_word_def dec_socksProxyConfig_def
        zero_socksProxyConfig_def)
  have "\<exists>opts. configToOptions (\<lambda>_. None) ?cfg = Inr opts"
    by (simp add: configToOptions_def zero_configFile_def Let_def adminAPIOptionsFromConfig_def socksProxyOptionsFromConfig_def
        zero_socksProxyConfig_def example_mark validateAdminAPIOptions_def zero_adminAPIConfig_def zero_authRules_def defaultAdminAPISocketPath_def
        filepath_IsAbs_def validateSocksProxyOptions_def strings_TrimSpace_def trimStrings_def compile_all_def no_names
        allowedPortKeys_def allowedV4HostKeys_def allowedV6HostKeys_def allowedV4HostportKeys_def allowedV6HostportKeys_def ParseAllowedPorts_def
        ParseAllowedV4Hosts_def ParseAllowedV6Hosts_def ParseAllowedV4Hostports_def ParseAllowedV6Hostports_def rulesetsFromConfig_def)
  with cfg show ?thesis
    using loadOptions_ok [OF example_config_ok, of JNull "[]" "\<lambda>_. None" "\<lambda>_. Inl (Lib ''ENOENT'')" "[]" "[]" False] by auto
qed

end
