(* ===== verification/CliPrint.thy ===== *)
theory CliPrint
  imports JsonText Protocol Interfaces
begin

text \<open>
  The output of \<open>cmd/killswitch-cli/main.go\<close>: a standard output that can fail, the lines of \<open>printConfig\<close>
  through \<open>text/tabwriter\<close>, notifications and JSON lines. What is printed is a prefix of the full text, and an
  error is reported exactly when something is missing (\<open>printConfig_writes\<close>).
\<close>

section \<open>A writer that can fail\<close>

text \<open>\<open>w_limit\<close> holds how many more bytes the writer takes, and its error after that.\<close>

record writer =
  w_out :: string
  w_limit :: "(nat \<times> error) option"

definition write_text :: "string \<Rightarrow> writer \<Rightarrow> error option \<times> writer" where
  "write_text s w = (case w_limit w of
      None \<Rightarrow> (None, w\<lparr>w_out := w_out w @ s\<rparr>)
    | Some (n, err) \<Rightarrow>
        (if length s \<le> n then (None, \<lparr>w_out = w_out w @ s, w_limit = Some (n - length s, err)\<rparr>)
         else (Some err, \<lparr>w_out = w_out w @ take n s, w_limit = Some (0, err)\<rparr>)))"

section \<open>\<open>text/tabwriter\<close>\<close>

text \<open>
  \<open>NewWriter(w, 0, 4, 2, ' ', 0)\<close>. A line is a list of cells that end with a tab (or vertical tab), the last one excepted.
  A column is a run of lines that have a cell there which is not their last; it is as wide as its widest cell and two blanks.
\<close>

definition nl :: char where "nl = CHR 0x0A"

definition is_cell_end :: "char \<Rightarrow> bool" where
  "is_cell_end c \<longleftrightarrow> ccode c = 9 \<or> ccode c = 11"

fun split_by :: "(char \<Rightarrow> bool) \<Rightarrow> string \<Rightarrow> string list" where
  "split_by p [] = [[]]"
| "split_by p (c # s) = (if p c then [] # split_by p s else (c # hd (split_by p s)) # tl (split_by p s))"

function rune_count :: "string \<Rightarrow> nat" where
  "rune_count [] = 0"
| "rune_count (c # s) = Suc (rune_count (drop (utf8_len (c # s) - 1) s))"
  by pat_completeness auto
termination by (relation "measure length") auto

definition cell_width :: "nat \<Rightarrow> string list list \<Rightarrow> nat" where
  "cell_width column lines = fold (\<lambda>line w. max w (rune_count (line ! column) + 2)) lines 0"

fun write_line :: "nat list \<Rightarrow> string list \<Rightarrow> string" where
  "write_line widths [] = []"
| "write_line [] (cell # cells) = cell @ write_line [] cells"
| "write_line (w # widths) (cell # cells) = cell @ replicate (w - rune_count cell) CHR '' '' @ write_line widths cells"

function format_lines :: "nat list \<Rightarrow> string list list \<Rightarrow> string list" where
  "format_lines widths [] = []"
| "format_lines widths (line # lines) =
     (let column = length widths in
      if length line - 1 \<le> column then write_line widths line # format_lines widths lines
      else let block = takeWhile (\<lambda>l. column < length l - 1) (line # lines);
               rest = dropWhile (\<lambda>l. column < length l - 1) (line # lines) in
           format_lines (widths @ [cell_width column block]) block @ format_lines widths rest)"
  by pat_completeness auto
termination
proof (relation "measure (\<lambda>(widths, lines). sum_list (map (\<lambda>l. Suc (length l - length widths)) lines))", goal_cases)
  case (3 widths line lines column block)
  then have m: "sum_list (map (\<lambda>l. Suc (length l - length widths)) (takeWhile P (line # lines))) \<le>
      sum_list (map (\<lambda>l. Suc (length l - length widths)) (line # lines))" for P
    by (metis append_take_drop_id le_add1 map_append sum_list_append takeWhile_eq_take)
  have "sum_list (map (\<lambda>l. Suc (length l - Suc (length widths))) ls) < sum_list (map (\<lambda>l. Suc (length l - length widths)) ls)"
    if "ls \<noteq> []" "\<forall>l \<in> set ls. length widths < length l" for ls :: "string list list"
    using that by (intro sum_list_strict_mono) auto
  from this [of block] 3 m [of "\<lambda>l. column < length l - 1"] show ?case
    by (force dest: set_takeWhileD)
next
  case (4 widths line lines column block rest)
  let ?f = "\<lambda>l :: string list. Suc (length l - length widths)"
  have "sum_list (map ?f (dropWhile P ls)) \<le> sum_list (map ?f ls)" for P ls by (induction ls) auto
  then have "sum_list (map ?f rest) \<le> sum_list (map ?f lines)" using 4 by auto
  then show ?case by simp
qed auto

declare format_lines.simps(2) [simp del]

fun join_lines :: "string list \<Rightarrow> string" where
  "join_lines [] = []"
| "join_lines [l] = l"
| "join_lines (l # ls) = l @ nl # join_lines ls"

text \<open>A form feed ends the line and all columns.\<close>

definition tab_format :: "string \<Rightarrow> string" where
  "tab_format text = join_lines (map (\<lambda>part. join_lines (format_lines [] (map (split_by is_cell_end) (split_by (\<lambda>c. c = nl) part))))
     (split_by (\<lambda>c. ccode c = 12) text))"

text \<open>
  The text since the last flush. A line with one cell flushes, as it ends every column; so does a form feed.
\<close>

record tabwriter =
  tw_buf :: string
  tw_output :: writer

definition flushes :: "string \<Rightarrow> char \<Rightarrow> bool" where
  "flushes buf c \<longleftrightarrow> ccode c = 12 \<or> c = nl \<and> length (split_by is_cell_end (last (split_by (\<lambda>c. c = nl) buf))) = 1"

definition tw_Flush :: "tabwriter \<Rightarrow> error option \<times> tabwriter" where
  "tw_Flush t = (case write_text (tab_format (tw_buf t)) (tw_output t) of (err, w) \<Rightarrow> (err, \<lparr>tw_buf = [], tw_output = w\<rparr>))"

fun tw_write :: "string \<Rightarrow> tabwriter \<Rightarrow> error option \<times> tabwriter" where
  "tw_write [] t = (None, t)"
| "tw_write (c # s) t =
     (let t' = t\<lparr>tw_buf := tw_buf t @ [c]\<rparr> in
      if flushes (tw_buf t) c then
        (case tw_Flush t' of (None, t'') \<Rightarrow> tw_write s t'' | (Some err, t'') \<Rightarrow> (Some err, t''))
      else tw_write s t')"

section \<open>\<open>outputPrinter\<close>\<close>

record outputPrinter =
  op_w :: tabwriter
  op_err :: "error option"

text \<open>\<open>println\<close> and \<open>printf\<close> on the text they make; the first error is kept and ends the printing.\<close>

definition printer_print :: "string \<Rightarrow> outputPrinter \<Rightarrow> outputPrinter" where
  "printer_print s p = (if op_err p \<noteq> None then p else (case tw_write s (op_w p) of (err, t) \<Rightarrow> \<lparr>op_w = t, op_err = err\<rparr>))"

text \<open>The texts that the other methods print, one for each call of \<open>printf\<close>.\<close>

definition tabbed :: "string \<Rightarrow> string \<Rightarrow> string" where
  "tabbed label val = label @ '':'' @ CHR 0x09 # val @ [nl]"

definition format_bool :: "bool \<Rightarrow> string" where
  "format_bool b = (if b then ''true'' else ''false'')"

definition printList :: "string \<Rightarrow> string list \<Rightarrow> string" where
  "printList label values = tabbed label (if values = [] then ''-'' else strings_Join values '', '')"

definition printOptional :: "string \<Rightarrow> string \<Rightarrow> string" where
  "printOptional label val = tabbed label (if val = [] then ''-'' else val)"

definition printEventTypes :: "string \<Rightarrow> string list \<Rightarrow> string" where
  "printEventTypes label values = tabbed label (if values = [] then ''-'' else strings_Join values '', '')"

definition printAllowRulesWithPrefix :: "string \<Rightarrow> apiRules \<Rightarrow> string list" where
  "printAllowRulesWithPrefix prefix rules =
     [tabbed (prefix @ ''allow all'') (format_bool (aar_AllowAll rules)),
      tabbed (prefix @ ''enable v4'') (format_bool (aar_EnableV4 rules)),
      tabbed (prefix @ ''enable v6'') (format_bool (aar_EnableV6 rules)),
      printList (prefix @ ''allowed marks'') (aar_AllowedMarks rules),
      printList (prefix @ ''allowed ports'') (aar_AllowedPorts rules),
      printList (prefix @ ''allowed v4 hosts'') (aar_AllowedV4Hosts rules),
      printList (prefix @ ''allowed v6 hosts'') (aar_AllowedV6Hosts rules),
      printList (prefix @ ''allowed v4 hostports'') (aar_AllowedV4Pairs rules),
      printList (prefix @ ''allowed v6 hostports'') (aar_AllowedV6Pairs rules)]"

definition printAllowRules :: "apiRules \<Rightarrow> string list" where
  "printAllowRules rules = printAllowRulesWithPrefix ''  '' rules"

section \<open>\<open>printConfig\<close>\<close>

definition println :: "string \<Rightarrow> string" where
  "println s = s @ [nl]"

definition socks_lines :: "apiSocksProxyState \<Rightarrow> string list" where
  "socks_lines s =
     [println ''SOCKS proxy'', tabbed ''  enabled'' (format_bool (asp_Enabled s)), tabbed ''  running'' (format_bool (asp_Running s)),
      tabbed ''  listen'' (Sprintf ''%s:%d'' [asp_Host s, utoa 10 (unat (asp_Port s))]), tabbed ''  fwmark'' (asp_FWMark s),
      printOptional ''  dns server'' (asp_DNSServer s), printOptional ''  last error'' (asp_LastError s), println []]"

definition interface_lines :: "apiInterface \<Rightarrow> string list" where
  "interface_lines iface =
     [tabbed (''    '' @ aif_Name iface) (Sprintf ''index=%d type=%s matched=%t killswitch=%t''
        [itoa (aif_Index iface), aif_Type iface, format_bool (aif_Matched iface), format_bool (aif_Killswitch iface)]),
      printList ''      addrs'' (aif_Addrs iface), printOptional ''      ssid'' (aif_SSID iface),
      printOptional ''      bssid'' (aif_BSSID iface), printList ''      gateway MACs'' (aif_GatewayMACs iface)]"

definition effective_interface_lines :: "apiInterfacePolicy \<Rightarrow> string list" where
  "effective_interface_lines iface =
     [tabbed (''  '' @ aip_Name iface) (Sprintf ''index=%d type=%s attached=%t matched=%t''
        [itoa (aip_Index iface), aip_Type iface, format_bool (aip_Attached iface), format_bool (aip_Matched iface)]),
      printOptional ''    ssid'' (aip_SSID iface), printOptional ''    bssid'' (aip_BSSID iface),
      printList ''    gateway MACs'' (aip_GatewayMACs iface), printList ''    active rulesets'' (aip_ActiveRulesets iface),
      printList ''    forced rulesets'' (aip_ForcedRulesets iface), printList ''    temporary rulesets'' (aip_TemporaryRulesets iface)] @
     printAllowRulesWithPrefix ''    '' (aip_EffectivePolicy iface)"

definition ruleset_lines :: "apiRuleset \<Rightarrow> string list" where
  "ruleset_lines rs =
     [tabbed (''  '' @ ars_Name rs) (Sprintf ''active=%t disabled=%t match_all=%t''
        [format_bool (ars_Active rs), format_bool (ars_Disabled rs), format_bool (ars_MatchAll rs)]),
      printList ''    trigger types'' (atr_InterfaceTypes (ars_Trigger rs)),
      printList ''    trigger names'' (atr_InterfaceNames (ars_Trigger rs)),
      printList ''    trigger regexps'' (atr_InterfaceRegexps (ars_Trigger rs)),
      printList ''    trigger IPs'' (atr_IPAddrs (ars_Trigger rs)),
      printList ''    trigger SSIDs'' (atr_SSIDs (ars_Trigger rs)),
      printList ''    trigger BSSIDs'' (atr_BSSIDs (ars_Trigger rs)),
      printList ''    trigger gateway MACs'' (atr_GatewayMACs (ars_Trigger rs))] @
     printAllowRulesWithPrefix ''    '' (ars_Policy rs)"

definition temporary_lines :: "nat \<times> apiTmpRuleset \<Rightarrow> string list" where
  "temporary_lines = (\<lambda>(i, rs).
     [tabbed (''  #'' @ utoa 10 (i + 1)) (''client='' @ atmp_Client rs), printList ''    interfaces'' (atmp_Interfaces rs)] @
     printAllowRulesWithPrefix ''    '' (atmp_Policy rs))"

definition force_lines :: "apiForceRuleset \<Rightarrow> string list" where
  "force_lines rs = [tabbed (''  '' @ afr_Name rs) (''clients='' @ strings_Join (afr_Clients rs) '', ''), printList ''    interfaces'' (afr_Interfaces rs)]"

definition client_lines :: "clientInfo \<Rightarrow> string list" where
  "client_lines c =
     [tabbed (''  #'' @ utoa 10 (unat (ci_ID c))) (Sprintf ''pid=%d uid=%d gid=%d owner=%s''
        [itoa (ci_PID c), utoa 10 (unat (ci_UID c)), utoa 10 (unat (ci_GID c)), ci_Owner c]),
      printEventTypes ''    events'' (ci_EventTypes c)]"

definition config_lines :: "currentConfig \<Rightarrow> string list" where
  "config_lines cfg =
     [println ''Admin API'', tabbed ''  socket'' (acfg_SocketPath (cc_AdminAPI cfg)), println []] @
     socks_lines (cc_SocksProxy cfg) @
     [println ''Interfaces'', printList ''  types'' (cc_InterfaceTypes cfg), printList ''  names'' (cc_InterfaceNames cfg),
      printList ''  regexps'' (cc_InterfaceRegexps cfg), printList ''  ignored types'' (cc_IgnoredInterfaceTypes cfg),
      printList ''  ignored names'' (cc_IgnoredInterfaceNames cfg), printList ''  ignored regexps'' (cc_IgnoredInterfaceRegexps cfg)] @
     (if cc_Interfaces cfg = [] then [tabbed ''  current'' ''-''] else println ''  current:'' # concat (map interface_lines (cc_Interfaces cfg))) @
     [println [], println ''Base policy''] @ printAllowRules (cc_BasePolicy cfg) @ [println [], println ''Effective policy''] @
     (if cc_EffectiveInterfaces cfg \<noteq> [] then concat (map effective_interface_lines (cc_EffectiveInterfaces cfg))
      else tabbed ''  active ruleset'' (if cc_ActiveRuleset cfg = [] then ''none'' else cc_ActiveRuleset cfg) #
        printAllowRules (cc_EffectivePolicy cfg)) @
     (if cc_Rulesets cfg = [] then [] else [println [], println ''Rulesets''] @ concat (map ruleset_lines (cc_Rulesets cfg))) @
     (if cc_TemporaryRulesets cfg = [] then []
      else [println [], println ''Temporary rulesets''] @ concat (map temporary_lines (enumerate 0 (cc_TemporaryRulesets cfg)))) @
     (if cc_ForceActiveRulesets cfg = [] then []
      else [println [], println ''Force-active rulesets''] @ concat (map force_lines (cc_ForceActiveRulesets cfg))) @
     [println [], println ''Clients''] @
     (if cc_Clients cfg = [] then [tabbed ''  current'' ''-''] else concat (map client_lines (cc_Clients cfg)))"

definition printConfig :: "writer \<Rightarrow> currentConfig \<Rightarrow> error option \<times> writer" where
  "printConfig w cfg =
     (let p = fold printer_print (config_lines cfg) \<lparr>op_w = \<lparr>tw_buf = [], tw_output = w\<rparr>, op_err = None\<rparr> in
      case op_err p of
        Some err \<Rightarrow> (Some err, tw_output (op_w p))
      | None \<Rightarrow> (case tw_Flush (op_w p) of (err, t) \<Rightarrow> (err, tw_output t)))"

text \<open>A JSON value as one line, without the HTML escapes, and a notification.\<close>

definition printJSONLine :: "writer \<Rightarrow> json \<Rightarrow> error option \<times> writer" where
  "printJSONLine w js = write_text (json_text False js @ [nl]) w"

definition printNotification :: "writer \<Rightarrow> notification \<Rightarrow> error option \<times> writer" where
  "printNotification w n =
     write_text (if nt_Header n = [] then Sprintf ''[%s] %s'' [nt_Level n, nt_Text n] @ [nl]
       else Sprintf ''[%s] %s: %s'' [nt_Level n, nt_Header n, nt_Text n] @ [nl]) w"

section \<open>The text does not depend on the flushes\<close>

lemma write_text_append:
  "write_text (a @ b) w = (case write_text a w of (None, w') \<Rightarrow> write_text b w' | (Some err, w') \<Rightarrow> (Some err, w'))"
  by (cases w) (auto simp: write_text_def split: option.splits)

lemma split_by_not_Nil [simp]: "split_by p s \<noteq> []"
  by (induction p s rule: split_by.induct) auto

lemma split_by_app: "p c \<Longrightarrow> split_by p (a @ c # b) = split_by p a @ split_by p b"
  by (induction p a rule: split_by.induct) auto

lemma split_by_none: "\<forall>c \<in> set a. \<not> p c \<Longrightarrow> split_by p (a @ b) = (a @ hd (split_by p b)) # tl (split_by p b)"
  by (induction a) auto

lemma join_lines_app: "xs \<noteq> [] \<Longrightarrow> ys \<noteq> [] \<Longrightarrow> join_lines (xs @ ys) = join_lines xs @ nl # join_lines ys"
  by (induction xs rule: join_lines.induct) (auto simp: neq_Nil_conv)

lemma format_lines_not_Nil [simp]: "lines \<noteq> [] \<Longrightarrow> format_lines widths lines \<noteq> []"
proof (induction widths lines rule: format_lines.induct)
  case (2 widths line lines)
  then show ?case by (cases "length line - 1 \<le> length widths") (auto simp: format_lines.simps Let_def)
qed simp

lemma format_lines_break:
  assumes "length line - 1 \<le> length widths"
  shows "format_lines widths (xs @ line # ys) = format_lines widths xs @ write_line widths line # format_lines widths ys"
  using assms
proof (induction widths xs rule: format_lines.induct)
  case (1 widths)
  then show ?case by (simp add: format_lines.simps)
next
  case (2 widths x xs)
  let ?P = "\<lambda>l :: string list. length widths < length l - 1"
  have nP: "\<not> ?P line" using 2 by simp
  have tw: "takeWhile ?P (zs @ line # ys) = takeWhile ?P zs" for zs using nP by (induction zs) auto
  have dw: "dropWhile ?P (zs @ line # ys) = dropWhile ?P zs @ line # ys" for zs using nP by (induction zs) auto
  show ?case
  proof (cases "length x - 1 \<le> length widths")
    case True
    then show ?thesis using 2 by (simp add: format_lines.simps)
  next
    case False
    then have eq: "format_lines widths (x # zs) = format_lines (widths @ [cell_width (length widths) (takeWhile ?P (x # zs))]) (takeWhile ?P (x # zs)) @
        format_lines widths (dropWhile ?P (x # zs))" for zs
      by (subst format_lines.simps) (simp only: Let_def if_False)
    have "format_lines widths (dropWhile ?P (x # xs) @ line # ys) = format_lines widths (dropWhile ?P (x # xs)) @ write_line widths line # format_lines widths ys"
      using 2 False by simp
    then show ?thesis using eq [of xs] eq [of "xs @ line # ys"] tw [of "x # xs"] dw [of "x # xs"] by simp
  qed
qed

definition format_part :: "string \<Rightarrow> string" where
  "format_part part = join_lines (format_lines [] (map (split_by is_cell_end) (split_by (\<lambda>c. c = nl) part)))"

lemma tab_format_parts: "tab_format text = join_lines (map format_part (split_by (\<lambda>c. ccode c = 12) text))"
  unfolding tab_format_def format_part_def ..

lemma format_part_break:
  assumes "length (split_by is_cell_end (last (split_by (\<lambda>c. c = nl) a))) = 1"
  shows "format_part (a @ nl # b) = format_part (a @ [nl]) @ format_part b"
proof -
  let ?f = "\<lambda>s. map (split_by is_cell_end) (split_by (\<lambda>c. c = nl) s)"
  obtain ls l where ls: "split_by (\<lambda>c. c = nl) a = ls @ [l]" by (metis rev_exhaust split_by_not_Nil)
  let ?X = "format_lines [] (map (split_by is_cell_end) ls) @ [write_line [] (split_by is_cell_end l)]"
  have fl: "format_lines [] (?f a @ ys) = ?X @ format_lines [] ys" for ys
    using assms ls format_lines_break [of "split_by is_cell_end l" "[]" "map (split_by is_cell_end) ls" ys] by simp
  have "format_part (a @ nl # s) = join_lines (?X @ format_lines [] (?f s))" for s
    using split_by_app [of "\<lambda>c. c = nl" nl a s] fl [of "?f s"] by (simp add: format_part_def)
  then have "format_part (a @ nl # s) = join_lines ?X @ nl # format_part s" for s
    using join_lines_app [of ?X "format_lines [] (?f s)"] by (simp add: format_part_def)
  moreover have "format_part [] = []" by (simp add: format_part_def format_lines.simps)
  ultimately show ?thesis by simp
qed

lemma tab_format_flush:
  assumes "flushes buf c" and "\<forall>c \<in> set buf. ccode c \<noteq> 12"
  shows "tab_format (buf @ c # s) = tab_format (buf @ [c]) @ tab_format s"
proof -
  let ?p = "\<lambda>c. ccode c = 12"
  show ?thesis
  proof (cases "?p c")
    case True
    have e: "format_part [] = []" by (simp add: format_part_def format_lines.simps)
    have "split_by ?p (buf @ c # t) = split_by ?p buf @ split_by ?p t" for t using True by (rule split_by_app)
    then have "tab_format (buf @ c # t) = join_lines (map format_part (split_by ?p buf)) @ nl # tab_format t" for t
      by (simp add: tab_format_parts join_lines_app)
    from this [of s] this [of "[]"] show ?thesis by (simp add: tab_format_parts e)
  next
    case False
    then have c: "c = nl" and one: "length (split_by is_cell_end (last (split_by (\<lambda>c. c = nl) buf))) = 1"
      using assms(1) by (auto simp: flushes_def)
    have nl: "\<forall>c \<in> set (buf @ [c]). \<not> ?p c" using assms(2) False by auto
    obtain h t where ht: "split_by ?p s = h # t" by (cases "split_by ?p s") auto
    have "split_by ?p (buf @ c # s) = ((buf @ [c]) @ h) # t" using split_by_none [OF nl, of s] ht by simp
    moreover have "split_by ?p (buf @ [c]) = [buf @ [c]]" using split_by_none [OF nl, of "[]"] by simp
    ultimately show ?thesis using format_part_break [OF one, of h] ht c
      by (cases t) (simp_all add: tab_format_parts)
  qed
qed

lemma tw_write_spec:
  assumes "tw_write s t = (err, t')" and "\<forall>c \<in> set (tw_buf t). ccode c \<noteq> 12"
  shows "write_text (tab_format (tw_buf t @ s @ r)) (tw_output t) =
      (case err of None \<Rightarrow> write_text (tab_format (tw_buf t' @ r)) (tw_output t') | Some e \<Rightarrow> (Some e, tw_output t')) \<and>
    (\<forall>c \<in> set (tw_buf t'). ccode c \<noteq> 12)"
  using assms
proof (induction s t rule: tw_write.induct)
  case (1 t)
  then show ?case by auto
next
  case (2 c s t)
  let ?t = "t\<lparr>tw_buf := tw_buf t @ [c]\<rparr>"
  show ?case
  proof (cases "flushes (tw_buf t) c")
    case False
    then have "ccode c \<noteq> 12" by (auto simp: flushes_def)
    with 2 False show ?thesis by auto
  next
    case True
    have f: "tab_format (tw_buf t @ (c # s) @ r) = tab_format (tw_buf t @ [c]) @ tab_format (s @ r)"
      using tab_format_flush [OF True 2(4), of "s @ r"] by simp
    obtain e u where fl: "tw_Flush ?t = (e, u)" by fastforce
    then have u: "tw_buf u = []" "write_text (tab_format (tw_buf t @ [c])) (tw_output t) = (e, tw_output u)"
      by (auto simp: tw_Flush_def split: prod.splits)
    show ?thesis
    proof (cases e)
      case None
      with 2 True fl u f show ?thesis by (simp add: write_text_append)
    next
      case (Some x)
      with 2(3) True fl have "err = Some x" "t' = u" by simp_all
      with Some u f show ?thesis by (simp add: write_text_append)
    qed
  qed
qed

lemma printer_spec:
  assumes "op_err p = None" and "\<forall>c \<in> set (tw_buf (op_w p)). ccode c \<noteq> 12"
  shows "write_text (tab_format (tw_buf (op_w p) @ concat ss)) (tw_output (op_w p)) =
    (let q = fold printer_print ss p in
     case op_err q of None \<Rightarrow> write_text (tab_format (tw_buf (op_w q))) (tw_output (op_w q)) | Some e \<Rightarrow> (Some e, tw_output (op_w q)))"
  using assms
proof (induction ss arbitrary: p)
  case (Cons s ss)
  obtain e t where w: "tw_write s (op_w p) = (e, t)" by fastforce
  then have q: "printer_print s p = \<lparr>op_w = t, op_err = e\<rparr>" using Cons by (simp add: printer_print_def)
  have stop: "fold printer_print ss q = q" if "op_err q \<noteq> None" for q
    using that by (induction ss) (auto simp: printer_print_def)
  note spec = tw_write_spec [OF w Cons.prems(2), of "concat ss"]
  show ?case
  proof (cases e)
    case None
    with Cons.IH [of "printer_print s p"] spec q show ?thesis by (simp add: Let_def)
  next
    case (Some x)
    with spec q stop [of "printer_print s p"] show ?thesis by (simp add: Let_def)
  qed
qed simp

lemma printConfig_text: "printConfig w cfg = write_text (tab_format (concat (config_lines cfg))) w"
  using printer_spec [of "\<lparr>op_w = \<lparr>tw_buf = [], tw_output = w\<rparr>, op_err = None\<rparr>" "config_lines cfg"]
  by (simp add: printConfig_def tw_Flush_def Let_def split: option.split prod.split)

text \<open>\<open>get-cfg\<close> prints a prefix of the table of the configuration, and reports an error exactly when the output is not
  the whole table; where the text is flushed early makes no difference.\<close>

theorem printConfig_writes:
  "\<exists>n. w_out (snd (printConfig w cfg)) = w_out w @ take n (tab_format (concat (config_lines cfg))) \<and>
     (fst (printConfig w cfg) = None \<longleftrightarrow> w_out (snd (printConfig w cfg)) = w_out w @ tab_format (concat (config_lines cfg)))"
proof -
  let ?s = "tab_format (concat (config_lines cfg))"
  show ?thesis unfolding printConfig_text write_text_def
    by (cases "w_limit w"; cases "length ?s \<le> fst (the (w_limit w))")
      (auto intro: exI [of _ "length ?s"] exI [of _ "fst (the (w_limit w))"] split: prod.splits)
qed

end
