(* ===== verification/GoFlag.thy ===== *)
theory GoFlag
  imports GoText
begin

text \<open>
  What the program uses of the library package \<open>flag\<close>: flag sets with \<open>ContinueOnError\<close>. A flag stores its value
  in the record of the variables of its command. Usage texts, which go to the standard error, are left out.
\<close>

datatype 'v flagdef = BoolFlag "bool \<Rightarrow> 'v \<Rightarrow> 'v" | ValueFlag "string \<Rightarrow> 'v \<Rightarrow> 'v res"

definition StringFlag :: "(string \<Rightarrow> 'v \<Rightarrow> 'v) \<Rightarrow> 'v flagdef" where
  "StringFlag upd = ValueFlag (\<lambda>s v. Inr (upd s v))"

definition ErrHelp :: error where
  "ErrHelp = Lib ''flag: help requested''"

definition strconv_ParseBool :: "string \<Rightarrow> bool res" where
  "strconv_ParseBool s =
     (if s \<in> {''1'', ''t'', ''T'', ''TRUE'', ''true'', ''True''} then Inr True
      else if s \<in> {''0'', ''f'', ''F'', ''FALSE'', ''false'', ''False''} then Inr False
      else Inl (Lib ''parse error''))"

text \<open>The name and the value of an argument \<open>-name\<close>, \<open>--name\<close> or \<open>-name=value\<close>; \<open>None\<close> for other arguments.\<close>

definition flag_name :: "string \<Rightarrow> string option" where
  "flag_name s =
     (if length s < 2 \<or> hd s \<noteq> CHR ''-'' then None
      else Some (if s ! 1 = CHR ''-'' then drop 2 s else drop 1 s))"

definition flag_value :: "string \<Rightarrow> string \<times> string option" where
  "flag_value name = (case strings_Cut name CHR ''='' of None \<Rightarrow> (name, None) | Some (n, v) \<Rightarrow> (n, Some v))"

text \<open>
  \<open>parseOne\<close>: the variables, the arguments that are left, and whether a flag was read. \<open>Parse\<close> repeats it.
\<close>

definition set_flag :: "'v flagdef \<Rightarrow> string \<Rightarrow> string option \<Rightarrow> string list \<Rightarrow> 'v \<Rightarrow> ('v \<times> string list \<times> bool) res" where
  "set_flag def name val args v = (case def of
      BoolFlag upd \<Rightarrow>
        (case strconv_ParseBool (case val of None \<Rightarrow> ''true'' | Some x \<Rightarrow> x) of
           Inl err \<Rightarrow> Inl (Wrap ''invalid boolean value %q for -%s'' [the val, name] err)
         | Inr b \<Rightarrow> Inr (upd b v, args, True))
    | ValueFlag upd \<Rightarrow>
        (case (case val of Some x \<Rightarrow> Some (x, args) | None \<Rightarrow> (case args of [] \<Rightarrow> None | x # rest \<Rightarrow> Some (x, rest))) of
           None \<Rightarrow> Inl (Errf ''flag needs an argument: -%s'' [name])
         | Some (x, rest) \<Rightarrow>
             (case upd x v of
                Inl err \<Rightarrow> Inl (Wrap ''invalid value %q for flag -%s'' [x, name] err)
              | Inr v' \<Rightarrow> Inr (v', rest, True))))"

definition parseOne :: "(string \<times> 'v flagdef) list \<Rightarrow> string list \<Rightarrow> 'v \<Rightarrow> ('v \<times> string list \<times> bool) res" where
  "parseOne formal args v = (case args of
      [] \<Rightarrow> Inr (v, [], False)
    | s # rest \<Rightarrow>
        (case flag_name s of
           None \<Rightarrow> Inr (v, args, False)
         | Some name0 \<Rightarrow>
             if s = ''--'' then Inr (v, rest, False)
             else if name0 = [] \<or> hd name0 \<in> set ''-='' then Inl (Errf ''bad flag syntax: %s'' [s])
             else case flag_value name0 of (name, val) \<Rightarrow>
               (case map_of formal name of
                  None \<Rightarrow> Inl (if name \<in> {''help'', ''h''} then ErrHelp else Errf ''flag provided but not defined: -%s'' [name])
                | Some def \<Rightarrow> set_flag def name val rest v)))"

lemma set_flag_rest: "set_flag def name val args v = Inr (v', rest, b) \<Longrightarrow> length rest \<le> length args \<and> set rest \<subseteq> set args"
  by (auto simp: set_flag_def split: flagdef.splits sum.splits option.splits list.splits)

lemma parseOne_rest:
  assumes "parseOne formal args v = Inr (v', rest, b)"
  shows "set rest \<subseteq> set args \<and> (b \<longrightarrow> length rest < length args)"
  using assms set_flag_rest by (fastforce simp: parseOne_def split: list.splits option.splits if_splits prod.splits)

function flags_Parse :: "(string \<times> 'v flagdef) list \<Rightarrow> string list \<Rightarrow> 'v \<Rightarrow> ('v \<times> string list) res" where
  "flags_Parse formal args v =
     (case parseOne formal args v of
        Inl err \<Rightarrow> Inl err
      | Inr (v', rest, seen) \<Rightarrow> if seen then flags_Parse formal rest v' else Inr (v', rest))"
  by pat_completeness auto
termination
  by (relation "measure (\<lambda>(formal, args, v). length args)") (auto dest: parseOne_rest)

declare flags_Parse.simps [simp del]

lemma flags_Parse_step:
  assumes "flags_Parse formal args v = Inr (v', rest)"
  obtains w r b where "parseOne formal args v = Inr (w, r, b)" and "if b then flags_Parse formal r w = Inr (v', rest) else v' = w \<and> rest = r"
proof (cases "parseOne formal args v")
  case (Inr x)
  obtain w r b where "x = (w, r, b)" by (cases x) auto
  with Inr assms flags_Parse.simps [of formal args v] show thesis by (intro that [of w r b]) (auto split: if_splits)
qed (use assms flags_Parse.simps [of formal args v] in simp)

lemma Parse_rest: "flags_Parse formal args v = Inr (v', rest) \<Longrightarrow> set rest \<subseteq> set args"
proof (induction "length args" arbitrary: args v rule: less_induct)
  case less
  from less(2) obtain w r b where one: "parseOne formal args v = Inr (w, r, b)"
    and step: "if b then flags_Parse formal r w = Inr (v', rest) else v' = w \<and> rest = r" by (rule flags_Parse_step)
  from step have "set rest \<subseteq> set r" using less(1) [of r w] parseOne_rest [OF one] by (cases b) auto
  with parseOne_rest [OF one] show ?case by blast
qed

text \<open>A property \<open>P\<close> of the arguments and \<open>Q\<close> of the variables that every flag keeps.\<close>

lemma Parse_invariant:
  assumes "flags_Parse formal args v = Inr (v', rest)" and "\<forall>s \<in> set args. P s" and "Q v"
    and val: "\<And>s n m x. P s \<Longrightarrow> flag_name s = Some n \<Longrightarrow> flag_value n = (m, Some x) \<Longrightarrow> P x"
    and bool: "\<And>name upd b v. (name, BoolFlag upd) \<in> set formal \<Longrightarrow> Q v \<Longrightarrow> Q (upd b v)"
    and str: "\<And>name upd x v v'. (name, ValueFlag upd) \<in> set formal \<Longrightarrow> Q v \<Longrightarrow> P x \<Longrightarrow> upd x v = Inr v' \<Longrightarrow> Q v'"
  shows "Q v'"
  using assms(1-3)
proof (induction "length args" arbitrary: args v rule: less_induct)
  case less
  from less(2) obtain w r b where one: "parseOne formal args v = Inr (w, r, b)"
    and step: "if b then flags_Parse formal r w = Inr (v', rest) else v' = w \<and> rest = r" by (rule flags_Parse_step)
  have setf: "Q w" if "set_flag def name xo as v = Inr (w, r, b)" "(name, def) \<in> set formal" "\<forall>s \<in> set as. P s" "\<forall>x. xo = Some x \<longrightarrow> P x"
    for def name xo as
    using that less(4) bool str by (fastforce simp: set_flag_def split: flagdef.splits sum.splits option.splits list.splits)
  have "Q w"
  proof (cases "args = [] \<or> flag_name (hd args) = None \<or> hd args = ''--''")
    case True
    with one less(4) show ?thesis by (auto simp: parseOne_def split: list.splits option.splits)
  next
    case False
    then obtain s as n0 where args: "args = s # as" "flag_name s = Some n0" "s \<noteq> ''--''" by (cases args) auto
    obtain name xo where nv: "flag_value n0 = (name, xo)" by fastforce
    from one args nv obtain def where "map_of formal name = Some def" "set_flag def name xo as v = Inr (w, r, b)"
      by (auto simp: parseOne_def split: option.splits if_splits)
    moreover have "\<forall>x. xo = Some x \<longrightarrow> P x" using val args nv less(3) by auto
    ultimately show ?thesis using args less(3) by (intro setf) (auto dest: map_of_SomeD)
  qed
  moreover have "\<forall>s \<in> set r. P s" using parseOne_rest [OF one] less(3) by blast
  ultimately show ?case using step less(1) [of r w] parseOne_rest [OF one] by (cases b) auto
qed

end
