(* ===== verification/Cli.thy ===== *)
theory Cli
  imports CliPrint GoFlag AdminMutation
begin

text \<open>
  \<open>cmd/killswitch-cli/main.go\<close>: from command line arguments to a request, and each subcommand as a function of what
  the daemon, the files, the terminal and the standard output do (\<open>cli_env\<close>). A result holds the messages sent, the
  output, the returned error and the modes given to the terminal; no returned value means that the command still waits.
\<close>

section \<open>Arguments\<close>

record cliFlags =
  cf_Socket :: string
  cf_JsonOut :: bool
  cf_Level :: string
  cf_Header :: string
  cf_Text :: string
  cf_Json :: string
  cf_Interfaces :: string
  cf_Ruleset :: string
  cf_Target :: string
  cf_Watch :: bool

definition no_flags :: "bool \<Rightarrow> cliFlags" where
  "no_flags jsonOut = \<lparr>cf_Socket = defaultAdminAPISocketPath, cf_JsonOut = jsonOut, cf_Level = ''normal'', cf_Header = [], cf_Text = [],
     cf_Json = [], cf_Interfaces = [], cf_Ruleset = [], cf_Target = [], cf_Watch = False\<rparr>"

definition str_flag :: "((string \<Rightarrow> string) \<Rightarrow> cliFlags \<Rightarrow> cliFlags) \<Rightarrow> cliFlags flagdef" where
  "str_flag upd = StringFlag (\<lambda>s. upd (\<lambda>_. s))"

definition common_flags :: "(string \<times> cliFlags flagdef) list" where
  "common_flags = [(''socket'', str_flag cf_Socket_update), (''s'', str_flag cf_Socket_update), (''json-out'', BoolFlag (\<lambda>b. cf_JsonOut_update (\<lambda>_. b)))]"

definition extractJSONOutArg :: "string list \<Rightarrow> bool \<times> string list" where
  "extractJSONOutArg args = (''--json-out'' \<in> set args, filter (\<lambda>arg. arg \<noteq> ''--json-out'') args)"

definition parse_flags :: "(string \<times> cliFlags flagdef) list \<Rightarrow> string list \<Rightarrow> (cliFlags \<times> string list) res" where
  "parse_flags specific args0 =
     (case extractJSONOutArg args0 of (jsonOutArg, args) \<Rightarrow> flags_Parse (common_flags @ specific) args (no_flags jsonOutArg))"

section \<open>Requests\<close>

text \<open>\<open>readFile\<close> stands for \<open>os.ReadFile\<close>. A \<open>RawMessage\<close> is its text; the empty text is none.\<close>

definition readJSONArgument :: "(string \<Rightarrow> string res) \<Rightarrow> string \<Rightarrow> string res" where
  "readJSONArgument readFile val =
     (if strings_HasPrefix val ''@'' then
        (let path = strings_TrimPrefix val ''@'' in wrapR ''read JSON value %s'' [path] (readFile path))
      else Inr val)"

fun parseCSV_loop :: "string list \<Rightarrow> string set \<Rightarrow> string list" where
  "parseCSV_loop [] seen = []"
| "parseCSV_loop (part # parts) seen =
     (let part = strings_TrimSpace part in
      if part = [] \<or> part \<in> seen then parseCSV_loop parts seen else part # parseCSV_loop parts (insert part seen))"

definition parseCSV :: "string \<Rightarrow> string list" where
  "parseCSV val = parseCSV_loop (strings_Split val CHR '','') {}"

definition scalarTarget :: "string \<Rightarrow> bool" where
  "scalarTarget target \<longleftrightarrow> target \<in> {''base_policy.allow_all'', ''base_policy.enable_v4'', ''base_policy.enable_v6'', ''ruleset.disabled'', ''ruleset.match_all''}"

text \<open>\<open>strconv.Atoi\<close> with 64-bit integers.\<close>

definition strconv_Atoi :: "string \<Rightarrow> int res" where
  "strconv_Atoi s =
     (let neg = (s \<noteq> [] \<and> hd s = CHR ''-''); ds = (if s \<noteq> [] \<and> hd s \<in> set ''+-'' then tl s else s) in
      case strconv_ParseUint ds 10 64 of
        Inl err \<Rightarrow> Inl err
      | Inr n \<Rightarrow> (if (if neg then 2 ^ 63 < n else 2 ^ 63 \<le> n) then Inl (rangeError s) else Inr (if neg then - int n else int n)))"

definition scalarJSONValue :: "string \<Rightarrow> string res" where
  "scalarJSONValue val =
     (if val = ''true'' \<or> val = ''false'' then Inr val
      else case strconv_Atoi val of
        Inr _ \<Rightarrow> Inr val
      | Inl _ \<Rightarrow> Inr (json_text True (enc_string val)))"

text \<open>A request with the text of its raw value, which stands in the place of the field \<open>mr_Value\<close>.\<close>

record cliRequest =
  cr_Req :: mutationRequest
  cr_Raw :: string

definition validateMutationRequest :: "mutationRequest \<Rightarrow> bool \<Rightarrow> unit res" where
  "validateMutationRequest req hasJSON =
     (if mr_Target req \<noteq> ''ruleset'' then Inr ()
      else if mr_Ruleset req = [] then Inl (Err ''ruleset mutations require -ruleset NAME'')
      else if mr_Values req \<noteq> [] then
        Inl (Errf ''%s -target ruleset expects no positional arguments, got: %s'' [mr_Operation req, strings_Join (mr_Values req) '' ''])
      else if mr_Operation req \<in> {''add'', ''set''} then
        guardR (\<not> hasJSON) (Errf ''%s -target ruleset requires -json JSON or -json @FILE'' [mr_Operation req])
      else if mr_Operation req = ''remove'' then guardR hasJSON (Err ''remove -target ruleset does not accept -json'')
      else Inl (Errf ''unsupported ruleset operation %q'' [mr_Operation req]))"

definition mutation_flags :: "(string \<times> cliFlags flagdef) list" where
  "mutation_flags = [(''target'', str_flag cf_Target_update), (''t'', str_flag cf_Target_update), (''ruleset'', str_flag cf_Ruleset_update),
     (''r'', str_flag cf_Ruleset_update), (''json'', str_flag cf_Json_update)]"

text \<open>The request, the socket and whether the output is JSON.\<close>

definition mutationRequestFromArgs :: "(string \<Rightarrow> string res) \<Rightarrow> string \<Rightarrow> string list \<Rightarrow> (cliRequest \<times> string \<times> bool) res" where
  "mutationRequestFromArgs readFile operation args =
     bindR (parse_flags mutation_flags args) (\<lambda>(f, values).
     bindR (guardR (cf_Target f = []) (Errf ''%s requires -target'' [operation])) (\<lambda>_.
     bindR (if cf_Json f \<noteq> [] then readJSONArgument readFile (cf_Json f) else Inr []) (\<lambda>raw.
     let scalar = raw = [] \<and> operation = ''set'' \<and> length values = 1 \<and> scalarTarget (cf_Target f) in
     bindR (if scalar then scalarJSONValue (values ! 0) else Inr raw) (\<lambda>raw.
     let req = zero_mutationRequest\<lparr>mr_Operation := operation, mr_Target := cf_Target f, mr_Ruleset := cf_Ruleset f,
       mr_Values := (if scalar then [] else values)\<rparr> in
     bindR (validateMutationRequest req (cf_Json f \<noteq> [])) (\<lambda>_.
     Inr (\<lparr>cr_Req = req, cr_Raw = raw\<rparr>, cf_Socket f, cf_JsonOut f))))))"

section \<open>What a command does\<close>

text \<open>
  The world of a command: files, the result of connecting to a socket, the errors of the first and second write, what
  the daemon sends, and the terminal. \<open>termios\<close> keeps the fields that the program changes.
\<close>

record termios =
  tio_Lflag :: u32
  tio_VMIN :: u8
  tio_VTIME :: u8

text \<open>
  What ends the hold of a rule set: reading from the daemon failed, the terminal input ended, or a signal came. A watching command meets
  events, a reading error and signals in the order in which its \<open>select\<close> takes them.
\<close>

datatype hold = ServerDone error | InputDone "error option" | Interrupted
datatype 'a choice = GotEvent 'a | GotError error | GotSignal

record cli_env =
  ce_ReadFile :: "string \<Rightarrow> string res"
  ce_Dial :: "string \<Rightarrow> error option"
  ce_Write :: "nat \<Rightarrow> error option"
  ce_Conn :: connection
  ce_isFile :: bool
  ce_getTermios :: "termios res"
  ce_setTermios :: "termios \<Rightarrow> error option"
  ce_Hold :: "hold option"
  ce_Events :: "eventMessage choice list"
  ce_Notifications :: "notification choice list"

record cli_result =
  res_sent :: "json list"
  res_out :: writer
  res_ret :: "error option option"
  res_modes :: "termios list"

definition returns :: "writer \<Rightarrow> error option \<Rightarrow> cli_result" where
  "returns w r = \<lparr>res_sent = [], res_out = w, res_ret = Some r, res_modes = []\<rparr>"

definition return_print :: "error option \<times> writer \<Rightarrow> cli_result" where
  "return_print p = returns (snd p) (fst p)"

definition dialled :: "cli_env \<Rightarrow> string \<Rightarrow> writer \<Rightarrow> cli_result \<Rightarrow> cli_result" where
  "dialled env path w k = (case ce_Dial env path of
      Some err \<Rightarrow> returns w (Some (Wrap ''connect to admin API socket %s'' [path] err))
    | None \<Rightarrow> k)"

text \<open>A message is sent, then \<open>k\<close> goes on.\<close>

definition sending :: "json res \<Rightarrow> writer \<Rightarrow> cli_result \<Rightarrow> cli_result" where
  "sending m w k = (case m of Inl err \<Rightarrow> returns w (Some err) | Inr js \<Rightarrow> k\<lparr>res_sent := js # res_sent k\<rparr>)"

definition waiting :: "('a res \<times> connection) option \<Rightarrow> writer \<Rightarrow> ('a \<Rightarrow> connection \<Rightarrow> cli_result) \<Rightarrow> cli_result" where
  "waiting m w k = (case m of
      None \<Rightarrow> \<lparr>res_sent = [], res_out = w, res_ret = None, res_modes = []\<rparr>
    | Some (Inl err, _) \<Rightarrow> returns w (Some err)
    | Some (Inr x, conn) \<Rightarrow> k x conn)"

text \<open>\<open>Marshal\<close> of a request fails when its raw value is not JSON.\<close>

definition marshal_request :: "cliRequest \<Rightarrow> mutationRequest res" where
  "marshal_request r =
     (if cr_Raw r = [] then Inr (cr_Req r)
      else case unmarshal (cr_Raw r) of
        None \<Rightarrow> Inl (Wrap ''write admin API message'' [] (Lib ''json: error calling MarshalJSON for type json.RawMessage''))
      | Some js \<Rightarrow> Inr ((cr_Req r)\<lparr>mr_Value := Some js\<rparr>))"

definition send_mutation :: "error option \<Rightarrow> cliRequest \<Rightarrow> json res" where
  "send_mutation write r = bindR (marshal_request r) (\<lambda>req. client_Send write (MutationRequest req))"

definition cli_Mutate :: "cli_env \<Rightarrow> cliRequest \<Rightarrow> writer \<Rightarrow> (mutationResult \<Rightarrow> connection \<Rightarrow> cli_result) \<Rightarrow> cli_result" where
  "cli_Mutate env r w k = sending (send_mutation (ce_Write env 0) r) w (waiting (WaitForMutationResult (ce_Conn env)) w k)"

definition runMutation :: "string \<Rightarrow> string list \<Rightarrow> cli_env \<Rightarrow> writer \<Rightarrow> cli_result" where
  "runMutation operation args env w =
     (case mutationRequestFromArgs (ce_ReadFile env) operation args of
        Inl err \<Rightarrow> returns w (Some err)
      | Inr (req, socketPath, jsonOut) \<Rightarrow>
          dialled env socketPath w
            (cli_Mutate env req w (\<lambda>result _.
               if \<not> mres_OK result then returns w (Some (Err (mres_Error result)))
               else return_print
                 (if jsonOut then printJSONLine w (enc_mutationResult result)
                  else write_text (println (if mres_Changed result then ''changed'' else ''unchanged'')) w))))"

definition runDebugNotify :: "string list \<Rightarrow> cli_env \<Rightarrow> writer \<Rightarrow> cli_result" where
  "runDebugNotify args env w =
     (case parse_flags [(''level'', str_flag cf_Level_update), (''header'', str_flag cf_Header_update), (''text'', str_flag cf_Text_update)] args of
        Inl err \<Rightarrow> returns w (Some err)
      | Inr (f, pos) \<Rightarrow>
          if pos \<noteq> [] then returns w (Some (Errf ''debug-notify expects no positional arguments, got: %s'' [strings_Join pos '' '']))
          else if cf_Text f = [] then returns w (Some (Err ''debug-notify requires -text''))
          else dialled env (cf_Socket f) w
            (sending (client_Send (ce_Write env 0) (DebugNotifyRequest \<lparr>nt_Level = cf_Level f, nt_Text = cf_Text f, nt_Header = cf_Header f\<rparr>)) w
            (waiting (WaitForDebugResult (ce_Conn env)) w (\<lambda>result _.
               if \<not> dr_OK result then returns w (Some (Err (dr_Error result)))
               else return_print (if cf_JsonOut f then printJSONLine w (enc_debugResult result) else write_text (println ''sent'') w)))))"

definition runSocksProxy :: "string list \<Rightarrow> cli_env \<Rightarrow> writer \<Rightarrow> cli_result" where
  "runSocksProxy args env w =
     (case parse_flags [] args of
        Inl err \<Rightarrow> returns w (Some err)
      | Inr (f, pos) \<Rightarrow>
          if length pos \<noteq> 1 then returns w (Some (Err ''socks-proxy requires exactly one action: start or stop''))
          else let action = pos ! 0; enabled = (action = ''start'') in
            if action \<notin> {''start'', ''stop''} then returns w (Some (Errf ''unknown socks-proxy action %q'' [action]))
            else dialled env (cf_Socket f) w
              (cli_Mutate env \<lparr>cr_Req = zero_mutationRequest\<lparr>mr_Operation := ''set'', mr_Target := ''socks_proxy''\<rparr>,
                  cr_Raw = json_text True (JBool enabled)\<rparr> w (\<lambda>result _.
                 if \<not> mres_OK result \<and> mres_Error result \<noteq> [] then returns w (Some (Err (mres_Error result)))
                 else return_print
                   (if cf_JsonOut f then printJSONLine w (enc_mutationResult result)
                    else if mres_Error result \<noteq> [] then
                      write_text (println (Sprintf ''socks proxy requested %s, but it is not running: %s'' [action, mres_Error result])) w
                    else write_text (println (Sprintf ''socks proxy %s'' [if enabled then ''started'' else ''stopped''])) w))))"

section \<open>Rule sets that are held\<close>

definition ICANON :: u32 where "ICANON = 2"
definition ECHO :: u32 where "ECHO = 8"

text \<open>The mode that was set and the one to restore; nothing when the input is no terminal.\<close>

definition rawInputMode :: "cli_env \<Rightarrow> (termios \<times> termios) option res" where
  "rawInputMode env =
     (if \<not> ce_isFile env then Inr None
      else case ce_getTermios env of
        Inl err \<Rightarrow> (if errors_Is err (Lib ''ENOTTY'') \<or> errors_Is err (Lib ''EINVAL'') then Inr None else Inl (Wrap ''inspect terminal mode'' [] err))
      | Inr old \<Rightarrow>
          let raw = old\<lparr>tio_Lflag := and (tio_Lflag old) (not (or ICANON ECHO)), tio_VMIN := 1, tio_VTIME := 0\<rparr> in
          (case ce_setTermios env raw of
             Some err \<Rightarrow> Inl (Wrap ''set raw terminal mode'' [] err)
           | None \<Rightarrow> Inr (Some (raw, old))))"

text \<open>Each \<open>Read\<close> gives at most one byte and perhaps an error. \<open>None\<close>: the loop still reads.\<close>

fun waitForStopInput :: "(u8 option \<times> error option) list \<Rightarrow> error option option" where
  "waitForStopInput [] = None"
| "waitForStopInput ((b, err) # reads) =
     (if b \<in> {Some 3, Some 4, Some 27} then Some None
      else case err of
        Some e \<Rightarrow> Some (if errors_Is e EOF then None else Some e)
      | None \<Rightarrow> waitForStopInput reads)"

definition hold_result :: "hold \<Rightarrow> error option" where
  "hold_result h = (case h of
      ServerDone err \<Rightarrow> Some (if IsEOF err then Err ''server disconnected'' else Wrap ''server disconnected'' [] err)
    | InputDone err \<Rightarrow> err
    | Interrupted \<Rightarrow> None)"

definition hold_ruleset :: "cli_env \<Rightarrow> writer \<Rightarrow> cli_result" where
  "hold_ruleset env w = (case rawInputMode env of
      Inl err \<Rightarrow> returns w (Some err)
    | Inr m \<Rightarrow>
        \<lparr>res_sent = [], res_out = w, res_ret = map_option hold_result (ce_Hold env),
         res_modes = (case m of None \<Rightarrow> [] | Some (raw, old) \<Rightarrow> raw # (if ce_Hold env = None then [] else [old]))\<rparr>)"

definition install_ruleset :: "cli_env \<Rightarrow> string \<Rightarrow> bool \<Rightarrow> cliRequest \<Rightarrow> string \<Rightarrow> writer \<Rightarrow> cli_result" where
  "install_ruleset env socketPath jsonOut req msg w =
     dialled env socketPath w
       (cli_Mutate env req w (\<lambda>result _.
          if \<not> mres_OK result then returns w (Some (Err (mres_Error result)))
          else case (if jsonOut then printJSONLine w (enc_mutationResult result) else write_text (println msg) w) of
            (Some err, w') \<Rightarrow> returns w' (Some err)
          | (None, w') \<Rightarrow> hold_ruleset env w'))"

definition runTemporaryRuleset :: "string list \<Rightarrow> cli_env \<Rightarrow> writer \<Rightarrow> cli_result" where
  "runTemporaryRuleset args env w =
     (case parse_flags [(''json'', str_flag cf_Json_update), (''interfaces'', str_flag cf_Interfaces_update)] args of
        Inl err \<Rightarrow> returns w (Some err)
      | Inr (f, pos) \<Rightarrow>
          if pos \<noteq> [] then returns w (Some (Errf ''tmp-ruleset expects no positional arguments, got: %s'' [strings_Join pos '' '']))
          else if cf_Json f = [] then returns w (Some (Err ''tmp-ruleset requires -json JSON or -json @FILE''))
          else if cf_Interfaces f = [] then returns w (Some (Err ''tmp-ruleset requires -interfaces NAME[,NAME...]''))
          else case readJSONArgument (ce_ReadFile env) (cf_Json f) of
            Inl err \<Rightarrow> returns w (Some err)
          | Inr raw \<Rightarrow>
              let interfaces = parseCSV (cf_Interfaces f) in
              install_ruleset env (cf_Socket f) (cf_JsonOut f)
                \<lparr>cr_Req = zero_mutationRequest\<lparr>mr_Operation := ''set'', mr_Target := ''tmp_ruleset'', mr_Interfaces := interfaces\<rparr>, cr_Raw = raw\<rparr>
                (Sprintf ''temporary ruleset installed for %s; press Ctrl+C, Ctrl+D, or Esc to remove it'' [strings_Join interfaces '', '']) w)"

definition runForceRuleset :: "string list \<Rightarrow> cli_env \<Rightarrow> writer \<Rightarrow> cli_result" where
  "runForceRuleset args env w =
     (case parse_flags [(''ruleset'', str_flag cf_Ruleset_update), (''r'', str_flag cf_Ruleset_update), (''interfaces'', str_flag cf_Interfaces_update)] args of
        Inl err \<Rightarrow> returns w (Some err)
      | Inr (f, pos) \<Rightarrow>
          if pos \<noteq> [] then returns w (Some (Errf ''force-ruleset expects no positional arguments, got: %s'' [strings_Join pos '' '']))
          else if cf_Ruleset f = [] then returns w (Some (Err ''force-ruleset requires -ruleset NAME''))
          else if cf_Interfaces f = [] then returns w (Some (Err ''force-ruleset requires -interfaces NAME[,NAME...]''))
          else
            let interfaces = parseCSV (cf_Interfaces f) in
            install_ruleset env (cf_Socket f) (cf_JsonOut f)
              \<lparr>cr_Req = zero_mutationRequest\<lparr>mr_Operation := ''set'', mr_Target := ''force_ruleset'', mr_Ruleset := cf_Ruleset f, mr_Interfaces := interfaces\<rparr>,
               cr_Raw = []\<rparr>
              (Sprintf ''ruleset %q force activated for %s; press Ctrl+C, Ctrl+D, or Esc to release it'' [cf_Ruleset f, strings_Join interfaces '', '']) w)"

section \<open>Watching\<close>

fun watch_loop :: "('a \<Rightarrow> writer \<Rightarrow> error option \<times> writer) \<Rightarrow> 'a choice list \<Rightarrow> writer \<Rightarrow> cli_result" where
  "watch_loop show [] w = \<lparr>res_sent = [], res_out = w, res_ret = None, res_modes = []\<rparr>"
| "watch_loop show (GotEvent x # cs) w = (case show x w of (None, w') \<Rightarrow> watch_loop show cs w' | (Some err, w') \<Rightarrow> returns w' (Some err))"
| "watch_loop show (GotError err # cs) w = returns w (Some (if IsEOF err then Err ''server disconnected'' else err))"
| "watch_loop show (GotSignal # cs) w = returns w None"

definition watchNotifications :: "bool \<Rightarrow> notification choice list \<Rightarrow> writer \<Rightarrow> cli_result" where
  "watchNotifications jsonOut =
     watch_loop (\<lambda>n w. if jsonOut then printJSONLine w (enc_notification n) else printNotification w n)"

definition watchConfig :: "eventMessage choice list \<Rightarrow> writer \<Rightarrow> cli_result" where
  "watchConfig = watch_loop (\<lambda>ev w.
     case write_text (nl # Sprintf ''Event: %s'' [ev_EventType ev] @ [nl, nl]) w of
       (Some err, w') \<Rightarrow> (Some err, w')
     | (None, w') \<Rightarrow> printConfig w' (ev_Config ev))"

definition configUpdate :: "string \<Rightarrow> currentConfig \<Rightarrow> json" where
  "configUpdate eventType cfg = JObj (omit ''event_type'' (eventType = []) (enc_string eventType) @ [(''config'', enc_currentConfig cfg)])"

definition watchConfigJSON :: "eventMessage choice list \<Rightarrow> writer \<Rightarrow> cli_result" where
  "watchConfigJSON = watch_loop (\<lambda>ev w. printJSONLine w (configUpdate (ev_EventType ev) (ev_Config ev)))"

definition runNotifications :: "string list \<Rightarrow> cli_env \<Rightarrow> writer \<Rightarrow> cli_result" where
  "runNotifications args env w =
     (case parse_flags [] args of
        Inl err \<Rightarrow> returns w (Some err)
      | Inr (f, pos) \<Rightarrow>
          if pos \<noteq> [] then returns w (Some (Errf ''notifications expects no positional arguments, got: %s'' [strings_Join pos '' '']))
          else dialled env (cf_Socket f) w
            (sending (Subscribe (ce_Write env 0) [''notification'']) w (watchNotifications (cf_JsonOut f) (ce_Notifications env) w)))"

definition printing :: "error option \<times> writer \<Rightarrow> (writer \<Rightarrow> cli_result) \<Rightarrow> cli_result" where
  "printing p k = (case p of (Some err, w) \<Rightarrow> returns w (Some err) | (None, w) \<Rightarrow> k w)"

definition runGetConfig :: "string list \<Rightarrow> cli_env \<Rightarrow> writer \<Rightarrow> cli_result" where
  "runGetConfig args env w =
     (case parse_flags [(''watch'', BoolFlag (\<lambda>b. cf_Watch_update (\<lambda>_. b)))] args of
        Inl err \<Rightarrow> returns w (Some err)
      | Inr (f, pos) \<Rightarrow>
          if pos \<noteq> [] then returns w (Some (Errf ''get-cfg expects no positional arguments, got: %s'' [strings_Join pos '' '']))
          else
            let request = (\<lambda>i. sending (RequestConfig (ce_Write env i)) w
                (waiting (WaitForConfig (ce_Conn env)) w (\<lambda>cfg _.
                   if cf_JsonOut f then
                     (if \<not> cf_Watch f then return_print (printJSONLine w (enc_currentConfig cfg))
                      else printing (printJSONLine w (configUpdate [] cfg)) (watchConfigJSON (ce_Events env)))
                   else printing (printConfig w cfg) (\<lambda>w'. if \<not> cf_Watch f then returns w' None else watchConfig (ce_Events env) w')))) in
            dialled env (cf_Socket f) w
              (if cf_Watch f then sending (Subscribe (ce_Write env 0) [''config'', ''interfaces'', ''clients'']) w (request 1) else request 0))"

section \<open>Usage and dispatch\<close>

definition availableMutationTargets :: string where
  "availableMutationTargets = join_lines
     [''Available mutation targets:'',
      ''  interface lists:'',
      ''    interface_types, interface_names, interface_regexps'',
      ''    ignored_interface_types, ignored_interface_names, ignored_interface_regexps'',
      ''  whole policy/ruleset JSON:'',
      ''    base_policy'',
      ''    ruleset (requires -ruleset NAME)'',
      ''  base policy fields:'',
      ''    base_policy.allow_all, base_policy.enable_v4, base_policy.enable_v6'',
      ''    base_policy.allowed_marks, base_policy.allowed_ports'',
      ''    base_policy.allowed_v4_hosts, base_policy.allowed_v6_hosts'',
      ''    base_policy.allowed_v4_hostports, base_policy.allowed_v6_hostports'',
      ''  ruleset fields (require -ruleset NAME):'',
      ''    ruleset.disabled, ruleset.match_all'',
      ''    ruleset.trigger.interface_types, ruleset.trigger.interface_names'',
      ''    ruleset.trigger.interface_regexps, ruleset.trigger.ip_addrs'',
      ''    ruleset.trigger.ssids, ruleset.trigger.bssids, ruleset.trigger.gateway_macs'',
      ''    ruleset.policy.allow_all, ruleset.policy.enable_v4, ruleset.policy.enable_v6'',
      ''    ruleset.policy.allowed_marks, ruleset.policy.allowed_ports'',
      ''    ruleset.policy.allowed_v4_hosts, ruleset.policy.allowed_v6_hosts'',
      ''    ruleset.policy.allowed_v4_hostports, ruleset.policy.allowed_v6_hostports'']"

definition usage_commands :: string where
  "usage_commands = join_lines
     [''  killswitch-cli get-cfg [-socket PATH] [--watch] [--json-out]'',
      ''  killswitch-cli notifications [-socket PATH] [--json-out]'',
      ''  killswitch-cli debug-notify [-socket PATH] [-level normal|warn|error] [-header TEXT] -text TEXT [--json-out]'',
      ''  killswitch-cli socks-proxy [-socket PATH] start|stop [--json-out]'',
      ''  killswitch-cli add [-socket PATH] -target TARGET [-ruleset NAME] [VALUE...|-json JSON|-json @FILE] [--json-out]'',
      ''  killswitch-cli remove [-socket PATH] -target TARGET [-ruleset NAME] VALUE... [--json-out]'',
      ''  killswitch-cli remove [-socket PATH] -target ruleset -ruleset NAME [--json-out]'',
      ''  killswitch-cli set [-socket PATH] -target TARGET [-ruleset NAME] [VALUE...|-json JSON|-json @FILE] [--json-out]'',
      ''  killswitch-cli tmp-ruleset [-socket PATH] -interfaces NAME[,NAME...] -json JSON|-json @FILE [--json-out]'',
      ''  killswitch-cli force-ruleset [-socket PATH] -interfaces NAME[,NAME...] -ruleset NAME [--json-out]'']"

definition printUsage :: "writer \<Rightarrow> error option \<times> writer" where
  "printUsage w = (case write_text (println ''Usage:'') w of
      (Some err, w) \<Rightarrow> (Some err, w)
    | (None, w) \<Rightarrow> (case write_text (println usage_commands) w of
        (Some err, w) \<Rightarrow> (Some err, w)
      | (None, w) \<Rightarrow> write_text (println (nl # availableMutationTargets)) w))"

definition mutationUsage :: "string \<Rightarrow> string" where
  "mutationUsage cmd =
     println ''Usage:'' @
     println (Sprintf ''  killswitch-cli %s [-socket PATH] -target TARGET [-ruleset NAME] [VALUE...|-json JSON|-json @FILE] [--json-out]'' [cmd]) @
     (if cmd = ''remove'' then println ''  killswitch-cli remove [-socket PATH] -target ruleset -ruleset NAME [--json-out]'' else []) @
     nl # println ''Options:'' @
     println (Sprintf ''  -socket, -s PATH        admin API Unix socket path (default %s)'' [defaultAdminAPISocketPath]) @
     println ''  -target, -t TARGET      mutation target'' @
     println ''  -ruleset, -r NAME       ruleset name for ruleset mutations'' @
     println ''  -json JSON|@FILE        JSON value for boolean, policy, or ruleset add/set operations'' @
     println ''  --json-out              print compact JSON output'' @
     nl # println availableMutationTargets"

text \<open>The standard output and the standard error are \<open>w\<close> and \<open>e\<close>; the last component is what was written to \<open>e\<close>.\<close>

definition runCLI :: "string list \<Rightarrow> cli_env \<Rightarrow> writer \<Rightarrow> writer \<Rightarrow> cli_result \<times> writer" where
  "runCLI args env w e = (case args of
      [] \<Rightarrow> (case printUsage e of (Some err, e') \<Rightarrow> (returns w (Some err), e') | (None, e') \<Rightarrow> (returns w (Some ErrHelp), e'))
    | cmd # rest \<Rightarrow>
        if cmd = ''get-cfg'' then (runGetConfig rest env w, e)
        else if cmd \<in> {''add'', ''remove'', ''set''} then (runMutation cmd rest env w, e)
        else if cmd = ''tmp-ruleset'' then (runTemporaryRuleset rest env w, e)
        else if cmd = ''force-ruleset'' then (runForceRuleset rest env w, e)
        else if cmd = ''notifications'' then (runNotifications rest env w, e)
        else if cmd = ''debug-notify'' then (runDebugNotify rest env w, e)
        else if cmd = ''socks-proxy'' then (runSocksProxy rest env w, e)
        else if cmd \<in> {''-h'', ''--help'', ''help''} then (return_print (printUsage w), e)
        else (case printUsage e of
            (Some err, e') \<Rightarrow> (returns w (Some err), e')
          | (None, e') \<Rightarrow> (returns w (Some (Errf ''unknown subcommand %q'' [cmd])), e')))"

section \<open>Booleans from the command line\<close>

text \<open>What the daemon makes of the arguments of \<open>killswitch-cli set\<close>.\<close>

definition set_by_args :: "regexps \<Rightarrow> options \<Rightarrow> string list \<Rightarrow> options res" where
  "set_by_args rx opts args =
     bindR (mutationRequestFromArgs (\<lambda>path. Inl (Lib ''ENOENT'')) ''set'' args) (\<lambda>(r, _, _).
     bindR (marshal_request r) (mutateOptions rx opts))"

lemma flags_Parse_unfold: "flags_Parse formal [] v = Inr (v, [])"
  "flags_Parse formal (s # args) v = (case parseOne formal (s # args) v of
     Inl err \<Rightarrow> Inl err | Inr (v', rest, seen) \<Rightarrow> if seen then flags_Parse formal rest v' else Inr (v', rest))"
  by (simp_all add: flags_Parse.simps parseOne_def)

lemma set_args:
  assumes "t \<noteq> ''--json-out''" and "name \<noteq> ''--json-out''" and "v \<noteq> ''--json-out''" and "flag_name v = None"
  shows "parse_flags mutation_flags [''-target'', t, ''-ruleset'', name, v] =
    Inr (no_flags False\<lparr>cf_Target := t, cf_Ruleset := name\<rparr>, [v])"
  using assms by (simp add: parse_flags_def extractJSONOutArg_def common_flags_def mutation_flags_def str_flag_def StringFlag_def
      flags_Parse_unfold parseOne_def flag_name_def [of "CHR ''-'' # s" for s] flag_value_def set_flag_def)

lemma unmarshal_bool: "unmarshal ''true'' = Some (JBool True)" "unmarshal ''false'' = Some (JBool False)"
  using unmarshal_json_text [of "JBool True" False] unmarshal_json_text [of "JBool False" False] by simp_all

lemma set_boolean_request:
  assumes "t \<noteq> ''--json-out''" and "t \<noteq> []" and "t \<noteq> ''ruleset''" and "name \<noteq> ''--json-out''" and "v \<in> {''true'', ''false''}"
  shows "set_by_args rx opts [''-target'', t, ''-ruleset'', name, v] =
    mutateOptions rx opts (zero_mutationRequest\<lparr>mr_Operation := ''set'', mr_Target := t, mr_Ruleset := name,
      mr_Values := (if scalarTarget t then [] else [v]), mr_Value := (if scalarTarget t then Some (JBool (v = ''true'')) else None)\<rparr>)"
proof -
  have v: "v \<noteq> ''--json-out''" "flag_name v = None" using assms(5) by (auto simp: flag_name_def)
  show ?thesis using assms unmarshal_bool
    by (auto simp: set_by_args_def mutationRequestFromArgs_def set_args [OF assms(1,4) v] no_flags_def Let_def validateMutationRequest_def
        scalarJSONValue_def marshal_request_def zero_mutationRequest_def)
qed

lemma set_flag_rules: "mutateAllowRulesField f req r = Inr r' \<Longrightarrow> has_selector opts \<Longrightarrow> o_Rules opts = r \<Longrightarrow>
    mr_Operation req = ''set'' \<Longrightarrow> mr_Target req = ''base_policy.'' @ f \<Longrightarrow> mutateOptions rx opts req = Inr (opts\<lparr>o_Rules := r'\<rparr>)"
  by (simp add: mutateOptions_Inr mutate_target_def strings_TrimPrefix_def has_selector_def)

text \<open>\<open>killswitch-cli set -target T -ruleset NAME true\<close> (or \<open>false\<close>) sets the flag T of the base policy and the flags
  \<open>disabled\<close> and \<open>match_all\<close> of a rule set; for the three flags \<open>ruleset.policy.allow_all\<close>, \<open>enable_v4\<close> and \<open>enable_v6\<close>, which the
  usage lists as targets like the others, the daemon always refuses the request that the client builds.\<close>

theorem cli_set_booleans:
  assumes "opts_ok rx opts" and "ruleset_named (o_Rulesets opts) name = Some rs" and "name \<noteq> ''--json-out''" and "v \<in> {''true'', ''false''}"
  shows "set_by_args rx opts [''-target'', ''base_policy.allow_all'', ''-ruleset'', name, v] =
      Inr (opts\<lparr>o_Rules := (o_Rules opts)\<lparr>ar_AllowAll := (v = ''true'')\<rparr>\<rparr>) \<and>
    set_by_args rx opts [''-target'', ''base_policy.enable_v4'', ''-ruleset'', name, v] =
      Inr (opts\<lparr>o_Rules := (o_Rules opts)\<lparr>ar_EnableV4 := (v = ''true'')\<rparr>\<rparr>) \<and>
    set_by_args rx opts [''-target'', ''base_policy.enable_v6'', ''-ruleset'', name, v] =
      Inr (opts\<lparr>o_Rules := (o_Rules opts)\<lparr>ar_EnableV6 := (v = ''true'')\<rparr>\<rparr>) \<and>
    (\<exists>next. set_by_args rx opts [''-target'', ''ruleset.disabled'', ''-ruleset'', name, v] = Inr next \<and>
      ruleset_named (o_Rulesets next) name = Some (rs\<lparr>rset_Disabled := (v = ''true'')\<rparr>)) \<and>
    (\<exists>next. set_by_args rx opts [''-target'', ''ruleset.match_all'', ''-ruleset'', name, v] = Inr next \<and>
      ruleset_named (o_Rulesets next) name = Some (rs\<lparr>rset_MatchAll := (v = ''true'')\<rparr>)) \<and>
    (\<forall>flag \<in> {''allow_all'', ''enable_v4'', ''enable_v6''}.
      set_by_args rx opts [''-target'', ''ruleset.policy.'' @ flag, ''-ruleset'', name, v] = Inl (Err ''boolean mutation value is required''))"
proof -
  have sel: "has_selector opts" and rok: "rulesets_ok rx (o_Rulesets opts)" using assms(1) by (simp_all add: opts_ok_parts)
  let ?i = "nat (findRuleset (o_Rulesets opts) name)"
  have rs: "rs \<in> set (o_Rulesets opts)" "rset_Name rs = name" using assms(2) ruleset_named_iff [OF rok] by blast+
  then have f0: "0 \<le> findRuleset (o_Rulesets opts) name" by (auto simp: findRuleset_iff)
  then have i: "?i < length (o_Rulesets opts)" "o_Rulesets opts ! ?i = rs"
    using findRuleset_nth [OF f0] assms(2) by (auto simp: ruleset_named_def)
  note set = set_boolean_request [OF _ _ _ assms(3,4)]
  have base: "set_by_args rx opts [''-target'', ''base_policy.'' @ f, ''-ruleset'', name, v] = Inr (opts\<lparr>o_Rules := r'\<rparr>)"
    if "f \<in> {''allow_all'', ''enable_v4'', ''enable_v6''}"
      "\<And>req. mutateBool req = Inr (v = ''true'') \<Longrightarrow> mutateAllowRulesField f req (o_Rules opts) = Inr r'" for f r'
  proof -
    have "scalarTarget (''base_policy.'' @ f)" using that(1) by (auto simp: scalarTarget_def)
    then show ?thesis
      by (subst set) (use that sel in \<open>auto intro!: set_flag_rules simp: mutateBool_def wrapJson_def\<close>)
  qed
  have field: "\<exists>next. set_by_args rx opts [''-target'', ''ruleset.'' @ f, ''-ruleset'', name, v] = Inr next \<and>
      ruleset_named (o_Rulesets next) name = Some rs'"
    if "f \<in> {''disabled'', ''match_all''}" "\<And>req. mutateBool req = Inr (v = ''true'') \<Longrightarrow> mutate_ruleset rx f req rs = Inr rs'"
      "rset_Name rs' = name" "ruleset_ok rx rs'" for f rs'
  proof -
    have sc: "scalarTarget (''ruleset.'' @ f)" using that(1) by (auto simp: scalarTarget_def)
    let ?req = "zero_mutationRequest\<lparr>mr_Operation := ''set'', mr_Target := ''ruleset.'' @ f, mr_Ruleset := name,
      mr_Values := [], mr_Value := Some (JBool (v = ''true''))\<rparr>"
    have "mutate_ruleset rx f ?req rs = Inr rs'" using that(2) [of ?req] by (simp add: mutateBool_def wrapJson_def)
    moreover have "rulesetTriggerHasPredicates (rset_Trigger rs')" "name \<noteq> []"
      using that(3,4) by (auto simp: ruleset_ok_def trigger_ok_def)
    ultimately have m: "mutateRulesetField rx f ?req (o_Rulesets opts) = Inr (sortRulesets ((o_Rulesets opts)[?i := rs']))"
      using f0 i by (simp add: mutateRulesetField_def)
    let ?next = "opts\<lparr>o_Rulesets := sortRulesets ((o_Rulesets opts)[?i := rs'])\<rparr>"
    have "set_by_args rx opts [''-target'', ''ruleset.'' @ f, ''-ruleset'', name, v] = Inr ?next"
      using that(1) sc sel m by (subst set) (auto simp: mutateOptions_Inr mutate_target_def strings_TrimPrefix_def has_selector_def)
    moreover have "rulesets_ok rx (o_Rulesets ?next)" using mutateRulesetField_ok [OF rok m] by simp
    then have "ruleset_named (o_Rulesets ?next) name = Some rs'"
      using that(3) i by (simp add: ruleset_named_iff sortRulesets_def set_update_memI)
    ultimately show ?thesis by blast
  qed
  have rsok: "ruleset_ok rx rs" using rok rs by (auto simp: rulesets_ok_def list_all_iff)
  have refused: "set_by_args rx opts [''-target'', ''ruleset.policy.'' @ flag, ''-ruleset'', name, v] = Inl (Err ''boolean mutation value is required'')"
    if "flag \<in> {''allow_all'', ''enable_v4'', ''enable_v6''}" for flag
  proof -
    let ?req = "zero_mutationRequest\<lparr>mr_Operation := ''set'', mr_Target := ''ruleset.policy.'' @ flag, mr_Ruleset := name, mr_Values := [v], mr_Value := None\<rparr>"
    have "mutate_ruleset rx (''policy.'' @ flag) ?req rs = Inl (Err ''boolean mutation value is required'')"
      using that by (auto simp: mutate_ruleset_def mutate_trigger_def policy_fields_def mutateAllowRulesField_def mutateBool_def
          zero_mutationRequest_def strings_TrimPrefix_def)
    then have "mutateOptions rx opts ?req = Inl (Err ''boolean mutation value is required'')"
      using f0 i that rsok rs by (auto simp: mutateOptions_def mutate_target_def mutateRulesetField_def strings_TrimPrefix_def ruleset_ok_def)
    moreover have "\<not> scalarTarget (''ruleset.policy.'' @ flag)" using that by (auto simp: scalarTarget_def)
    ultimately show ?thesis by (subst set) auto
  qed
  note b = base [of "''allow_all''"] base [of "''enable_v4''"] base [of "''enable_v6''"]
  note f = field [of "''disabled''" "rs\<lparr>rset_Disabled := (v = ''true'')\<rparr>"] field [of "''match_all''" "rs\<lparr>rset_MatchAll := (v = ''true'')\<rparr>"]
  show ?thesis
    using b [simplified, OF _] f refused rs(2) rsok
    by (simp add: mutateAllowRulesField_def mutate_ruleset_def ruleset_ok_def)
qed

lemma cli_set_booleans_witness:
  "\<exists>opts. opts_ok example_rx opts \<and>
     set_by_args example_rx opts [''-target'', ''ruleset.policy.allow_all'', ''-ruleset'', ''vpn'', ''true''] = Inl (Err ''boolean mutation value is required'')"
proof -
  let ?rs = "\<lparr>rset_Name = ''vpn'', rset_Disabled = False, rset_MatchAll = False,
    rset_Trigger = \<lparr>tr_InterfaceTypes = [], tr_InterfaceNames = [''wg0''], tr_InterfaceRegexps = [], tr_IPAddrs = [], tr_SSIDs = [],
      tr_BSSIDs = [], tr_GatewayMACs = []\<rparr>, rset_Rules = o_Rules example_options\<rparr>"
  let ?opts = "example_options\<lparr>o_Rulesets := [?rs]\<rparr>"
  have ok: "opts_ok example_rx ?opts" using example_options_ok
    by (simp add: opts_ok_parts rulesets_ok_def ruleset_ok_def trigger_ok_def rulesetTriggerHasPredicates_def rulesetTriggerPredicateCount_def patterns_ok_def has_selector_def)
  have named: "ruleset_named (o_Rulesets ?opts) ''vpn'' = Some ?rs" by (simp add: ruleset_named_def)
  from cli_set_booleans [OF ok named, of "''true''"] ok show ?thesis by auto
qed

section \<open>A request on the wire\<close>

lemma enc_strings_ok: "json_ok (Suc d) (enc_list enc_string xs)"
  by (induction xs) (simp_all add: enc_list_def enc_string_def)

lemma valid_names: "valid_utf8 ''type''" "valid_utf8 ''payload''" "valid_utf8 ''operation''" "valid_utf8 ''target''" "valid_utf8 ''ruleset''"
  "valid_utf8 ''interfaces''" "valid_utf8 ''value''" "valid_utf8 ''values''" "valid_utf8 ''mutation''"
  by (simp_all add: ascii_valid in_range_def)

lemma enc_request_ok:
  assumes "mr_Policy req = None" and "mr_RulesetDef req = None" and "\<forall>js. mr_Value req = Some js \<longrightarrow> json_ok d js" and "d \<noteq> 0"
  shows "json_ok (Suc d) (enc_mutationRequest req)"
proof -
  obtain e where "d = Suc e" using assms(4) by (cases d) auto
  then show ?thesis using assms
    by (auto simp: enc_mutationRequest_def omit_def enc_string_def valid_names enc_strings_ok)
qed

lemma unmarshal_line: "json_ok maxNestingDepth js \<Longrightarrow> unmarshal (json_text html js @ [nl]) = Some js"
  using json_text_start [of maxNestingDepth js html] parse_print(1) [of maxNestingDepth js "[nl]" html]
  by (simp add: unmarshal_def decode_value_def skip_start is_ws_def nl_def is_dec_def)

lemma utf8_cont:
  assumes "1 \<le> i" and "i < utf8_len (a # s)" shows "128 \<le> ccode ((a # s) ! i)"
proof -
  define C where "C n lo hi \<longleftrightarrow> n \<le> length s \<and> in_range lo hi (hd s) \<and> list_all (in_range 128 191) (tl (take n s))" for n lo hi
  have *: "128 \<le> ccode (s ! j)" if "C n lo hi" "128 \<le> lo" "j < n" for n lo hi j
  proof (cases j)
    case 0
    with that show ?thesis by (cases s) (auto simp: in_range_def C_def)
  next
    case (Suc k)
    then have "s ! j \<in> set (tl (take n s))" using that by (auto simp: in_set_conv_nth nth_tl C_def intro!: exI [of _ k])
    with that(1) show ?thesis by (auto simp: list_all_iff in_range_def C_def)
  qed
  let ?u = "utf8_len (a # s)"
  have "?u \<le> 1 \<or> ?u = 2 \<and> C 1 128 191 \<or> ?u = 3 \<and> (C 2 160 191 \<or> C 2 128 159 \<or> C 2 128 191) \<or>
      ?u = 4 \<and> (C 3 144 191 \<or> C 3 128 143 \<or> C 3 128 191)"
    by (simp add: utf8_len.simps C_def [symmetric] Let_def)
  then have "128 \<le> ccode (s ! (i - 1))" using assms by (elim disjE conjE) (simp_all add: *)
  with assms(1) show ?thesis by (cases i) auto
qed

lemma valid_suffix: "valid_utf8 (a @ c # s) \<Longrightarrow> ccode c < 128 \<Longrightarrow> valid_utf8 s"
proof (induction "length a" arbitrary: a rule: less_induct)
  case less
  show ?case
  proof (cases a)
    case (Cons b r)
    let ?t = "a @ c # s" and ?n = "utf8_len (a @ c # s)"
    have n0: "?n \<noteq> 0" using less(2) Cons by (auto simp: valid_utf8_def)
    have "?n \<le> length a"
    proof (rule ccontr)
      assume "\<not> ?n \<le> length a"
      then have "128 \<le> ccode (?t ! length a)" using utf8_cont [of "length a" b "r @ c # s"] Cons by auto
      with less(3) show False by simp
    qed
    then have "take ?n ?t = take ?n a" by simp
    then have "take ?n ?t @ (drop ?n a @ c # s) = ?t" by (simp only: append_assoc [symmetric] append_take_drop_id)
    then have "valid_utf8 (drop ?n a @ c # s)" using valid_step [OF refl n0, of "drop ?n a @ c # s"] less(2) by (simp only:)
    moreover have "length (drop ?n a) < length a" using n0 Cons by simp
    ultimately show ?thesis using less by blast
  qed (use less in simp)
qed

lemma cut_app: "strings_Cut s c = Some (a, b) \<Longrightarrow> s = a @ c # b"
  by (induction s c arbitrary: a b rule: strings_Cut.induct) (auto split: if_splits)

lemma flag_value_valid: "valid_utf8 s \<Longrightarrow> flag_name s = Some n \<Longrightarrow> flag_value n = (m, Some x) \<Longrightarrow> valid_utf8 x"
proof -
  assume s: "valid_utf8 s" "flag_name s = Some n" "flag_value n = (m, Some x)"
  have n: "n = m @ CHR ''='' # x" using s(3) by (auto simp: flag_value_def dest: cut_app split: option.splits)
  have "\<exists>k. n = drop k s" using s(2) by (auto simp: flag_name_def split: if_splits)
  then obtain p where "s = p @ n" by (metis append_take_drop_id)
  then have "valid_utf8 ((p @ m) @ CHR ''='' # x)" using s(1) n by simp
  then show ?thesis by (rule valid_suffix) simp
qed

lemma mutation_flags_valid:
  assumes "parse_flags mutation_flags args = Inr (f, values)" and "\<forall>arg \<in> set args. valid_utf8 arg"
  shows "valid_utf8 (cf_Target f) \<and> valid_utf8 (cf_Ruleset f) \<and> list_all valid_utf8 values"
proof -
  let ?args = "filter (\<lambda>arg. arg \<noteq> ''--json-out'') args"
  from assms(1) have p: "flags_Parse (common_flags @ mutation_flags) ?args (no_flags (''--json-out'' \<in> set args)) = Inr (f, values)"
    by (simp add: parse_flags_def extractJSONOutArg_def)
  let ?Q = "\<lambda>f. valid_utf8 (cf_Target f) \<and> valid_utf8 (cf_Ruleset f)"
  have str: "?Q v'" if "(name, ValueFlag upd) \<in> set (common_flags @ mutation_flags)" "?Q v" "valid_utf8 x" "upd x v = Inr v'"
    for name and upd :: "string \<Rightarrow> cliFlags \<Rightarrow> cliFlags res" and x v v'
    using that unfolding common_flags_def mutation_flags_def str_flag_def StringFlag_def by fastforce
  have bool: "?Q (upd b v)" if "(name, BoolFlag upd) \<in> set (common_flags @ mutation_flags)" "?Q v"
    for name and upd :: "bool \<Rightarrow> cliFlags \<Rightarrow> cliFlags" and b v
    using that unfolding common_flags_def mutation_flags_def str_flag_def StringFlag_def by fastforce
  have start: "?Q (no_flags b)" for b by (simp add: no_flags_def)
  have args: "\<forall>s \<in> set ?args. valid_utf8 s" using assms(2) by simp
  have "?Q f"
  proof (rule Parse_invariant [OF p args, of ?Q, OF start], goal_cases)
    case (1 s n m x)
    then show ?case by (rule flag_value_valid)
  next
    case (2 name upd b v)
    then show ?case by (rule bool)
  next
    case (3 name upd x v v')
    then show ?case by (rule str)
  qed
  with Parse_rest [OF p] assms(2) show ?thesis by (auto simp: list_all_iff)
qed

lemma request_of_args:
  assumes "mutationRequestFromArgs readFile operation args = Inr (r, path, jsonOut)"
  shows "\<exists>f pos vs. parse_flags mutation_flags args = Inr (f, pos) \<and> (vs = pos \<or> vs = []) \<and>
    cr_Req r = zero_mutationRequest\<lparr>mr_Operation := operation, mr_Target := cf_Target f, mr_Ruleset := cf_Ruleset f, mr_Values := vs\<rparr>"
proof -
  obtain f pos where p: "parse_flags mutation_flags args = Inr (f, pos)"
    using assms by (cases "parse_flags mutation_flags args") (auto simp: mutationRequestFromArgs_def)
  define scalar where "scalar raw \<longleftrightarrow> raw = [] \<and> operation = ''set'' \<and> length pos = 1 \<and> scalarTarget (cf_Target f)" for raw :: string
  have "\<exists>raw. cr_Req r = zero_mutationRequest\<lparr>mr_Operation := operation, mr_Target := cf_Target f, mr_Ruleset := cf_Ruleset f,
      mr_Values := (if scalar raw then [] else pos)\<rparr>"
    using assms p unfolding mutationRequestFromArgs_def Let_def scalar_def
    by (clarsimp simp: bindR_Inr split del: if_split) blast
  with p show ?thesis by auto
qed

text \<open>C32: when all arguments are valid UTF-8, the request that \<open>add\<close>, \<open>remove\<close> and \<open>set\<close> send is, as text on the
  socket, read by the daemon as exactly the request that was built, unless the JSON value nests more than 9998 levels deep.\<close>

theorem cli_request_reaches_daemon:
  assumes "mutationRequestFromArgs readFile operation args = Inr (r, path, jsonOut)" and "operation \<in> {''add'', ''remove'', ''set''}"
    and "\<forall>arg \<in> set args. valid_utf8 arg" and "marshal_request r = Inr req" and "\<forall>js. mr_Value req = Some js \<longrightarrow> json_ok 9998 js"
  shows "\<exists>js. send_mutation None r = Inr js \<and> unmarshal (json_text True js @ [nl]) = Some js \<and>
    ReadMessage (Inr js) = Inr (MutationRequest req)"
proof -
  obtain f pos vs where f: "parse_flags mutation_flags args = Inr (f, pos)" "vs = pos \<or> vs = []"
    and req: "cr_Req r = zero_mutationRequest\<lparr>mr_Operation := operation, mr_Target := cf_Target f, mr_Ruleset := cf_Ruleset f, mr_Values := vs\<rparr>"
    using request_of_args [OF assms(1)] by blast
  obtain val where val: "req = (cr_Req r)\<lparr>mr_Value := val\<rparr>"
    using assms(4) by (auto simp: marshal_request_def req zero_mutationRequest_def split: if_splits option.splits)
  have none: "mr_Policy req = None" "mr_RulesetDef req = None" by (simp_all add: val req zero_mutationRequest_def)
  have "valid_utf8 operation" using assms(2) by (auto simp: ascii_valid in_range_def)
  with mutation_flags_valid [OF f(1) assms(3)] f(2) have ok: "ok_message (MutationRequest req)"
    by (auto simp: ok_mutationRequest_def val req zero_mutationRequest_def)
  have "json_ok maxNestingDepth (enc_envelope \<lparr>envl_Type = ''mutation'', envl_Payload = Some (enc_mutationRequest req)\<rparr>)"
    using enc_request_ok [OF none(1,2) assms(5)] json_ok.simps(6) [of 9999]
    by (simp add: enc_envelope_def maxNestingDepth_def omit_def enc_string_def valid_names del: coerceUTF8.simps)
  then obtain js where js: "WriteMessage (MutationRequest req) = Inr js" "json_ok maxNestingDepth js" by (simp add: WriteMessage_def)
  have "send_mutation None r = Inr js" using assms(4) js(1) by (simp add: send_mutation_def client_Send_def)
  moreover have "ReadMessage (Inr js) = Inr (MutationRequest req)" using message_roundtrip_aux [OF ok] js(1) by simp
  ultimately show ?thesis using unmarshal_line [OF js(2)] by blast
qed

lemma cli_request_reaches_daemon_witness:
  "\<exists>r req js. mutationRequestFromArgs (\<lambda>_. Inl EOF) ''set'' [''-target'', ''base_policy.allow_all'', ''-ruleset'', ''x'', ''true''] = Inr (r, defaultAdminAPISocketPath, False) \<and>
     send_mutation None r = Inr js \<and> ReadMessage (Inr js) = Inr (MutationRequest req) \<and> mr_Value req = Some (JBool True)"
proof -
  let ?args = "[''-target'', ''base_policy.allow_all'', ''-ruleset'', ''x'', ''true'']"
  let ?req = "zero_mutationRequest\<lparr>mr_Operation := ''set'', mr_Target := ''base_policy.allow_all'', mr_Ruleset := ''x''\<rparr>"
  have run: "mutationRequestFromArgs (\<lambda>_. Inl EOF) ''set'' ?args = Inr (\<lparr>cr_Req = ?req, cr_Raw = ''true''\<rparr>, defaultAdminAPISocketPath, False)"
    by (simp add: mutationRequestFromArgs_def set_args flag_name_def no_flags_def Let_def scalarTarget_def scalarJSONValue_def
        validateMutationRequest_def zero_mutationRequest_def)
  have m: "marshal_request \<lparr>cr_Req = ?req, cr_Raw = ''true''\<rparr> = Inr (?req\<lparr>mr_Value := Some (JBool True)\<rparr>)"
    by (simp add: marshal_request_def unmarshal_bool)
  have "\<forall>arg \<in> set ?args. valid_utf8 arg" by (simp add: ascii_valid in_range_def)
  from cli_request_reaches_daemon [OF run _ this m] run show ?thesis by (auto simp: zero_mutationRequest_def)
qed

section \<open>Holding a rule set\<close>

text \<open>The terminal when a command returns or waits; and what it has seen when it returns without an error.\<close>

definition terminal_ok :: "cli_env \<Rightarrow> cli_result \<Rightarrow> bool" where
  "terminal_ok env r \<longleftrightarrow> res_modes r = [] \<or>
     (\<exists>old. ce_getTermios env = Inr old \<and>
        res_modes r = old\<lparr>tio_Lflag := and (tio_Lflag old) (not (or ICANON ECHO)), tio_VMIN := 1, tio_VTIME := 0\<rparr> #
          (if res_ret r = None then [] else [old]))"

definition installed_ok :: "cli_env \<Rightarrow> cli_result \<Rightarrow> bool" where
  "installed_ok env r \<longleftrightarrow> (res_ret r = Some None \<or> res_modes r \<noteq> [] \<longrightarrow>
     (\<exists>js result conn. res_sent r = [js] \<and> WaitForMutationResult (ce_Conn env) = Some (Inr result, conn) \<and> mres_OK result))"

lemma returns_ok [simp]: "terminal_ok env (returns w (Some err))" "installed_ok env (returns w (Some err))"
  by (simp_all add: terminal_ok_def installed_ok_def returns_def)

lemma hold_ruleset_terminal: "terminal_ok env (hold_ruleset env w)"
  by (auto simp: hold_ruleset_def rawInputMode_def terminal_ok_def returns_def Let_def split: sum.splits option.splits if_splits)

lemma hold_ruleset_sent: "res_sent (hold_ruleset env w) = []"
  by (simp add: hold_ruleset_def returns_def split: sum.split)

lemma sending_modes [simp]: "res_modes (sending (Inr js) w k) = res_modes k" "res_ret (sending (Inr js) w k) = res_ret k"
  "res_sent (sending (Inr js) w k) = js # res_sent k"
  by (simp_all add: sending_def)

lemma install_ruleset_ok: "terminal_ok env (install_ruleset env p j req msg w) \<and> installed_ok env (install_ruleset env p j req msg w)"
proof (cases "ce_Dial env p")
  case None
  let ?k = "\<lambda>result conn. if \<not> mres_OK result then returns w (Some (Err (mres_Error result)))
      else case (if j then printJSONLine w (enc_mutationResult result) else write_text (println msg) w) of
        (Some err, w') \<Rightarrow> returns w' (Some err)
      | (None, w') \<Rightarrow> hold_ruleset env w'"
  have eq: "install_ruleset env p j req msg w = sending (send_mutation (ce_Write env 0) req) w (waiting (WaitForMutationResult (ce_Conn env)) w ?k)"
    by (simp add: install_ruleset_def dialled_def None cli_Mutate_def)
  show ?thesis
  proof (cases "send_mutation (ce_Write env 0) req")
    case (Inr js)
    show ?thesis
    proof (cases "\<exists>result conn. WaitForMutationResult (ce_Conn env) = Some (Inr result, conn) \<and> mres_OK result")
      case True
      then obtain result conn where res: "WaitForMutationResult (ce_Conn env) = Some (Inr result, conn)" "mres_OK result" by blast
      have "terminal_ok env (?k result conn)" "res_sent (?k result conn) = []"
        using res(2) hold_ruleset_terminal hold_ruleset_sent by (auto simp: returns_def [of _ "Some _"] split: prod.split option.split)
          (simp_all add: terminal_ok_def)
      with eq Inr res show ?thesis by (simp add: waiting_def terminal_ok_def installed_ok_def)
    next
      case False
      with eq Inr show ?thesis
        by (auto simp: waiting_def terminal_ok_def installed_ok_def returns_def split: option.split sum.split prod.split)
    qed
  qed (simp add: eq sending_def)
qed (simp add: install_ruleset_def dialled_def)

lemma run_hold_ok:
  "terminal_ok env (runTemporaryRuleset args env w) \<and> installed_ok env (runTemporaryRuleset args env w)"
  "terminal_ok env (runForceRuleset args env w) \<and> installed_ok env (runForceRuleset args env w)"
  using install_ruleset_ok by (auto simp: runTemporaryRuleset_def runForceRuleset_def Let_def split: sum.split prod.split)

text \<open>C33: \<open>tmp-ruleset\<close> and \<open>force-ruleset\<close> return without an error, or change the mode of the terminal, only after the daemon has
  accepted the rule set; whenever they return, with or without an error, the terminal has its old mode again.\<close>

theorem held_ruleset_commands:
  assumes "r = runTemporaryRuleset args env w \<or> r = runForceRuleset args env w"
  shows "(res_ret r = Some None \<or> res_modes r \<noteq> [] \<longrightarrow>
      (\<exists>js result conn. res_sent r = [js] \<and> WaitForMutationResult (ce_Conn env) = Some (Inr result, conn) \<and> mres_OK result)) \<and>
    (res_ret r \<noteq> None \<longrightarrow> res_modes r = [] \<or> ce_getTermios env = Inr (last (res_modes r)))"
proof -
  have "terminal_ok env r" "installed_ok env r" using assms run_hold_ok by blast+
  then show ?thesis by (auto simp: terminal_ok_def installed_ok_def)
qed

definition example_env :: "json \<Rightarrow> cli_env" where
  "example_env answer = \<lparr>ce_ReadFile = (\<lambda>_. Inl EOF), ce_Dial = (\<lambda>_. None), ce_Write = (\<lambda>_. None), ce_Conn = [Inr answer], ce_isFile = True,
     ce_getTermios = Inr \<lparr>tio_Lflag = 15, tio_VMIN = 4, tio_VTIME = 1\<rparr>, ce_setTermios = (\<lambda>_. None), ce_Hold = Some Interrupted,
     ce_Events = [], ce_Notifications = []\<rparr>"

lemma held_ruleset_commands_witness:
  "\<exists>answer. let r = runForceRuleset [''-r'', ''vpn'', ''-interfaces'', ''eth0''] (example_env answer) \<lparr>w_out = [], w_limit = None\<rparr> in
     res_ret r = Some None \<and> last (res_modes r) = \<lparr>tio_Lflag = 15, tio_VMIN = 4, tio_VTIME = 1\<rparr>"
proof -
  let ?result = "zero_mutationResult\<lparr>mres_OK := True\<rparr>"
  have ok: "ok_message (MutationResult ?result)"
    by (simp add: ok_mutationResult_def zero_mutationResult_def ok_currentConfig_def zero_currentConfig_def ok_apiRules_def
        zero_apiRules_def ok_adminConfig_def zero_adminConfig_def ok_apiSocksProxyState_def zero_apiSocksProxyState_def ascii_valid)
  obtain answer where answer: "ReadMessage (Inr answer) = Inr (MutationResult ?result)"
    using message_roundtrip_aux [OF ok] by blast
  let ?r = "runForceRuleset [''-r'', ''vpn'', ''-interfaces'', ''eth0''] (example_env answer) \<lparr>w_out = [], w_limit = None\<rparr>"
  have flags: "parse_flags [(''ruleset'', str_flag cf_Ruleset_update), (''r'', str_flag cf_Ruleset_update), (''interfaces'', str_flag cf_Interfaces_update)]
      [''-r'', ''vpn'', ''-interfaces'', ''eth0''] = Inr (no_flags False\<lparr>cf_Ruleset := ''vpn'', cf_Interfaces := ''eth0''\<rparr>, [])"
    by (simp add: parse_flags_def extractJSONOutArg_def common_flags_def str_flag_def StringFlag_def flags_Parse_unfold parseOne_def
        flag_name_def flag_value_def set_flag_def)
  have wait: "WaitForMutationResult [Inr answer] = Some (Inr ?result, [])" by (simp add: WaitForMutationResult_def answer)
  have ret: "res_ret ?r = Some None" "res_modes ?r \<noteq> []"
    by (simp_all add: runForceRuleset_def flags no_flags_def install_ruleset_def example_env_def dialled_def cli_Mutate_def send_mutation_def
        marshal_request_def client_Send_def WriteMessage_def waiting_def wait sending_def write_text_def hold_ruleset_def rawInputMode_def
        hold_result_def zero_mutationResult_def Let_def)
  have "res_modes ?r = [] \<or> ce_getTermios (example_env answer) = Inr (last (res_modes ?r))"
    using held_ruleset_commands [of ?r "[''-r'', ''vpn'', ''-interfaces'', ''eth0'']" "example_env answer" "\<lparr>w_out = [], w_limit = None\<rparr>"] ret(1) by simp
  with ret show ?thesis by (auto simp: example_env_def Let_def)
qed

end
