(* ===== verification/Notifications.thy ===== *)
theory Notifications
  imports Protocol GoText Options
begin

text \<open>
  \<open>cmd/killswitch-user/notifications.go\<close>. The Go interface \<open>notifier\<close> (\<open>runtime.go\<close>) is a record of functions on a state; a nil
  error is \<open>None\<close>. The watcher of configurations is a client of that interface, and \<open>desktopNotifier\<close> implements it over D-Bus.
  The locale \<open>notifier\<close> is the contract between the two.

  Closures that a notification runs when its action is chosen are values of a type \<open>'f\<close>.
\<close>

section \<open>The interface and its client\<close>

record ('n, 'f) notifier_ops =
  op_Notify :: "notification \<Rightarrow> 'n \<Rightarrow> error option \<times> 'n"
  op_NotifyGlobalAllowAll :: "'f \<Rightarrow> 'n \<Rightarrow> error option \<times> 'n"
  op_CloseGlobalAllowAll :: "'n \<Rightarrow> error option \<times> 'n"
  op_NotifyCaptivePortal :: "notification \<Rightarrow> 'f \<Rightarrow> 'n \<Rightarrow> error option \<times> 'n"
  op_CloseCaptivePortal :: "'n \<Rightarrow> error option \<times> 'n"
  op_Close :: "'n \<Rightarrow> error list \<times> 'n"

record 'f configNotificationWatcher =
  cw_notifyInterfaceChanges :: bool
  cw_notifyGlobalAllowAll :: bool
  cw_disableAllowAll :: 'f
  cw_lastInterfaces :: "(string, apiInterface) fmap option"
  cw_allowAllShown :: bool

definition interface_of_policy :: "apiInterfacePolicy \<Rightarrow> apiInterface" where
  "interface_of_policy iface = \<lparr>aif_Index = aip_Index iface, aif_Name = aip_Name iface, aif_Type = aip_Type iface, aif_Addrs = [],
     aif_SSID = aip_SSID iface, aif_BSSID = aip_BSSID iface, aif_GatewayMACs = cloneStrings (aip_GatewayMACs iface),
     aif_Matched = aip_Matched iface, aif_Killswitch = aip_Attached iface\<rparr>"

definition attachedInterfaceMap :: "currentConfig \<Rightarrow> (string, apiInterface) fmap" where
  "attachedInterfaceMap cfg =
     (let out = fold (\<lambda>iface m. if \<not> aip_Attached iface then m else fmupd (aip_Name iface) (interface_of_policy iface) m)
                  (cc_EffectiveInterfaces cfg) fmempty in
      if 0 < fcard (fmdom out) then out
      else fold (\<lambda>iface m. if aif_Killswitch iface then fmupd (aif_Name iface) iface m else m) (cc_Interfaces cfg) out)"

definition interfaceDiff :: "(string, apiInterface) fmap \<Rightarrow> (string, apiInterface) fmap \<Rightarrow> apiInterface list" where
  "interfaceDiff a b = map (\<lambda>name. the (fmlookup a name)) (sorted_list_of_fset (fmdom a |-| fmdom b))"

definition appearedInterfaces :: "(string, apiInterface) fmap \<Rightarrow> (string, apiInterface) fmap \<Rightarrow> apiInterface list" where
  "appearedInterfaces old new = interfaceDiff new old"

definition disappearedInterfaces :: "(string, apiInterface) fmap \<Rightarrow> (string, apiInterface) fmap \<Rightarrow> apiInterface list" where
  "disappearedInterfaces old new = interfaceDiff old new"

definition interfaceDescription :: "apiInterface \<Rightarrow> string" where
  "interfaceDescription iface =
     (if aif_Type iface = [] then aif_Name iface else Sprintf ''%s (%s)'' [aif_Name iface, aif_Type iface])"

definition appeared_note :: "apiInterface \<Rightarrow> notification" where
  "appeared_note iface = \<lparr>nt_Level = ''normal'', nt_Text = interfaceDescription iface, nt_Header = ''Interface appeared''\<rparr>"

definition disappeared_note :: "apiInterface \<Rightarrow> notification" where
  "disappeared_note iface = \<lparr>nt_Level = ''warn'', nt_Text = interfaceDescription iface, nt_Header = ''Interface disappeared''\<rparr>"

text \<open>The two loops of \<open>updateInterfaces\<close>: an error is logged and the loop goes on.\<close>

definition notify_each :: "('n, 'f) notifier_ops \<Rightarrow> notification list \<Rightarrow> 'n \<Rightarrow> 'n" where
  "notify_each ops = fold (\<lambda>note n. snd (op_Notify ops note n))"

definition updateInterfaces ::
  "('n, 'f) notifier_ops \<Rightarrow> currentConfig \<Rightarrow> 'f configNotificationWatcher \<times> 'n \<Rightarrow> 'f configNotificationWatcher \<times> 'n" where
  "updateInterfaces ops cfg = (\<lambda>(w, n).
     let new = attachedInterfaceMap cfg in
     (w\<lparr>cw_lastInterfaces := Some new\<rparr>,
      case cw_lastInterfaces w of
        None \<Rightarrow> n
      | Some old \<Rightarrow>
          notify_each ops (map disappeared_note (disappearedInterfaces old new))
            (notify_each ops (map appeared_note (appearedInterfaces old new)) n)))"

definition updateGlobalAllowAll ::
  "('n, 'f) notifier_ops \<Rightarrow> currentConfig \<Rightarrow> 'f configNotificationWatcher \<times> 'n \<Rightarrow> 'f configNotificationWatcher \<times> 'n" where
  "updateGlobalAllowAll ops cfg = (\<lambda>(w, n).
     let on = aar_AllowAll (cc_BasePolicy cfg) in
     if \<not> cw_notifyGlobalAllowAll w then (w\<lparr>cw_allowAllShown := on\<rparr>, n)
     else if on then
       (if cw_allowAllShown w then (w, n)
        else (w\<lparr>cw_allowAllShown := True\<rparr>, snd (op_NotifyGlobalAllowAll ops (cw_disableAllowAll w) n)))
     else (w\<lparr>cw_allowAllShown := False\<rparr>, if cw_allowAllShown w then snd (op_CloseGlobalAllowAll ops n) else n))"

definition cw_applyInitial :: "currentConfig \<Rightarrow> 'f configNotificationWatcher \<Rightarrow> 'f configNotificationWatcher" where
  "cw_applyInitial cfg w = w\<lparr>cw_lastInterfaces := Some (attachedInterfaceMap cfg)\<rparr>"

definition cw_update ::
  "('n, 'f) notifier_ops \<Rightarrow> currentConfig \<Rightarrow> 'f configNotificationWatcher \<times> 'n \<Rightarrow> 'f configNotificationWatcher \<times> 'n" where
  "cw_update ops cfg = (\<lambda>(w, n).
     updateGlobalAllowAll ops cfg
       (if cw_notifyInterfaceChanges w then updateInterfaces ops cfg (w, n)
        else (w\<lparr>cw_lastInterfaces := Some (attachedInterfaceMap cfg)\<rparr>, n)))"

text \<open>The watcher of one session: made, given the first configuration, and then every later one.\<close>

definition new_configWatcher :: "bool \<Rightarrow> bool \<Rightarrow> 'f \<Rightarrow> 'f configNotificationWatcher" where
  "new_configWatcher ifaces allowAll disable = \<lparr>cw_notifyInterfaceChanges = ifaces, cw_notifyGlobalAllowAll = allowAll,
     cw_disableAllowAll = disable, cw_lastInterfaces = None, cw_allowAllShown = False\<rparr>"

definition watch_session ::
  "('n, 'f) notifier_ops \<Rightarrow> 'f configNotificationWatcher \<Rightarrow> currentConfig \<Rightarrow> currentConfig list \<Rightarrow> 'n \<Rightarrow> 'f configNotificationWatcher \<times> 'n" where
  "watch_session ops w cfg cfgs n = fold (cw_update ops) cfgs (updateGlobalAllowAll ops cfg (cw_applyInitial cfg w, n))"

section \<open>D-Bus\<close>

text \<open>
  What the program asks of the notification server. \<open>bus calls c\<close> is the answer to the call \<open>c\<close> after the calls \<open>calls\<close>, the last
  one first: the identifier of a notification that is sent, or an error.
\<close>

datatype expiry = SetByServer | ExpiresNever
datatype urgency = UrgencyNormal | UrgencyCritical

record dbusNote =
  db_AppName :: string
  db_ReplacesID :: u32
  db_Summary :: string
  db_Body :: string
  db_Actions :: "(string \<times> string) list"
  db_ExpireTimeout :: expiry
  db_Urgency :: urgency

datatype bus_call =
    SessionBusPrivate | BusAuth | BusHello | NewNotifier | ConnClose | NotifierClose
  | SendNotification dbusNote | CloseNotification u32

type_synonym bus = "bus_call list \<Rightarrow> bus_call \<Rightarrow> u32 res"

record 'f desktopNotifier =
  dn_dbusNotifier :: bool
  dn_dbusConn :: bool
  dn_allowAllID :: u32
  dn_allowAllDisableFunc :: "'f option"
  dn_captivePortalID :: u32
  dn_captivePortalOpen :: "'f option"
  dn_calls :: "bus_call list"

definition newDesktopNotifier :: "'f desktopNotifier" where
  "newDesktopNotifier = \<lparr>dn_dbusNotifier = False, dn_dbusConn = False, dn_allowAllID = 0, dn_allowAllDisableFunc = None,
     dn_captivePortalID = 0, dn_captivePortalOpen = None, dn_calls = []\<rparr>"

definition allowAllNotificationActionDisable :: string where
  "allowAllNotificationActionDisable = ''disable-allow-all''"

definition captivePortalNotificationActionOpen :: string where
  "captivePortalNotificationActionOpen = ''open-captive-portal''"

definition bus_do :: "bus \<Rightarrow> bus_call \<Rightarrow> 'f desktopNotifier \<Rightarrow> u32 res \<times> 'f desktopNotifier" where
  "bus_do bus c n = (bus (dn_calls n) c, n\<lparr>dn_calls := c # dn_calls n\<rparr>)"

definition notificationTitle :: "notification \<Rightarrow> string" where
  "notificationTitle note =
     (if nt_Header note \<noteq> [] then ''Killswitch: '' @ nt_Header note
      else if nt_Level note = ''warn'' then ''Killswitch warning''
      else if nt_Level note = ''error'' then ''Killswitch error''
      else ''Killswitch'')"

definition notificationUrgency :: "notification \<Rightarrow> urgency" where
  "notificationUrgency note = (if nt_Level note = ''warn'' \<or> nt_Level note = ''error'' then UrgencyCritical else UrgencyNormal)"

text \<open>A connection that cannot be used is closed again.\<close>

fun open_steps :: "bus \<Rightarrow> bus_call list \<Rightarrow> 'f desktopNotifier \<Rightarrow> error option \<times> 'f desktopNotifier" where
  "open_steps bus [] n = (None, n\<lparr>dn_dbusConn := True, dn_dbusNotifier := True\<rparr>)"
| "open_steps bus (c # cs) n =
     (case bus_do bus c n of
        (Inl err, n) \<Rightarrow> (Some err, if c = SessionBusPrivate then n else snd (bus_do bus ConnClose n))
      | (Inr _, n) \<Rightarrow> open_steps bus cs n)"

definition openDBusNotifierLocked :: "bus \<Rightarrow> 'f desktopNotifier \<Rightarrow> error option \<times> 'f desktopNotifier" where
  "openDBusNotifierLocked bus = open_steps bus [SessionBusPrivate, BusAuth, BusHello, NewNotifier]"

text \<open>The common part of the three \<open>Notify\<close> methods: open the bus when it is not open, send, and keep the identifier with \<open>put\<close>.\<close>

definition send_note :: "bus \<Rightarrow> ('f desktopNotifier \<Rightarrow> dbusNote) \<Rightarrow> (u32 \<Rightarrow> 'f desktopNotifier \<Rightarrow> 'f desktopNotifier) \<Rightarrow>
    'f desktopNotifier \<Rightarrow> error option \<times> 'f desktopNotifier" where
  "send_note bus note put n =
     (case (if dn_dbusNotifier n then (None, n) else openDBusNotifierLocked bus n) of
        (Some err, n) \<Rightarrow> (Some err, n)
      | (None, n) \<Rightarrow>
          (case bus_do bus (SendNotification (note n)) n of
             (Inl err, n) \<Rightarrow> (Some err, n)
           | (Inr nid, n) \<Rightarrow> (None, put nid n)))"

definition plain_note :: "notification \<Rightarrow> dbusNote" where
  "plain_note note = \<lparr>db_AppName = ''Killswitch'', db_ReplacesID = 0, db_Summary = notificationTitle note, db_Body = nt_Text note,
     db_Actions = [], db_ExpireTimeout = SetByServer, db_Urgency = notificationUrgency note\<rparr>"

definition dn_Notify :: "bus \<Rightarrow> notification \<Rightarrow> 'f desktopNotifier \<Rightarrow> error option \<times> 'f desktopNotifier" where
  "dn_Notify bus note = send_note bus (\<lambda>_. plain_note note) (\<lambda>_ n. n)"

definition allow_all_note :: "u32 \<Rightarrow> dbusNote" where
  "allow_all_note nid = \<lparr>db_AppName = ''Killswitch'', db_ReplacesID = nid, db_Summary = ''Killswitch: global allow all enabled'',
     db_Body = ''Global allow_all is enabled outside of rulesets and applies to all interfaces.'',
     db_Actions = [(allowAllNotificationActionDisable, ''Disable allow all'')],
     db_ExpireTimeout = ExpiresNever, db_Urgency = UrgencyCritical\<rparr>"

definition dn_NotifyGlobalAllowAll :: "bus \<Rightarrow> 'f \<Rightarrow> 'f desktopNotifier \<Rightarrow> error option \<times> 'f desktopNotifier" where
  "dn_NotifyGlobalAllowAll bus disable n = send_note bus (\<lambda>n. allow_all_note (dn_allowAllID n)) (\<lambda>nid n. n\<lparr>dn_allowAllID := nid\<rparr>)
     (n\<lparr>dn_allowAllDisableFunc := Some disable\<rparr>)"

definition portal_note :: "notification \<Rightarrow> u32 \<Rightarrow> dbusNote" where
  "portal_note note nid = \<lparr>db_AppName = ''Killswitch'', db_ReplacesID = nid, db_Summary = notificationTitle note, db_Body = nt_Text note,
     db_Actions = [(captivePortalNotificationActionOpen, ''Open login page'')],
     db_ExpireTimeout = ExpiresNever, db_Urgency = notificationUrgency note\<rparr>"

definition dn_NotifyCaptivePortal :: "bus \<Rightarrow> notification \<Rightarrow> 'f \<Rightarrow> 'f desktopNotifier \<Rightarrow> error option \<times> 'f desktopNotifier" where
  "dn_NotifyCaptivePortal bus note opn n = send_note bus (\<lambda>n. portal_note note (dn_captivePortalID n))
     (\<lambda>nid n. n\<lparr>dn_captivePortalID := nid\<rparr>) (n\<lparr>dn_captivePortalOpen := Some opn\<rparr>)"

definition bus_error :: "u32 res \<Rightarrow> error list" where
  "bus_error r = (case r of Inl err \<Rightarrow> [err] | Inr _ \<Rightarrow> [])"

definition error_of :: "u32 res \<Rightarrow> error option" where
  "error_of r = (case r of Inl err \<Rightarrow> Some err | Inr _ \<Rightarrow> None)"

definition dn_CloseGlobalAllowAll :: "bus \<Rightarrow> 'f desktopNotifier \<Rightarrow> error option \<times> 'f desktopNotifier" where
  "dn_CloseGlobalAllowAll bus n =
     (if \<not> dn_dbusNotifier n \<or> dn_allowAllID n = 0 then (None, n)
      else case bus_do bus (CloseNotification (dn_allowAllID n)) n of (r, n) \<Rightarrow> (error_of r, n\<lparr>dn_allowAllID := 0\<rparr>))"

definition dn_CloseCaptivePortal :: "bus \<Rightarrow> 'f desktopNotifier \<Rightarrow> error option \<times> 'f desktopNotifier" where
  "dn_CloseCaptivePortal bus n =
     (let n = n\<lparr>dn_captivePortalOpen := None\<rparr> in
      if \<not> dn_dbusNotifier n \<or> dn_captivePortalID n = 0 then (None, n)
      else case bus_do bus (CloseNotification (dn_captivePortalID n)) n of (r, n) \<Rightarrow> (error_of r, n\<lparr>dn_captivePortalID := 0\<rparr>))"

text \<open>The errors that \<open>Close\<close> joins.\<close>

definition dn_Close :: "bus \<Rightarrow> 'f desktopNotifier \<Rightarrow> error list \<times> 'f desktopNotifier" where
  "dn_Close bus n =
     (let (es, n) =
        (if dn_dbusNotifier n then
           (let (e1, n) = (if dn_allowAllID n \<noteq> 0
                  then (case bus_do bus (CloseNotification (dn_allowAllID n)) n of (r, n) \<Rightarrow> (bus_error r, n\<lparr>dn_allowAllID := 0\<rparr>)) else ([], n));
                (e2, n) = (if dn_captivePortalID n \<noteq> 0
                  then (case bus_do bus (CloseNotification (dn_captivePortalID n)) n of (r, n) \<Rightarrow> (bus_error r, n\<lparr>dn_captivePortalID := 0\<rparr>)) else ([], n));
                (r3, n) = bus_do bus NotifierClose (n\<lparr>dn_captivePortalOpen := None\<rparr>)
            in (e1 @ e2 @ bus_error r3, n\<lparr>dn_dbusNotifier := False\<rparr>))
         else ([], n)) in
      if dn_dbusConn n then (case bus_do bus ConnClose n of (r, n) \<Rightarrow> (es @ bus_error r, n\<lparr>dn_dbusConn := False\<rparr>)) else (es, n))"

text \<open>The handler of an action: the closure that it runs.\<close>

definition on_action :: "string \<Rightarrow> u32 \<Rightarrow> 'f desktopNotifier \<Rightarrow> 'f option" where
  "on_action key nid n =
     (if key = allowAllNotificationActionDisable then
        (if dn_allowAllID n \<noteq> 0 \<and> nid \<noteq> dn_allowAllID n then None else dn_allowAllDisableFunc n)
      else if key = captivePortalNotificationActionOpen then
        (if dn_captivePortalID n \<noteq> 0 \<and> nid \<noteq> dn_captivePortalID n then None else dn_captivePortalOpen n)
      else None)"

definition desktop_ops :: "bus \<Rightarrow> ('f desktopNotifier, 'f) notifier_ops" where
  "desktop_ops bus = \<lparr>op_Notify = dn_Notify bus, op_NotifyGlobalAllowAll = dn_NotifyGlobalAllowAll bus,
     op_CloseGlobalAllowAll = dn_CloseGlobalAllowAll bus, op_NotifyCaptivePortal = dn_NotifyCaptivePortal bus,
     op_CloseCaptivePortal = dn_CloseCaptivePortal bus, op_Close = dn_Close bus\<rparr>"

section \<open>The contract\<close>

text \<open>
  \<open>sure n\<close>: every call has succeeded so far. \<open>allow_all n\<close> and \<open>portal n\<close> are the closures that the user can run on the notification that
  is on the screen, when there is one.
\<close>

locale notifier =
  fixes ops :: "('n, 'f) notifier_ops" and good :: "'n \<Rightarrow> bool" and sure :: "'n \<Rightarrow> bool"
    and allow_all :: "'n \<Rightarrow> 'f option" and portal :: "'n \<Rightarrow> 'f option"
  assumes Notify: "good n \<Longrightarrow> op_Notify ops x n = (e, n') \<Longrightarrow>
      good n' \<and> (sure n' \<longrightarrow> sure n \<and> allow_all n' = allow_all n \<and> portal n' = portal n)"
    and NotifyGlobalAllowAll: "good n \<Longrightarrow> op_NotifyGlobalAllowAll ops f n = (e, n') \<Longrightarrow>
      good n' \<and> (sure n' \<longrightarrow> sure n \<and> allow_all n' = Some f \<and> portal n' = portal n)"
    and CloseGlobalAllowAll: "good n \<Longrightarrow> op_CloseGlobalAllowAll ops n = (e, n') \<Longrightarrow>
      good n' \<and> (sure n' \<longrightarrow> sure n \<and> allow_all n' = None \<and> portal n' = portal n)"
    and NotifyCaptivePortal: "good n \<Longrightarrow> op_NotifyCaptivePortal ops x f n = (e, n') \<Longrightarrow>
      good n' \<and> (sure n' \<longrightarrow> sure n \<and> allow_all n' = allow_all n \<and> portal n' = Some f)"
    and CloseCaptivePortal: "good n \<Longrightarrow> op_CloseCaptivePortal ops n = (e, n') \<Longrightarrow>
      good n' \<and> (sure n' \<longrightarrow> sure n \<and> allow_all n' = allow_all n \<and> portal n' = None)"
begin

lemma notify_each: "good n \<Longrightarrow> good (notify_each ops xs n) \<and> (sure (notify_each ops xs n) \<longrightarrow>
    sure n \<and> allow_all (notify_each ops xs n) = allow_all n \<and> portal (notify_each ops xs n) = portal n)"
proof (induction xs arbitrary: n)
  case (Cons x xs)
  obtain e n1 where n1: "op_Notify ops x n = (e, n1)" by (cases "op_Notify ops x n")
  with Notify [OF Cons.prems n1] Cons.IH [of n1] show ?case by (auto simp: notify_each_def)
qed (simp add: notify_each_def)

lemma updateInterfaces:
  assumes "good n" and "updateInterfaces ops cfg (w, n) = (w', n')"
  shows "good n' \<and> (sure n' \<longrightarrow> sure n \<and> allow_all n' = allow_all n) \<and> w' = w\<lparr>cw_lastInterfaces := Some (attachedInterfaceMap cfg)\<rparr>"
  using assms notify_each by (auto simp: updateInterfaces_def Let_def split: option.splits)

lemma updateGlobalAllowAll:
  assumes "good n" and "sure n \<longrightarrow> cw_notifyGlobalAllowAll w \<longrightarrow> cw_allowAllShown w \<longrightarrow> allow_all n = Some (cw_disableAllowAll w)"
    and "sure n \<longrightarrow> cw_notifyGlobalAllowAll w \<longrightarrow> \<not> cw_allowAllShown w \<longrightarrow> allow_all n = rest"
    and "updateGlobalAllowAll ops cfg (w, n) = (w', n')"
  shows "good n' \<and> cw_allowAllShown w' = aar_AllowAll (cc_BasePolicy cfg) \<and> cw_notifyGlobalAllowAll w' = cw_notifyGlobalAllowAll w \<and>
    cw_disableAllowAll w' = cw_disableAllowAll w \<and> (sure n' \<longrightarrow> sure n \<and> (cw_notifyGlobalAllowAll w \<longrightarrow>
      allow_all n' = (if aar_AllowAll (cc_BasePolicy cfg) then Some (cw_disableAllowAll w) else if cw_allowAllShown w then None else rest)))"
  using assms NotifyGlobalAllowAll [OF assms(1)] CloseGlobalAllowAll [OF assms(1)]
  by (cases "op_NotifyGlobalAllowAll ops (cw_disableAllowAll w) n"; cases "op_CloseGlobalAllowAll ops n")
    (auto simp: updateGlobalAllowAll_def Let_def split: if_splits)

lemma cw_update:
  assumes "good n" and "sure n \<longrightarrow> cw_notifyGlobalAllowAll w \<longrightarrow>
      allow_all n = (if cw_allowAllShown w then Some (cw_disableAllowAll w) else rest)"
    and "cw_update ops cfg (w, n) = (w', n')"
  shows "good n' \<and> cw_allowAllShown w' = aar_AllowAll (cc_BasePolicy cfg) \<and> cw_notifyGlobalAllowAll w' = cw_notifyGlobalAllowAll w \<and>
    cw_disableAllowAll w' = cw_disableAllowAll w \<and> (sure n' \<longrightarrow> sure n \<and> (cw_notifyGlobalAllowAll w \<longrightarrow>
      allow_all n' = (if aar_AllowAll (cc_BasePolicy cfg) then Some (cw_disableAllowAll w) else if cw_allowAllShown w then None else rest)))"
proof -
  obtain w1 n1 where 1: "(if cw_notifyInterfaceChanges w then updateInterfaces ops cfg (w, n)
      else (w\<lparr>cw_lastInterfaces := Some (attachedInterfaceMap cfg)\<rparr>, n)) = (w1, n1)" by fastforce
  then have u: "good n1 \<and> (sure n1 \<longrightarrow> sure n \<and> allow_all n1 = allow_all n) \<and> w1 = w\<lparr>cw_lastInterfaces := Some (attachedInterfaceMap cfg)\<rparr>"
    using updateInterfaces [OF assms(1)] assms(1) by (auto split: if_splits)
  moreover have "updateGlobalAllowAll ops cfg (w1, n1) = (w', n')" using assms(3) 1 by (simp add: cw_update_def)
  ultimately show ?thesis using updateGlobalAllowAll [of n1 w1 rest cfg w' n'] assms(2) by auto
qed

lemma watch_session:
  assumes "good n" and "cw_allowAllShown w = False" and "cw_notifyGlobalAllowAll w" and "watch_session ops w cfg cfgs n = (w', n')"
  shows "good n' \<and> cw_allowAllShown w' = aar_AllowAll (cc_BasePolicy (last (cfg # cfgs))) \<and> cw_notifyGlobalAllowAll w' \<and>
    cw_disableAllowAll w' = cw_disableAllowAll w \<and>
    (sure n' \<longrightarrow> sure n \<and> allow_all n' = (if aar_AllowAll (cc_BasePolicy (last (cfg # cfgs))) then Some (cw_disableAllowAll w)
       else if list_ex (\<lambda>c. aar_AllowAll (cc_BasePolicy c)) (cfg # cfgs) then None else allow_all n))"
  using assms(4)
proof (induction cfgs arbitrary: w' n' rule: rev_induct)
  case Nil
  then show ?case
    using updateGlobalAllowAll [of n "cw_applyInitial cfg w" "allow_all n" cfg w' n'] assms(1-3)
    by (auto simp: watch_session_def cw_applyInitial_def)
next
  case (snoc c cfgs)
  obtain w1 n1 where 1: "watch_session ops w cfg cfgs n = (w1, n1)" by fastforce
  then have "cw_update ops c (w1, n1) = (w', n')" using snoc.prems by (simp add: watch_session_def)
  with snoc.IH [OF 1] show ?case
    using cw_update [of n1 w1 "if list_ex (\<lambda>c. aar_AllowAll (cc_BasePolicy c)) (cfg # cfgs) then None else allow_all n" c w' n']
    by (auto simp: list_ex_iff split: if_splits)
qed

end

section \<open>The desktop notifier keeps the contract\<close>

text \<open>What is on the screen, and whether every call was answered.\<close>

fun displayed :: "bus \<Rightarrow> bus_call list \<Rightarrow> u32 \<Rightarrow> dbusNote option" where
  "displayed bus [] = (\<lambda>_. None)"
| "displayed bus (c # cs) = (case (c, bus cs c) of
      (SendNotification note, Inr nid) \<Rightarrow> (displayed bus cs)(nid \<mapsto> note)
    | (CloseNotification nid, Inr _) \<Rightarrow> (displayed bus cs)(nid := None)
    | _ \<Rightarrow> displayed bus cs)"

fun answered :: "bus \<Rightarrow> bus_call list \<Rightarrow> bool" where
  "answered bus [] = True"
| "answered bus (c # cs) = ((\<exists>nid. bus cs c = Inr nid) \<and> answered bus cs)"

text \<open>
  What the Desktop Notifications Specification promises: a notification that replaces another keeps its identifier, and a new one gets an
  identifier that is not 0 and not on the screen.
\<close>

definition bus_ok :: "bus \<Rightarrow> bool" where
  "bus_ok bus \<longleftrightarrow> (\<forall>cs note nid. bus cs (SendNotification note) = Inr nid \<longrightarrow>
     (if db_ReplacesID note \<noteq> 0 then nid = db_ReplacesID note else nid \<noteq> 0 \<and> displayed bus cs nid = None))"

definition acts_allow_all :: "(string \<times> string) list" where
  "acts_allow_all = [(allowAllNotificationActionDisable, ''Disable allow all'')]"

definition acts_portal :: "(string \<times> string) list" where
  "acts_portal = [(captivePortalNotificationActionOpen, ''Open login page'')]"

text \<open>The identifiers that the notifier holds are those on the screen.\<close>

definition shows_acts :: "bus \<Rightarrow> 'f desktopNotifier \<Rightarrow> (string \<times> string) list \<Rightarrow> u32 \<Rightarrow> bool" where
  "shows_acts bus n acts nid \<longleftrightarrow> (case displayed bus (dn_calls n) nid of None \<Rightarrow> False | Some note \<Rightarrow> db_Actions note = acts)"

definition dn_inv :: "bus \<Rightarrow> 'f desktopNotifier \<Rightarrow> bool" where
  "dn_inv bus n \<longleftrightarrow>
     (\<not> dn_dbusNotifier n \<longrightarrow> dn_allowAllID n = 0 \<and> dn_captivePortalID n = 0) \<and>
     (\<forall>nid. shows_acts bus n acts_allow_all nid \<longleftrightarrow> nid \<noteq> 0 \<and> nid = dn_allowAllID n) \<and>
     (\<forall>nid. shows_acts bus n acts_portal nid \<longleftrightarrow> nid \<noteq> 0 \<and> nid = dn_captivePortalID n)"

definition dn_good :: "bus \<Rightarrow> 'f desktopNotifier \<Rightarrow> bool" where
  "dn_good bus n \<longleftrightarrow> bus_ok bus \<and> (answered bus (dn_calls n) \<longrightarrow> dn_inv bus n)"

definition dn_sure :: "bus \<Rightarrow> 'f desktopNotifier \<Rightarrow> bool" where
  "dn_sure bus n \<longleftrightarrow> answered bus (dn_calls n)"

text \<open>What choosing the action of a notification on the screen runs.\<close>

definition dn_allow_all :: "bus \<Rightarrow> 'f desktopNotifier \<Rightarrow> 'f option" where
  "dn_allow_all bus n = (if shows_acts bus n acts_allow_all (dn_allowAllID n)
     then on_action allowAllNotificationActionDisable (dn_allowAllID n) n else None)"

definition dn_portal :: "bus \<Rightarrow> 'f desktopNotifier \<Rightarrow> 'f option" where
  "dn_portal bus n = (if shows_acts bus n acts_portal (dn_captivePortalID n)
     then on_action captivePortalNotificationActionOpen (dn_captivePortalID n) n else None)"

lemma acts_differ [simp]: "acts_allow_all \<noteq> acts_portal" "acts_portal \<noteq> acts_allow_all" "acts_allow_all \<noteq> []" "acts_portal \<noteq> []"
  "[] \<noteq> acts_allow_all" "[] \<noteq> acts_portal"
  by (simp_all add: acts_allow_all_def acts_portal_def allowAllNotificationActionDisable_def captivePortalNotificationActionOpen_def)

lemma on_action_simps:
  "on_action allowAllNotificationActionDisable nid n = (if dn_allowAllID n \<noteq> 0 \<and> nid \<noteq> dn_allowAllID n then None else dn_allowAllDisableFunc n)"
  "on_action captivePortalNotificationActionOpen nid n =
     (if dn_captivePortalID n \<noteq> 0 \<and> nid \<noteq> dn_captivePortalID n then None else dn_captivePortalOpen n)"
  by (simp_all add: on_action_def allowAllNotificationActionDisable_def captivePortalNotificationActionOpen_def)

lemma views:
  assumes "dn_inv bus n"
  shows "dn_allow_all bus n = (if dn_allowAllID n = 0 then None else dn_allowAllDisableFunc n)"
    and "dn_portal bus n = (if dn_captivePortalID n = 0 then None else dn_captivePortalOpen n)"
  using assms by (auto simp: dn_inv_def dn_allow_all_def dn_portal_def on_action_simps)

text \<open>Opening the bus, when it succeeds, changes nothing on the screen.\<close>

lemma open_answered:
  assumes "(if dn_dbusNotifier n then (None, n) else openDBusNotifierLocked bus n) = (e, n1)" and "answered bus (dn_calls n1)"
  shows "e = None \<and> answered bus (dn_calls n) \<and> displayed bus (dn_calls n1) = displayed bus (dn_calls n) \<and>
    n1 = n\<lparr>dn_dbusNotifier := True, dn_dbusConn := dn_dbusConn n1, dn_calls := dn_calls n1\<rparr>"
  using assms by (auto simp: openDBusNotifierLocked_def bus_do_def split: if_splits sum.splits)

lemma send_answered:
  assumes "send_note bus note put n = (e, n')" and "answered bus (dn_calls n')" and "\<And>nid m. dn_calls (put nid m) = dn_calls m"
  obtains n1 nid where "answered bus (dn_calls n)" and "displayed bus (dn_calls n1) = displayed bus (dn_calls n)"
    and "n1 = n\<lparr>dn_dbusNotifier := True, dn_dbusConn := dn_dbusConn n1, dn_calls := dn_calls n1\<rparr>"
    and "bus (dn_calls n1) (SendNotification (note n1)) = Inr nid"
    and "n' = put nid (n1\<lparr>dn_calls := SendNotification (note n1) # dn_calls n1\<rparr>)"
proof -
  obtain e1 n1 where 1: "(if dn_dbusNotifier n then (None, n) else openDBusNotifierLocked bus n) = (e1, n1)" by fastforce
  with assms have "answered bus (dn_calls n1)"
    by (cases e1) (auto simp: send_note_def bus_do_def split: sum.splits)
  note n1 = open_answered [OF 1 this]
  with 1 assms show ?thesis
    by (cases "bus (dn_calls n1) (SendNotification (note n1))") (auto simp: send_note_def bus_do_def intro: that)
qed

lemma shows_sent:
  assumes "displayed bus cs = displayed bus (dn_calls n)" and "bus cs (SendNotification note) = Inr nid"
    and "dn_calls n' = SendNotification note # cs"
  shows "shows_acts bus n' acts i \<longleftrightarrow> i = nid \<and> db_Actions note = acts \<or> i \<noteq> nid \<and> shows_acts bus n acts i"
  using assms by (simp add: shows_acts_def)

lemma fresh_id:
  assumes "bus_ok bus" and "displayed bus cs = displayed bus (dn_calls n)" and "bus cs (SendNotification note) = Inr nid"
  shows "(db_ReplacesID note \<noteq> 0 \<longrightarrow> nid = db_ReplacesID note) \<and> (db_ReplacesID note = 0 \<longrightarrow> nid \<noteq> 0 \<and> (\<forall>acts. \<not> shows_acts bus n acts nid))"
proof -
  have "if db_ReplacesID note \<noteq> 0 then nid = db_ReplacesID note else nid \<noteq> 0 \<and> displayed bus cs nid = None"
    using assms(1,3) by (simp add: bus_ok_def)
  with assms(2) show ?thesis by (auto simp: shows_acts_def)
qed

definition sent_as :: "bus \<Rightarrow> dbusNote \<Rightarrow> (u32 \<Rightarrow> 'f desktopNotifier \<Rightarrow> 'f desktopNotifier) \<Rightarrow> 'f desktopNotifier \<Rightarrow> 'f desktopNotifier \<Rightarrow>
    u32 \<Rightarrow> bool \<Rightarrow> bus_call list \<Rightarrow> bool" where
  "sent_as bus x put n n' nid c cs \<longleftrightarrow> dn_inv bus n \<and> bus_ok bus \<and> answered bus (dn_calls n) \<and>
     n' = put nid (n\<lparr>dn_dbusNotifier := True, dn_dbusConn := c, dn_calls := cs\<rparr>) \<and>
     (db_ReplacesID x \<noteq> 0 \<longrightarrow> nid = db_ReplacesID x) \<and> (db_ReplacesID x = 0 \<longrightarrow> nid \<noteq> 0 \<and> (\<forall>acts. \<not> shows_acts bus n acts nid)) \<and>
     (\<forall>acts i. shows_acts bus n' acts i \<longleftrightarrow> i = nid \<and> db_Actions x = acts \<or> i \<noteq> nid \<and> shows_acts bus n acts i)"

lemma send_contract:
  assumes "dn_good bus n" and "send_note bus note put n = (e, n')" and "answered bus (dn_calls n')"
    and "\<And>nid m. dn_calls (put nid m) = dn_calls m" and "\<And>b c cs. note (n\<lparr>dn_dbusNotifier := b, dn_dbusConn := c, dn_calls := cs\<rparr>) = x"
  shows "\<exists>nid c cs. sent_as bus x put n n' nid c cs"
proof -
  obtain n1 nid where n1: "answered bus (dn_calls n)" "displayed bus (dn_calls n1) = displayed bus (dn_calls n)"
      "n1 = n\<lparr>dn_dbusNotifier := True, dn_dbusConn := dn_dbusConn n1, dn_calls := dn_calls n1\<rparr>"
      "bus (dn_calls n1) (SendNotification (note n1)) = Inr nid"
      "n' = put nid (n1\<lparr>dn_calls := SendNotification (note n1) # dn_calls n1\<rparr>)"
    using send_answered [OF assms(2-4)] by blast
  have x: "note n1 = x" by (subst n1(3)) (rule assms(5))
  have calls: "dn_calls n' = SendNotification x # dn_calls n1" by (subst n1(5)) (simp add: assms(4) x)
  have "n1\<lparr>dn_calls := SendNotification x # dn_calls n1\<rparr> =
      n\<lparr>dn_dbusNotifier := True, dn_dbusConn := dn_dbusConn n1, dn_calls := SendNotification x # dn_calls n1\<rparr>"
    by (subst n1(3)) simp
  with n1(5) x have n': "n' = put nid (n\<lparr>dn_dbusNotifier := True, dn_dbusConn := dn_dbusConn n1, dn_calls := SendNotification x # dn_calls n1\<rparr>)"
    by simp
  have ok: "dn_inv bus n" "bus_ok bus" using assms(1) n1(1) by (simp_all add: dn_good_def)
  have "sent_as bus x put n n' nid (dn_dbusConn n1) (SendNotification x # dn_calls n1)"
    unfolding sent_as_def using ok n1(1) n' fresh_id [OF ok(2) n1(2) n1(4) [unfolded x]] shows_sent [OF n1(2) n1(4) [unfolded x] calls] by blast
  then show ?thesis by blast
qed

lemma good_unanswered: "dn_good bus n \<Longrightarrow> \<not> answered bus (dn_calls n') \<Longrightarrow> dn_good bus n' \<and> (dn_sure bus n' \<longrightarrow> P)"
  by (simp add: dn_good_def dn_sure_def)

lemma func_simps [simp]:
  "shows_acts bus (n\<lparr>dn_allowAllDisableFunc := g\<rparr>) = shows_acts bus n" "shows_acts bus (n\<lparr>dn_captivePortalOpen := g\<rparr>) = shows_acts bus n"
  "dn_inv bus (n\<lparr>dn_allowAllDisableFunc := g\<rparr>) = dn_inv bus n" "dn_inv bus (n\<lparr>dn_captivePortalOpen := g\<rparr>) = dn_inv bus n"
  "dn_good bus (n\<lparr>dn_allowAllDisableFunc := g\<rparr>) = dn_good bus n" "dn_good bus (n\<lparr>dn_captivePortalOpen := g\<rparr>) = dn_good bus n"
  by (simp_all add: shows_acts_def dn_inv_def dn_good_def fun_eq_iff)

lemma shows_one: "shows_acts bus n acts i \<Longrightarrow> shows_acts bus n acts' i \<Longrightarrow> acts = acts'"
  by (simp add: shows_acts_def split: option.splits)

lemma held_ids:
  assumes "dn_inv bus n"
  shows "shows_acts bus n acts_allow_all i \<longleftrightarrow> i \<noteq> 0 \<and> i = dn_allowAllID n" and "shows_acts bus n acts_portal i \<longleftrightarrow> i \<noteq> 0 \<and> i = dn_captivePortalID n"
    and "dn_allowAllID n \<noteq> 0 \<Longrightarrow> dn_allowAllID n \<noteq> dn_captivePortalID n"
  using assms shows_one [of bus n acts_allow_all "dn_allowAllID n" acts_portal] by (auto simp: dn_inv_def)

lemma note_simps:
  "db_Actions (plain_note x) = []" "db_ReplacesID (plain_note x) = 0"
  "db_Actions (allow_all_note nid) = acts_allow_all" "db_ReplacesID (allow_all_note nid) = nid"
  "db_Actions (portal_note x nid) = acts_portal" "db_ReplacesID (portal_note x nid) = nid"
  by (simp_all add: plain_note_def allow_all_note_def portal_note_def acts_allow_all_def acts_portal_def)

lemma dn_Notify_contract:
  assumes "dn_good bus n" and "dn_Notify bus x n = (e, n')"
  shows "dn_good bus n' \<and> (dn_sure bus n' \<longrightarrow> dn_sure bus n \<and> dn_allow_all bus n' = dn_allow_all bus n \<and> dn_portal bus n' = dn_portal bus n)"
proof (cases "answered bus (dn_calls n')")
  case True
  obtain nid c cs where "sent_as bus (plain_note x) (\<lambda>_ n. n) n n' nid c cs"
    using send_contract [OF assms(1) assms(2) [unfolded dn_Notify_def] True] by blast
  then have inv: "dn_inv bus n" and ok: "bus_ok bus" "answered bus (dn_calls n)"
    and n': "n' = n\<lparr>dn_dbusNotifier := True, dn_dbusConn := c, dn_calls := cs\<rparr>" and nid: "nid \<noteq> 0" "\<And>acts. \<not> shows_acts bus n acts nid"
    and shows': "\<And>acts i. shows_acts bus n' acts i \<longleftrightarrow> i = nid \<and> [] = acts \<or> i \<noteq> nid \<and> shows_acts bus n acts i"
    unfolding sent_as_def note_simps by blast+
  have keep: "acts \<noteq> [] \<Longrightarrow> shows_acts bus n' acts i \<longleftrightarrow> shows_acts bus n acts i" for acts i
    using shows' nid(2) by auto
  have inv': "dn_inv bus n'" using inv keep by (simp add: dn_inv_def) (simp add: n')
  show ?thesis
    using True views [OF inv] views [OF inv'] inv' ok by (simp add: dn_good_def dn_sure_def) (simp add: n')
qed (rule good_unanswered [OF assms(1)])

lemma dn_NotifyGlobalAllowAll_contract:
  assumes "dn_good bus n" and "dn_NotifyGlobalAllowAll bus f n = (e, n')"
  shows "dn_good bus n' \<and> (dn_sure bus n' \<longrightarrow> dn_sure bus n \<and> dn_allow_all bus n' = Some f \<and> dn_portal bus n' = dn_portal bus n)"
proof (cases "answered bus (dn_calls n')")
  case True
  let ?n = "n\<lparr>dn_allowAllDisableFunc := Some f\<rparr>"
  have good: "dn_good bus ?n" using assms(1) by simp
  obtain nid c cs where "sent_as bus (allow_all_note (dn_allowAllID n)) (\<lambda>nid n. n\<lparr>dn_allowAllID := nid\<rparr>) ?n n' nid c cs"
    using send_contract [OF good assms(2) [unfolded dn_NotifyGlobalAllowAll_def] True, of "allow_all_note (dn_allowAllID n)"] by auto
  note h = this [unfolded sent_as_def note_simps func_simps desktopNotifier.simps]
  have inv: "dn_inv bus n" and ok: "bus_ok bus" "answered bus (dn_calls n)" using h by simp_all
  have n': "n' = n\<lparr>dn_allowAllDisableFunc := Some f, dn_dbusNotifier := True, dn_dbusConn := c, dn_calls := cs, dn_allowAllID := nid\<rparr>"
    using h by (elim conjE)
  have nid: "(dn_allowAllID n \<noteq> 0 \<longrightarrow> nid = dn_allowAllID n) \<and> (dn_allowAllID n = 0 \<longrightarrow> nid \<noteq> 0 \<and> (\<forall>acts. \<not> shows_acts bus n acts nid))"
    using h by (elim conjE) (rule conjI)
  have shows': "shows_acts bus n' acts i \<longleftrightarrow> i = nid \<and> acts_allow_all = acts \<or> i \<noteq> nid \<and> shows_acts bus n acts i" for acts i
    using h by (elim conjE) (erule allE)+
  have "nid \<noteq> 0" using nid by (auto split: if_splits)
  moreover have "nid \<noteq> dn_captivePortalID n"
    using nid held_ids [OF inv] \<open>nid \<noteq> 0\<close> by metis
  ultimately have "shows_acts bus n' acts_allow_all i \<longleftrightarrow> i \<noteq> 0 \<and> i = nid" "shows_acts bus n' acts_portal i \<longleftrightarrow> i \<noteq> 0 \<and> i = dn_captivePortalID n" for i
    using nid held_ids(1,2) [OF inv, of i] by (auto simp: shows')
  then have inv': "dn_inv bus n'" by (simp add: dn_inv_def) (simp add: n')
  show ?thesis
    using True \<open>nid \<noteq> 0\<close> views [OF inv] views [OF inv'] inv' ok by (simp add: dn_good_def dn_sure_def) (simp add: n')
qed (rule good_unanswered [OF assms(1)])

lemma dn_NotifyCaptivePortal_contract:
  assumes "dn_good bus n" and "dn_NotifyCaptivePortal bus x f n = (e, n')"
  shows "dn_good bus n' \<and> (dn_sure bus n' \<longrightarrow> dn_sure bus n \<and> dn_allow_all bus n' = dn_allow_all bus n \<and> dn_portal bus n' = Some f)"
proof (cases "answered bus (dn_calls n')")
  case True
  let ?n = "n\<lparr>dn_captivePortalOpen := Some f\<rparr>"
  have good: "dn_good bus ?n" using assms(1) by simp
  obtain nid c cs where "sent_as bus (portal_note x (dn_captivePortalID n)) (\<lambda>nid n. n\<lparr>dn_captivePortalID := nid\<rparr>) ?n n' nid c cs"
    using send_contract [OF good assms(2) [unfolded dn_NotifyCaptivePortal_def] True, of "portal_note x (dn_captivePortalID n)"] by auto
  note h = this [unfolded sent_as_def note_simps func_simps desktopNotifier.simps]
  have inv: "dn_inv bus n" and ok: "bus_ok bus" "answered bus (dn_calls n)" using h by simp_all
  have n': "n' = n\<lparr>dn_captivePortalOpen := Some f, dn_dbusNotifier := True, dn_dbusConn := c, dn_calls := cs, dn_captivePortalID := nid\<rparr>"
    using h by (elim conjE)
  have nid: "(dn_captivePortalID n \<noteq> 0 \<longrightarrow> nid = dn_captivePortalID n) \<and> (dn_captivePortalID n = 0 \<longrightarrow> nid \<noteq> 0 \<and> (\<forall>acts. \<not> shows_acts bus n acts nid))"
    using h by (elim conjE) (rule conjI)
  have shows': "shows_acts bus n' acts i \<longleftrightarrow> i = nid \<and> acts_portal = acts \<or> i \<noteq> nid \<and> shows_acts bus n acts i" for acts i
    using h by (elim conjE) (erule allE)+
  have "nid \<noteq> 0" using nid by (auto split: if_splits)
  moreover have "nid \<noteq> dn_allowAllID n"
    using nid held_ids [OF inv] \<open>nid \<noteq> 0\<close> by metis
  ultimately have "shows_acts bus n' acts_portal i \<longleftrightarrow> i \<noteq> 0 \<and> i = nid" "shows_acts bus n' acts_allow_all i \<longleftrightarrow> i \<noteq> 0 \<and> i = dn_allowAllID n" for i
    using nid held_ids(1,2) [OF inv, of i] by (auto simp: shows')
  then have inv': "dn_inv bus n'" by (simp add: dn_inv_def) (simp add: n')
  show ?thesis
    using True \<open>nid \<noteq> 0\<close> views [OF inv] views [OF inv'] inv' ok by (simp add: dn_good_def dn_sure_def) (simp add: n')
qed (rule good_unanswered [OF assms(1)])


lemma shows_closed:
  assumes "displayed bus cs = displayed bus (dn_calls n)" and "bus cs (CloseNotification nid) = Inr r" and "dn_calls n' = CloseNotification nid # cs"
  shows "shows_acts bus n' acts i \<longleftrightarrow> i \<noteq> nid \<and> shows_acts bus n acts i"
  using assms by (simp add: shows_acts_def)

lemma dn_CloseGlobalAllowAll_contract:
  assumes "dn_good bus n" and "dn_CloseGlobalAllowAll bus n = (e, n')"
  shows "dn_good bus n' \<and> (dn_sure bus n' \<longrightarrow> dn_sure bus n \<and> dn_allow_all bus n' = None \<and> dn_portal bus n' = dn_portal bus n)"
proof (cases "answered bus (dn_calls n')")
  case True
  show ?thesis
  proof (cases "\<not> dn_dbusNotifier n \<or> dn_allowAllID n = 0")
    case idle: True
    then have "n' = n" using assms(2) by (simp add: dn_CloseGlobalAllowAll_def)
    moreover have inv: "dn_inv bus n" using True assms(1) calculation by (simp add: dn_good_def)
    moreover have "dn_allowAllID n = 0" using idle inv by (auto simp: dn_inv_def)
    ultimately show ?thesis using True assms(1) views [OF inv] by (simp add: dn_sure_def)
  next
    case False
    then have n': "n' = n\<lparr>dn_calls := CloseNotification (dn_allowAllID n) # dn_calls n, dn_allowAllID := 0\<rparr>"
      using assms(2) by (simp add: dn_CloseGlobalAllowAll_def bus_do_def)
    with True obtain r where r: "bus (dn_calls n) (CloseNotification (dn_allowAllID n)) = Inr r" "answered bus (dn_calls n)" by auto
    then have inv: "dn_inv bus n" and ok: "bus_ok bus" using assms(1) by (simp_all add: dn_good_def)
    have "shows_acts bus n' acts_allow_all i = False" "shows_acts bus n' acts_portal i \<longleftrightarrow> i \<noteq> 0 \<and> i = dn_captivePortalID n" for i
      using held_ids [OF inv] False shows_closed [where cs = "dn_calls n" and n = n and n' = n' and bus = bus and i = i, OF refl r(1)] by (auto simp: n')
    then have inv': "dn_inv bus n'" using inv by (simp add: dn_inv_def) (simp add: n')
    show ?thesis using True r(2) views [OF inv] views [OF inv'] inv' ok by (simp add: dn_good_def dn_sure_def) (simp add: n')
  qed
qed (rule good_unanswered [OF assms(1)])

lemma dn_CloseCaptivePortal_contract:
  assumes "dn_good bus n" and "dn_CloseCaptivePortal bus n = (e, n')"
  shows "dn_good bus n' \<and> (dn_sure bus n' \<longrightarrow> dn_sure bus n \<and> dn_allow_all bus n' = dn_allow_all bus n \<and> dn_portal bus n' = None)"
proof (cases "answered bus (dn_calls n')")
  case True
  show ?thesis
  proof (cases "\<not> dn_dbusNotifier n \<or> dn_captivePortalID n = 0")
    case idle: True
    then have "n' = n\<lparr>dn_captivePortalOpen := None\<rparr>" using assms(2) by (simp add: dn_CloseCaptivePortal_def)
    moreover have inv: "dn_inv bus n" using True assms(1) calculation by (simp add: dn_good_def)
    moreover have "dn_captivePortalID n = 0" using idle inv by (auto simp: dn_inv_def)
    moreover have inv': "dn_inv bus n'" using inv calculation(1) by simp
    ultimately show ?thesis using True assms(1) views [OF inv] views [OF inv'] by (simp add: dn_sure_def)
  next
    case False
    then have n': "n' = n\<lparr>dn_captivePortalOpen := None, dn_calls := CloseNotification (dn_captivePortalID n) # dn_calls n, dn_captivePortalID := 0\<rparr>"
      using assms(2) by (simp add: dn_CloseCaptivePortal_def bus_do_def)
    with True obtain r where r: "bus (dn_calls n) (CloseNotification (dn_captivePortalID n)) = Inr r" "answered bus (dn_calls n)" by auto
    then have inv: "dn_inv bus n" and ok: "bus_ok bus" using assms(1) by (simp_all add: dn_good_def)
    have "shows_acts bus n' acts_portal i = False" "shows_acts bus n' acts_allow_all i \<longleftrightarrow> i \<noteq> 0 \<and> i = dn_allowAllID n" for i
      using held_ids [OF inv] False shows_closed [where cs = "dn_calls n" and n = n and n' = n' and bus = bus and i = i, OF refl r(1)] by (auto simp: n')
    then have inv': "dn_inv bus n'" using inv by (simp add: dn_inv_def) (simp add: n')
    show ?thesis using True r(2) views [OF inv] views [OF inv'] inv' ok by (simp add: dn_good_def dn_sure_def) (simp add: n')
  qed
qed (rule good_unanswered [OF assms(1)])

interpretation dn: notifier "desktop_ops bus" "dn_good bus" "dn_sure bus" "dn_allow_all bus" "dn_portal bus" for bus
proof (unfold_locales, goal_cases)
  case (1 n x e n')
  then show ?case using dn_Notify_contract [of bus n x e n'] by (simp add: desktop_ops_def)
next
  case (2 n f e n')
  then show ?case using dn_NotifyGlobalAllowAll_contract [of bus n f e n'] by (simp add: desktop_ops_def)
next
  case (3 n e n')
  then show ?case using dn_CloseGlobalAllowAll_contract [of bus n e n'] by (simp add: desktop_ops_def)
next
  case (4 n x f e n')
  then show ?case using dn_NotifyCaptivePortal_contract [of bus n x f e n'] by (simp add: desktop_ops_def)
next
  case (5 n e n')
  then show ?case using dn_CloseCaptivePortal_contract [of bus n e n'] by (simp add: desktop_ops_def)
qed

section \<open>Sessions\<close>

lemma new_good: "bus_ok bus \<Longrightarrow> dn_good bus newDesktopNotifier \<and> dn_allow_all bus newDesktopNotifier = None"
  by (simp add: dn_good_def dn_inv_def newDesktopNotifier_def shows_acts_def dn_allow_all_def)

definition allows_all :: "currentConfig \<Rightarrow> bool" where
  "allows_all cfg = aar_AllowAll (cc_BasePolicy cfg)"

text \<open>two sessions with the daemon, one after the other, when notifications of allow_all are on and no call of the notification server
  fails. After the first session the notification is on the screen exactly when its last configuration allows all, and its action runs the
  closure of that session. After the second one the same holds, with one exception: a notification that the first session left behind stays,
  with its closure, when no configuration of the second session allows all.\<close>

theorem allow_all_notification:
  assumes "bus_ok bus" and "watch_session (desktop_ops bus) (new_configWatcher ifaces True f) cfg cfgs newDesktopNotifier = (w, n)"
    and "watch_session (desktop_ops bus) (new_configWatcher ifaces True g) cfg' cfgs' n = (w', n')" and "answered bus (dn_calls n')"
  shows "dn_allow_all bus n = (if allows_all (last (cfg # cfgs)) then Some f else None) \<and>
    dn_allow_all bus n' = (if allows_all (last (cfg' # cfgs')) then Some g
      else if list_ex allows_all (cfg' # cfgs') then None else dn_allow_all bus n)"
proof -
  have all: "aar_AllowAll (cc_BasePolicy c) = allows_all c" for c by (simp add: allows_all_def)
  have 1: "dn_good bus n \<and> (dn_sure bus n \<longrightarrow> dn_allow_all bus n = (if allows_all (last (cfg # cfgs)) then Some f else None))"
    using dn.watch_session [of bus newDesktopNotifier "new_configWatcher ifaces True f" cfg cfgs w n] assms(2)
    by (simp add: new_configWatcher_def all new_good [OF assms(1)])
  then show ?thesis
    using dn.watch_session [of bus n "new_configWatcher ifaces True g" cfg' cfgs' w' n'] assms(3,4)
    by (simp add: new_configWatcher_def all dn_sure_def)
qed

definition example_bus :: bus where
  "example_bus cs c = (case c of
      SendNotification note \<Rightarrow>
        if db_ReplacesID note \<noteq> 0 then Inr (db_ReplacesID note)
        else if list_ex (\<lambda>c. case c of SendNotification _ \<Rightarrow> True | _ \<Rightarrow> False) cs then Inl (Lib ''no more notifications'') else Inr 7
    | _ \<Rightarrow> Inr 0)"

lemma example_bus_ok: "bus_ok example_bus"
proof -
  have "\<not> list_ex (\<lambda>c. case c of SendNotification _ \<Rightarrow> True | _ \<Rightarrow> False) cs \<Longrightarrow> displayed example_bus cs i = None" for cs i
    by (induction cs) (auto split: bus_call.splits sum.splits)
  then show ?thesis by (auto simp: bus_ok_def example_bus_def split: if_splits)
qed

definition allowing :: currentConfig where
  "allowing = zero_currentConfig\<lparr>cc_BasePolicy := zero_apiRules\<lparr>aar_AllowAll := True\<rparr>\<rparr>"

lemma allow_all_notification_witness:
  "\<exists>w n w' n'. watch_session (desktop_ops example_bus) (new_configWatcher False True (1 :: nat)) allowing [] newDesktopNotifier = (w, n) \<and>
     watch_session (desktop_ops example_bus) (new_configWatcher False True 2) zero_currentConfig [] n = (w', n') \<and>
     dn_allow_all example_bus n' = Some 1"
proof -
  obtain w n where 1: "watch_session (desktop_ops example_bus) (new_configWatcher False True (1 :: nat)) allowing [] newDesktopNotifier = (w, n)" by fastforce
  obtain w' n' where 2: "watch_session (desktop_ops example_bus) (new_configWatcher False True 2) zero_currentConfig [] n = (w', n')" by fastforce
  have off: "\<not> allows_all zero_currentConfig" "allows_all allowing"
    by (simp_all add: allows_all_def zero_currentConfig_def zero_apiRules_def allowing_def)
  have "n' = n" using 2 off(1) by (auto simp: watch_session_def updateGlobalAllowAll_def cw_applyInitial_def new_configWatcher_def allows_all_def)
  moreover have "answered example_bus (dn_calls n)"
    using 1 off(2) by (auto simp: watch_session_def updateGlobalAllowAll_def cw_applyInitial_def new_configWatcher_def allows_all_def
        desktop_ops_def dn_NotifyGlobalAllowAll_def send_note_def newDesktopNotifier_def openDBusNotifierLocked_def bus_do_def
        example_bus_def allow_all_note_def)
  ultimately show ?thesis using allow_all_notification [OF example_bus_ok 1 2] 1 2 off by auto
qed

section \<open>Interfaces that come and go\<close>

definition recorder :: "(notification list, 'f) notifier_ops" where
  "recorder = \<lparr>op_Notify = (\<lambda>x sent. (None, sent @ [x])), op_NotifyGlobalAllowAll = (\<lambda>_ sent. (None, sent)),
     op_CloseGlobalAllowAll = Pair None, op_NotifyCaptivePortal = (\<lambda>_ _ sent. (None, sent)), op_CloseCaptivePortal = Pair None,
     op_Close = Pair []\<rparr>"

datatype iface_change = Appeared apiInterface | Disappeared apiInterface

fun change_note :: "iface_change \<Rightarrow> notification" where
  "change_note (Appeared iface) = appeared_note iface"
| "change_note (Disappeared iface) = disappeared_note iface"

text \<open>The names after the changes; \<open>None\<close> when a change is not one.\<close>

fun replay :: "string fset \<Rightarrow> iface_change list \<Rightarrow> string fset option" where
  "replay names [] = Some names"
| "replay names (Appeared iface # cs) = (if aif_Name iface |\<in>| names then None else replay (finsert (aif_Name iface) names) cs)"
| "replay names (Disappeared iface # cs) = (if aif_Name iface |\<in>| names then replay (names |-| {|aif_Name iface|}) cs else None)"

lemma replay_append: "replay names cs = Some names' \<Longrightarrow> replay names (cs @ ds) = replay names' ds"
  by (induction names cs rule: replay.induct) (auto split: if_splits)

definition named :: "(string, apiInterface) fmap \<Rightarrow> bool" where
  "named m \<longleftrightarrow> (\<forall>name iface. fmlookup m name = Some iface \<longrightarrow> aif_Name iface = name)"

lemma named_fold: "(\<And>x m. named m \<Longrightarrow> named (f x m)) \<Longrightarrow> named m \<Longrightarrow> named (fold f xs m)"
  by (induction xs arbitrary: m) auto

lemma named_attached: "named (attachedInterfaceMap cfg)"
proof -
  have "named fmempty" "\<And>m iface. named m \<Longrightarrow> named (fmupd (aif_Name iface) iface m)"
    "\<And>m iface. named m \<Longrightarrow> named (fmupd (aip_Name iface) (interface_of_policy iface) m)"
    by (simp_all add: named_def interface_of_policy_def)
  then show ?thesis by (auto simp: attachedInterfaceMap_def Let_def intro!: named_fold)
qed

lemma map_names: "fmlookup (attachedInterfaceMap cfg) name = Some iface \<Longrightarrow> aif_Name iface = name"
  using named_attached by (simp add: named_def)

lemma diff_names: "map aif_Name (interfaceDiff (attachedInterfaceMap cfg) m) = sorted_list_of_fset (fmdom (attachedInterfaceMap cfg) |-| fmdom m)"
proof -
  have "aif_Name (the (fmlookup (attachedInterfaceMap cfg) name)) = name" if "name |\<in>| fmdom (attachedInterfaceMap cfg) |-| fmdom m" for name
    using that map_names by (auto simp: fmlookup_dom_iff)
  then show ?thesis by (auto simp: interfaceDiff_def intro!: map_idI)
qed

lemma replay_appear: "distinct (map aif_Name xs) \<Longrightarrow> set (map aif_Name xs) \<inter> fset names = {} \<Longrightarrow>
    replay names (map Appeared xs) = Some (names |\<union>| fset_of_list (map aif_Name xs))"
  by (induction xs arbitrary: names) auto

lemma replay_disappear: "distinct (map aif_Name xs) \<Longrightarrow> set (map aif_Name xs) \<subseteq> fset names \<Longrightarrow>
    replay names (map Disappeared xs) = Some (names |-| fset_of_list (map aif_Name xs))"
proof (induction xs arbitrary: names)
  case (Cons x xs)
  have "names |-| {|aif_Name x|} |-| fset_of_list (map aif_Name xs) = names |-| finsert (aif_Name x) (fset_of_list (map aif_Name xs))" by auto
  moreover have "set (map aif_Name xs) \<subseteq> fset (names |-| {|aif_Name x|})"
    using Cons.prems by (auto simp: image_iff)
  ultimately show ?case using Cons.prems Cons.IH [of "names |-| {|aif_Name x|}"] by (simp del: set_map)
qed simp

definition changes :: "(string, apiInterface) fmap \<Rightarrow> (string, apiInterface) fmap \<Rightarrow> iface_change list" where
  "changes old new = map Appeared (appearedInterfaces old new) @ map Disappeared (disappearedInterfaces old new)"

lemma replay_changes:
  "replay (fmdom (attachedInterfaceMap cfg)) (changes (attachedInterfaceMap cfg) (attachedInterfaceMap cfg')) = Some (fmdom (attachedInterfaceMap cfg'))"
proof -
  let ?o = "fmdom (attachedInterfaceMap cfg)" and ?n = "fmdom (attachedInterfaceMap cfg')"
  have set: "fset_of_list (sorted_list_of_fset s) = s" for s :: "string fset" by (simp add: fset_eq_iff fset_of_list_elem)
  have dist: "distinct (sorted_list_of_fset s)" for s :: "string fset" by (simp add: sorted_list_of_fset.rep_eq)
  have "replay ?o (map Appeared (appearedInterfaces (attachedInterfaceMap cfg) (attachedInterfaceMap cfg'))) = Some (?o |\<union>| (?n |-| ?o))"
    by (subst replay_appear) (auto simp: appearedInterfaces_def diff_names set dist simp del: map_map set_map)
  moreover have "replay (?o |\<union>| (?n |-| ?o)) (map Disappeared (disappearedInterfaces (attachedInterfaceMap cfg) (attachedInterfaceMap cfg'))) =
      Some (?o |\<union>| (?n |-| ?o) |-| (?o |-| ?n))"
    by (subst replay_disappear) (auto simp: disappearedInterfaces_def diff_names set dist simp del: map_map set_map)
  moreover have "?o |\<union>| (?n |-| ?o) |-| (?o |-| ?n) = ?n" by auto
  ultimately show ?thesis by (simp add: changes_def replay_append)
qed

lemma recorded: "notify_each recorder xs sent = sent @ xs"
  by (induction xs arbitrary: sent) (simp_all add: notify_each_def recorder_def)

lemma recorder_update:
  assumes "cw_update recorder cfg (w, sent) = (w', sent')" and "cw_lastInterfaces w = Some old" and "cw_notifyInterfaceChanges w"
  shows "sent' = sent @ map change_note (changes old (attachedInterfaceMap cfg)) \<and> cw_lastInterfaces w' = Some (attachedInterfaceMap cfg) \<and>
    cw_notifyInterfaceChanges w'"
proof -
  have global: "snd (updateGlobalAllowAll recorder cfg (v, xs)) = xs" "cw_lastInterfaces (fst (updateGlobalAllowAll recorder cfg (v, xs))) = cw_lastInterfaces v"
    "cw_notifyInterfaceChanges (fst (updateGlobalAllowAll recorder cfg (v, xs))) = cw_notifyInterfaceChanges v" for v xs
    by (simp_all add: updateGlobalAllowAll_def recorder_def Let_def)
  have "cw_update recorder cfg (w, sent) = updateGlobalAllowAll recorder cfg (w\<lparr>cw_lastInterfaces := Some (attachedInterfaceMap cfg)\<rparr>,
      sent @ map change_note (changes old (attachedInterfaceMap cfg)))"
    using assms(2,3) by (simp add: cw_update_def updateInterfaces_def recorded changes_def Let_def comp_def)
  with global [of "w\<lparr>cw_lastInterfaces := Some (attachedInterfaceMap cfg)\<rparr>" "sent @ map change_note (changes old (attachedInterfaceMap cfg))"]
  show ?thesis using assms(1,3) by (metis configNotificationWatcher.select_convs(1,4) configNotificationWatcher.update_convs(4) fst_conv snd_conv
      configNotificationWatcher.surjective)
qed

text \<open>the notifications of a session tell how the attached interfaces change: each one that a session with interface notifications sends
  is about an interface that was not attached and now is, or was and now is not, and applied in order to the interfaces of the first
  configuration they give those of the last.\<close>

theorem interface_notifications:
  assumes "watch_session recorder (new_configWatcher True allowAll f) cfg cfgs [] = (w, sent)"
  shows "\<exists>cs. sent = map change_note cs \<and>
    replay (fmdom (attachedInterfaceMap cfg)) cs = Some (fmdom (attachedInterfaceMap (last (cfg # cfgs))))"
proof -
  have "(\<exists>cs. sent = map change_note cs \<and> replay (fmdom (attachedInterfaceMap cfg)) cs = Some (fmdom (attachedInterfaceMap (last (cfg # cfgs))))) \<and>
      cw_lastInterfaces w = Some (attachedInterfaceMap (last (cfg # cfgs))) \<and> cw_notifyInterfaceChanges w"
    using assms
  proof (induction cfgs arbitrary: w sent rule: rev_induct)
    case Nil
    then show ?case
      by (auto simp: watch_session_def updateGlobalAllowAll_def cw_applyInitial_def new_configWatcher_def recorder_def Let_def split: if_splits)
  next
    case (snoc c cfgs)
    obtain w1 s1 where 1: "watch_session recorder (new_configWatcher True allowAll f) cfg cfgs [] = (w1, s1)" by fastforce
    then have u: "cw_update recorder c (w1, s1) = (w, sent)" using snoc.prems by (simp add: watch_session_def)
    from snoc.IH [OF 1] obtain cs where cs: "s1 = map change_note cs"
      "replay (fmdom (attachedInterfaceMap cfg)) cs = Some (fmdom (attachedInterfaceMap (last (cfg # cfgs))))" by blast
    with snoc.IH [OF 1] recorder_update [OF u] show ?case
      by (intro conjI exI [of _ "cs @ changes (attachedInterfaceMap (last (cfg # cfgs))) (attachedInterfaceMap c)"])
        (simp_all add: replay_append [OF cs(2)] replay_changes)
  qed
  then show ?thesis by blast
qed

lemma interface_notifications_witness:
  "\<exists>w cs. watch_session recorder (new_configWatcher True False (0 :: nat))
      (zero_currentConfig\<lparr>cc_Interfaces := [zero_apiInterface\<lparr>aif_Name := ''eth0'', aif_Killswitch := True\<rparr>]\<rparr>) [zero_currentConfig] [] =
      (w, map change_note cs) \<and> replay {|''eth0''|} cs = Some {||}"
proof -
  let ?cfg = "zero_currentConfig\<lparr>cc_Interfaces := [zero_apiInterface\<lparr>aif_Name := ''eth0'', aif_Killswitch := True\<rparr>]\<rparr>"
  obtain w sent where 1: "watch_session recorder (new_configWatcher True False (0 :: nat)) ?cfg [zero_currentConfig] [] = (w, sent)" by fastforce
  have "fmdom (attachedInterfaceMap ?cfg) = {|''eth0''|}" "fmdom (attachedInterfaceMap zero_currentConfig) = {||}"
    by (simp_all add: attachedInterfaceMap_def zero_currentConfig_def zero_apiInterface_def fcard.rep_eq)
  with interface_notifications [OF 1] 1 show ?thesis by auto
qed

end
