(* ===== verification/Tray.thy ===== *)
theory Tray
  imports Connections
begin

text \<open>
  \<open>cmd/killswitch-user/tray.go\<close>. The tray turns each configuration and each result of the network check into a state, and the state into a menu;
  a click sends a command, which the session turns into a request to the daemon.

  A menu item of the library \<open>systray\<close> is modelled as what the program last asked of it: its title, its tooltip, whether it is checked and
  whether it is shown. The methods release the mutex before they apply a state, so that they are given as sections.
\<close>

section \<open>Commands\<close>

record trayCommand =
  tc_Kind :: int
  tc_AllowAll :: bool
  tc_SocksProxy :: bool
  tc_Ruleset :: string
  tc_Force :: bool
  tc_Interfaces :: "string list"

definition trayCommandSetAllowAll :: int where "trayCommandSetAllowAll = 1"
definition trayCommandForceRuleset :: int where "trayCommandForceRuleset = 2"
definition trayCommandSetSocksProxy :: int where "trayCommandSetSocksProxy = 3"
definition trayCommandOpenCaptivePortal :: int where "trayCommandOpenCaptivePortal = 4"

lemmas tray_kinds = trayCommandSetAllowAll_def trayCommandForceRuleset_def trayCommandSetSocksProxy_def trayCommandOpenCaptivePortal_def

definition no_command :: "int \<Rightarrow> trayCommand" where
  "no_command kind = \<lparr>tc_Kind = kind, tc_AllowAll = False, tc_SocksProxy = False, tc_Ruleset = [], tc_Force = False, tc_Interfaces = []\<rparr>"

text \<open>The request of a command; opening the login page sends nothing.\<close>

definition tray_request :: "trayCommand \<Rightarrow> mutationRequest option res" where
  "tray_request cmd =
     (if tc_Kind cmd = trayCommandSetAllowAll then
        Inr (Some (zero_mutationRequest\<lparr>mr_Operation := ''set'', mr_Target := ''base_policy.allow_all'', mr_Value := Some (JBool (tc_AllowAll cmd))\<rparr>))
      else if tc_Kind cmd = trayCommandForceRuleset then
        Inr (Some (zero_mutationRequest\<lparr>mr_Operation := (if tc_Force cmd then ''set'' else ''remove''), mr_Target := ''force_ruleset'',
          mr_Ruleset := tc_Ruleset cmd, mr_Interfaces := tc_Interfaces cmd\<rparr>))
      else if tc_Kind cmd = trayCommandSetSocksProxy then
        Inr (Some (zero_mutationRequest\<lparr>mr_Operation := ''set'', mr_Target := ''socks_proxy'', mr_Value := Some (JBool (tc_SocksProxy cmd))\<rparr>))
      else if tc_Kind cmd = trayCommandOpenCaptivePortal then Inr None
      else Inl (Errf ''unknown tray command kind %d'' [itoa (tc_Kind cmd)]))"

definition applyTrayCommand :: "error option \<Rightarrow> trayCommand \<Rightarrow> json option res" where
  "applyTrayCommand write cmd =
     bindR (tray_request cmd) (\<lambda>r. case r of
       None \<Rightarrow> Inr None
     | Some req \<Rightarrow> bindR (client_Send write (MutationRequest req)) (\<lambda>js. Inr (Some js)))"

section \<open>From a configuration to a state\<close>

record networkTrayState =
  nts_Enabled :: bool
  nts_Checking :: bool
  nts_Status :: string
  nts_PortalURL :: string
  nts_OpenLoginPage :: bool

record trayRulesetState =
  trs_Name :: string
  trs_Forced :: bool
  trs_Disabled :: bool

record trayInterfaceState =
  tis_Name :: string
  tis_Rulesets :: "trayRulesetState list"

record trayState =
  ts_AllowAll :: bool
  ts_SocksProxyEnabled :: bool
  ts_SocksProxyRunning :: bool
  ts_Network :: networkTrayState
  ts_Interfaces :: "trayInterfaceState list"

definition no_network :: networkTrayState where
  "no_network = \<lparr>nts_Enabled = False, nts_Checking = False, nts_Status = [], nts_PortalURL = [], nts_OpenLoginPage = False\<rparr>"

definition no_trayState :: trayState where
  "no_trayState = \<lparr>ts_AllowAll = False, ts_SocksProxyEnabled = False, ts_SocksProxyRunning = False, ts_Network = no_network, ts_Interfaces = []\<rparr>"

definition attachedInterfaceNames :: "currentConfig \<Rightarrow> string list" where
  "attachedInterfaceNames cfg =
     (let names = map aip_Name (filter aip_Attached (cc_EffectiveInterfaces cfg)) in
      sorted_list_of_fset (fset_of_list (if names \<noteq> [] then names else map aif_Name (filter aif_Killswitch (cc_Interfaces cfg)))))"

definition add_forced :: "string \<Rightarrow> string \<Rightarrow> (string, string fset) fmap \<Rightarrow> (string, string fset) fmap" where
  "add_forced iface name out = fmupd iface (finsert name (case fmlookup out iface of None \<Rightarrow> {||} | Some s \<Rightarrow> s)) out"

definition forcedRulesetsByInterface :: "currentConfig \<Rightarrow> string list \<Rightarrow> (string, string fset) fmap" where
  "forcedRulesetsByInterface cfg attached =
     (let out = fold (\<lambda>name. fmupd name {||}) attached fmempty;
          effective = filter aip_Attached (cc_EffectiveInterfaces cfg);
          out = fold (\<lambda>iface. fold (add_forced (aip_Name iface)) (aip_ForcedRulesets iface)) effective out in
      if effective \<noteq> [] then out
      else fold (\<lambda>ruleset. fold (\<lambda>iface. add_forced iface (afr_Name ruleset))
             (if afr_Interfaces ruleset = [] then attached else afr_Interfaces ruleset)) (cc_ForceActiveRulesets cfg) out)"

definition is_forced :: "(string, string fset) fmap \<Rightarrow> string \<Rightarrow> string \<Rightarrow> bool" where
  "is_forced forced iface name = (case fmlookup forced iface of None \<Rightarrow> False | Some s \<Rightarrow> name |\<in>| s)"

definition trayStateFromConfig :: "currentConfig \<Rightarrow> trayState" where
  "trayStateFromConfig cfg =
     (let attached = attachedInterfaceNames cfg;
          forced = forcedRulesetsByInterface cfg attached;
          baseRulesets = sort_slice (\<lambda>a b. trs_Name a < trs_Name b)
            (map (\<lambda>rs. \<lparr>trs_Name = ars_Name rs, trs_Forced = False, trs_Disabled = ars_Disabled rs\<rparr>) (cc_Rulesets cfg)) in
      \<lparr>ts_AllowAll = aar_AllowAll (cc_BasePolicy cfg), ts_SocksProxyEnabled = asp_Enabled (cc_SocksProxy cfg),
       ts_SocksProxyRunning = asp_Running (cc_SocksProxy cfg), ts_Network = no_network,
       ts_Interfaces = map (\<lambda>iface. \<lparr>tis_Name = iface,
         tis_Rulesets = map (\<lambda>rs. rs\<lparr>trs_Forced := is_forced forced iface (trs_Name rs)\<rparr>) baseRulesets\<rparr>) attached\<rparr>)"

section \<open>The menu\<close>

record menuItem =
  mi_Title :: string
  mi_Tooltip :: string
  mi_Checked :: bool
  mi_Shown :: bool
  mi_Enabled :: bool

definition AddMenuItemCheckbox :: "string \<Rightarrow> string \<Rightarrow> bool \<Rightarrow> menuItem" where
  "AddMenuItemCheckbox title tooltip checked = \<lparr>mi_Title = title, mi_Tooltip = tooltip, mi_Checked = checked, mi_Shown = True, mi_Enabled = True\<rparr>"

definition AddMenuItem :: "string \<Rightarrow> string \<Rightarrow> menuItem" where
  "AddMenuItem title tooltip = AddMenuItemCheckbox title tooltip False"

record systemTray =
  st_commands :: "trayCommand list option"
  st_started :: bool
  st_ready :: bool
  st_last :: "trayState option"
  st_menuBuilt :: bool
  st_allowAll :: menuItem
  st_socksProxy :: menuItem
  st_network :: menuItem
  st_openLogin :: menuItem
  st_noIface :: menuItem
  st_ifaceMenu :: "(string, menuItem) fmap"
  st_rulesetMenu :: "(string, (string, menuItem) fmap) fmap"

definition newSystemTray :: systemTray where
  "newSystemTray = \<lparr>st_commands = None, st_started = False, st_ready = False, st_last = None, st_menuBuilt = False,
     st_allowAll = AddMenuItem [] [], st_socksProxy = AddMenuItem [] [], st_network = AddMenuItem [] [], st_openLogin = AddMenuItem [] [],
     st_noIface = AddMenuItem [] [], st_ifaceMenu = fmempty, st_rulesetMenu = fmempty\<rparr>"

definition rulesetTrayTitle :: "trayRulesetState \<Rightarrow> string" where
  "rulesetTrayTitle rs = (if trs_Disabled rs then trs_Name rs @ '' (disabled)'' else trs_Name rs)"

definition socksProxyTrayTitle :: "trayState \<Rightarrow> string" where
  "socksProxyTrayTitle state =
     (if ts_SocksProxyEnabled state \<and> \<not> ts_SocksProxyRunning state then ''SOCKS proxy (not running)'' else ''SOCKS proxy'')"

definition networkTrayStatusText :: "networkTrayState \<Rightarrow> string" where
  "networkTrayStatusText state =
     (if \<not> nts_Enabled state then ''disabled'' else if nts_Checking state then ''checking''
      else if nts_Status state = [] then ''unknown'' else nts_Status state)"

definition networkTrayTitle :: "networkTrayState \<Rightarrow> string" where
  "networkTrayTitle state = ''Connectivity: '' @ networkTrayStatusText state"

definition networkTrayTooltip :: "networkTrayState \<Rightarrow> string" where
  "networkTrayTooltip state =
     (if \<not> nts_Enabled state then ''Network connectivity check is disabled''
      else if nts_PortalURL state \<noteq> [] then ''Captive portal: '' @ nts_PortalURL state
      else networkTrayTitle state)"

definition hide_others :: "string list \<Rightarrow> (string, menuItem) fmap \<Rightarrow> (string, menuItem) fmap" where
  "hide_others names = fmmap_keys (\<lambda>name item. if name \<in> set names then item else item\<lparr>mi_Shown := False\<rparr>)"

definition buildBaseMenu :: "trayState \<Rightarrow> systemTray \<Rightarrow> systemTray" where
  "buildBaseMenu state t = t\<lparr>st_menuBuilt := True,
     st_allowAll := AddMenuItemCheckbox ''Allow all'' ''Toggle global allow_all'' (ts_AllowAll state),
     st_socksProxy := AddMenuItemCheckbox (socksProxyTrayTitle state) ''Toggle localhost SOCKS proxy'' (ts_SocksProxyEnabled state),
     st_network := (AddMenuItem (networkTrayTitle (ts_Network state)) (networkTrayTooltip (ts_Network state)))
       \<lparr>mi_Enabled := False, mi_Shown := nts_Enabled (ts_Network state)\<rparr>,
     st_openLogin := (AddMenuItem ''Open login page'' ''Open captive portal login page'')\<lparr>mi_Shown := nts_OpenLoginPage (ts_Network state)\<rparr>,
     st_noIface := (AddMenuItem ''No interfaces'' ''No killswitch-attached interfaces'')\<lparr>mi_Enabled := False\<rparr>\<rparr>"

definition apply_ruleset :: "string \<Rightarrow> trayRulesetState \<Rightarrow> (string, menuItem) fmap \<Rightarrow> (string, menuItem) fmap" where
  "apply_ruleset ifaceName rs m =
     (let item = (case fmlookup m (trs_Name rs) of
            None \<Rightarrow> AddMenuItemCheckbox (rulesetTrayTitle rs) (''Force-activate '' @ trs_Name rs @ '' on '' @ ifaceName) (trs_Forced rs)
          | Some item \<Rightarrow> item) in
      fmupd (trs_Name rs) (item\<lparr>mi_Shown := True, mi_Title := rulesetTrayTitle rs, mi_Checked := trs_Forced rs\<rparr>) m)"

definition applyInterface :: "trayInterfaceState \<Rightarrow> systemTray \<Rightarrow> systemTray" where
  "applyInterface iface t =
     (let name = tis_Name iface;
          item = (case fmlookup (st_ifaceMenu t) name of None \<Rightarrow> AddMenuItem name name | Some item \<Rightarrow> item);
          items = (case fmlookup (st_rulesetMenu t) name of None \<Rightarrow> fmempty | Some items \<Rightarrow> items);
          items = hide_others (map trs_Name (tis_Rulesets iface)) items in
      t\<lparr>st_ifaceMenu := fmupd name (item\<lparr>mi_Shown := True, mi_Title := name\<rparr>) (st_ifaceMenu t),
        st_rulesetMenu := fmupd name (fold (apply_ruleset name) (tis_Rulesets iface) items) (st_rulesetMenu t)\<rparr>)"

definition tray_apply :: "trayState \<Rightarrow> systemTray \<Rightarrow> systemTray" where
  "tray_apply state t =
     (if \<not> st_ready t then t
      else
        let t = (if st_menuBuilt t then t else buildBaseMenu state t);
            net = ts_Network state;
            t = t\<lparr>st_allowAll := (st_allowAll t)\<lparr>mi_Checked := ts_AllowAll state\<rparr>,
              st_socksProxy := (st_socksProxy t)\<lparr>mi_Checked := ts_SocksProxyEnabled state, mi_Title := socksProxyTrayTitle state\<rparr>,
              st_network := (st_network t)\<lparr>mi_Title := networkTrayTitle net, mi_Tooltip := networkTrayTooltip net, mi_Shown := nts_Enabled net\<rparr>,
              st_openLogin := (st_openLogin t)\<lparr>mi_Shown := nts_OpenLoginPage net\<rparr>,
              st_ifaceMenu := hide_others (map tis_Name (ts_Interfaces state)) (st_ifaceMenu t),
              st_noIface := (st_noIface t)\<lparr>mi_Shown := ts_Interfaces state = []\<rparr>\<rparr> in
        if ts_Interfaces state = [] then t
        else (fold applyInterface (ts_Interfaces state) t)\<lparr>st_allowAll := (st_allowAll t)\<lparr>mi_Title := ''Allow all''\<rparr>\<rparr>)"

section \<open>Methods\<close>

text \<open>\<open>queue\<close> is what the channel of commands holds.\<close>

definition tray_Start :: "trayCommand list \<Rightarrow> systemTray \<Rightarrow> systemTray" where
  "tray_Start queue t = (if st_started t then t else t\<lparr>st_started := True, st_commands := Some queue\<rparr>)"

definition tray_Close :: "systemTray \<Rightarrow> systemTray" where
  "tray_Close t = t\<lparr>st_started := False\<rparr>"

text \<open>Each method in two sections: the first one leaves a state to apply.\<close>

definition onReady_first :: "systemTray \<Rightarrow> trayState option \<times> systemTray" where
  "onReady_first t = (Some (case st_last t of None \<Rightarrow> no_trayState | Some old \<Rightarrow> old), t\<lparr>st_ready := True\<rparr>)"

text \<open>The comparison of states, field by field and element by element; it is equality.\<close>

definition trayRulesetStatesEqual :: "trayRulesetState list \<Rightarrow> trayRulesetState list \<Rightarrow> bool" where
  "trayRulesetStatesEqual a b \<longleftrightarrow> length a = length b \<and> list_all (\<lambda>i. a ! i = b ! i) [0..<length a]"

definition trayInterfaceStatesEqual :: "trayInterfaceState list \<Rightarrow> trayInterfaceState list \<Rightarrow> bool" where
  "trayInterfaceStatesEqual a b \<longleftrightarrow> length a = length b \<and>
     list_all (\<lambda>i. tis_Name (a ! i) = tis_Name (b ! i) \<and> trayRulesetStatesEqual (tis_Rulesets (a ! i)) (tis_Rulesets (b ! i))) [0..<length a]"

definition trayStatesEqual :: "trayState \<Rightarrow> trayState \<Rightarrow> bool" where
  "trayStatesEqual a b \<longleftrightarrow> ts_AllowAll a = ts_AllowAll b \<and> ts_SocksProxyEnabled a = ts_SocksProxyEnabled b \<and>
     ts_SocksProxyRunning a = ts_SocksProxyRunning b \<and> ts_Network a = ts_Network b \<and>
     trayInterfaceStatesEqual (ts_Interfaces a) (ts_Interfaces b)"

lemma trayRulesetStatesEqual_iff [simp]: "trayRulesetStatesEqual a b \<longleftrightarrow> a = b"
  using list_eq_iff_nth_eq [of a b] by (auto simp: trayRulesetStatesEqual_def list_all_iff)

lemma trayInterfaceStatesEqual_iff [simp]: "trayInterfaceStatesEqual a b \<longleftrightarrow> a = b"
proof -
  have "tis_Name x = tis_Name y \<and> tis_Rulesets x = tis_Rulesets y \<longleftrightarrow> x = y" for x y :: trayInterfaceState
    by (cases x; cases y) simp
  then show ?thesis using list_eq_iff_nth_eq [of a b] by (auto simp: trayInterfaceStatesEqual_def list_all_iff)
qed

lemma trayStatesEqual_iff [simp]: "trayStatesEqual a b \<longleftrightarrow> a = b"
  by (cases a; cases b) (auto simp: trayStatesEqual_def)

definition put_state :: "trayState \<Rightarrow> systemTray \<Rightarrow> trayState option \<times> systemTray" where
  "put_state state t =
     (if (case st_last t of None \<Rightarrow> False | Some old \<Rightarrow> trayStatesEqual old state) then (None, t)
      else (if st_ready t then Some state else None, t\<lparr>st_last := Some state\<rparr>))"

lemma put_state_eq: "put_state state t =
    (if st_last t = Some state then (None, t) else (if st_ready t then Some state else None, t\<lparr>st_last := Some state\<rparr>))"
  by (auto simp: put_state_def split: option.split)

definition Update_first :: "currentConfig \<Rightarrow> systemTray \<Rightarrow> trayState option \<times> systemTray" where
  "Update_first cfg t =
     (let state = trayStateFromConfig cfg in
      put_state (case st_last t of None \<Rightarrow> state | Some old \<Rightarrow> state\<lparr>ts_Network := ts_Network old\<rparr>) t)"

definition UpdateNetwork_first :: "networkTrayState \<Rightarrow> systemTray \<Rightarrow> trayState option \<times> systemTray" where
  "UpdateNetwork_first network t =
     put_state (case st_last t of None \<Rightarrow> no_trayState\<lparr>ts_Network := network\<rparr> | Some old \<Rightarrow> old\<lparr>ts_Network := network\<rparr>) t"

definition then_apply :: "trayState option \<times> systemTray \<Rightarrow> systemTray" where
  "then_apply r = (case r of (None, t) \<Rightarrow> t | (Some state, t) \<Rightarrow> tray_apply state t)"

definition onReady :: "systemTray \<Rightarrow> systemTray" where
  "onReady t = then_apply (onReady_first t)"

definition tray_Update :: "currentConfig \<Rightarrow> systemTray \<Rightarrow> systemTray" where
  "tray_Update cfg t = then_apply (Update_first cfg t)"

definition tray_UpdateNetwork :: "networkTrayState \<Rightarrow> systemTray \<Rightarrow> systemTray" where
  "tray_UpdateNetwork network t = then_apply (UpdateNetwork_first network t)"

text \<open>The channel of commands holds 8; a nil channel, before \<open>Start\<close>, takes nothing.\<close>

definition tray_send :: "trayCommand \<Rightarrow> systemTray \<Rightarrow> systemTray" where
  "tray_send cmd t = (case st_commands t of
      None \<Rightarrow> t
    | Some queue \<Rightarrow> if length queue < 8 then t\<lparr>st_commands := Some (queue @ [cmd])\<rparr> else t)"

definition rulesetForcedInState :: "trayState \<Rightarrow> string \<Rightarrow> string \<Rightarrow> bool" where
  "rulesetForcedInState state ifaceName rulesetName =
     (case filter (\<lambda>rs. trs_Name rs = rulesetName)
        (concat (map tis_Rulesets (filter (\<lambda>iface. tis_Name iface = ifaceName) (ts_Interfaces state)))) of
        [] \<Rightarrow> False | rs # _ \<Rightarrow> trs_Forced rs)"

definition click_allowAll :: "systemTray \<Rightarrow> systemTray" where
  "click_allowAll t = tray_send ((no_command trayCommandSetAllowAll)
     \<lparr>tc_AllowAll := (case st_last t of None \<Rightarrow> True | Some old \<Rightarrow> \<not> ts_AllowAll old)\<rparr>) t"

definition click_socksProxy :: "systemTray \<Rightarrow> systemTray" where
  "click_socksProxy t = tray_send ((no_command trayCommandSetSocksProxy)
     \<lparr>tc_SocksProxy := (case st_last t of None \<Rightarrow> True | Some old \<Rightarrow> \<not> ts_SocksProxyEnabled old)\<rparr>) t"

definition click_openLogin :: "systemTray \<Rightarrow> systemTray" where
  "click_openLogin t = (if (case st_last t of None \<Rightarrow> False | Some old \<Rightarrow> nts_OpenLoginPage (ts_Network old))
     then tray_send (no_command trayCommandOpenCaptivePortal) t else t)"

definition force_command :: "string \<Rightarrow> string \<Rightarrow> bool \<Rightarrow> trayCommand" where
  "force_command ifaceName rulesetName force =
     (no_command trayCommandForceRuleset)\<lparr>tc_Ruleset := rulesetName, tc_Force := force, tc_Interfaces := [ifaceName]\<rparr>"

definition click_ruleset :: "string \<Rightarrow> string \<Rightarrow> systemTray \<Rightarrow> systemTray" where
  "click_ruleset ifaceName rulesetName t = tray_send (force_command ifaceName rulesetName
     (case st_last t of None \<Rightarrow> True | Some old \<Rightarrow> \<not> rulesetForcedInState old ifaceName rulesetName)) t"

section \<open>What the menu shows\<close>

definition item_view :: "(string, menuItem) fmap \<Rightarrow> string \<Rightarrow> (string \<times> bool) option" where
  "item_view m name = (case fmlookup m name of
      None \<Rightarrow> None | Some item \<Rightarrow> if mi_Shown item then Some (mi_Title item, mi_Checked item) else None)"

definition rulesets_view :: "trayRulesetState list \<Rightarrow> string \<Rightarrow> (string \<times> bool) option" where
  "rulesets_view rss = map_of (rev (map (\<lambda>rs. (trs_Name rs, (rulesetTrayTitle rs, trs_Forced rs))) rss))"

definition iface_view :: "systemTray \<Rightarrow> string \<Rightarrow> string \<Rightarrow> (string \<times> bool) option" where
  "iface_view t name = item_view (case fmlookup (st_rulesetMenu t) name of None \<Rightarrow> fmempty | Some m \<Rightarrow> m)"

definition iface_shown :: "systemTray \<Rightarrow> string \<Rightarrow> bool" where
  "iface_shown t name \<longleftrightarrow> item_view (st_ifaceMenu t) name \<noteq> None"

definition tray_shows :: "systemTray \<Rightarrow> trayState \<Rightarrow> bool" where
  "tray_shows t state \<longleftrightarrow>
     mi_Checked (st_allowAll t) = ts_AllowAll state \<and>
     mi_Checked (st_socksProxy t) = ts_SocksProxyEnabled state \<and> mi_Title (st_socksProxy t) = socksProxyTrayTitle state \<and>
     mi_Shown (st_network t) = nts_Enabled (ts_Network state) \<and> mi_Title (st_network t) = networkTrayTitle (ts_Network state) \<and>
     mi_Tooltip (st_network t) = networkTrayTooltip (ts_Network state) \<and>
     mi_Shown (st_openLogin t) = nts_OpenLoginPage (ts_Network state) \<and>
     mi_Shown (st_noIface t) = (ts_Interfaces state = []) \<and>
     (\<forall>name. iface_shown t name \<longleftrightarrow> name \<in> tis_Name ` set (ts_Interfaces state)) \<and>
     (\<forall>iface \<in> set (ts_Interfaces state). iface_view t (tis_Name iface) = rulesets_view (tis_Rulesets iface))"

lemma view_hide: "item_view (hide_others names m) name = (if name \<in> set names then item_view m name else None)"
  by (simp add: item_view_def hide_others_def split: option.split)

lemma view_upd: "item_view (fmupd n item m) name =
    (if name = n then (if mi_Shown item then Some (mi_Title item, mi_Checked item) else None) else item_view m name)"
  by (simp add: item_view_def)

lemma view_rulesets: "item_view (fold (apply_ruleset iface) rss m) name =
    (case rulesets_view rss name of None \<Rightarrow> item_view m name | Some v \<Rightarrow> Some v)"
proof (induction rss arbitrary: m)
  case (Cons rs rss)
  have "item_view (apply_ruleset iface rs m) name = (if name = trs_Name rs then Some (rulesetTrayTitle rs, trs_Forced rs) else item_view m name)"
    by (simp add: apply_ruleset_def Let_def view_upd)
  with Cons show ?case by (simp add: rulesets_view_def map_add_def split: option.split)
qed (simp add: rulesets_view_def)

lemma view_rulesets_hidden: "item_view (fold (apply_ruleset iface) rss (hide_others (map trs_Name rss) m)) = rulesets_view rss"
proof
  fix name
  have "rulesets_view rss name = None \<longleftrightarrow> name \<notin> trs_Name ` set rss"
    by (simp add: rulesets_view_def map_of_eq_None_iff image_comp comp_def)
  then show "item_view (fold (apply_ruleset iface) rss (hide_others (map trs_Name rss) m)) name = rulesets_view rss name"
    by (cases "rulesets_view rss name") (auto simp: view_rulesets view_hide)
qed

lemma fold_frame [simp]:
  "st_commands (fold applyInterface ifaces t) = st_commands t" "st_ready (fold applyInterface ifaces t) = st_ready t"
  "st_last (fold applyInterface ifaces t) = st_last t" "st_allowAll (fold applyInterface ifaces t) = st_allowAll t"
  "st_socksProxy (fold applyInterface ifaces t) = st_socksProxy t" "st_network (fold applyInterface ifaces t) = st_network t"
  "st_openLogin (fold applyInterface ifaces t) = st_openLogin t" "st_noIface (fold applyInterface ifaces t) = st_noIface t"
  by (induction ifaces arbitrary: t) (simp_all add: applyInterface_def Let_def)

lemma view_interfaces:
  assumes "distinct (map tis_Name ifaces)"
  shows "iface_shown (fold applyInterface ifaces t) name \<longleftrightarrow> name \<in> tis_Name ` set ifaces \<or> iface_shown t name"
    and "iface \<in> set ifaces \<Longrightarrow> iface_view (fold applyInterface ifaces t) (tis_Name iface) = rulesets_view (tis_Rulesets iface)"
    and "name \<notin> tis_Name ` set ifaces \<Longrightarrow> iface_view (fold applyInterface ifaces t) name = iface_view t name"
  using assms
proof (induction ifaces arbitrary: t name iface)
  case (Cons i ifaces)
  have step: "iface_shown (applyInterface i t) n \<longleftrightarrow> n = tis_Name i \<or> iface_shown t n"
    "iface_view (applyInterface i t) n = (if n = tis_Name i then rulesets_view (tis_Rulesets i) else iface_view t n)"
    for n and t :: systemTray
    by (simp_all add: applyInterface_def Let_def view_upd iface_shown_def iface_view_def view_rulesets_hidden fun_eq_iff)
  {
    case 1
    then show ?case using Cons.IH(1) [of "applyInterface i t" name] step(1) by auto
  next
    case 2
    then show ?case using Cons.IH(2) [of iface "applyInterface i t"] Cons.IH(3) [of "tis_Name i" "applyInterface i t"] step(2) by auto
  next
    case 3
    then show ?case using Cons.IH(3) [of name "applyInterface i t"] step(2) by auto
  }
qed simp_all

lemma tray_apply_frame [simp]:
  "st_commands (tray_apply state t) = st_commands t" "st_ready (tray_apply state t) = st_ready t" "st_last (tray_apply state t) = st_last t"
  by (simp_all add: tray_apply_def Let_def buildBaseMenu_def)

lemma tray_apply_shows:
  assumes "st_ready t" and "distinct (map tis_Name (ts_Interfaces state))"
  shows "tray_shows (tray_apply state t) state"
proof -
  have hidden: "iface_shown (t\<lparr>st_ifaceMenu := hide_others (map tis_Name (ts_Interfaces state)) m\<rparr>) name \<Longrightarrow>
      name \<in> tis_Name ` set (ts_Interfaces state)" for t :: systemTray and m name
    by (simp add: iface_shown_def view_hide split: if_splits)
  have frame: "iface_shown (t\<lparr>st_allowAll := a\<rparr>) = iface_shown t" "iface_view (t\<lparr>st_allowAll := a\<rparr>) = iface_view t"
      "iface_shown (t\<lparr>st_noIface := a\<rparr>) = iface_shown t" for t :: systemTray and a
    by (simp_all add: iface_shown_def iface_view_def fun_eq_iff)
  show ?thesis
  proof (cases "ts_Interfaces state = []")
    case True
    then show ?thesis using assms(1) by (simp add: tray_apply_def Let_def tray_shows_def iface_shown_def view_hide)
  next
    case False
    then show ?thesis using assms(1) view_interfaces(1,2) [OF assms(2)]
      by (auto simp: tray_apply_def Let_def tray_shows_def frame dest!: hidden)
  qed
qed

section \<open>Runs\<close>

datatype tray_op =
    OpStart | OpReady | OpUpdate currentConfig | OpNetwork networkTrayState | OpClose
  | ClickAllowAll | ClickSocksProxy | ClickOpenLogin | ClickRuleset string string | TakeCommand

fun tray_do :: "tray_op \<Rightarrow> systemTray \<Rightarrow> systemTray" where
  "tray_do OpStart t = tray_Start [] t"
| "tray_do OpReady t = onReady t"
| "tray_do (OpUpdate cfg) t = tray_Update cfg t"
| "tray_do (OpNetwork network) t = tray_UpdateNetwork network t"
| "tray_do OpClose t = tray_Close t"
| "tray_do ClickAllowAll t = click_allowAll t"
| "tray_do ClickSocksProxy t = click_socksProxy t"
| "tray_do ClickOpenLogin t = click_openLogin t"
| "tray_do (ClickRuleset iface name) t = click_ruleset iface name t"
| "tray_do TakeCommand t = t\<lparr>st_commands := map_option (drop 1) (st_commands t)\<rparr>"

definition tray_run :: "tray_op list \<Rightarrow> systemTray" where
  "tray_run ops = fold tray_do ops newSystemTray"

definition queued :: "systemTray \<Rightarrow> nat" where
  "queued t = (case st_commands t of None \<Rightarrow> 0 | Some queue \<Rightarrow> length queue)"

definition state_ok :: "trayState \<Rightarrow> bool" where
  "state_ok state \<longleftrightarrow> distinct (map tis_Name (ts_Interfaces state))"

definition tray_inv :: "systemTray \<Rightarrow> bool" where
  "tray_inv t \<longleftrightarrow> queued t \<le> 8 \<and> (\<forall>state. st_last t = Some state \<longrightarrow> state_ok state \<and> (st_ready t \<longrightarrow> tray_shows t state))"

lemma config_state_ok: "state_ok (trayStateFromConfig cfg)"
  by (simp add: state_ok_def trayStateFromConfig_def Let_def comp_def attachedInterfaceNames_def sorted_list_of_fset.rep_eq)

lemma state_ok_network [simp]: "state_ok (state\<lparr>ts_Network := network\<rparr>) = state_ok state" "state_ok no_trayState"
  by (simp_all add: state_ok_def no_trayState_def)

lemma shows_same:
  assumes "st_allowAll t' = st_allowAll t" "st_socksProxy t' = st_socksProxy t" "st_network t' = st_network t" "st_openLogin t' = st_openLogin t"
    "st_noIface t' = st_noIface t" "st_ifaceMenu t' = st_ifaceMenu t" "st_rulesetMenu t' = st_rulesetMenu t"
  shows "tray_shows t' = tray_shows t"
  using assms by (simp add: fun_eq_iff tray_shows_def iface_shown_def iface_view_def)

lemma put_state_inv:
  assumes "tray_inv t" and "state_ok state"
  shows "tray_inv (then_apply (put_state state t))"
proof -
  have q: "queued (then_apply (put_state state t)) = queued t" by (simp add: then_apply_def put_state_eq queued_def)
  show ?thesis
  proof (cases "st_last t = Some state \<or> \<not> st_ready t")
    case True
    then show ?thesis using assms q by (auto simp: tray_inv_def then_apply_def put_state_eq)
  next
    case False
    then have "then_apply (put_state state t) = tray_apply state (t\<lparr>st_last := Some state\<rparr>)" by (simp add: then_apply_def put_state_eq)
    then show ?thesis using False assms q tray_apply_shows [of "t\<lparr>st_last := Some state\<rparr>" state] by (simp add: tray_inv_def state_ok_def)
  qed
qed

lemma onReady_inv: "tray_inv t \<Longrightarrow> tray_inv (onReady t)"
  using tray_apply_shows [of "t\<lparr>st_ready := True\<rparr>"]
  by (auto simp: tray_inv_def onReady_def onReady_first_def then_apply_def queued_def state_ok_def)

lemma send_inv: "tray_inv t \<Longrightarrow> tray_inv (tray_send cmd t)"
proof -
  assume inv: "tray_inv t"
  have "tray_shows (t\<lparr>st_commands := q\<rparr>) = tray_shows t" for q by (rule shows_same) simp_all
  with inv show ?thesis by (auto simp: tray_inv_def tray_send_def queued_def split: option.split)
qed

lemma tray_do_inv: "tray_inv t \<Longrightarrow> tray_inv (tray_do p t)"
proof -
  assume inv: "tray_inv t"
  have same: "tray_shows (t\<lparr>st_commands := q\<rparr>) = tray_shows t" "tray_shows (t\<lparr>st_started := b\<rparr>) = tray_shows t"
    "tray_shows (t\<lparr>st_started := b, st_commands := q\<rparr>) = tray_shows t" for q b
    by (rule shows_same; simp)+
  show ?thesis
  proof (cases p)
    case OpStart
    then show ?thesis using inv same by (auto simp: tray_inv_def tray_Start_def queued_def)
  next
    case (OpUpdate cfg)
    then show ?thesis using inv config_state_ok [of cfg]
      by (auto simp: tray_Update_def Update_first_def Let_def intro!: put_state_inv split: option.split)
  next
    case (OpNetwork network)
    moreover have "state_ok old" if "st_last t = Some old" for old using inv that by (simp add: tray_inv_def)
    ultimately show ?thesis using inv by (auto simp: tray_UpdateNetwork_def UpdateNetwork_first_def intro!: put_state_inv split: option.split)
  next
    case TakeCommand
    then show ?thesis using inv same by (auto simp: tray_inv_def queued_def split: option.splits)
  next
    case OpClose
    then show ?thesis using inv same by (simp add: tray_inv_def tray_Close_def queued_def)
  qed (use inv in \<open>simp_all add: onReady_inv click_allowAll_def click_socksProxy_def click_openLogin_def click_ruleset_def send_inv\<close>)
qed



text \<open>when the tray becomes ready while a configuration arrives, the older state can be applied last. The menu then shows the old
  configuration, and the same configuration again does not repair it.\<close>

theorem tray_ready_race:
  assumes "\<not> st_ready t" and "st_last t = None" and "trayStateFromConfig cfg \<noteq> trayStateFromConfig cfg'"
    and "onReady_first (tray_Update cfg t) = (Some old, t1)" and "t2 = tray_apply old (tray_Update cfg' t1)"
  shows "st_last t2 = Some (trayStateFromConfig cfg') \<and> tray_shows t2 (trayStateFromConfig cfg) \<and> tray_Update cfg' t2 = t2"
proof -
  have net: "(trayStateFromConfig c)\<lparr>ts_Network := ts_Network (trayStateFromConfig c')\<rparr> = trayStateFromConfig c" for c c'
    by (simp add: trayStateFromConfig_def Let_def)
  have 1: "tray_Update cfg t = t\<lparr>st_last := Some (trayStateFromConfig cfg)\<rparr>"
    using assms(1,2) by (simp add: tray_Update_def Update_first_def put_state_eq then_apply_def Let_def)
  then have old: "old = trayStateFromConfig cfg" and t1: "st_ready t1" "st_last t1 = Some (trayStateFromConfig cfg)"
    using assms(4) by (auto simp: onReady_first_def)
  then have 2: "st_ready (tray_Update cfg' t1)" "st_last (tray_Update cfg' t1) = Some (trayStateFromConfig cfg')"
    using assms(3) by (auto simp: tray_Update_def Update_first_def put_state_eq then_apply_def Let_def net)
  then have "tray_shows t2 (trayStateFromConfig cfg)"
    using tray_apply_shows config_state_ok unfolding assms(5) old state_ok_def by blast
  moreover have "st_last t2 = Some (trayStateFromConfig cfg')" using 2 assms(5) by simp
  ultimately show ?thesis by (simp add: tray_Update_def Update_first_def put_state_eq then_apply_def Let_def net)
qed

lemma tray_ready_race_witness:
  "\<exists>t2. st_last t2 = Some (trayStateFromConfig (zero_currentConfig\<lparr>cc_BasePolicy := zero_apiRules\<lparr>aar_AllowAll := True\<rparr>\<rparr>)) \<and>
     tray_shows t2 (trayStateFromConfig zero_currentConfig)"
proof -
  let ?cfg = "zero_currentConfig\<lparr>cc_BasePolicy := zero_apiRules\<lparr>aar_AllowAll := True\<rparr>\<rparr>"
  have ne: "trayStateFromConfig zero_currentConfig \<noteq> trayStateFromConfig ?cfg"
    by (simp add: trayStateFromConfig_def Let_def zero_currentConfig_def zero_apiRules_def)
  obtain old t1 where 1: "onReady_first (tray_Update zero_currentConfig newSystemTray) = (Some old, t1)"
    by (simp add: onReady_first_def)
  have "\<not> st_ready newSystemTray" "st_last newSystemTray = None" by (simp_all add: newSystemTray_def)
  from tray_ready_race [OF this ne 1 refl] show ?thesis by blast
qed

section \<open>From a click to the daemon\<close>

text \<open>What the daemon does for the connection \<open>owner\<close> when the session passes a command on to it.\<close>

definition force_click :: "regexps \<Rightarrow> world \<Rightarrow> string \<Rightarrow> trayCommand \<Rightarrow> daemon \<Rightarrow> daemon" where
  "force_click rx w owner cmd d = (case tray_request cmd of
      Inr (Some req) \<Rightarrow> snd (applyForceRulesetMutation rx w owner req d) | _ \<Rightarrow> d)"

lemma finish_count [simp]: "force_count (dm_policies (snd (finish rx w d))) = force_count (dm_policies d)"
  "pm_opts (dm_policies (snd (finish rx w d))) = pm_opts (dm_policies d)"
proof -
  obtain r d' where run: "reconcile_policies rx w d = (r, d')" by fastforce
  note same = same_requests_holds [OF reconcile_policies_frame(1) [OF run]]
  show "force_count (dm_policies (snd (finish rx w d))) = force_count (dm_policies d)" using run same by (simp add: finish_snd)
  show "pm_opts (dm_policies (snd (finish rx w d))) = pm_opts (dm_policies d)" by (simp add: finish_snd)
qed

lemma sorted_single: "uniqueSortedStrings [iface] = [iface]"
  by (simp add: uniqueSortedStrings_def uniqueStrings_def)

lemma force_click_on:
  assumes "name \<in> rset_Name ` set (o_Rulesets (pm_opts (dm_policies d)))" and "name \<noteq> []"
  shows "force_count (dm_policies (force_click rx w owner (force_command iface name True) d)) n o' i =
      (if n = name \<and> o' = owner then (if i = iface then 1 else 0) else force_count (dm_policies d) n o' i)"
    and "pm_opts (dm_policies (force_click rx w owner (force_command iface name True) d)) = pm_opts (dm_policies d)"
proof -
  obtain ok pm where run: "forceActivateRuleset owner name [iface] True (dm_policies d) = (ok, pm)" by fastforce
  note spec = forceActivate_spec [OF run]
  have ok: "ok" using spec(1) assms(1) by simp
  have opts: "pm_opts pm = pm_opts (dm_policies d)" using run by (auto simp: forceActivateRuleset_def Let_def split: if_splits)
  have click: "force_click rx w owner (force_command iface name True) d = snd (finish rx w (d\<lparr>dm_policies := pm\<rparr>))"
    using run ok assms(2) by (simp add: force_click_def force_command_def no_command_def tray_request_def tray_kinds applyForceRulesetMutation_def
        zero_mutationRequest_def sorted_single)
  show "force_count (dm_policies (force_click rx w owner (force_command iface name True) d)) n o' i =
      (if n = name \<and> o' = owner then (if i = iface then 1 else 0) else force_count (dm_policies d) n o' i)"
    using spec(2) [OF ok] by (simp add: click)
  show "pm_opts (dm_policies (force_click rx w owner (force_command iface name True) d)) = pm_opts (dm_policies d)"
    by (simp add: click opts)
qed

text \<open>C36: the menu has an entry for each rule set under each interface, but checking the entries of one rule set under several interfaces,
  one after the other, leaves the tray holding it on the last interface only: each request sets the interfaces of the tray's hold. Unchecking
  an entry takes away the tray's own hold and leaves those of other clients, so that the rule set stays forced.\<close>

theorem tray_forces_on_last_interface:
  assumes "daemon_ok rx d" and "name \<in> rset_Name ` set (o_Rulesets (pm_opts (dm_policies d)))" and "name \<noteq> []" and "ifaces \<noteq> []"
  shows "force_count (dm_policies (fold (\<lambda>iface. force_click rx w owner (force_command iface name True)) ifaces d)) name owner i =
      (if i = last ifaces then 1 else 0) \<and>
    (o' \<noteq> owner \<longrightarrow> force_count (dm_policies (force_click rx w owner (force_command iface name False) d)) name o' i =
      force_count (dm_policies d) name o' i)"
proof
  show "force_count (dm_policies (fold (\<lambda>iface. force_click rx w owner (force_command iface name True)) ifaces d)) name owner i =
      (if i = last ifaces then 1 else 0)"
    using assms(2,4)
  proof (induction ifaces arbitrary: d)
    case (Cons iface ifaces)
    then show ?case using force_click_on [OF Cons.prems(1) assms(3)] by (cases ifaces) auto
  qed simp
  have ok: "force_ok (dm_policies d)" using assms(1) by (simp add: daemon_ok_def)
  obtain released pm where run: "releaseForceRulesetLocked owner name [iface] (dm_policies d) = (released, pm)" by fastforce
  show "o' \<noteq> owner \<longrightarrow> force_count (dm_policies (force_click rx w owner (force_command iface name False) d)) name o' i =
      force_count (dm_policies d) name o' i"
    using release_spec(1) [OF ok run, of name o' i] assms(3)
    by (simp add: force_click_def force_command_def no_command_def tray_request_def tray_kinds applyForceRulesetMutation_def
        zero_mutationRequest_def sorted_single releaseForceRuleset_def run)
qed

lemma tray_forces_on_last_interface_witness:
  "\<exists>opts. force_count (dm_policies (fold (\<lambda>iface. force_click example_rx calm_world ''tray'' (force_command iface ''vpn'' True)) [''eth0'', ''wlan0'']
     (start_daemon opts))) ''vpn'' ''tray'' ''eth0'' = 0"
proof -
  let ?rs = "\<lparr>rset_Name = ''vpn'', rset_Disabled = False, rset_MatchAll = False,
    rset_Trigger = \<lparr>tr_InterfaceTypes = [], tr_InterfaceNames = [''wg0''], tr_InterfaceRegexps = [], tr_IPAddrs = [], tr_SSIDs = [],
      tr_BSSIDs = [], tr_GatewayMACs = []\<rparr>, rset_Rules = o_Rules example_options\<rparr>"
  let ?opts = "example_options\<lparr>o_Rulesets := [?rs]\<rparr>"
  have ok: "opts_ok example_rx ?opts" using example_options_ok
    by (simp add: opts_ok_parts rulesets_ok_def ruleset_ok_def trigger_ok_def rulesetTriggerHasPredicates_def rulesetTriggerPredicateCount_def patterns_ok_def has_selector_def)
  have "''vpn'' \<in> rset_Name ` set (o_Rulesets (pm_opts (dm_policies (start_daemon ?opts))))"
    by (simp add: start_daemon_def newPolicyManager_def)
  from tray_forces_on_last_interface [OF start_daemon_ok [OF ok] this, of "[''eth0'', ''wlan0'']" calm_world "''tray''" "''eth0''" "''cli''"]
  show ?thesis by (intro exI [of _ ?opts]) simp
qed

end
