(* ===== verification/UserConfig.thy ===== *)
theory UserConfig
  imports ConfigFile GoFlag Protocol
begin

text \<open>
  \<open>cmd/killswitch-user\<close>: \<open>config.go\<close>, \<open>util.go\<close> and \<open>main.go\<close>. From the command line, the environment and a configuration file to
  the options of the desktop companion. The file is made with defaults when it is missing, and is refused when others can write
  it or own it (\<open>user_config_is_safe\<close>, \<open>user_first_start\<close>).

  \<open>time.ParseDuration\<close> (nanoseconds) and \<open>url.ParseRequestURI\<close> (scheme and host) are parameters.
\<close>

section \<open>Data\<close>

record captivePortalOptions =
  cpo_Env :: "(string, string) fmap"
  cpo_Cmd :: "string list"

record networkCheckConfig =
  ncc_Period :: string
  ncc_URL :: string
  ncc_Status :: int
  ncc_Text :: string
  ncc_Header :: string
  ncc_Timeout :: string
  ncc_Notify :: bool
  ncc_CaptivePortal :: "captivePortalOptions option"

record userConfigFile =
  ucf_SocketPath :: string
  ucf_NotifyInterfaceChanges :: "bool option"
  ucf_NotifyGlobalAllowAll :: "bool option"
  ucf_TrayEnabled :: "bool option"
  ucf_NetworkCheck :: "networkCheckConfig option"

record networkCheckOptions =
  nco_Enabled :: bool
  nco_Period :: int
  nco_URL :: string
  nco_Status :: int
  nco_Text :: string
  nco_Header :: string
  nco_Timeout :: int
  nco_Notify :: bool
  nco_CaptivePortal :: captivePortalOptions

record userOptions =
  uo_ConfigPath :: string
  uo_SocketPath :: string
  uo_NotifyInterfaceChanges :: bool
  uo_NotifyGlobalAllowAll :: bool
  uo_TrayEnabled :: bool
  uo_NetworkCheck :: networkCheckOptions

record golib =
  lib_ParseDuration :: "string \<Rightarrow> int res"
  lib_ParseRequestURI :: "string \<Rightarrow> (string \<times> string) res"

definition no_captivePortal :: captivePortalOptions where
  "no_captivePortal = \<lparr>cpo_Env = fmempty, cpo_Cmd = []\<rparr>"

definition no_networkCheck :: networkCheckOptions where
  "no_networkCheck = \<lparr>nco_Enabled = False, nco_Period = 0, nco_URL = [], nco_Status = 0, nco_Text = [], nco_Header = [], nco_Timeout = 0,
     nco_Notify = False, nco_CaptivePortal = no_captivePortal\<rparr>"

section \<open>The command line\<close>

record userCliOptions =
  uc_ConfigPath :: string
  uc_StartupDelay :: int

definition parseUserArgs :: "golib \<Rightarrow> string list \<Rightarrow> userCliOptions res" where
  "parseUserArgs lib args =
     bindR (flags_Parse
       [(''config'', StringFlag (\<lambda>s v. v\<lparr>uc_ConfigPath := s\<rparr>)), (''c'', StringFlag (\<lambda>s v. v\<lparr>uc_ConfigPath := s\<rparr>)),
        (''delay'', ValueFlag (\<lambda>s v. bindR (lib_ParseDuration lib s) (\<lambda>d. Inr (v\<lparr>uc_StartupDelay := d\<rparr>))))]
       args \<lparr>uc_ConfigPath = [], uc_StartupDelay = 0\<rparr>) (\<lambda>(v, pos).
     bindR (guardR (1 < length pos) (Errf ''expected at most one config path argument, got: %s'' [strings_Join pos '' ''])) (\<lambda>_.
     bindR (guardR (uc_ConfigPath v \<noteq> [] \<and> length pos = 1)
       (Err ''config path must be provided either with -config or as a positional argument, not both'')) (\<lambda>_.
     bindR (guardR (uc_StartupDelay v < 0) (Err ''delay must not be negative'')) (\<lambda>_.
     Inr (if uc_ConfigPath v \<noteq> [] then v else if length pos = 1 then v\<lparr>uc_ConfigPath := pos ! 0\<rparr> else v)))))"

text \<open>The timer or the context, whichever the \<open>select\<close> takes first; the error of the context.\<close>

definition waitStartupDelay :: "int \<Rightarrow> error option \<Rightarrow> error option" where
  "waitStartupDelay delay cancelled = (if delay = 0 then None else cancelled)"

section \<open>Paths\<close>

text \<open>\<open>filepath.Join\<close> and \<open>filepath.Clean\<close>, on the elements of a path.\<close>

fun clean_elems :: "bool \<Rightarrow> string list \<Rightarrow> string list \<Rightarrow> string list" where
  "clean_elems rooted [] out = rev out"
| "clean_elems rooted (e # es) out =
     (if e = [] \<or> e = ''.'' then clean_elems rooted es out
      else if e = ''..'' then
        (if out \<noteq> [] \<and> hd out \<noteq> ''..'' then clean_elems rooted es (tl out)
         else if rooted then clean_elems rooted es out
         else clean_elems rooted es (e # out))
      else clean_elems rooted es (e # out))"

definition filepath_Clean :: "string \<Rightarrow> string" where
  "filepath_Clean path =
     (let rooted = filepath_IsAbs path; p = strings_Join (clean_elems rooted (strings_Split path CHR ''/'') []) ''/'' in
      if rooted then CHR ''/'' # p else if p = [] then ''.'' else p)"

definition filepath_Join :: "string list \<Rightarrow> string" where
  "filepath_Join parts = (let es = filter (\<lambda>e. e \<noteq> []) parts in if es = [] then [] else filepath_Clean (strings_Join es ''/''))"

text \<open>Everything before the last slash, cleaned.\<close>

definition filepath_Dir :: "string \<Rightarrow> string" where
  "filepath_Dir path = filepath_Clean (rev (dropWhile (\<lambda>c. c \<noteq> CHR ''/'') (rev path)))"

definition defaultConfigFileName :: string where
  "defaultConfigFileName = ''killswitch-user.json''"

definition defaultConfigPath :: "(string \<Rightarrow> string) \<Rightarrow> string" where
  "defaultConfigPath getenv =
     (if getenv ''XDG_CONFIG_HOME'' \<noteq> [] then filepath_Join [getenv ''XDG_CONFIG_HOME'', ''killswitch'', defaultConfigFileName]
      else if getenv ''HOME'' \<noteq> [] then filepath_Join [getenv ''HOME'', ''.config'', ''killswitch'', defaultConfigFileName]
      else if getenv ''USER'' \<noteq> [] then filepath_Join [''/home'', getenv ''USER'', ''.config'', ''killswitch'', defaultConfigFileName]
      else [])"

section \<open>Network check options\<close>

definition parseOptionalDuration :: "golib \<Rightarrow> string \<Rightarrow> string \<Rightarrow> int res" where
  "parseOptionalDuration lib field val =
     (let val = strings_TrimSpace val in
      if val = [] then Inr 0
      else bindR (wrapR ''%s'' [field] (lib_ParseDuration lib val)) (\<lambda>duration.
        if duration < 0 then Inl (Errf ''%s must not be negative'' [field]) else Inr duration))"

definition cloneStringMap :: "(string, string) fmap \<Rightarrow> (string, string) fmap" where
  "cloneStringMap values = values"

definition captivePortalOptionsFromConfig :: "captivePortalOptions option \<Rightarrow> captivePortalOptions" where
  "captivePortalOptionsFromConfig cfg = (case cfg of
      None \<Rightarrow> no_captivePortal
    | Some c \<Rightarrow> \<lparr>cpo_Env = cloneStringMap (cpo_Env c), cpo_Cmd = cloneStrings (cpo_Cmd c)\<rparr>)"

definition networkCheckOptionsFromConfig :: "golib \<Rightarrow> networkCheckConfig option \<Rightarrow> networkCheckOptions res" where
  "networkCheckOptionsFromConfig lib cfg = (case cfg of
      None \<Rightarrow> Inr no_networkCheck
    | Some c \<Rightarrow>
        (let checkURL = strings_TrimSpace (ncc_URL c) in
         if checkURL = [] then Inr no_networkCheck
         else
           bindR (wrapR ''network_check.url'' [] (lib_ParseRequestURI lib checkURL)) (\<lambda>(scheme, host).
           bindR (guardR (scheme \<noteq> ''http'' \<and> scheme \<noteq> ''https'') (Errf ''network_check.url: unsupported scheme %q'' [scheme])) (\<lambda>_.
           bindR (guardR (host = []) (Err ''network_check.url: host is required'')) (\<lambda>_.
           bindR (guardR (ncc_Status c < 100 \<or> 599 < ncc_Status c)
             (Errf ''network_check.status must be an HTTP status code, got %d'' [itoa (ncc_Status c)])) (\<lambda>_.
           bindR (parseOptionalDuration lib ''network_check.period'' (ncc_Period c)) (\<lambda>period.
           bindR (parseOptionalDuration lib ''network_check.timeout'' (ncc_Timeout c)) (\<lambda>timeout.
           Inr \<lparr>nco_Enabled = True, nco_Period = period, nco_URL = checkURL, nco_Status = ncc_Status c, nco_Text = ncc_Text c,
             nco_Header = ncc_Header c, nco_Timeout = timeout, nco_Notify = ncc_Notify c,
             nco_CaptivePortal = captivePortalOptionsFromConfig (ncc_CaptivePortal c)\<rparr>))))))))"

section \<open>The configuration file\<close>

definition dec_captivePortalConfig :: "captivePortalOptions decoder" where
  "dec_captivePortalConfig = dec_struct True [
     (''env'', dec_field (dec_map dec_string []) cpo_Env cpo_Env_update), (''cmd'', strs_field cpo_Cmd cpo_Cmd_update)]"

definition zero_networkCheckConfig :: networkCheckConfig where
  "zero_networkCheckConfig = \<lparr>ncc_Period = [], ncc_URL = [], ncc_Status = 0, ncc_Text = [], ncc_Header = [], ncc_Timeout = [],
     ncc_Notify = False, ncc_CaptivePortal = None\<rparr>"

definition dec_networkCheckConfig :: "networkCheckConfig decoder" where
  "dec_networkCheckConfig = dec_struct True [
     (''period'', str_field ncc_Period ncc_Period_update), (''url'', str_field ncc_URL ncc_URL_update),
     (''status'', dec_field dec_int64 ncc_Status ncc_Status_update), (''text'', str_field ncc_Text ncc_Text_update),
     (''header'', str_field ncc_Header ncc_Header_update), (''timeout'', str_field ncc_Timeout ncc_Timeout_update),
     (''notify'', bool_field ncc_Notify ncc_Notify_update),
     (''captive_portal'', dec_field (dec_ptr dec_captivePortalConfig no_captivePortal) ncc_CaptivePortal ncc_CaptivePortal_update)]"

definition zero_userConfigFile :: userConfigFile where
  "zero_userConfigFile = \<lparr>ucf_SocketPath = [], ucf_NotifyInterfaceChanges = None, ucf_NotifyGlobalAllowAll = None, ucf_TrayEnabled = None,
     ucf_NetworkCheck = None\<rparr>"

definition dec_userConfigFile :: "userConfigFile decoder" where
  "dec_userConfigFile = dec_struct True [
     (''socket_path'', str_field ucf_SocketPath ucf_SocketPath_update),
     (''notify_interface_changes'', dec_field (dec_ptr dec_bool False) ucf_NotifyInterfaceChanges ucf_NotifyInterfaceChanges_update),
     (''notify_global_allow_all'', dec_field (dec_ptr dec_bool False) ucf_NotifyGlobalAllowAll ucf_NotifyGlobalAllowAll_update),
     (''tray_enabled'', dec_field (dec_ptr dec_bool False) ucf_TrayEnabled ucf_TrayEnabled_update),
     (''network_check'', dec_field (dec_ptr dec_networkCheckConfig zero_networkCheckConfig) ucf_NetworkCheck ucf_NetworkCheck_update)]"

definition defaultConfig :: userConfigFile where
  "defaultConfig = zero_userConfigFile\<lparr>ucf_SocketPath := defaultAdminAPISocketPath, ucf_NotifyInterfaceChanges := Some True,
     ucf_NotifyGlobalAllowAll := Some True, ucf_TrayEnabled := Some True\<rparr>"

text \<open>\<open>MarshalIndent\<close> with two blanks, of the struct that \<open>defaultConfig\<close> returns: one member on each line.\<close>

definition default_members :: "(string \<times> json) list" where
  "default_members =
     omit ''socket_path'' (ucf_SocketPath defaultConfig = []) (enc_string (ucf_SocketPath defaultConfig)) @
     omit ''notify_interface_changes'' (ucf_NotifyInterfaceChanges defaultConfig = None) (JBool (the (ucf_NotifyInterfaceChanges defaultConfig))) @
     omit ''notify_global_allow_all'' (ucf_NotifyGlobalAllowAll defaultConfig = None) (JBool (the (ucf_NotifyGlobalAllowAll defaultConfig))) @
     omit ''tray_enabled'' (ucf_TrayEnabled defaultConfig = None) (JBool (the (ucf_TrayEnabled defaultConfig)))"

definition indented_member :: "string \<times> json \<Rightarrow> string" where
  "indented_member m = CHR 0x0A # ''  '' @ print_string True (fst m) @ '': '' @ json_text True (snd m)"

definition indented_members :: "(string \<times> json) list \<Rightarrow> string" where
  "indented_members ms = CHR ''{'' # strings_Join (map indented_member ms) '','' @ CHR 0x0A # ''}''"

section \<open>Files\<close>

text \<open>
  The permissions \<open>0o600\<close> and \<open>0o022\<close> are 384 and 18. The files that the program meets, the user it runs as, and the errors of the file system. \<open>MkdirAll\<close> changes no regular file.
\<close>

record userFile =
  uf_IsDir :: bool
  uf_Perm :: u32
  uf_Uid :: u32
  uf_Text :: string

record userFS =
  fs_files :: "string \<Rightarrow> userFile option"
  fs_euid :: u32
  fs_umask :: u32
  fs_statError :: "string \<Rightarrow> error option"
  fs_mkdirError :: "error option"
  fs_writeError :: "error option"
  fs_openError :: "error option"

definition ErrNotExist :: error where
  "ErrNotExist = Lib ''file does not exist''"

definition os_Stat :: "userFS \<Rightarrow> string \<Rightarrow> userFile res" where
  "os_Stat fs path = (case fs_statError fs path of
      Some err \<Rightarrow> Inl err
    | None \<Rightarrow> (case fs_files fs path of None \<Rightarrow> Inl ErrNotExist | Some f \<Rightarrow> Inr f))"

definition ensureConfigFile :: "userFS \<Rightarrow> string \<Rightarrow> error option \<times> userFS" where
  "ensureConfigFile fs path = (case os_Stat fs path of
      Inr _ \<Rightarrow> (None, fs)
    | Inl err \<Rightarrow>
        if \<not> errors_Is err ErrNotExist then (Some (Wrap ''stat config %q'' [path] err), fs)
        else case fs_mkdirError fs of
          Some err \<Rightarrow> (Some (Wrap ''create config directory %q'' [filepath_Dir path] err), fs)
        | None \<Rightarrow>
            (case fs_writeError fs of
               Some err \<Rightarrow> (Some (Wrap ''create default config %q'' [path] err), fs)
             | None \<Rightarrow> (None, fs\<lparr>fs_files := (fs_files fs)(path \<mapsto>
                 \<lparr>uf_IsDir = False, uf_Perm = and 384 (not (fs_umask fs)), uf_Uid = fs_euid fs,
                  uf_Text = indented_members default_members @ [CHR 0x0A]\<rparr>)\<rparr>)))"

definition validateConfigFile :: "userFS \<Rightarrow> string \<Rightarrow> error option" where
  "validateConfigFile fs path = (case os_Stat fs path of
      Inl err \<Rightarrow> Some (Wrap ''stat config %q'' [path] err)
    | Inr info \<Rightarrow>
        if uf_IsDir info then Some (Errf ''config %q is a directory'' [path])
        else if and (uf_Perm info) 18 \<noteq> 0 then Some (Errf ''config %q must not be group- or world-writable'' [path])
        else if uf_Uid info \<noteq> 0 \<and> uf_Uid info \<noteq> fs_euid fs then
          Some (Errf ''config %q must be owned by current user or root, got uid %d'' [path, utoa 10 (unat (uf_Uid info))])
        else None)"

definition readConfigFile :: "userFS \<Rightarrow> string \<Rightarrow> userConfigFile res" where
  "readConfigFile fs path =
     bindR (wrapR ''open config %q'' [path]
       (case fs_openError fs of
          Some err \<Rightarrow> Inl err
        | None \<Rightarrow> (case fs_files fs path of None \<Rightarrow> Inl ErrNotExist | Some f \<Rightarrow> Inr (uf_Text f)))) (\<lambda>text.
     bindR (wrapR ''decode config %q'' [path] (bindR (Decode text) (\<lambda>(js, rest).
       bindR (dec_userConfigFile js zero_userConfigFile) (\<lambda>cfg. Inr (cfg, rest))))) (\<lambda>(cfg, rest).
     bindR (guardR (Decode rest \<noteq> Inl (Lib ''EOF'')) (Errf ''decode config %q: multiple JSON values'' [path])) (\<lambda>_. Inr cfg)))"

definition boolConfigValue :: "bool option \<Rightarrow> bool \<Rightarrow> bool" where
  "boolConfigValue val fallback = (case val of None \<Rightarrow> fallback | Some b \<Rightarrow> b)"

definition user_options :: "golib \<Rightarrow> string \<Rightarrow> userConfigFile \<Rightarrow> userOptions res" where
  "user_options lib path cfg =
     (let socketPath = (if ucf_SocketPath cfg = [] then defaultAdminAPISocketPath else ucf_SocketPath cfg) in
      if \<not> filepath_IsAbs socketPath then Inl (Errf ''socket_path must be absolute, got %q'' [socketPath])
      else bindR (networkCheckOptionsFromConfig lib (ucf_NetworkCheck cfg)) (\<lambda>networkCheck.
        Inr \<lparr>uo_ConfigPath = path, uo_SocketPath = socketPath,
          uo_NotifyInterfaceChanges = boolConfigValue (ucf_NotifyInterfaceChanges cfg) True,
          uo_NotifyGlobalAllowAll = boolConfigValue (ucf_NotifyGlobalAllowAll cfg) True,
          uo_TrayEnabled = boolConfigValue (ucf_TrayEnabled cfg) True, uo_NetworkCheck = networkCheck\<rparr>))"

definition loadUserOptions :: "golib \<Rightarrow> (string \<Rightarrow> string) \<Rightarrow> string \<Rightarrow> userFS \<Rightarrow> userOptions res \<times> userFS" where
  "loadUserOptions lib getenv configPath fs =
     (let path = (if configPath = [] then defaultConfigPath getenv else configPath) in
      if path = [] then (Inl (Err ''resolve default config path: USER or HOME is required when XDG_CONFIG_HOME is unset''), fs)
      else case ensureConfigFile fs path of
        (Some err, fs) \<Rightarrow> (Inl err, fs)
      | (None, fs) \<Rightarrow>
          (case validateConfigFile fs path of
             Some err \<Rightarrow> (Inl err, fs)
           | None \<Rightarrow> (bindR (readConfigFile fs path) (user_options lib path), fs)))"

section \<open>What is accepted\<close>

lemma parseOptionalDuration_nonneg: "parseOptionalDuration lib field v = Inr d \<Longrightarrow> 0 \<le> d"
  by (auto simp: parseOptionalDuration_def bindR_Inr Let_def split: if_splits)

definition networkCheck_ok :: "networkCheckOptions \<Rightarrow> bool" where
  "networkCheck_ok o1 \<longleftrightarrow> (if nco_Enabled o1
     then nco_URL o1 \<noteq> [] \<and> 100 \<le> nco_Status o1 \<and> nco_Status o1 \<le> 599 \<and> 0 \<le> nco_Period o1 \<and> 0 \<le> nco_Timeout o1
     else o1 = no_networkCheck)"

lemma networkCheckOptions_ok: "networkCheckOptionsFromConfig lib cfg = Inr o1 \<Longrightarrow> networkCheck_ok o1"
  by (auto simp: networkCheckOptionsFromConfig_def networkCheck_ok_def no_networkCheck_def bindR_Inr guardR_def Let_def
      split: option.splits if_splits dest: parseOptionalDuration_nonneg)

text \<open>What \<open>validateConfigFile\<close> allows.\<close>

definition trusted_file :: "userFS \<Rightarrow> string \<Rightarrow> bool" where
  "trusted_file fs path \<longleftrightarrow> (case fs_files fs path of
      None \<Rightarrow> False
    | Some f \<Rightarrow> \<not> uf_IsDir f \<and> and (uf_Perm f) 18 = 0 \<and> (uf_Uid f = 0 \<or> uf_Uid f = fs_euid fs))"

lemma validateConfigFile_None: "validateConfigFile fs path = None \<Longrightarrow> trusted_file fs path"
  by (auto simp: validateConfigFile_def trusted_file_def os_Stat_def split: option.splits if_splits)

text \<open>A file that is there, or a directory, is never written.\<close>

lemma ensureConfigFile_keeps:
  "ensureConfigFile fs path = (e, fs') \<Longrightarrow> fs' = fs \<or> fs_files fs path = None \<and> (\<exists>f. fs' = fs\<lparr>fs_files := (fs_files fs)(path \<mapsto> f)\<rparr>)
     \<or> (\<exists>err. fs_statError fs path = Some err \<and> errors_Is err ErrNotExist)"
  by (auto simp: ensureConfigFile_def os_Stat_def split: option.splits if_splits sum.splits)

lemma loadUserOptions_Inr:
  assumes "path = (if configPath = [] then defaultConfigPath getenv else configPath)"
  shows "loadUserOptions lib getenv configPath fs = (Inr opts, fs') \<longleftrightarrow> path \<noteq> [] \<and>
     (\<exists>cfg. ensureConfigFile fs path = (None, fs') \<and> validateConfigFile fs' path = None \<and> readConfigFile fs' path = Inr cfg \<and>
        user_options lib path cfg = Inr opts)"
  by (auto simp: assms loadUserOptions_def Let_def bindR_Inr split: prod.splits option.splits if_splits)


section \<open>The first start\<close>

lemma blanks: "is_ws CHR 0x0A" "is_ws CHR '' ''" "\<not> is_ws CHR ''{''"
  by (simp_all add: is_ws_def)

lemma parse_indented:
  "ms \<noteq> [] \<Longrightarrow> list_all (\<lambda>m. valid_utf8 (fst m) \<and> json_ok d (snd m)) ms \<Longrightarrow> length ms \<le> f \<Longrightarrow>
     parse_members d f (strings_Join (map indented_member ms) '','' @ CHR 0x0A # CHR ''}'' # t) = Some (ms, t)"
proof (induction ms arbitrary: f)
  case (Cons m ms)
  then obtain g where f: "f = Suc g" by (cases f) auto
  have m: "number_end r \<Longrightarrow> parse_value d (json_text True (snd m) @ r) = Some (snd m, r)" for r
    using Cons.prems by (simp add: parse_print)
  have start: "skip_ws (json_text True (snd m) @ r) = json_text True (snd m) @ r" for r
    using Cons.prems by (auto intro: skip_start json_text_start)
  have key: "parse_string (print_chars True (fst m) @ CHR 0x22 # r) = Some (fst m, r)" for r
    using Cons.prems by (simp add: parse_print_chars coerce_valid)
  show ?case
  proof (cases ms)
    case Nil
    then show ?thesis by (simp add: f indented_member_def print_string_def key m start blanks is_dec_def del: parse_value.simps)
  next
    case (Cons m' ms')
    then show ?thesis using Cons.IH [of g] Cons.prems
      by (simp add: f indented_member_def print_string_def key m start blanks is_dec_def del: parse_value.simps)
  qed
qed simp

lemma default_socket: "coerceUTF8 defaultAdminAPISocketPath = defaultAdminAPISocketPath" "valid_utf8 defaultAdminAPISocketPath"
  by (simp_all add: coerce_valid ascii_valid in_range_def defaultAdminAPISocketPath_def del: coerceUTF8.simps)

lemma default_members: "default_members = [(''socket_path'', JStr defaultAdminAPISocketPath), (''notify_interface_changes'', JBool True),
    (''notify_global_allow_all'', JBool True), (''tray_enabled'', JBool True)]"
  by (simp add: default_members_def omit_def defaultConfig_def zero_userConfigFile_def enc_string_def default_socket(1))
    (simp add: defaultAdminAPISocketPath_def)

lemma default_members_ok: "list_all (\<lambda>m. valid_utf8 (fst m) \<and> json_ok 0 (snd m)) default_members"
  by (simp add: default_members ascii_valid in_range_def default_socket)

text \<open>The file that is made on the first start.\<close>

lemma indented_start: "ms \<noteq> [] \<Longrightarrow> take 1 (skip_ws (strings_Join (map indented_member ms) '','' @ r)) = [CHR 0x22]"
  by (cases ms; cases "tl ms") (auto simp: indented_member_def print_string_def blanks)

lemma Decode_default: "Decode (indented_members default_members @ [CHR 0x0A]) = Inr (JObj default_members, [CHR 0x0A])"
proof -
  let ?j = "strings_Join (map indented_member default_members) '',''"
  let ?t = "?j @ CHR 0x0A # CHR ''}'' # [CHR 0x0A]"
  have ms: "default_members \<noteq> []" "length default_members = 4" by (simp_all add: default_members)
  have "length ?t \<ge> 4" by (simp add: default_members indented_member_def)
  moreover have "list_all (\<lambda>m. valid_utf8 (fst m) \<and> json_ok 9999 (snd m)) default_members"
    using default_members_ok by (auto simp: list_all_iff intro: json_ok_mono)
  ultimately have "parse_members 9999 (length ?t) ?t = Some (default_members, [CHR 0x0A])"
    using ms by (intro parse_indented) simp_all
  moreover have "take 1 (skip_ws ?t) \<noteq> ''}''" using indented_start [OF ms(1)] by simp
  ultimately show ?thesis
    by (simp add: Decode_def decode_value_def indented_members_def maxNestingDepth_def blanks del: parse_members.simps)
qed

lemma default_read: "dec_userConfigFile (JObj default_members) zero_userConfigFile = Inr defaultConfig"
  by (simp add: dec_userConfigFile_def default_members defaultConfig_def zero_userConfigFile_def find_field_exact dec_field_def dec_ptr_def)

lemma default_trusted: "and (and 384 (not u)) (18 :: u32) = 0"
  by (simp add: and.assoc and.left_commute)

definition default_options :: "string \<Rightarrow> userOptions" where
  "default_options path = \<lparr>uo_ConfigPath = path, uo_SocketPath = defaultAdminAPISocketPath, uo_NotifyInterfaceChanges = True,
     uo_NotifyGlobalAllowAll = True, uo_TrayEnabled = True, uo_NetworkCheck = no_networkCheck\<rparr>"

lemma default_user_options: "user_options lib path defaultConfig = Inr (default_options path)"
  by (simp add: user_options_def defaultConfig_def zero_userConfigFile_def networkCheckOptionsFromConfig_def boolConfigValue_def
      default_options_def defaultAdminAPISocketPath_def filepath_IsAbs_def)

definition made_file :: "userFS \<Rightarrow> userFile" where
  "made_file fs = \<lparr>uf_IsDir = False, uf_Perm = and 384 (not (fs_umask fs)), uf_Uid = fs_euid fs,
     uf_Text = indented_members default_members @ [CHR 0x0A]\<rparr>"

lemma first_start:
  assumes "path = (if configPath = [] then defaultConfigPath getenv else configPath)" and "path \<noteq> []"
    and "fs_files fs path = None" and "fs_statError fs path = None" and "fs_mkdirError fs = None" and "fs_writeError fs = None"
    and "fs_openError fs = None" and "fs' = fs\<lparr>fs_files := (fs_files fs)(path \<mapsto> made_file fs)\<rparr>"
  shows "loadUserOptions lib getenv configPath fs = (Inr (default_options path), fs')"
    and "loadUserOptions lib getenv configPath fs' = (Inr (default_options path), fs')" and "validateConfigFile fs' path = None"
proof -
  have made: "ensureConfigFile fs path = (None, fs')" "ensureConfigFile fs' path = (None, fs')"
    using assms(3-8) by (simp_all add: ensureConfigFile_def os_Stat_def ErrNotExist_def made_file_def)
  show valid: "validateConfigFile fs' path = None"
    using assms(4,8) by (simp add: validateConfigFile_def os_Stat_def default_trusted made_file_def)
  have "Decode [CHR 0x0A] = Inl (Lib ''EOF'')" by (simp add: Decode_EOF blanks)
  then have "readConfigFile fs' path = Inr defaultConfig"
    using assms(7,8) by (simp add: readConfigFile_def Decode_default default_read made_file_def)
  with made valid show "loadUserOptions lib getenv configPath fs = (Inr (default_options path), fs')"
    and "loadUserOptions lib getenv configPath fs' = (Inr (default_options path), fs')"
    using assms(2) by (simp_all add: loadUserOptions_Inr [OF assms(1)] default_user_options)
qed

text \<open>Where there is no configuration file and the file system lets the user make one, the first start makes it with the default options:
  a regular file of the user that no one else can write, whatever the umask. The next start reads the same options from it and writes nothing.
\<close>

theorem user_first_start:
  assumes "path = (if configPath = [] then defaultConfigPath getenv else configPath)" and "path \<noteq> []"
    and "fs_files fs path = None" and "fs_statError fs path = None" and "fs_mkdirError fs = None" and "fs_writeError fs = None"
    and "fs_openError fs = None"
  shows "\<exists>fs'. loadUserOptions lib getenv configPath fs = (Inr (default_options path), fs') \<and> trusted_file fs' path \<and>
    (\<forall>other. other \<noteq> path \<longrightarrow> fs_files fs' other = fs_files fs other) \<and>
    loadUserOptions lib getenv configPath fs' = (Inr (default_options path), fs')"
  using first_start(1,2) [OF assms refl, where lib = lib] validateConfigFile_None [OF first_start(3) [OF assms refl]]
  by (intro exI [of _ "fs\<lparr>fs_files := (fs_files fs)(path \<mapsto> made_file fs)\<rparr>"]) auto

definition empty_userFS :: userFS where
  "empty_userFS = \<lparr>fs_files = (\<lambda>_. None), fs_euid = 1000, fs_umask = 18, fs_statError = (\<lambda>_. None), fs_mkdirError = None,
     fs_writeError = None, fs_openError = None\<rparr>"

definition home_env :: "string \<Rightarrow> string" where
  "home_env key = (if key = ''HOME'' then ''/home/me/'' else [])"

definition plain_lib :: golib where
  "plain_lib = \<lparr>lib_ParseDuration = (\<lambda>_. Inr 0), lib_ParseRequestURI = (\<lambda>_. Inr (''http'', ''example.org''))\<rparr>"

lemma home_path: "defaultConfigPath home_env = ''/home/me/.config/killswitch/killswitch-user.json''"
  by code_simp

lemma user_first_start_witness:
  "\<exists>fs'. loadUserOptions plain_lib home_env [] empty_userFS = (Inr (default_options ''/home/me/.config/killswitch/killswitch-user.json''), fs')"
  using user_first_start [of "defaultConfigPath home_env" "[]" home_env empty_userFS plain_lib] by (auto simp: home_path empty_userFS_def)


end
