(* ===== verification/NetworkCheck.thy ===== *)
theory NetworkCheck
  imports Notifications Tray UserConfig
begin

text \<open>
  \<open>cmd/killswitch-user/network_check.go\<close>. A worker takes requests from a queue of 10 places, asks a URL through the proxy of the daemon, and
  judges the answer; the session turns the results into notifications and tray states. The command that opens a login page runs with templates.

  Parameters: what each HTTP attempt gives, resolving a redirect (\<open>url.URL.ResolveReference\<close>), rendering a template, temporary directories
  and running a command.
\<close>

section \<open>Data\<close>

record networkCheckResult =
  ncr_Reason :: string
  ncr_Status :: string
  ncr_PortalURL :: string
  ncr_Proxy :: string
  ncr_Detail :: string
  ncr_SocksProxyHost :: string
  ncr_SocksProxyPort :: u16
  ncr_SocksProxyAddr :: string

definition networkCheckStatusInternetAvailable :: string where
  "networkCheckStatusInternetAvailable = ''internet available''"
definition networkCheckStatusNoInternet :: string where
  "networkCheckStatusNoInternet = ''no internet''"
definition networkCheckStatusLoginRequired :: string where
  "networkCheckStatusLoginRequired = ''login required''"

lemmas check_statuses = networkCheckStatusInternetAvailable_def networkCheckStatusNoInternet_def networkCheckStatusLoginRequired_def

definition networkCheckStatusHeader :: string where
  "networkCheckStatusHeader = ''X-NetworkManager-Status''"

definition networkCheckQueueSize :: nat where
  "networkCheckQueueSize = 10"

record networkCheckWatcher =
  nw_opts :: networkCheckOptions
  nw_requests :: "(currentConfig \<times> string) list"
  nw_lastStatus :: string
  nw_haveStatus :: bool
  nw_lastInterfacesSnapshot :: string
  nw_lastCaptivePortal :: "networkCheckResult option"

definition newNetworkCheckWatcher :: "networkCheckOptions \<Rightarrow> networkCheckWatcher" where
  "newNetworkCheckWatcher o1 = \<lparr>nw_opts = o1, nw_requests = [], nw_lastStatus = [], nw_haveStatus = False,
     nw_lastInterfacesSnapshot = [], nw_lastCaptivePortal = None\<rparr>"

section \<open>The queue of checks\<close>

definition interfacesSnapshot :: "currentConfig \<Rightarrow> string" where
  "interfacesSnapshot cfg = json_text True (JObj (
     omit ''interfaces'' (cc_Interfaces cfg = []) (enc_list enc_apiInterface (cc_Interfaces cfg)) @
     omit ''effective_interfaces'' (cc_EffectiveInterfaces cfg = []) (enc_list enc_apiInterfacePolicy (cc_EffectiveInterfaces cfg))))"

definition nw_applyInitial :: "currentConfig \<Rightarrow> networkCheckWatcher \<Rightarrow> networkCheckWatcher" where
  "nw_applyInitial cfg w = w\<lparr>nw_lastInterfacesSnapshot := interfacesSnapshot cfg\<rparr>"

definition nw_check :: "currentConfig \<Rightarrow> string \<Rightarrow> networkCheckWatcher \<Rightarrow> networkCheckWatcher" where
  "nw_check cfg reason w =
     (if \<not> nco_Enabled (nw_opts w) then w
      else if length (nw_requests w) < networkCheckQueueSize then w\<lparr>nw_requests := nw_requests w @ [(cfg, reason)]\<rparr>
      else w)"

definition checkIfInterfacesChanged :: "currentConfig \<Rightarrow> string \<Rightarrow> networkCheckWatcher \<Rightarrow> networkCheckWatcher" where
  "checkIfInterfacesChanged cfg reason w =
     (let snapshot = interfacesSnapshot cfg in
      if snapshot = nw_lastInterfacesSnapshot w then w else nw_check cfg reason (w\<lparr>nw_lastInterfacesSnapshot := snapshot\<rparr>))"

definition checkInterfacesEvent :: "currentConfig \<Rightarrow> networkCheckWatcher \<Rightarrow> networkCheckWatcher" where
  "checkInterfacesEvent cfg w = nw_check cfg ''interfaces'' (w\<lparr>nw_lastInterfacesSnapshot := interfacesSnapshot cfg\<rparr>)"

section \<open>One check\<close>

text \<open>A response: its status, \<open>Header.Get\<close>, the bytes of its body and the error after them.\<close>

record httpResponse =
  hr_StatusCode :: int
  hr_Header :: "string \<Rightarrow> string"
  hr_Body :: string
  hr_BodyError :: "error option"

text \<open>An attempt: building the request fails, sending it fails (with the answer of \<open>net.Error.Timeout\<close>), or a response comes with the URL of its request.\<close>

datatype attempt = BadRequest error | Failed error bool | Response httpResponse string

definition DeadlineExceeded :: error where
  "DeadlineExceeded = Lib ''context deadline exceeded''"

definition isTimeout :: "error \<Rightarrow> bool \<Rightarrow> bool" where
  "isTimeout err netTimeout \<longleftrightarrow> errors_Is err DeadlineExceeded \<or> netTimeout"

fun retry_loop :: "(nat \<Rightarrow> attempt) \<Rightarrow> nat list \<Rightarrow> error \<Rightarrow> (httpResponse \<times> string) res" where
  "retry_loop http [] lastErr = Inl lastErr"
| "retry_loop http (timeout # timeouts) lastErr =
     (case http timeout of
        BadRequest err \<Rightarrow> Inl err
      | Response resp url \<Rightarrow> Inr (resp, url)
      | Failed err netTimeout \<Rightarrow> if isTimeout err netTimeout then retry_loop http timeouts err else Inl err)"

text \<open>The argument of \<open>http\<close> is the timeout of the attempt, in seconds.\<close>

definition DoRequestWithRetries :: "(nat \<Rightarrow> attempt) \<Rightarrow> (httpResponse \<times> string) res" where
  "DoRequestWithRetries http = retry_loop http [1, 2, 10] (Lib [])"

definition read_limited :: "nat \<Rightarrow> httpResponse \<Rightarrow> string res" where
  "read_limited limit resp =
     (if limit \<le> length (hr_Body resp) then Inr (take limit (hr_Body resp))
      else case hr_BodyError resp of Some err \<Rightarrow> Inl err | None \<Rightarrow> Inr (hr_Body resp))"

fun strings_Contains :: "string \<Rightarrow> string \<Rightarrow> bool" where
  "strings_Contains [] sub = (sub = [])"
| "strings_Contains (c # s) sub = (take (length sub) (c # s) = sub \<or> strings_Contains s sub)"

definition networkCheckMatchesExpected :: "networkCheckOptions \<Rightarrow> httpResponse \<Rightarrow> string \<Rightarrow> bool" where
  "networkCheckMatchesExpected o1 resp body \<longleftrightarrow>
     hr_StatusCode resp = nco_Status o1 \<and>
     (nco_Header o1 \<noteq> [] \<longrightarrow> hr_Header resp networkCheckStatusHeader = nco_Header o1) \<and>
     (nco_Text o1 \<noteq> [] \<longrightarrow> strings_Contains body (nco_Text o1))"

text \<open>\<open>resolve base location\<close> is \<open>None\<close> where \<open>url.Parse\<close> refuses the location.\<close>

definition redirectURL :: "(string \<Rightarrow> string \<Rightarrow> string option) \<Rightarrow> httpResponse \<Rightarrow> string \<Rightarrow> string" where
  "redirectURL resolve resp base =
     (let location = hr_Header resp ''Location'' in
      if location = [] then [] else case resolve base location of None \<Rightarrow> location | Some url \<Rightarrow> url)"

definition runNetworkCheck ::
  "(string \<Rightarrow> string \<Rightarrow> string option) \<Rightarrow> (nat \<Rightarrow> attempt) \<Rightarrow> networkCheckOptions \<Rightarrow> currentConfig \<Rightarrow> string \<Rightarrow> networkCheckResult" where
  "runNetworkCheck resolve http o1 cfg reason =
     (let host = asp_Host (cc_SocksProxy cfg); port = asp_Port (cc_SocksProxy cfg);
          proxyAddr = net_JoinHostPort host (utoa 10 (unat port));
          result = \<lparr>ncr_Reason = reason, ncr_Status = networkCheckStatusNoInternet, ncr_PortalURL = [],
            ncr_Proxy = (if asp_Running (cc_SocksProxy cfg) then proxyAddr else ''direct''), ncr_Detail = [],
            ncr_SocksProxyHost = host, ncr_SocksProxyPort = port,
            ncr_SocksProxyAddr = (if host \<noteq> [] \<and> port \<noteq> 0 then ''socks5://'' @ proxyAddr else [])\<rparr> in
      case DoRequestWithRetries http of
        Inl err \<Rightarrow> result\<lparr>ncr_Detail := error_text err\<rparr>
      | Inr (resp, url) \<Rightarrow>
          if 300 \<le> hr_StatusCode resp \<and> hr_StatusCode resp < 400 then
            result\<lparr>ncr_Status := networkCheckStatusLoginRequired, ncr_PortalURL := redirectURL resolve resp url,
              ncr_Detail := Sprintf ''redirect status %d'' [itoa (hr_StatusCode resp)]\<rparr>
          else case read_limited (2 ^ 20) resp of
            Inl err \<Rightarrow> result\<lparr>ncr_Detail := error_text err\<rparr>
          | Inr body \<Rightarrow>
              if networkCheckMatchesExpected o1 resp body then
                result\<lparr>ncr_Status := networkCheckStatusInternetAvailable, ncr_Detail := Sprintf ''matched status %d'' [itoa (hr_StatusCode resp)]\<rparr>
              else
                result\<lparr>ncr_Status := networkCheckStatusLoginRequired,
                  ncr_Detail := ''unexpected status='' @ itoa (hr_StatusCode resp) @ '' header='' @
                    strconv_Quote (hr_Header resp networkCheckStatusHeader) @ '' body_len='' @ utoa 10 (length body)\<rparr>)"

text \<open>The worker: one request from the queue gives one result.\<close>

definition nw_work ::
  "(string \<Rightarrow> string \<Rightarrow> string option) \<Rightarrow> (nat \<Rightarrow> attempt) \<Rightarrow> networkCheckWatcher \<Rightarrow> networkCheckResult option \<times> networkCheckWatcher" where
  "nw_work resolve http w =
     (if \<not> nco_Enabled (nw_opts w) then (None, w)
      else case nw_requests w of
        [] \<Rightarrow> (None, w)
      | (cfg, reason) # rest \<Rightarrow> (Some (runNetworkCheck resolve http (nw_opts w) cfg reason), w\<lparr>nw_requests := rest\<rparr>))"

section \<open>A result\<close>

text \<open>The Go interface \<open>trayController\<close> and its two implementations.\<close>

record 't trayController =
  tr_Update :: "currentConfig \<Rightarrow> 't \<Rightarrow> 't"
  tr_UpdateNetwork :: "networkTrayState \<Rightarrow> 't \<Rightarrow> 't"

definition system_tray :: "systemTray trayController" where
  "system_tray = \<lparr>tr_Update = tray_Update, tr_UpdateNetwork = tray_UpdateNetwork\<rparr>"

definition noopTray :: "unit trayController" where
  "noopTray = \<lparr>tr_Update = (\<lambda>_ t. t), tr_UpdateNetwork = (\<lambda>_ t. t)\<rparr>"

definition networkCheckNotification :: "networkCheckResult \<Rightarrow> notification" where
  "networkCheckNotification result =
     (let available = ncr_Status result = networkCheckStatusInternetAvailable;
          text_ok = (if available then ''internet available'' else ncr_Status result) in
      \<lparr>nt_Level = (if available then ''normal'' else ''warn''),
       nt_Text = (if ncr_PortalURL result \<noteq> [] then Sprintf ''%s: %s'' [text_ok, ncr_PortalURL result] else text_ok),
       nt_Header = ''Network connectivity changed''\<rparr>)"

definition result_tray :: "networkCheckOptions \<Rightarrow> networkCheckResult \<Rightarrow> networkTrayState" where
  "result_tray o1 result = \<lparr>nts_Enabled = True, nts_Checking = False, nts_Status = ncr_Status result, nts_PortalURL = ncr_PortalURL result,
     nts_OpenLoginPage = (ncr_Status result = networkCheckStatusLoginRequired \<and> 0 < length (cpo_Cmd (nco_CaptivePortal o1)))\<rparr>"

text \<open>\<open>finish\<close> without the update of the tray, which is \<open>result_tray\<close>; \<open>opn\<close> makes the closure that opens the login page of a result.\<close>

definition nw_finish ::
  "('n, 'f) notifier_ops \<Rightarrow> (networkCheckResult \<Rightarrow> 'f) \<Rightarrow> networkCheckResult \<Rightarrow> networkCheckWatcher \<times> 'n \<Rightarrow> networkCheckWatcher \<times> 'n" where
  "nw_finish ops opn result = (\<lambda>(w, n).
     let login = ncr_Status result = networkCheckStatusLoginRequired;
         changed = (\<not> nw_haveStatus w \<or> nw_lastStatus w \<noteq> ncr_Status result);
         firstInternet = (\<not> nw_haveStatus w \<and> ncr_Status result = networkCheckStatusInternetAvailable);
         n = (if login then n else snd (op_CloseCaptivePortal ops n)) in
     (w\<lparr>nw_haveStatus := True, nw_lastStatus := ncr_Status result, nw_lastCaptivePortal := (if login then Some result else None)\<rparr>,
      if \<not> nco_Notify (nw_opts w) \<or> \<not> changed \<or> firstInternet then n
      else if login then snd (op_NotifyCaptivePortal ops (networkCheckNotification result) (opn result) n)
      else snd (op_Notify ops (networkCheckNotification result) n)))"

section \<open>Opening a login page\<close>

record captivePortalTemplateData =
  ptd_Tmp :: string
  ptd_ProxyHost :: string
  ptd_ProxyPort :: u16
  ptd_ProxyAddr :: string
  ptd_SouksProxyHost :: string
  ptd_SocksProxyPort :: u16
  ptd_SocksProxyAddr :: string
  ptd_Portal :: string

text \<open>The templates (by name and text), the directories and the command, which gets its arguments and the values added to the environment.\<close>

record portal_env =
  pe_Render :: "string \<Rightarrow> string \<Rightarrow> captivePortalTemplateData \<Rightarrow> string res"
  pe_MkdirTemp :: "string res"
  pe_Abs :: "string \<Rightarrow> string res"
  pe_RemoveAll :: "string \<Rightarrow> error option"
  pe_Run :: "string list \<Rightarrow> string list \<Rightarrow> error option \<times> string"

definition renderCaptivePortalTemplates ::
  "portal_env \<Rightarrow> string \<Rightarrow> string list \<Rightarrow> captivePortalTemplateData \<Rightarrow> string list res" where
  "renderCaptivePortalTemplates env name values data =
     mapR (\<lambda>(i, value). pe_Render env (name @ ''['' @ utoa 10 i @ '']'') value data) (enumerate 0 values)"

definition renderCaptivePortalEnvTemplates ::
  "portal_env \<Rightarrow> (string, string) fmap \<Rightarrow> captivePortalTemplateData \<Rightarrow> string list res" where
  "renderCaptivePortalEnvTemplates env vars data =
     mapR (\<lambda>key. bindR (pe_Render env (''env.'' @ key) (the (fmlookup vars key)) data) (\<lambda>value. Inr (key @ ''='' @ value)))
       (sorted_list_of_fset (fmdom vars))"

definition command_error :: "string \<Rightarrow> error \<Rightarrow> notification" where
  "command_error action err = \<lparr>nt_Level = ''error'', nt_Text = Sprintf ''%s: %s'' [action, error_text err], nt_Header = ''Captive portal command failed''\<rparr>"

text \<open>The deferred removal sees the last value of \<open>tmp\<close>, which is empty when \<open>filepath.Abs\<close> fails.\<close>

definition remove_dir :: "portal_env \<Rightarrow> string \<Rightarrow> notification list" where
  "remove_dir env tmp = (case pe_RemoveAll env tmp of None \<Rightarrow> [] | Some err \<Rightarrow> [command_error ''remove temp dir'' err])"

text \<open>The command that runs, if any, and the errors that are reported, in order.\<close>

definition executeCaptivePortalCommand ::
  "portal_env \<Rightarrow> captivePortalOptions \<Rightarrow> networkCheckResult \<Rightarrow> (string list \<times> string list) option \<times> notification list" where
  "executeCaptivePortalCommand env o1 result =
     (if length (cpo_Cmd o1) = 0 then (None, [])
      else case pe_MkdirTemp env of
        Inl err \<Rightarrow> (None, [command_error ''create temp dir'' err])
      | Inr tmp \<Rightarrow>
          (case pe_Abs env tmp of
             Inl err \<Rightarrow> (None, command_error ''resolve temp dir'' err # remove_dir env [])
           | Inr tmp \<Rightarrow>
               (let removed = remove_dir env tmp;
                    data = \<lparr>ptd_Tmp = tmp, ptd_ProxyHost = ncr_SocksProxyHost result, ptd_ProxyPort = ncr_SocksProxyPort result,
                      ptd_ProxyAddr = ncr_SocksProxyAddr result, ptd_SouksProxyHost = [], ptd_SocksProxyPort = ncr_SocksProxyPort result,
                      ptd_SocksProxyAddr = ncr_SocksProxyAddr result,
                      ptd_Portal = (if ncr_PortalURL result = [] then ''http://example.com'' else ncr_PortalURL result)\<rparr> in
                case renderCaptivePortalTemplates env ''cmd'' (cpo_Cmd o1) data of
                  Inl err \<Rightarrow> (None, command_error ''render command'' err # removed)
                | Inr cmdArgs \<Rightarrow>
                    (case renderCaptivePortalEnvTemplates env (cpo_Env o1) data of
                       Inl err \<Rightarrow> (None, command_error ''render env'' err # removed)
                     | Inr envOverrides \<Rightarrow>
                         (case pe_Run env cmdArgs envOverrides of
                            (None, _) \<Rightarrow> (Some (cmdArgs, envOverrides), removed)
                          | (Some err, output) \<Rightarrow>
                              (let detail = strings_TrimSpace output;
                                   err = (if detail \<noteq> [] then Errf ''%s: %s'' [error_text err, detail] else err) in
                               (Some (cmdArgs, envOverrides), command_error ''execute command'' err # removed)))))))"

definition openCaptivePortal ::
  "portal_env \<Rightarrow> networkCheckWatcher \<Rightarrow> networkCheckResult \<Rightarrow> (string list \<times> string list) option \<times> notification list" where
  "openCaptivePortal env w result = executeCaptivePortalCommand env (nco_CaptivePortal (nw_opts w)) result"

definition openLastCaptivePortal :: "portal_env \<Rightarrow> networkCheckWatcher \<Rightarrow> (string list \<times> string list) option \<times> notification list" where
  "openLastCaptivePortal env w = (case nw_lastCaptivePortal w of None \<Rightarrow> (None, []) | Some result \<Rightarrow> openCaptivePortal env w result)"

section \<open>What a check finds\<close>

definition timed_out :: "attempt \<Rightarrow> bool" where
  "timed_out a = (case a of Failed err b \<Rightarrow> isTimeout err b | _ \<Rightarrow> False)"

text \<open>The response of the first attempt that does not time out.\<close>

definition answered_by :: "(nat \<Rightarrow> attempt) \<Rightarrow> nat list \<Rightarrow> httpResponse \<Rightarrow> string \<Rightarrow> bool" where
  "answered_by http timeouts resp url \<longleftrightarrow>
     (\<exists>before t after. timeouts = before @ t # after \<and> (\<forall>s \<in> set before. timed_out (http s)) \<and> http t = Response resp url)"

lemma answered_by_Cons:
  "answered_by http (t # ts) resp url \<longleftrightarrow> http t = Response resp url \<or> timed_out (http t) \<and> answered_by http ts resp url"
proof -
  have "http t = Response resp url \<or> timed_out (http t) \<and> answered_by http ts resp url" if ans: "answered_by http (t # ts) resp url"
  proof -
    from ans obtain before t' after where "t # ts = before @ t' # after" "\<forall>s \<in> set before. timed_out (http s)" "http t' = Response resp url"
      unfolding answered_by_def by blast
    then show ?thesis by (cases before) (auto simp: answered_by_def)
  qed
  moreover have "http t = Response resp url \<Longrightarrow> answered_by http (t # ts) resp url"
    by (auto simp: answered_by_def intro: exI [of _ "[]"])
  moreover have "timed_out (http t) \<Longrightarrow> answered_by http ts resp url \<Longrightarrow> answered_by http (t # ts) resp url"
    by (auto simp: answered_by_def) (metis append_Cons set_ConsD)
  ultimately show ?thesis by blast
qed

lemma retry_answered: "retry_loop http ts err = Inr (resp, url) \<longleftrightarrow> answered_by http ts resp url"
proof (induction http ts err rule: retry_loop.induct)
  case (1 http err)
  then show ?case by (simp add: answered_by_def)
next
  case (2 http t ts err)
  then show ?case by (cases "http t") (auto simp: answered_by_Cons timed_out_def)
qed

lemma requests_answered: "DoRequestWithRetries http = Inr (resp, url) \<longleftrightarrow> answered_by http [1, 2, 10] resp url"
  by (simp only: DoRequestWithRetries_def retry_answered)

text \<open>C38: a check says that the internet is available exactly when the first attempt that does not time out (of three, after 1, 2 and 10
  seconds) gives a response that is no redirect, can be read and is as expected; it says that there is none exactly when no attempt gives a
  response or its body cannot be read. With an expected status from 300 to 399, which the configuration allows, the internet is never available.\<close>

theorem network_check_verdict:
  assumes "r = runNetworkCheck resolve http o1 cfg reason"
  shows "(ncr_Status r = networkCheckStatusInternetAvailable \<longleftrightarrow>
      (\<exists>resp url body. answered_by http [1, 2, 10] resp url \<and> \<not> (300 \<le> hr_StatusCode resp \<and> hr_StatusCode resp < 400) \<and>
         read_limited (2 ^ 20) resp = Inr body \<and> networkCheckMatchesExpected o1 resp body)) \<and>
    (ncr_Status r = networkCheckStatusNoInternet \<longleftrightarrow>
      (\<forall>resp url. answered_by http [1, 2, 10] resp url \<longrightarrow>
         \<not> (300 \<le> hr_StatusCode resp \<and> hr_StatusCode resp < 400) \<and> (\<exists>err. read_limited (2 ^ 20) resp = Inl err))) \<and>
    (300 \<le> nco_Status o1 \<and> nco_Status o1 < 400 \<longrightarrow> ncr_Status r \<noteq> networkCheckStatusInternetAvailable)"
proof (cases "DoRequestWithRetries http")
  case (Inl err)
  then have "\<not> answered_by http [1, 2, 10] resp url" for resp url
    by (simp add: requests_answered [symmetric] del: One_nat_def)
  with Inl show ?thesis by (simp add: assms runNetworkCheck_def Let_def check_statuses del: One_nat_def)
next
  case (Inr x)
  obtain resp url where x: "x = (resp, url)" by fastforce
  then have one: "answered_by http [1, 2, 10] resp' url' \<longleftrightarrow> resp' = resp \<and> url' = url" for resp' url'
    using Inr by (auto simp: requests_answered [symmetric] simp del: One_nat_def)
  show ?thesis
    by (cases "read_limited (2 ^ 20) resp")
      (auto simp: assms runNetworkCheck_def Let_def Inr x one check_statuses networkCheckMatchesExpected_def simp del: One_nat_def)
qed

lemma network_check_verdict_witness:
  "ncr_Status (runNetworkCheck (\<lambda>_ _. None) (\<lambda>_. Response \<lparr>hr_StatusCode = 301, hr_Header = (\<lambda>_. []), hr_Body = [], hr_BodyError = None\<rparr> [])
     (no_networkCheck\<lparr>nco_Enabled := True, nco_Status := 301\<rparr>) zero_currentConfig ''start'') \<noteq> networkCheckStatusInternetAvailable"
  by (rule network_check_verdict [where ?o1.0 = "no_networkCheck\<lparr>nco_Enabled := True, nco_Status := 301\<rparr>", OF refl, THEN conjunct2, THEN conjunct2, rule_format]) simp

section \<open>The notification of a login page\<close>

definition login :: "networkCheckResult \<Rightarrow> bool" where
  "login r \<longleftrightarrow> ncr_Status r = networkCheckStatusLoginRequired"

definition nw_finishes :: "('n, 'f) notifier_ops \<Rightarrow> (networkCheckResult \<Rightarrow> 'f) \<Rightarrow> networkCheckResult list \<Rightarrow> networkCheckWatcher \<times> 'n \<Rightarrow> networkCheckWatcher \<times> 'n" where
  "nw_finishes ops opn = fold (nw_finish ops opn)"

text \<open>The first result of the last block of results that require a login.\<close>

definition portal_of :: "networkCheckResult list \<Rightarrow> networkCheckResult option" where
  "portal_of rs = (case takeWhile login (rev rs) of [] \<Rightarrow> None | r # block \<Rightarrow> Some (last (r # block)))"

lemma portal_of_snoc: "portal_of (rs @ [r]) = (if login r then (case portal_of rs of None \<Rightarrow> Some r | Some p \<Rightarrow> Some p) else None)"
  by (simp add: portal_of_def split: list.split)

context notifier
begin

lemma nw_finish:
  assumes "good n" and "nco_Notify (nw_opts w)" and "nw_finish ops opn r (w, n) = (w', n')"
  shows "good n' \<and> (sure n' \<longrightarrow> sure n \<and> portal n' = (if login r
       then (if nw_haveStatus w \<and> nw_lastStatus w = networkCheckStatusLoginRequired then portal n else Some (opn r)) else None)) \<and>
    w' = w\<lparr>nw_haveStatus := True, nw_lastStatus := ncr_Status r, nw_lastCaptivePortal := (if login r then Some r else None)\<rparr>"
proof -
  obtain e1 n1 where 1: "op_CloseCaptivePortal ops n = (e1, n1)" by fastforce
  obtain e2 n2 where 2: "op_Notify ops (networkCheckNotification r) n1 = (e2, n2)" by fastforce
  obtain e3 n3 where 3: "op_NotifyCaptivePortal ops (networkCheckNotification r) (opn r) n = (e3, n3)" by fastforce
  show ?thesis
  proof (cases "login r")
    case True
    moreover have "networkCheckStatusLoginRequired \<noteq> networkCheckStatusInternetAvailable" by (simp add: check_statuses)
    ultimately show ?thesis using assms 3 NotifyCaptivePortal [OF assms(1) 3] by (auto simp: nw_finish_def login_def Let_def split: if_splits)
  next
    case False
    have "good n1" using CloseCaptivePortal [OF assms(1) 1] by blast
    from False show ?thesis using assms 1 2 CloseCaptivePortal [OF assms(1) 1] Notify [OF \<open>good n1\<close> 2]
      by (auto simp: nw_finish_def login_def Let_def split: if_splits)
  qed
qed

lemma nw_finishes:
  assumes "good n" and "nco_Notify (nw_opts w)" and "\<not> nw_haveStatus w" and "nw_finishes ops opn rs (w, n) = (w', n')" and "rs \<noteq> []"
  shows "good n' \<and> (sure n' \<longrightarrow> sure n \<and> portal n' = map_option opn (portal_of rs)) \<and> nco_Notify (nw_opts w') \<and> nw_haveStatus w' \<and>
    nw_lastStatus w' = ncr_Status (last rs) \<and> nw_lastCaptivePortal w' = (if login (last rs) then Some (last rs) else None)"
  using assms(4,5)
proof (induction rs arbitrary: w' n' rule: rev_induct)
  case (snoc r rs)
  obtain w1 n1 where 1: "nw_finishes ops opn rs (w, n) = (w1, n1)" by fastforce
  then have r: "nw_finish ops opn r (w1, n1) = (w', n')" using snoc.prems(1) by (simp add: nw_finishes_def)
  show ?case
  proof (cases "rs = []")
    case True
    then have "w1 = w" "n1 = n" using 1 by (simp_all add: nw_finishes_def)
    then show ?thesis using True nw_finish [OF _ _ r] assms(1-3) by (simp add: portal_of_def)
  next
    case False
    note IH = snoc.IH [OF 1 False]
    have "portal_of rs = None \<longleftrightarrow> \<not> login (last rs)"
      using False by (cases rs rule: rev_cases) (auto simp: portal_of_snoc split: option.split)
    then show ?thesis using IH nw_finish [OF _ _ r]
      by (cases "portal_of rs") (auto simp: portal_of_snoc login_def [of "last rs"])
  qed
qed simp

end

text \<open>with notifications on, and when no call of the notification server fails, the notification of a login page is on the screen exactly
  when the last result requires a login. Its action opens the page of the first result since the state changed; the entry of the tray opens
  that of the last result, so that the two differ when the address changes meanwhile.\<close>

theorem login_page_notification:
  assumes "dn_good bus n" and "nco_Notify o1" and "rs \<noteq> []"
    and "nw_finishes (desktop_ops bus) opn rs (newNetworkCheckWatcher o1, n) = (w', n')" and "answered bus (dn_calls n')"
  shows "dn_portal bus n' = map_option opn (portal_of rs) \<and> (dn_portal bus n' \<noteq> None \<longleftrightarrow> login (last rs)) \<and>
    nw_lastCaptivePortal w' = (if login (last rs) then Some (last rs) else None)"
proof -
  have "portal_of rs = None \<longleftrightarrow> \<not> login (last rs)"
    using assms(3) by (cases rs rule: rev_cases) (auto simp: portal_of_snoc split: option.split)
  then show ?thesis
    using dn.nw_finishes [OF assms(1) _ _ assms(4,3)] assms(2,5) by (auto simp: newNetworkCheckWatcher_def dn_sure_def)
qed

definition example_result :: networkCheckResult where
  "example_result = \<lparr>ncr_Reason = ''start'', ncr_Status = networkCheckStatusLoginRequired, ncr_PortalURL = ''http://portal'', ncr_Proxy = ''direct'',
     ncr_Detail = [], ncr_SocksProxyHost = [], ncr_SocksProxyPort = 0, ncr_SocksProxyAddr = []\<rparr>"

lemma login_page_notification_witness:
  "\<exists>w' n'. nw_finishes (desktop_ops example_bus) id [example_result] (newNetworkCheckWatcher (no_networkCheck\<lparr>nco_Notify := True\<rparr>), newDesktopNotifier)
     = (w', n') \<and> dn_portal example_bus n' = Some example_result"
proof -
  let ?o = "no_networkCheck\<lparr>nco_Notify := True\<rparr>"
  obtain w' n' where 1: "nw_finishes (desktop_ops example_bus) id [example_result] (newNetworkCheckWatcher ?o, newDesktopNotifier) = (w', n')" by fastforce
  have l: "login example_result" by (simp add: login_def example_result_def)
  have "answered example_bus (dn_calls n')"
    using 1 by (auto simp: nw_finishes_def nw_finish_def newNetworkCheckWatcher_def example_result_def check_statuses Let_def desktop_ops_def
        dn_NotifyCaptivePortal_def send_note_def newDesktopNotifier_def openDBusNotifierLocked_def bus_do_def example_bus_def portal_note_def)
  from login_page_notification [OF _ _ _ 1 this] l 1 show ?thesis by (simp add: portal_of_def new_good [OF example_bus_ok])
qed

end
