(* ===== verification/UserRuntime.thy ===== *)
theory UserRuntime
  imports NetworkCheck
begin

text \<open>
  \<open>cmd/killswitch-user/runtime.go\<close>. \<open>run\<close> connects to the daemon again and again with a growing delay; a session is a loop that takes one of
  its channels at a time. What the channels deliver, and in which order, is the list of events of the session.
\<close>

section \<open>Reconnecting\<close>

text \<open>A \<open>time.Duration\<close> is a signed 64-bit number of nanoseconds.\<close>

definition adminReconnectInitialBackoff :: u64 where
  "adminReconnectInitialBackoff = 200 * 1000000"

definition adminReconnectMaxBackoff :: u64 where
  "adminReconnectMaxBackoff = 10 * 1000000000"

definition nextAdminReconnectBackoff :: "u64 \<Rightarrow> u64" where
  "nextAdminReconnectBackoff backoff =
     (let backoff = backoff * 2 in
      if sint adminReconnectMaxBackoff < sint backoff then adminReconnectMaxBackoff else backoff)"

definition net_ErrClosed :: error where
  "net_ErrClosed = Lib ''use of closed network connection''"

definition isReconnectableAdminError :: "error option \<Rightarrow> bool" where
  "isReconnectableAdminError err = (case err of
      None \<Rightarrow> False
    | Some e \<Rightarrow>
        IsEOF e \<or> errors_Is e net_ErrClosed \<or>
        strings_Contains (error_text e) ''connection reset by peer'' \<or>
        strings_Contains (error_text e) ''broken pipe'' \<or>
        strings_Contains (error_text e) ''use of closed network connection'')"

text \<open>
  One round of the loop of \<open>run\<close>: dialling fails, or a session ends with the result of \<open>runConnectedClient\<close>; then whether the context is
  done, and whether the sleep that follows reaches its end.
\<close>

record round =
  rd_Session :: "error + error option"
  rd_Cancelled :: bool
  rd_Slept :: bool

text \<open>The delays that were begun, and the result when \<open>run\<close> returns; \<open>None\<close> where the rounds are used up and it goes on.\<close>

fun run_loop :: "round list \<Rightarrow> u64 \<Rightarrow> u64 list \<times> error option option" where
  "run_loop [] backoff = ([], None)"
| "run_loop (r # rounds) backoff =
     (let backoff = (case rd_Session r of Inl _ \<Rightarrow> backoff | Inr _ \<Rightarrow> adminReconnectInitialBackoff) in
      if rd_Cancelled r then ([], Some None)
      else case rd_Session r of
        Inr err \<Rightarrow>
          (if \<not> isReconnectableAdminError err then ([], Some err)
           else if \<not> rd_Slept r then ([backoff], Some None)
           else apfst (Cons backoff) (run_loop rounds (nextAdminReconnectBackoff backoff)))
      | Inl _ \<Rightarrow>
          (if \<not> rd_Slept r then ([backoff], Some None)
           else apfst (Cons backoff) (run_loop rounds (nextAdminReconnectBackoff backoff))))"

definition user_run :: "('n, 'f) notifier_ops \<Rightarrow> round list \<Rightarrow> 'n \<Rightarrow> u64 list \<times> error option option \<times> 'n" where
  "user_run ops rounds n =
     (case run_loop rounds adminReconnectInitialBackoff of (delays, r) \<Rightarrow> (delays, r, if r = None then n else snd (op_Close ops n)))"

section \<open>A session\<close>

text \<open>The closures of the notifications of the session with the given number.\<close>

datatype closure = DisableAllowAll nat | OpenPortal nat networkCheckResult

definition disable_request :: mutationRequest where
  "disable_request = zero_mutationRequest\<lparr>mr_Operation := ''set'', mr_Target := ''base_policy.allow_all'', mr_Value := Some (JBool False)\<rparr>"

definition disableGlobalAllowAll :: "error option \<Rightarrow> json res" where
  "disableGlobalAllowAll write = client_Send write (MutationRequest disable_request)"

text \<open>The requests that were handed to the client, and the results whose login page was opened, are kept in lists.\<close>

record ('n, 't) session =
  ss_number :: nat
  ss_watcher :: "closure configNotificationWatcher"
  ss_checks :: networkCheckWatcher
  ss_notifier :: 'n
  ss_tray :: 't
  ss_latest :: currentConfig
  ss_sent :: "mutationRequest list"
  ss_opened :: "networkCheckResult list"

datatype session_event =
    DisableRequested | CommandFromTray trayCommand | MutationDone mutationResult | CheckDone networkCheckResult | Tick
  | EventFromDaemon eventMessage

definition start_session ::
  "('n, closure) notifier_ops \<Rightarrow> 't trayController \<Rightarrow> userOptions \<Rightarrow> nat \<Rightarrow> currentConfig \<Rightarrow> 'n \<Rightarrow> 't \<Rightarrow> ('n, 't) session" where
  "start_session ops tray opts k cfg n t =
     (let w = cw_applyInitial cfg (new_configWatcher (uo_NotifyInterfaceChanges opts) (uo_NotifyGlobalAllowAll opts) (DisableAllowAll k));
          (w, n) = updateGlobalAllowAll ops cfg (w, n);
          t = tr_Update tray cfg t;
          t = (if nco_Enabled (uo_NetworkCheck opts)
               then tr_UpdateNetwork tray (no_network\<lparr>nts_Enabled := True, nts_Checking := True\<rparr>) t else t) in
      \<lparr>ss_number = k, ss_watcher = w, ss_checks = nw_check cfg ''start'' (nw_applyInitial cfg (newNetworkCheckWatcher (uo_NetworkCheck opts))),
       ss_notifier = n, ss_tray = t, ss_latest = cfg, ss_sent = [], ss_opened = []\<rparr>)"

definition see_config ::
  "('n, closure) notifier_ops \<Rightarrow> 't trayController \<Rightarrow> currentConfig \<Rightarrow> string \<Rightarrow> ('n, 't) session \<Rightarrow> ('n, 't) session" where
  "see_config ops tray cfg reason s =
     (let (w, n) = cw_update ops cfg (ss_watcher s, ss_notifier s) in
      s\<lparr>ss_watcher := w, ss_notifier := n, ss_tray := tr_Update tray cfg (ss_tray s), ss_latest := cfg,
        ss_checks := checkIfInterfacesChanged cfg reason (ss_checks s)\<rparr>)"

definition see_event ::
  "('n, closure) notifier_ops \<Rightarrow> 't trayController \<Rightarrow> eventMessage \<Rightarrow> ('n, 't) session \<Rightarrow> ('n, 't) session" where
  "see_event ops tray event s =
     (if ev_EventType event = ''notification'' then s\<lparr>ss_notifier := snd (op_Notify ops (ev_Notification event) (ss_notifier s))\<rparr>
      else if ev_EventType event = ''config'' then see_config ops tray (ev_Config event) ''config'' s
      else if ev_EventType event = ''interfaces'' \<or> ev_EventType event = ''clients'' then
        s\<lparr>ss_tray := tr_Update tray (ev_Config event) (ss_tray s), ss_latest := ev_Config event,
          ss_checks := (if ev_EventType event = ''interfaces'' then checkInterfacesEvent (ev_Config event) (ss_checks s) else ss_checks s)\<rparr>
      else s)"

fun session_step :: "('n, closure) notifier_ops \<Rightarrow> 't trayController \<Rightarrow> session_event \<Rightarrow> ('n, 't) session \<Rightarrow> ('n, 't) session" where
  "session_step ops tray DisableRequested s = s\<lparr>ss_sent := ss_sent s @ [disable_request]\<rparr>"
| "session_step ops tray (CommandFromTray cmd) s =
     (if tc_Kind cmd = trayCommandOpenCaptivePortal then
        (case nw_lastCaptivePortal (ss_checks s) of
           None \<Rightarrow> s
         | Some result \<Rightarrow> if length (cpo_Cmd (nco_CaptivePortal (nw_opts (ss_checks s)))) = 0 then s else s\<lparr>ss_opened := ss_opened s @ [result]\<rparr>)
      else case tray_request cmd of Inr (Some req) \<Rightarrow> s\<lparr>ss_sent := ss_sent s @ [req]\<rparr> | _ \<Rightarrow> s)"
| "session_step ops tray (MutationDone result) s = (if \<not> mres_OK result then s else see_config ops tray (mres_Config result) ''mutation'' s)"
| "session_step ops tray (CheckDone result) s =
     (let (w, n) = nw_finish ops (OpenPortal (ss_number s)) result (ss_checks s, ss_notifier s) in
      s\<lparr>ss_checks := w, ss_notifier := n, ss_tray := tr_UpdateNetwork tray (result_tray (nw_opts (ss_checks s)) result) (ss_tray s)\<rparr>)"
| "session_step ops tray Tick s = s\<lparr>ss_checks := nw_check (ss_latest s) ''periodic'' (ss_checks s)\<rparr>"
| "session_step ops tray (EventFromDaemon event) s = see_event ops tray event s"

text \<open>The beginning of \<open>runConnectedClient\<close>: what is written, and the first configuration, or the result.\<close>

definition begin_session :: "error option \<Rightarrow> error option \<Rightarrow> bool \<Rightarrow> connection \<Rightarrow> (error option + currentConfig \<times> connection) option" where
  "begin_session writeSubscribe writeConfig cancelled conn =
     (case Subscribe writeSubscribe [''config'', ''interfaces'', ''clients'', ''notification''] of
        Inl err \<Rightarrow> Some (Inl (Some err))
      | Inr _ \<Rightarrow>
          (case RequestConfig writeConfig of
             Inl err \<Rightarrow> Some (Inl (Some err))
           | Inr _ \<Rightarrow>
               (case WaitForConfig conn of
                  None \<Rightarrow> None
                | Some (Inl err, _) \<Rightarrow> Some (Inl (if cancelled then None else Some err))
                | Some (Inr cfg, rest) \<Rightarrow> Some (Inr (cfg, rest)))))"

text \<open>The goroutine that receives: the events of what is left of the connection, and the error that ends them.\<close>

fun receive_events :: "connection \<Rightarrow> session_event list \<times> error option" where
  "receive_events [] = ([], None)"
| "receive_events (next # conn) =
     (case ReadMessage next of
        Inl err \<Rightarrow> ([], Some err)
      | Inr (EventMessage event) \<Rightarrow> apfst (Cons (EventFromDaemon event)) (receive_events conn)
      | Inr (MutationResult r) \<Rightarrow> apfst (Cons (MutationDone r)) (receive_events conn)
      | Inr _ \<Rightarrow> receive_events conn)"

definition run_session ::
  "('n, closure) notifier_ops \<Rightarrow> 't trayController \<Rightarrow> userOptions \<Rightarrow> nat \<Rightarrow> currentConfig \<Rightarrow> session_event list \<Rightarrow> 'n \<Rightarrow> 't \<Rightarrow> ('n, 't) session" where
  "run_session ops tray opts k cfg events n t = fold (session_step ops tray) events (start_session ops tray opts k cfg n t)"

section \<open>Delays\<close>

lemma sint_small:
  fixes w :: u64
  assumes "uint w < 2 ^ 63"
  shows "sint w = uint w"
proof -
  have "0 \<le> uint w" by simp
  then have "- (2 ^ 63) \<le> uint w" by (rule order_trans [rotated]) simp
  from signed_take_bit_int_eq_self [OF this assms] show ?thesis by (simp add: sint_uint)
qed

lemma backoffs: "uint adminReconnectInitialBackoff = 200000000" "uint adminReconnectMaxBackoff = 10000000000"
  by (simp_all add: adminReconnectInitialBackoff_def adminReconnectMaxBackoff_def)

lemma next_backoff:
  assumes "uint b \<le> 10000000000"
  shows "uint (nextAdminReconnectBackoff b) = min (2 * uint b) 10000000000"
proof -
  have "uint (b * 2) = 2 * uint b" using assms by (simp add: uint_word_ariths take_bit_int_eq_self)
  moreover then have "sint (b * 2) = 2 * uint b" using assms by (simp add: sint_small)
  moreover have "sint adminReconnectMaxBackoff = 10000000000" by (simp add: sint_small backoffs)
  ultimately show ?thesis by (simp add: nextAdminReconnectBackoff_def Let_def backoffs min_def)
qed

lemma delays_in_range:
  assumes "200000000 \<le> uint b" and "uint b \<le> 10000000000" and "d \<in> set (fst (run_loop rounds b))"
  shows "200000000 \<le> uint d \<and> uint d \<le> 10000000000"
  using assms
proof (induction rounds b rule: run_loop.induct)
  case (2 r rounds b)
  have init: "200000000 \<le> uint adminReconnectInitialBackoff" "uint adminReconnectInitialBackoff \<le> 10000000000" by (simp_all add: backoffs)
  have nxt: "200000000 \<le> uint (nextAdminReconnectBackoff x)" "uint (nextAdminReconnectBackoff x) \<le> 10000000000"
    if "200000000 \<le> uint x" "uint x \<le> 10000000000" for x
    using next_backoff [OF that(2)] that(1) by simp_all
  show ?case using 2 init nxt [OF 2(3,4)] nxt [OF init] by (auto simp: Let_def split: if_splits sum.splits)
qed simp

definition dial_failed :: round where
  "dial_failed = \<lparr>rd_Session = Inl (Lib ''connection refused''), rd_Cancelled = False, rd_Slept = True\<rparr>"

definition closed_at_once :: round where
  "closed_at_once = \<lparr>rd_Session = Inr (Some EOF), rd_Cancelled = False, rd_Slept = True\<rparr>"

lemma failing_delays:
  "uint b \<le> 10000000000 \<Longrightarrow> map uint (fst (run_loop (replicate n dial_failed) b)) = map (\<lambda>k. min (uint b * 2 ^ k) 10000000000) [0..<n]"
proof (induction n arbitrary: b)
  case (Suc n)
  have "uint (nextAdminReconnectBackoff b) \<le> 10000000000" using next_backoff [OF Suc.prems] by simp
  from Suc.IH [OF this] have "map uint (fst (run_loop (replicate n dial_failed) (nextAdminReconnectBackoff b))) =
      map (\<lambda>k. min (uint b * 2 ^ Suc k) 10000000000) [0..<n]"
    using next_backoff [OF Suc.prems] by (auto simp: min_def intro!: map_cong) (smt (verit) one_le_power mult_le_cancel_left1)+
  then show ?case using Suc.prems by (simp add: dial_failed_def map_upt_Suc del: upt_Suc)
qed simp

lemma closing_delays: "fst (run_loop (replicate n closed_at_once) b) = replicate n adminReconnectInitialBackoff"
  by (induction n arbitrary: b) (simp_all add: closed_at_once_def isReconnectableAdminError_def IsEOF_def EOF_def Let_def)

text \<open>C39: the delays between the attempts to connect are from 0.2 s to 10 s, without a wrap-around of the 64-bit duration, whatever happens.
  While dialling fails they double up to the bound. A daemon that accepts every connection and closes it is tried again every 0.2 s.\<close>

theorem reconnect_delays:
  "(d \<in> set (fst (run_loop rounds adminReconnectInitialBackoff)) \<longrightarrow> 200000000 \<le> uint d \<and> uint d \<le> 10000000000) \<and>
   map uint (fst (run_loop (replicate n dial_failed) adminReconnectInitialBackoff)) = map (\<lambda>k. min (200000000 * 2 ^ k) 10000000000) [0..<n] \<and>
   fst (run_loop (replicate n closed_at_once) adminReconnectInitialBackoff) = replicate n adminReconnectInitialBackoff"
  using delays_in_range [of adminReconnectInitialBackoff d rounds] failing_delays [of adminReconnectInitialBackoff n]
    closing_delays [of n adminReconnectInitialBackoff] by (simp add: backoffs)

lemma reconnect_delays_witness: "200000000 \<le> uint adminReconnectInitialBackoff"
  using reconnect_delays [of adminReconnectInitialBackoff "[dial_failed]" 1] by (simp add: dial_failed_def)

text \<open>A round after which \<open>run\<close> goes on.\<close>

definition goes_on :: "round \<Rightarrow> bool" where
  "goes_on r \<longleftrightarrow> \<not> rd_Cancelled r \<and> rd_Slept r \<and> (case rd_Session r of Inl _ \<Rightarrow> True | Inr err \<Rightarrow> isReconnectableAdminError err)"

definition round_result :: "round \<Rightarrow> error option" where
  "round_result r = (if rd_Cancelled r then None
     else case rd_Session r of Inl _ \<Rightarrow> None | Inr err \<Rightarrow> if isReconnectableAdminError err then None else err)"

text \<open>C40: \<open>run\<close> returns exactly when the context is done or a session ends with an error that is not about the connection, and then it
  closes the notifier; it returns that error, and nil when the context is done. No number of failed attempts to connect ends it.\<close>

theorem run_returns:
  "user_run ops rounds n = (delays, r, n') \<longrightarrow>
     (r = None \<longleftrightarrow> list_all goes_on rounds) \<and>
     (\<forall>before rd after. rounds = before @ rd # after \<and> list_all goes_on before \<and> \<not> goes_on rd \<longrightarrow>
        r = Some (round_result rd) \<and> n' = snd (op_Close ops n))"
proof -
  have all: "snd (run_loop rounds b) = None \<longleftrightarrow> list_all goes_on rounds" for b
    by (induction rounds b rule: run_loop.induct) (auto simp: goes_on_def Let_def split: sum.splits if_splits)
  have first: "snd (run_loop (before @ rd # after) b) = Some (round_result rd)" if "list_all goes_on before" "\<not> goes_on rd" for before rd after b
    using that
  proof (induction before arbitrary: b)
    case Nil
    then show ?case by (auto simp: goes_on_def round_result_def Let_def split: sum.splits if_splits)
  next
    case (Cons x before)
    then show ?case by (auto simp: goes_on_def Let_def split: sum.splits if_splits)
  qed
  show ?thesis
  proof (intro impI)
    assume run: "user_run ops rounds n = (delays, r, n')"
    have r: "r = snd (run_loop rounds adminReconnectInitialBackoff)" and n': "n' = (if r = None then n else snd (op_Close ops n))"
      using run by (auto simp: user_run_def split: prod.splits)
    show "(r = None \<longleftrightarrow> list_all goes_on rounds) \<and>
      (\<forall>before rd after. rounds = before @ rd # after \<and> list_all goes_on before \<and> \<not> goes_on rd \<longrightarrow>
        r = Some (round_result rd) \<and> n' = snd (op_Close ops n))"
      using all first n' unfolding r by auto
  qed
qed

lemma run_returns_witness:
  "\<exists>delays n'. user_run (recorder :: (notification list, nat) notifier_ops) [dial_failed, dial_failed\<lparr>rd_Cancelled := True\<rparr>] [] = (delays, Some None, n')"
proof -
  obtain delays r n' where 1: "user_run (recorder :: (notification list, nat) notifier_ops) [dial_failed, dial_failed\<lparr>rd_Cancelled := True\<rparr>] [] = (delays, r, n')" by (metis prod_cases3)
  have "goes_on dial_failed" "\<not> goes_on (dial_failed\<lparr>rd_Cancelled := True\<rparr>)" "round_result (dial_failed\<lparr>rd_Cancelled := True\<rparr>) = None"
    by (simp_all add: goes_on_def round_result_def dial_failed_def)
  moreover have "[dial_failed, dial_failed\<lparr>rd_Cancelled := True\<rparr>] = [dial_failed] @ dial_failed\<lparr>rd_Cancelled := True\<rparr> # []" by simp
  ultimately have "r = Some None" using run_returns [rule_format, OF 1] by (metis list.pred_inject)
  with 1 show ?thesis by blast
qed

section \<open>What a session keeps\<close>

text \<open>The last configuration an event brought, and the last one the watcher of notifications was given.\<close>

fun config_of :: "session_event \<Rightarrow> currentConfig option" where
  "config_of (MutationDone result) = (if mres_OK result then Some (mres_Config result) else None)"
| "config_of (EventFromDaemon event) = (if ev_EventType event \<in> {''config'', ''interfaces'', ''clients''} then Some (ev_Config event) else None)"
| "config_of _ = None"

fun watched_of :: "session_event \<Rightarrow> currentConfig option" where
  "watched_of (MutationDone result) = (if mres_OK result then Some (mres_Config result) else None)"
| "watched_of (EventFromDaemon event) = (if ev_EventType event = ''config'' then Some (ev_Config event) else None)"
| "watched_of _ = None"

definition last_config :: "(session_event \<Rightarrow> currentConfig option) \<Rightarrow> currentConfig \<Rightarrow> session_event list \<Rightarrow> currentConfig" where
  "last_config f cfg events = fold (\<lambda>e c. case f e of None \<Rightarrow> c | Some c' \<Rightarrow> c') events cfg"

lemma last_config_simps [simp]: "last_config f cfg [] = cfg"
  "last_config f cfg (events @ [e]) = (case f e of None \<Rightarrow> last_config f cfg events | Some c \<Rightarrow> c)"
  by (simp_all add: last_config_def split: option.split)

definition follows :: "systemTray \<Rightarrow> currentConfig \<Rightarrow> bool" where
  "follows t cfg \<longleftrightarrow> tray_inv t \<and> (\<exists>net. st_last t = Some ((trayStateFromConfig cfg)\<lparr>ts_Network := net\<rparr>))"

lemma put_state_last [simp]: "st_last (then_apply (put_state state t)) = Some state"
  by (simp add: then_apply_def put_state_eq)

lemma tray_Update_follows: "tray_inv t \<Longrightarrow> follows (tray_Update cfg t) cfg"
proof -
  assume inv: "tray_inv t"
  have net: "trayStateFromConfig cfg = (trayStateFromConfig cfg)\<lparr>ts_Network := no_network\<rparr>" by (simp add: trayStateFromConfig_def Let_def)
  have "\<exists>net. st_last (tray_Update cfg t) = Some ((trayStateFromConfig cfg)\<lparr>ts_Network := net\<rparr>)"
    using net by (cases "st_last t") (auto simp: tray_Update_def Update_first_def Let_def)
  then show ?thesis using tray_do_inv [OF inv, of "OpUpdate cfg"] by (simp add: follows_def)
qed

lemma tray_UpdateNetwork_follows: "follows t cfg \<Longrightarrow> follows (tray_UpdateNetwork net t) cfg"
  using tray_do_inv [of t "OpNetwork net"] by (auto simp: follows_def tray_UpdateNetwork_def UpdateNetwork_first_def)

text \<open>The notification of allow_all, as the watcher believes it to be.\<close>

definition allow_all_ok :: "bus \<Rightarrow> nat \<Rightarrow> closure configNotificationWatcher \<Rightarrow> closure desktopNotifier \<Rightarrow> currentConfig \<Rightarrow> bool" where
  "allow_all_ok bus k w n cfg \<longleftrightarrow> dn_good bus n \<and> cw_notifyGlobalAllowAll w \<and> cw_disableAllowAll w = DisableAllowAll k \<and>
     cw_allowAllShown w = allows_all cfg \<and>
     (dn_sure bus n \<longrightarrow> dn_allow_all bus n = (if allows_all cfg then Some (DisableAllowAll k) else None))"

lemma cw_update_ok: "allow_all_ok bus k w n cfg \<Longrightarrow> cw_update (desktop_ops bus) cfg' (w, n) = (w', n') \<Longrightarrow> allow_all_ok bus k w' n' cfg'"
  using dn.cw_update [of bus n w None cfg' w' n'] by (auto simp: allow_all_ok_def allows_all_def)

lemma desktop_notify_ok: "allow_all_ok bus k w n cfg \<Longrightarrow> allow_all_ok bus k w (snd (op_Notify (desktop_ops bus) x n)) cfg"
  using dn.Notify [of bus n x] by (cases "op_Notify (desktop_ops bus) x n") (auto simp: allow_all_ok_def)

lemma nw_finish_ok:
  assumes "allow_all_ok bus k w n cfg" and "nw_finish (desktop_ops bus) opn r (v, n) = (v', n')"
  shows "allow_all_ok bus k w n' cfg"
proof -
  obtain e1 n1 where 1: "op_CloseCaptivePortal (desktop_ops bus) n = (e1, n1)" by fastforce
  have close: "allow_all_ok bus k w n1 cfg" using dn.CloseCaptivePortal [OF _ 1] assms(1) by (auto simp: allow_all_ok_def)
  have portal: "allow_all_ok bus k w (snd (op_NotifyCaptivePortal (desktop_ops bus) x f n)) cfg" for x f
    using dn.NotifyCaptivePortal [of bus n x f] assms(1) by (cases "op_NotifyCaptivePortal (desktop_ops bus) x f n") (auto simp: allow_all_ok_def)
  show ?thesis using assms 1 close portal desktop_notify_ok [OF close] by (auto simp: nw_finish_def Let_def split: if_splits)
qed

definition session_ok :: "bus \<Rightarrow> (closure desktopNotifier, systemTray) session \<Rightarrow> currentConfig \<Rightarrow> currentConfig \<Rightarrow> bool" where
  "session_ok bus s cfg watched \<longleftrightarrow> ss_latest s = cfg \<and> follows (ss_tray s) cfg \<and>
     length (nw_requests (ss_checks s)) \<le> networkCheckQueueSize \<and> allow_all_ok bus (ss_number s) (ss_watcher s) (ss_notifier s) watched"

lemma queue_bound: "length (nw_requests w) \<le> networkCheckQueueSize \<Longrightarrow> length (nw_requests (nw_check cfg reason w)) \<le> networkCheckQueueSize"
  by (simp add: nw_check_def)

lemma see_config_ok:
  assumes "session_ok bus s cfg watched"
  shows "session_ok bus (see_config (desktop_ops bus) system_tray cfg' reason s) cfg' cfg'"
proof -
  obtain w n where u: "cw_update (desktop_ops bus) cfg' (ss_watcher s, ss_notifier s) = (w, n)" by fastforce
  show ?thesis
    using assms u cw_update_ok [OF _ u] tray_Update_follows
    by (auto simp: session_ok_def see_config_def system_tray_def checkIfInterfacesChanged_def Let_def follows_def queue_bound)
qed

lemma session_step_ok:
  assumes "session_ok bus s cfg watched"
  shows "session_ok bus (session_step (desktop_ops bus) system_tray e s)
    (case config_of e of None \<Rightarrow> cfg | Some c \<Rightarrow> c) (case watched_of e of None \<Rightarrow> watched | Some c \<Rightarrow> c)"
proof (cases e)
  case (CheckDone r)
  obtain w n where f: "nw_finish (desktop_ops bus) (OpenPortal (ss_number s)) r (ss_checks s, ss_notifier s) = (w, n)" by fastforce
  have "nw_requests w = nw_requests (ss_checks s)" using f by (auto simp: nw_finish_def Let_def)
  with assms f nw_finish_ok [OF _ f] show ?thesis
    by (auto simp: CheckDone session_ok_def system_tray_def tray_UpdateNetwork_follows)
next
  case (EventFromDaemon event)
  then show ?thesis
    using assms see_config_ok [OF assms] tray_Update_follows
    by (auto simp: see_event_def session_ok_def system_tray_def desktop_notify_ok checkInterfacesEvent_def queue_bound follows_def)
next
  case (MutationDone r)
  then show ?thesis using assms see_config_ok [OF assms] by auto
qed (use assms in \<open>auto simp: session_ok_def queue_bound split: option.split sum.split\<close>)

lemma start_session_ok:
  assumes "bus_ok bus" and "uo_NotifyGlobalAllowAll opts" and "tray_inv t"
  shows "session_ok bus (start_session (desktop_ops bus) system_tray opts k cfg newDesktopNotifier t) cfg cfg"
proof -
  let ?w = "cw_applyInitial cfg (new_configWatcher (uo_NotifyInterfaceChanges opts) (uo_NotifyGlobalAllowAll opts) (DisableAllowAll k))"
  obtain w n where u: "updateGlobalAllowAll (desktop_ops bus) cfg (?w, newDesktopNotifier) = (w, n)" by fastforce
  have "allow_all_ok bus k w n cfg"
    using dn.updateGlobalAllowAll [of bus newDesktopNotifier ?w None cfg w n] u assms(2)
    by (auto simp: allow_all_ok_def new_good [OF assms(1)] cw_applyInitial_def new_configWatcher_def allows_all_def)
  then show ?thesis
    using u tray_Update_follows [OF assms(3)] tray_UpdateNetwork_follows
    by (auto simp: start_session_def session_ok_def Let_def system_tray_def queue_bound newNetworkCheckWatcher_def nw_applyInitial_def)
qed


definition example_userOptions :: userOptions where
  "example_userOptions = \<lparr>uo_ConfigPath = [], uo_SocketPath = [], uo_NotifyInterfaceChanges = True, uo_NotifyGlobalAllowAll = True,
     uo_TrayEnabled = True, uo_NetworkCheck = no_networkCheck\<rparr>"


end
